(* ===== verification/Prelude.thy ===== *)
theory Prelude
  imports
    Complex_Main
    "HOL-Library.Word"
    "HOL-Library.Multiset"
    "HOL-Library.Char_ord"
    "HOL-Library.List_Lexorder"
    "HOL-Library.Product_Lexorder"
begin

text \<open>
  The runtime the components share: Go's clock and durations, its fixed-width integers, the one
  float operation the back-off uses, byte strings, and the generic list lemmas behind the
  SQL statements (filtered, ordered and limited row lists).

  A Go \<open>time.Time\<close> is the number of nanoseconds since Go's zero time (year 1, UTC), so
  \<open>IsZero\<close> is equality with 0; a \<open>time.Duration\<close> is a number of nanoseconds.
  A Go string is a byte list (\<open>string\<close>); a pointer that may be nil is an \<open>option\<close>;
  a returned \<open>(value, error)\<close> pair is a sum with the error on the left.
\<close>

section \<open>Collections of facts\<close>

named_theorems go_time \<open>definitions of the clock and duration operations\<close>
named_theorems go_str \<open>definitions of the string and pattern predicates\<close>
named_theorems sql_simps \<open>rewriting of row-list operations\<close>

section \<open>Time\<close>

type_synonym time = int
type_synonym duration = int

abbreviation Microsecond :: duration where "Microsecond \<equiv> 1000"
abbreviation Millisecond :: duration where "Millisecond \<equiv> 1000000"
abbreviation Second :: duration where "Second \<equiv> 1000000000"
abbreviation Minute :: duration where "Minute \<equiv> 60000000000"
abbreviation Hour :: duration where "Hour \<equiv> 3600000000000"

definition IsZero :: "time \<Rightarrow> bool" where
  [go_time]: "IsZero t \<longleftrightarrow> t = 0"

text \<open>Two's complement wrap-around of Go's \<open>int64\<close> (and of \<open>int\<close> on a 64-bit target).\<close>

definition wrap64 :: "int \<Rightarrow> int" where
  "wrap64 x = (x + 2 ^ 63) mod 2 ^ 64 - 2 ^ 63"

abbreviation maxDuration :: duration where "maxDuration \<equiv> 2 ^ 63 - 1"
abbreviation minDuration :: duration where "minDuration \<equiv> - (2 ^ 63)"

lemma wrap64_id: "minDuration \<le> x \<Longrightarrow> x \<le> maxDuration \<Longrightarrow> wrap64 x = x"
  by (simp add: wrap64_def)

lemma wrap64_bounds: "minDuration \<le> wrap64 x" "wrap64 x \<le> maxDuration"
  by (auto simp: wrap64_def)

text \<open>\<open>Time.Sub\<close> saturates at the largest and the smallest duration.\<close>

definition time_sub :: "time \<Rightarrow> time \<Rightarrow> duration" where
  [go_time]: "time_sub a b = max minDuration (min maxDuration (a - b))"

lemma time_sub_exact: "minDuration \<le> a - b \<Longrightarrow> a - b \<le> maxDuration \<Longrightarrow> time_sub a b = a - b"
  by (simp add: time_sub_def)

lemma time_sub_ge_iff: "minDuration < d \<Longrightarrow> d \<le> maxDuration \<Longrightarrow> d \<le> time_sub a b \<longleftrightarrow> d \<le> a - b"
  by (auto simp: time_sub_def)

text \<open>\<open>Time.Truncate\<close> rounds down to a multiple since the zero time.\<close>

definition time_truncate :: "time \<Rightarrow> duration \<Rightarrow> time" where
  [go_time]: "time_truncate t d = (if d \<le> 0 then t else t - t mod d)"

lemma time_truncate_le: "time_truncate t d \<le> t"
  by (simp add: time_truncate_def)

lemma time_truncate_idem [simp]: "time_truncate (time_truncate t d) d = time_truncate t d"
  by (simp add: time_truncate_def minus_mod_eq_mult_div)

section \<open>Floating point\<close>

text \<open>
  A \<open>float64\<close> as the source can see it. The one rounding operation the source uses is the
  product of a fraction in [0, 1] with an integral \<open>float64\<close> below \<open>2 ^ 53\<close>;
  \<open>round53\<close> is IEEE-754 round-to-nearest-even for a non-negative value below \<open>2 ^ 53\<close>:
  the value is scaled by the largest power of two (at most \<open>2 ^ 1074\<close>, which is where
  subnormals end) that keeps it below \<open>2 ^ 53\<close>, rounded to an integer, and scaled back.
\<close>

datatype float64 = NaN | NegInf | PosInf | Fin rat

fun shift53 :: "nat \<Rightarrow> rat \<Rightarrow> nat" where
  "shift53 0 x = 0"
| "shift53 (Suc k) x = (if 2 * x < 2 ^ 53 then Suc (shift53 k (2 * x)) else 0)"

definition round_even :: "rat \<Rightarrow> int" where
  "round_even x =
     (let f = \<lfloor>x\<rfloor>; r = x - of_int f
      in if r < 1 / 2 then f else if r > 1 / 2 then f + 1 else if even f then f else f + 1)"

definition round53 :: "rat \<Rightarrow> rat" where
  "round53 x = (let k = shift53 1074 x in of_int (round_even (x * 2 ^ k)) / 2 ^ k)"

lemma round_even_mono_int: "x \<le> of_int n \<Longrightarrow> round_even x \<le> n"
proof -
  assume le: "x \<le> of_int n"
  then have f: "\<lfloor>x\<rfloor> \<le> n" by linarith
  show ?thesis
  proof (cases "\<lfloor>x\<rfloor> = n")
    case True
    with le have "x - of_int \<lfloor>x\<rfloor> \<le> 0" by simp
    then show ?thesis using True by (simp add: round_even_def)
  next
    case False
    with f show ?thesis by (simp add: round_even_def Let_def)
  qed
qed

lemma round_even_nonneg: "0 \<le> x \<Longrightarrow> 0 \<le> round_even x"
proof -
  assume "0 \<le> x"
  then have "0 \<le> \<lfloor>x\<rfloor>" by simp
  then show ?thesis by (simp add: round_even_def Let_def)
qed

lemma round53_le_int:
  assumes "x \<le> of_int n"
  shows "round53 x \<le> of_int n"
proof -
  define k where "k = shift53 1074 x"
  have "x * 2 ^ k \<le> of_int (n * 2 ^ k)"
    using assms by (simp add: mult_right_mono)
  then have "round_even (x * 2 ^ k) \<le> n * 2 ^ k"
    by (rule round_even_mono_int)
  then have "(of_int (round_even (x * 2 ^ k)) :: rat) \<le> of_int (n * 2 ^ k)"
    by (simp only: of_int_le_iff)
  then show ?thesis
    by (simp add: round53_def Let_def k_def [symmetric] divide_le_eq)
qed

lemma round53_nonneg: "0 \<le> x \<Longrightarrow> 0 \<le> round53 x"
  by (simp add: round53_def Let_def round_even_nonneg)

section \<open>Byte strings and patterns\<close>

definition is_digit :: "char \<Rightarrow> bool" where
  [go_str]: "is_digit c \<longleftrightarrow> CHR ''0'' \<le> c \<and> c \<le> CHR ''9''"

definition is_lower :: "char \<Rightarrow> bool" where
  [go_str]: "is_lower c \<longleftrightarrow> CHR ''a'' \<le> c \<and> c \<le> CHR ''z''"

definition is_upper :: "char \<Rightarrow> bool" where
  [go_str]: "is_upper c \<longleftrightarrow> CHR ''A'' \<le> c \<and> c \<le> CHR ''Z''"

definition is_slug_char :: "char \<Rightarrow> bool" where
  [go_str]: "is_slug_char c \<longleftrightarrow> is_lower c \<or> is_digit c \<or> c = CHR ''_''"

text \<open>The pattern \<^verbatim>\<open>^[a-z0-9][a-z0-9_]{0,n}$\<close>, the slug rule of names, channels and app ids.\<close>

fun slug :: "nat \<Rightarrow> string \<Rightarrow> bool" where
  "slug n [] = False"
| "slug n (c # cs) = ((is_lower c \<or> is_digit c) \<and> length cs \<le> n \<and> list_all is_slug_char cs)"

lemma slug_length: "slug n s \<Longrightarrow> 1 \<le> length s \<and> length s \<le> Suc n"
  by (cases s) auto

lemma slug_chars: "slug n s \<Longrightarrow> c \<in> set s \<Longrightarrow> is_slug_char c"
  by (cases s) (auto simp: is_slug_char_def list_all_iff)

lemma slug_mono: "slug n s \<Longrightarrow> n \<le> m \<Longrightarrow> slug m s"
  by (cases s) auto

lemma slug_nonempty [simp]: "slug n [] \<longleftrightarrow> False"
  by simp

text \<open>Decimal rendering of an integer, as \<^verbatim>\<open>fmt.Sprintf("%d", n)\<close> prints it.\<close>

definition dec_digit :: "nat \<Rightarrow> char" where
  "dec_digit n = char_of (48 + n)"

fun dec_nat :: "nat \<Rightarrow> string" where
  "dec_nat n = (if n < 10 then [dec_digit n] else dec_nat (n div 10) @ [dec_digit (n mod 10)])"

declare dec_nat.simps [simp del]

definition dec_int :: "int \<Rightarrow> string" where
  "dec_int i = (if i < 0 then CHR ''-'' # dec_nat (nat (- i)) else dec_nat (nat i))"

text \<open>\<^verbatim>\<open>strings.Join\<close> and \<^verbatim>\<open>strings.Split\<close> at one byte.\<close>

fun join_with :: "string \<Rightarrow> string list \<Rightarrow> string" where
  "join_with sep [] = []"
| "join_with sep [s] = s"
| "join_with sep (s # ss) = s @ sep @ join_with sep ss"

fun split_on :: "char \<Rightarrow> string \<Rightarrow> string list" where
  "split_on sep [] = [[]]"
| "split_on sep (c # cs) =
     (if c = sep then [] # split_on sep cs
      else case split_on sep cs of x # xs \<Rightarrow> (c # x) # xs | [] \<Rightarrow> [[c]])"

lemma split_on_none: "sep \<notin> set s \<Longrightarrow> split_on sep s = [s]"
  by (induction s) auto

lemma split_on_first: "sep \<notin> set s \<Longrightarrow> split_on sep (s @ sep # rest) = s # split_on sep rest"
  by (induction s) auto

lemma split_join: "ss \<noteq> [] \<Longrightarrow> \<forall>s \<in> set ss. sep \<notin> set s \<Longrightarrow> split_on sep (join_with [sep] ss) = ss"
  by (induction "[sep]" ss rule: join_with.induct) (auto simp: split_on_none split_on_first)

section \<open>Row lists\<close>

text \<open>
  A table is the list of its rows. \<open>order_limit\<close> is the \<open>ORDER BY key LIMIT n\<close> of a
  query over the rows it selects.
\<close>

definition order_limit :: "('a \<Rightarrow> 'k::linorder) \<Rightarrow> nat \<Rightarrow> 'a list \<Rightarrow> 'a list" where
  "order_limit key n rows = take n (sort_key key rows)"

lemma set_order_limit: "set (order_limit key n rows) \<subseteq> set rows"
  unfolding order_limit_def by (metis set_sort set_take_subset)

lemma length_order_limit [simp]: "length (order_limit key n rows) = min (length rows) n"
  by (simp add: order_limit_def)

lemma order_limit_all: "length rows \<le> n \<Longrightarrow> set (order_limit key n rows) = set rows"
  by (simp add: order_limit_def)

lemma sorted_order_limit: "sorted (map key (order_limit key n rows))"
  unfolding order_limit_def by (metis sorted_sort_key sorted_wrt_take take_map)

lemma distinct_order_limit: "distinct (map f rows) \<Longrightarrow> distinct (map f (order_limit key n rows))"
proof -
  assume "distinct (map f rows)"
  moreover have "mset (map f (sort_key key rows)) = mset (map f rows)" by simp
  ultimately have "distinct (map f (sort_key key rows))"
    by (metis mset_eq_imp_distinct_iff)
  then show ?thesis by (simp add: order_limit_def take_map [symmetric] distinct_take)
qed

text \<open>Every row left out has a key at least as large as every row taken.\<close>

lemma order_limit_least:
  assumes "x \<in> set rows" "x \<notin> set (order_limit key n rows)" "y \<in> set (order_limit key n rows)"
  shows "key y \<le> key x"
proof -
  let ?s = "sort_key key rows"
  have "sorted (map key (take n ?s @ drop n ?s))" by simp
  then have "\<forall>a \<in> set (take n ?s). \<forall>b \<in> set (drop n ?s). key a \<le> key b"
    by (simp only: map_append sorted_append) auto
  moreover have "x \<in> set (drop n ?s)"
    using assms(1,2) by (metis UnE append_take_drop_id order_limit_def set_append set_sort)
  ultimately show ?thesis
    using assms(3) by (simp add: order_limit_def)
qed

lemma order_limit_first: "order_limit key n rows = x # rest \<Longrightarrow> y \<in> set rows \<Longrightarrow> key x \<le> key y"
proof -
  assume x: "order_limit key n rows = x # rest" and y: "y \<in> set rows"
  show "key x \<le> key y"
  proof (cases "y \<in> set (order_limit key n rows)")
    case True
    with x sorted_order_limit [of key n rows] show ?thesis by auto
  next
    case False
    with order_limit_least [OF y False] x show ?thesis by simp
  qed
qed

text \<open>An \<open>UPDATE ... WHERE p\<close> rewrites the rows that satisfy \<open>p\<close> in place.\<close>

definition update_where :: "('a \<Rightarrow> bool) \<Rightarrow> ('a \<Rightarrow> 'a) \<Rightarrow> 'a list \<Rightarrow> 'a list" where
  "update_where p f rows = map (\<lambda>r. if p r then f r else r) rows"

lemma length_update_where [simp]: "length (update_where p f rows) = length rows"
  by (simp add: update_where_def)

lemma map_update_where [sql_simps]:
  "(\<And>r. p r \<Longrightarrow> k (f r) = k r) \<Longrightarrow> map k (update_where p f rows) = map k rows"
  by (simp add: update_where_def)

lemma in_update_where:
  "x \<in> set (update_where p f rows) \<longleftrightarrow> (\<exists>r \<in> set rows. x = (if p r then f r else r))"
  by (auto simp: update_where_def)

lemma update_whereE:
  assumes "x \<in> set (update_where p f rows)"
  obtains (updated) r where "r \<in> set rows" "p r" "x = f r"
  | (kept) "x \<in> set rows" "\<not> p x"
  using assms by (auto simp: update_where_def split: if_splits)

lemma filter_update_where [sql_simps]:
  "(\<And>r. p r \<Longrightarrow> q (f r) = q r) \<Longrightarrow> filter q (update_where p f rows) = update_where p f (filter q rows)"
  by (induction rows) (auto simp: update_where_def)

lemma find_Some_in: "find p rows = Some r \<Longrightarrow> r \<in> set rows \<and> p r"
  by (auto simp: find_Some_iff)

lemma distinct_map_inj:
  "distinct (map f rows) \<Longrightarrow> x \<in> set rows \<Longrightarrow> y \<in> set rows \<Longrightarrow> f x = f y \<Longrightarrow> x = y"
  by (simp add: distinct_map inj_on_def)

lemma find_unique:
  "distinct (map k rows) \<Longrightarrow> r \<in> set rows \<Longrightarrow> k r = v \<Longrightarrow> find (\<lambda>x. k x = v) rows = Some r"
  by (induction rows) (auto simp: image_iff)

lemma filter_unique:
  "distinct (map k rows) \<Longrightarrow> r \<in> set rows \<Longrightarrow> k r = v \<Longrightarrow> filter (\<lambda>x. k x = v) rows = [r]"
proof (induction rows)
  case (Cons a rows)
  show ?case
  proof (cases "k a = v")
    case True
    with Cons.prems have "a = r" "filter (\<lambda>x. k x = v) rows = []"
      by (auto simp: filter_empty_conv image_iff)
    with True show ?thesis by simp
  next
    case False
    with Cons show ?thesis by auto
  qed
qed simp

lemma distinct_map_filter_sub: "distinct (map f rows) \<Longrightarrow> distinct (map f (filter p rows))"
  by (induction rows) auto

end
