(* ===== verification/Env_Int.thy ===== *)
theory Env_Int
  imports Prelude
begin

text \<open>
  Bounded integer settings (\<^verbatim>\<open>delivery-api/internal/envint/envint.go\<close>), with the part of
  \<^verbatim>\<open>strconv.Atoi\<close> they rely on.
\<close>

section \<open>Parsing\<close>

text \<open>\<^verbatim>\<open>strconv.Atoi\<close> on a 64-bit target: an optional sign and decimal digits, in range.\<close>

fun digits_value :: "int \<Rightarrow> string \<Rightarrow> int option" where
  "digits_value acc [] = Some acc"
| "digits_value acc (c # cs) =
     (if is_digit c then digits_value (acc * 10 + (of_char c - 48)) cs else None)"

fun signed_body :: "string \<Rightarrow> bool \<times> string" where
  "signed_body [] = (False, [])"
| "signed_body (c # cs) = (if c = CHR ''-'' then (True, cs) else if c = CHR ''+'' then (False, cs) else (False, c # cs))"

definition Atoi :: "string \<Rightarrow> int option" where
  "Atoi s =
     (case signed_body s of (neg, body) \<Rightarrow>
        if body = [] then None
        else case digits_value 0 body of
               None \<Rightarrow> None
             | Some n \<Rightarrow> (let v = (if neg then - n else n)
                          in if minDuration \<le> v \<and> v \<le> maxDuration then Some v else None))"

definition Bounded :: "(string \<Rightarrow> string) \<Rightarrow> string \<Rightarrow> int \<Rightarrow> int \<Rightarrow> string + int" where
  "Bounded getenv name fallback limit =
     (let raw = getenv name
      in if raw = [] then Inr fallback
         else case Atoi raw of
                None \<Rightarrow> Inl (''invalid '' @ name)
              | Some v \<Rightarrow> if v < 1 \<or> v > limit then Inl (''invalid '' @ name) else Inr v)"

section \<open>Facts\<close>

lemma Bounded_range:
  "Bounded getenv name fallback limit = Inr v \<Longrightarrow> v = fallback \<and> getenv name = [] \<or> 1 \<le> v \<and> v \<le> limit"
  by (auto simp: Bounded_def Let_def split: if_splits option.splits)

lemma digits_value_append:
  "digits_value acc (xs @ [c]) =
     (case digits_value acc xs of None \<Rightarrow> None
      | Some v \<Rightarrow> if is_digit c then Some (v * 10 + (of_char c - 48)) else None)"
  by (induction xs arbitrary: acc) auto

lemma dec_digit_ok:
  assumes "n < 10"
  shows "is_digit (dec_digit n)" "of_char (dec_digit n) = (48 + int n)"
proof -
  have v: "(of_char (dec_digit n) :: nat) = 48 + n" using assms by (simp add: dec_digit_def)
  then have "int (of_char (dec_digit n)) = int (48 + n)" by (rule arg_cong)
  then show "of_char (dec_digit n) = (48 + int n)" by (simp add: of_nat_of_char)
  show "is_digit (dec_digit n)" using v assms by (simp add: is_digit_def less_eq_char_def)
qed

lemma digits_value_dec: "digits_value 0 (dec_nat n) = Some (int n)"
proof (induction n rule: dec_nat.induct)
  case (1 n)
  show ?case
  proof (cases "n < 10")
    case True
    then show ?thesis by (subst dec_nat.simps) (simp add: dec_digit_ok)
  next
    case False
    have d: "n mod 10 < 10" by simp
    have "digits_value 0 (dec_nat (n div 10)) = Some (int (n div 10))" using 1 False by simp
    then have "digits_value 0 (dec_nat n) = Some (int (n div 10) * 10 + int (n mod 10))"
      using False by (subst dec_nat.simps) (simp add: digits_value_append dec_digit_ok [OF d])
    also have "int (n div 10) * 10 + int (n mod 10) = int n"
      by (metis div_mult_mod_eq of_nat_add of_nat_mult of_nat_numeral)
    finally show ?thesis .
  qed
qed

lemma dec_nat_head: "\<exists>c cs. dec_nat n = c # cs \<and> is_digit c"
proof (induction n rule: dec_nat.induct)
  case (1 n)
  show ?case
  proof (cases "n < 10")
    case True
    then show ?thesis by (subst dec_nat.simps) (simp add: dec_digit_ok)
  next
    case False
    with 1 obtain c cs where "dec_nat (n div 10) = c # cs" "is_digit c" by auto
    then show ?thesis using False by (subst dec_nat.simps) simp
  qed
qed

lemma signed_body_dec_nat: "signed_body (dec_nat n) = (False, dec_nat n)"
proof -
  obtain c cs where c: "dec_nat n = c # cs" "is_digit c" using dec_nat_head by blast
  then have "c \<noteq> CHR ''-''" "c \<noteq> CHR ''+''" by (auto simp: is_digit_def less_eq_char_def)
  with c show ?thesis by simp
qed

text \<open>Printing a number in range and parsing it back gives the number.\<close>

lemma Atoi_dec_int:
  assumes "minDuration \<le> i" "i \<le> maxDuration"
  shows "Atoi (dec_int i) = Some i"
proof -
  have ne: "dec_nat n \<noteq> []" for n using dec_nat_head [of n] by auto
  show ?thesis
    using assms by (auto simp: Atoi_def dec_int_def Let_def ne signed_body_dec_nat digits_value_dec)
qed

end
