(* ===== verification/Registry_Types.thy ===== *)
theory Registry_Types
  imports Prelude "HOL-Library.AList" "HOL-Library.Sublist"
begin

text \<open>
  The pure part of the delivery registry (\<^verbatim>\<open>delivery-api/internal/registry\<close>: types.go, match.go
  and validate.go): destinations, routes, who may use a destination, route matching, and the
  validation of names, patterns and destination fields. A Go \<^verbatim>\<open>map[string]string\<close> is an
  association list with distinct keys, read with \<open>map_of\<close> and written with
  \<open>AList.update\<close>. \<open>url.Parse\<close> is a parameter that returns the parts the code reads.
\<close>

section \<open>Types\<close>

datatype dest_type = TypeNtfy | TypeDiscord | TypeWebhook | OtherType string

datatype owner_kind = OwnerOperator | OwnerApp | OtherOwner string

definition RecipientDestinationName :: string where
  "RecipientDestinationName = ''@recipient''"

datatype registry_error =
    ErrDestinationNotFound
  | ErrDestinationExists
  | ErrDestinationInUse
  | ErrDestinationDisabled
  | ErrUnknownDestination
  | ErrRotationUnsupported
  | ErrRouteNotFound
  | ErrRouteExists
  | ErrNoPublisher
  | ErrCheckViolation
  | ErrURLCheckUnavailable
  | RegistryValidation string
  | RegistryFailure string \<comment> \<open>any other error: a database or a sealing failure\<close>

type_synonym fields = "(string \<times> string) list"

record stored_destination =
  sd_ID :: int
  sd_Name :: string
  sd_Type :: dest_type
  sd_Config :: fields
  sd_SealedSecrets :: string
  sd_Enabled :: bool
  sd_DisabledReason :: "string option"
  sd_OwnerKind :: owner_kind
  sd_OwnerAppID :: "string option"
  sd_CreatedAt :: time
  sd_UpdatedAt :: time

record stored_route =
  sr_ID :: int
  sr_AppPattern :: string
  sr_ChannelPattern :: string
  sr_DestinationIDs :: "int list"
  sr_DestinationNames :: "string list"
  sr_Enabled :: bool
  sr_OwnerKind :: owner_kind
  sr_OwnerAppID :: "string option"
  sr_CreatedAt :: time
  sr_UpdatedAt :: time

record resolved_destination =
  rd_ID :: int
  rd_Name :: string
  rd_Type :: dest_type
  rd_Config :: fields
  rd_Secrets :: fields

section \<open>Matching\<close>

definition MatchPattern :: "string \<Rightarrow> string \<Rightarrow> bool" where
  "MatchPattern pattern value =
     (if pattern = ''*'' then True
      else if pattern \<noteq> [] \<and> last pattern = CHR ''*'' then prefix (butlast pattern) value
      else pattern = value)"

record destination_match =
  dm_DestinationID :: int
  dm_RouteIDs :: "int list"

definition route_fires :: "string \<Rightarrow> string \<Rightarrow> stored_route \<Rightarrow> bool" where
  "route_fires appID channel route \<longleftrightarrow>
     sr_Enabled route \<and> MatchPattern (sr_AppPattern route) appID
     \<and> MatchPattern (sr_ChannelPattern route) channel"

definition route_ids_of :: "(int \<times> int list) list \<Rightarrow> int \<Rightarrow> int list" where
  "route_ids_of m d = (case map_of m d of None \<Rightarrow> [] | Some ids \<Rightarrow> ids)"

definition add_route_id :: "int \<Rightarrow> int \<Rightarrow> (int \<times> int list) list \<Rightarrow> (int \<times> int list) list" where
  "add_route_id routeID d m =
     (if routeID \<in> set (route_ids_of m d) then m
      else AList.update d (route_ids_of m d @ [routeID]) m)"

definition collect_route ::
    "string \<Rightarrow> string \<Rightarrow> stored_route \<Rightarrow> (int \<times> int list) list \<Rightarrow> (int \<times> int list) list" where
  "collect_route appID channel route m =
     (if route_fires appID channel route
      then fold (add_route_id (sr_ID route)) (sr_DestinationIDs route) m else m)"

definition MatchRoutes :: "stored_route list \<Rightarrow> string \<Rightarrow> string \<Rightarrow> destination_match list" where
  "MatchRoutes routes appID channel =
     sort_key dm_DestinationID
       (map (\<lambda>(d, ids). \<lparr>dm_DestinationID = d, dm_RouteIDs = ids\<rparr>)
          (fold (collect_route appID channel) routes []))"

fun DestinationUsableBy :: "owner_kind \<Rightarrow> string option \<Rightarrow> string \<Rightarrow> bool" where
  "DestinationUsableBy OwnerOperator ownerAppID appID = (ownerAppID = None)"
| "DestinationUsableBy OwnerApp ownerAppID appID =
     (case ownerAppID of None \<Rightarrow> False | Some owner \<Rightarrow> owner \<noteq> [] \<and> owner = appID)"
| "DestinationUsableBy (OtherOwner _) ownerAppID appID = False"

definition UsableBy :: "stored_destination \<Rightarrow> string \<Rightarrow> bool" where
  "UsableBy destination appID =
     DestinationUsableBy (sd_OwnerKind destination) (sd_OwnerAppID destination) appID"

section \<open>Validation\<close>

type_synonym 'a checked = "registry_error + 'a"

abbreviation invalid :: "string \<Rightarrow> 'a checked" where
  "invalid message \<equiv> Inl (RegistryValidation message)"

definition app_id_valid :: "string \<Rightarrow> bool" where
  "app_id_valid = slug 62"

definition ValidateDestinationName :: "string \<Rightarrow> unit checked" where
  "ValidateDestinationName name = (if slug 62 name then Inr () else invalid ''invalid name'')"

fun ValidateDestinationType :: "dest_type \<Rightarrow> unit checked" where
  "ValidateDestinationType (OtherType _) = invalid ''invalid type''"
| "ValidateDestinationType _ = Inr ()"

definition ValidateAppPattern :: "string \<Rightarrow> unit checked" where
  "ValidateAppPattern pattern =
     (if pattern = ''*'' then Inr ()
      else if pattern = ''everyone'' \<or> \<not> app_id_valid pattern then invalid ''invalid app_pattern''
      else Inr ())"

definition channel_prefix_pattern :: "string \<Rightarrow> bool" where
  "channel_prefix_pattern pattern \<longleftrightarrow>
     pattern \<noteq> [] \<and> last pattern = CHR ''*'' \<and> slug 30 (butlast pattern)"

definition ValidateChannelPattern :: "string \<Rightarrow> unit checked" where
  "ValidateChannelPattern pattern =
     (if pattern = ''*'' \<or> slug 31 pattern \<or> channel_prefix_pattern pattern then Inr ()
      else invalid ''invalid channel_pattern'')"

fun names_fresh_valid :: "string list \<Rightarrow> string list \<Rightarrow> bool" where
  "names_fresh_valid seen [] = True"
| "names_fresh_valid seen (name # names) =
     (ValidateDestinationName name = Inr () \<and> name \<notin> set seen \<and> names_fresh_valid (name # seen) names)"

definition ValidateRouteDestinations :: "string list \<Rightarrow> unit checked" where
  "ValidateRouteDestinations names =
     (if length names < 1 \<or> length names > 20 \<or> \<not> names_fresh_valid [] names
      then invalid ''invalid destinations'' else Inr ())"

definition reportable_char :: "char \<Rightarrow> char" where
  "reportable_char c =
     (if is_upper c \<or> is_lower c \<or> is_digit c \<or> c \<in> {CHR ''_'', CHR ''.'', CHR ''-''} then c
      else CHR ''?'')"

definition reportableKey :: "string \<Rightarrow> string" where
  "reportableKey key = take 64 (map reportable_char key)"

definition rejectUnknownKeys :: "string \<Rightarrow> fields \<Rightarrow> string list \<Rightarrow> unit checked" where
  "rejectUnknownKeys section m allowed =
     (case sort (filter (\<lambda>k. k \<notin> set allowed) (map fst m)) of
        [] \<Rightarrow> Inr ()
      | key # _ \<Rightarrow> invalid (''unknown field '' @ section @ ''.'' @ reportableKey key))"

record parsed_url =
  pu_Scheme :: string
  pu_Hostname :: string
  pu_Host :: string
  pu_EscapedPath :: string
  pu_HasUser :: bool

definition parseHTTPSURL :: "(string \<Rightarrow> parsed_url option) \<Rightarrow> string \<Rightarrow> parsed_url option" where
  "parseHTTPSURL url_parse rawURL =
     (if length rawURL > 2048 then None
      else case url_parse rawURL of
             None \<Rightarrow> None
           | Some parsed \<Rightarrow>
               if pu_Scheme parsed \<noteq> ''https'' \<or> pu_Hostname parsed = [] \<or> pu_HasUser parsed then None
               else Some parsed)"

definition validSigningSecret :: "string \<Rightarrow> bool" where
  "validSigningSecret secret \<longleftrightarrow>
     32 \<le> length secret \<and> length secret \<le> 256
     \<and> list_all (\<lambda>c. CHR '' '' \<le> c \<and> c \<le> CHR ''~'') secret"

definition is_token_char :: "char \<Rightarrow> bool" where
  "is_token_char c \<longleftrightarrow> is_upper c \<or> is_lower c \<or> is_digit c \<or> c = CHR ''_'' \<or> c = CHR ''-''"

definition ntfy_topic_pattern :: "string \<Rightarrow> bool" where
  "ntfy_topic_pattern s \<longleftrightarrow> 1 \<le> length s \<and> length s \<le> 64 \<and> list_all is_token_char s"

definition ntfy_access_token_pattern :: "string \<Rightarrow> bool" where
  "ntfy_access_token_pattern s \<longleftrightarrow>
     take 3 s = ''tk_'' \<and> length s = 32 \<and> list_all (\<lambda>c. is_lower c \<or> is_digit c) (drop 3 s)"

text \<open>A missing key of a Go map reads as the empty string.\<close>

definition field :: "fields \<Rightarrow> string \<Rightarrow> string" where
  "field m key = (case map_of m key of None \<Rightarrow> [] | Some v \<Rightarrow> v)"

definition validateNtfyFields :: "fields \<Rightarrow> fields \<Rightarrow> unit checked" where
  "validateNtfyFields config secrets =
     (case rejectUnknownKeys ''config'' config [''topic''] of Inl e \<Rightarrow> Inl e | Inr _ \<Rightarrow>
      case rejectUnknownKeys ''secrets'' secrets [''access_token''] of Inl e \<Rightarrow> Inl e | Inr _ \<Rightarrow>
      if \<not> ntfy_topic_pattern (field config ''topic'') then invalid ''invalid config.topic''
      else case map_of secrets ''access_token'' of
             Some token \<Rightarrow> (if ntfy_access_token_pattern token then Inr ()
                            else invalid ''invalid secrets.access_token'')
           | None \<Rightarrow> Inr ())"

definition discordHosts :: "string list" where
  "discordHosts = [''discord.com'', ''discordapp.com'', ''ptb.discord.com'', ''canary.discord.com'']"

definition to_lower :: "char \<Rightarrow> char" where
  "to_lower c = (if is_upper c then char_of (of_char c + 32 :: nat) else c)"

definition discord_webhook_path :: "string \<Rightarrow> bool" where
  "discord_webhook_path path =
     (let head = ''/api/webhooks/''; rest = drop (length head) path;
          ident = takeWhile is_digit rest; tail = dropWhile is_digit rest
      in prefix head path \<and> ident \<noteq> [] \<and> tail \<noteq> [] \<and> hd tail = CHR ''/'' \<and> tl tail \<noteq> []
         \<and> list_all is_token_char (tl tail))"

definition validateDiscordFields ::
    "(string \<Rightarrow> parsed_url option) \<Rightarrow> fields \<Rightarrow> fields \<Rightarrow> unit checked" where
  "validateDiscordFields url_parse config secrets =
     (case rejectUnknownKeys ''config'' config [] of Inl e \<Rightarrow> Inl e | Inr _ \<Rightarrow>
      case rejectUnknownKeys ''secrets'' secrets [''webhook_url''] of Inl e \<Rightarrow> Inl e | Inr _ \<Rightarrow>
      case parseHTTPSURL url_parse (field secrets ''webhook_url'') of
        None \<Rightarrow> invalid ''invalid secrets.webhook_url''
      | Some parsed \<Rightarrow>
          if map to_lower (pu_Host parsed) \<in> set discordHosts
             \<and> discord_webhook_path (pu_EscapedPath parsed)
          then Inr () else invalid ''invalid secrets.webhook_url'')"

definition validateRotationFields :: "(string \<Rightarrow> time option) \<Rightarrow> fields \<Rightarrow> fields \<Rightarrow> unit checked" where
  "validateRotationFields parse_rfc3339 config secrets =
     (let previous = map_of secrets ''signing_secret_previous'';
          expiry = map_of config ''previous_secret_expires_at''
      in if (case previous of None \<Rightarrow> False | Some p \<Rightarrow> \<not> validSigningSecret p)
         then invalid ''invalid secrets.signing_secret_previous''
         else if (previous \<noteq> None) \<noteq> (expiry \<noteq> None)
         then invalid ''secrets.signing_secret_previous and config.previous_secret_expires_at must be set together''
         else case expiry of
                None \<Rightarrow> Inr ()
              | Some e \<Rightarrow> (if parse_rfc3339 e = None then invalid ''invalid config.previous_secret_expires_at''
                           else Inr ()))"

definition validateWebhookFields ::
    "(string \<Rightarrow> parsed_url option) \<Rightarrow> (string \<Rightarrow> time option) \<Rightarrow> fields \<Rightarrow> fields \<Rightarrow> unit checked" where
  "validateWebhookFields url_parse parse_rfc3339 config secrets =
     (case rejectUnknownKeys ''config'' config [''previous_secret_expires_at''] of
        Inl e \<Rightarrow> Inl e | Inr _ \<Rightarrow>
      case rejectUnknownKeys ''secrets'' secrets [''url'', ''signing_secret'', ''signing_secret_previous''] of
        Inl e \<Rightarrow> Inl e | Inr _ \<Rightarrow>
      if parseHTTPSURL url_parse (field secrets ''url'') = None then invalid ''invalid secrets.url''
      else if \<not> validSigningSecret (field secrets ''signing_secret'')
      then invalid ''invalid secrets.signing_secret''
      else validateRotationFields parse_rfc3339 config secrets)"

fun ValidateDestinationFields ::
    "(string \<Rightarrow> parsed_url option) \<Rightarrow> (string \<Rightarrow> time option) \<Rightarrow> dest_type \<Rightarrow> fields \<Rightarrow> fields \<Rightarrow> unit checked" where
  "ValidateDestinationFields url_parse parse_rfc3339 TypeNtfy config secrets =
     validateNtfyFields config secrets"
| "ValidateDestinationFields url_parse parse_rfc3339 TypeDiscord config secrets =
     validateDiscordFields url_parse config secrets"
| "ValidateDestinationFields url_parse parse_rfc3339 TypeWebhook config secrets =
     validateWebhookFields url_parse parse_rfc3339 config secrets"
| "ValidateDestinationFields url_parse parse_rfc3339 (OtherType _) config secrets =
     invalid ''invalid type''"

section \<open>Facts about matching\<close>

lemma names_fresh_valid_iff:
  "names_fresh_valid seen names \<longleftrightarrow>
     distinct names \<and> set names \<inter> set seen = {} \<and> list_all (slug 62) names"
  by (induction names arbitrary: seen) (auto simp: ValidateDestinationName_def split: if_splits)

lemma route_ids_of_add:
  "route_ids_of (add_route_id r d m) d' =
     (if d' = d \<and> r \<notin> set (route_ids_of m d) then route_ids_of m d @ [r] else route_ids_of m d')"
  by (auto simp: add_route_id_def route_ids_of_def update_conv')

lemma distinct_keys_add: "distinct (map fst m) \<Longrightarrow> distinct (map fst (add_route_id r d m))"
  by (simp add: add_route_id_def distinct_update)

lemma route_ids_of_fold_add:
  "r \<notin> set (route_ids_of m d) \<Longrightarrow>
   route_ids_of (fold (add_route_id r) ds m) d =
     (if d \<in> set ds then route_ids_of m d @ [r] else route_ids_of m d)"
proof (induction ds arbitrary: m)
  case (Cons a ds)
  show ?case
  proof (cases "a = d")
    case True
    have "route_ids_of (fold (add_route_id r) ds m') d = route_ids_of m' d"
      if "r \<in> set (route_ids_of m' d)" for m'
      using that by (induction ds arbitrary: m') (auto simp: route_ids_of_add)
    with True Cons.prems show ?thesis by (simp add: route_ids_of_add)
  next
    case False
    with Cons show ?thesis by (simp add: route_ids_of_add)
  qed
qed simp

lemma collect_routes_ids:
  assumes "distinct (map sr_ID routes)" and "\<forall>r \<in> set routes. sr_ID r \<notin> set (route_ids_of m d)"
  shows "route_ids_of (fold (collect_route appID channel) routes m) d =
    route_ids_of m d @
      map sr_ID (filter (\<lambda>r. route_fires appID channel r \<and> d \<in> set (sr_DestinationIDs r)) routes)"
  using assms
proof (induction routes arbitrary: m)
  case (Cons r routes)
  let ?m = "collect_route appID channel r m"
  have step: "route_ids_of ?m d =
      route_ids_of m d @ (if route_fires appID channel r \<and> d \<in> set (sr_DestinationIDs r) then [sr_ID r] else [])"
    using Cons.prems by (simp add: collect_route_def route_ids_of_fold_add)
  have "\<forall>x \<in> set routes. sr_ID x \<notin> set (route_ids_of ?m d)"
    using Cons.prems unfolding step by (auto simp: image_iff)
  with Cons.IH [of ?m] Cons.prems show ?case by (simp add: step)
qed simp

text \<open>No entry of the accumulator is empty and its keys stay distinct.\<close>

definition route_map_ok :: "(int \<times> int list) list \<Rightarrow> bool" where
  "route_map_ok m \<longleftrightarrow> distinct (map fst m) \<and> [] \<notin> snd ` set m"

lemma route_map_ok_add: "route_map_ok m \<Longrightarrow> route_map_ok (add_route_id r d m)"
proof -
  assume ok: "route_map_ok m"
  have "snd ` set (AList.update d v m) \<subseteq> insert v (snd ` set m)" for v
    by (induction m) auto
  from this [of "route_ids_of m d @ [r]"] have "[] \<notin> snd ` set (add_route_id r d m)"
    using ok by (auto simp: route_map_ok_def add_route_id_def)
  with ok show ?thesis by (simp add: route_map_ok_def distinct_keys_add)
qed

lemma route_map_ok_collect: "route_map_ok m \<Longrightarrow> route_map_ok (fold (collect_route a c) routes m)"
proof (induction routes arbitrary: m)
  case (Cons r routes)
  have "route_map_ok (fold (add_route_id i) ds m')" if "route_map_ok m'" for i ds m'
    using that by (induction ds arbitrary: m') (auto simp: route_map_ok_add)
  with Cons show ?case by (simp add: collect_route_def)
qed simp

lemma route_map_entry:
  assumes "route_map_ok m"
  shows "(d, ids) \<in> set m \<longleftrightarrow> ids \<noteq> [] \<and> route_ids_of m d = ids"
proof
  assume "(d, ids) \<in> set m"
  moreover from this assms have "map_of m d = Some ids" and "ids \<noteq> []"
    by (auto simp: route_map_ok_def image_iff)
  ultimately show "ids \<noteq> [] \<and> route_ids_of m d = ids" by (simp add: route_ids_of_def)
next
  assume "ids \<noteq> [] \<and> route_ids_of m d = ids"
  then show "(d, ids) \<in> set m"
    by (auto simp: route_ids_of_def split: option.splits dest: map_of_SomeD)
qed

text \<open>
  The reference meaning of a match: the ids of the routes that fire and name the destination, in
  route order.
\<close>

definition firing_routes :: "stored_route list \<Rightarrow> string \<Rightarrow> string \<Rightarrow> int \<Rightarrow> int list" where
  "firing_routes routes appID channel d =
     map sr_ID (filter (\<lambda>r. route_fires appID channel r \<and> d \<in> set (sr_DestinationIDs r)) routes)"

lemma set_MatchRoutes:
  assumes "distinct (map sr_ID routes)"
  shows "x \<in> set (MatchRoutes routes appID channel) \<longleftrightarrow>
    dm_RouteIDs x = firing_routes routes appID channel (dm_DestinationID x) \<and> dm_RouteIDs x \<noteq> []"
proof -
  let ?m = "fold (collect_route appID channel) routes []"
  have ok: "route_map_ok ?m" by (rule route_map_ok_collect) (simp add: route_map_ok_def)
  have "x \<in> set (MatchRoutes routes appID channel) \<longleftrightarrow> (dm_DestinationID x, dm_RouteIDs x) \<in> set ?m"
    by (cases x) (auto simp: MatchRoutes_def image_iff intro!: bexI)
  then have "x \<in> set (MatchRoutes routes appID channel) \<longleftrightarrow>
      dm_RouteIDs x \<noteq> [] \<and> route_ids_of ?m (dm_DestinationID x) = dm_RouteIDs x"
    by (simp add: route_map_entry [OF ok])
  moreover have "route_ids_of ?m d = firing_routes routes appID channel d" for d
    using collect_routes_ids [of routes "[]" d] assms
    by (simp add: route_ids_of_def firing_routes_def)
  ultimately show ?thesis by auto
qed

lemma MatchRoutes_sorted: "sorted (map dm_DestinationID (MatchRoutes routes appID channel))"
  by (simp add: MatchRoutes_def)

lemma MatchRoutes_distinct: "distinct (map dm_DestinationID (MatchRoutes routes appID channel))"
proof -
  let ?m = "fold (collect_route appID channel) routes []"
  let ?f = "\<lambda>(d, ids). \<lparr>dm_DestinationID = d, dm_RouteIDs = ids\<rparr>"
  have "route_map_ok ?m" by (rule route_map_ok_collect) (simp add: route_map_ok_def)
  then have "distinct (map dm_DestinationID (map ?f ?m))"
    by (simp add: route_map_ok_def comp_def case_prod_beta)
  moreover have "mset (map dm_DestinationID (MatchRoutes routes appID channel))
      = mset (map dm_DestinationID (map ?f ?m))"
    by (simp only: MatchRoutes_def mset_map mset_sort)
  ultimately show ?thesis by (metis mset_eq_imp_distinct_iff)
qed

lemma firing_routes_nonempty:
  "firing_routes routes appID channel d \<noteq> [] \<longleftrightarrow>
     (\<exists>r \<in> set routes. route_fires appID channel r \<and> d \<in> set (sr_DestinationIDs r))"
  by (auto simp: firing_routes_def filter_empty_conv)

lemma MatchRoutes_ids:
  assumes "distinct (map sr_ID routes)"
  shows "dm_DestinationID ` set (MatchRoutes routes appID channel) =
    {d. \<exists>r \<in> set routes. route_fires appID channel r \<and> d \<in> set (sr_DestinationIDs r)}"
proof -
  have "d \<in> dm_DestinationID ` set (MatchRoutes routes appID channel) \<longleftrightarrow>
      firing_routes routes appID channel d \<noteq> []" for d
  proof
    assume "firing_routes routes appID channel d \<noteq> []"
    then have "\<lparr>dm_DestinationID = d, dm_RouteIDs = firing_routes routes appID channel d\<rparr>
        \<in> set (MatchRoutes routes appID channel)"
      by (simp add: set_MatchRoutes [OF assms])
    then show "d \<in> dm_DestinationID ` set (MatchRoutes routes appID channel)" by force
  qed (auto simp: set_MatchRoutes [OF assms])
  then show ?thesis by (auto simp: firing_routes_nonempty)
qed

text \<open>An exact pattern (no trailing star) matches only itself, so an app's own id never reaches another app.\<close>

lemma slug_no_star: "slug n s \<Longrightarrow> CHR ''*'' \<notin> set s"
  using slug_chars [of n s "CHR ''*''"] by (auto simp: go_str less_eq_char_def)

lemma MatchPattern_exact: "slug n pattern \<Longrightarrow> MatchPattern pattern value \<longleftrightarrow> pattern = value"
proof -
  assume slug: "slug n pattern"
  then have "pattern \<noteq> []" by auto
  then have "last pattern \<noteq> CHR ''*''"
    using slug_no_star [OF slug] last_in_set [of pattern] by metis
  then show ?thesis using slug_no_star [OF slug] by (auto simp: MatchPattern_def)
qed

lemma MatchPattern_prefix:
  "channel_prefix_pattern pattern \<Longrightarrow> MatchPattern pattern value \<longleftrightarrow> prefix (butlast pattern) value"
  by (auto simp: MatchPattern_def channel_prefix_pattern_def)

end
