(* ===== verification/Message_Types.thy ===== *)
theory Message_Types
  imports Registry_Types
begin

text \<open>
  The delivery-core domain (\<^verbatim>\<open>delivery-api/internal/message/types.go\<close>): envelopes, stored messages,
  deliveries and attempts, and the derived message status. A string constant set of the source is a
  datatype with one constructor per constant and an \<open>Other\<dots>\<close> constructor for any other text, so
  the default branches of the source's switches remain reachable.
\<close>

section \<open>States, statuses, reasons and outcomes\<close>

datatype delivery_state =
  StatePending | StateDelivered | StateDead | StateScheduled | StateCancelled | OtherState string

datatype message_status =
    StatusPending | StatusDelivered | StatusDead | StatusPartial | StatusScheduled
  | StatusCancelled | StatusUnrouted | StatusReleaseFailed | StatusNotFound

datatype dead_reason =
    DeadReasonTerminalStatus | DeadReasonGone | DeadReasonBudgetExhausted
  | DeadReasonDestinationDisabled | DeadReasonDestinationDeleted | DeadReasonBlockedAddress
  | DeadReasonUnsupportedType | DeadReasonNoPublisher | OtherReason string

datatype attempt_outcome =
  OutcomeSuccess | OutcomeRetryable | OutcomeTerminal | OutcomeGone | OutcomeBlocked | OtherOutcome string

datatype message_error =
    ErrMessageNotFound
  | ErrDeliveryNotFound
  | ErrDeliveryNotDead
  | ErrNoDestinationMatched
  | ErrUnsupportedDestinationType
  | ErrTooManyScheduled
  | ErrScheduledCapacityReached
  | ErrTooManyHeld
  | ErrHeldCapacityReached
  | MessageValidation string
  | RegistryError registry_error
  | MessageFailure string \<comment> \<open>any other error: an argument check or a database failure\<close>

section \<open>Envelope\<close>

record display =
  dp_Title :: string
  dp_Body :: string
  dp_URL :: string
  dp_Priority :: string

text \<open>
  \<open>blank s\<close> is \<^verbatim>\<open>strings.TrimSpace(s) == ""\<close>: every rune of \<open>s\<close> is white space, which
  in UTF-8 is one of the ASCII blanks or one of the multi-byte sequences listed here.
\<close>

abbreviation byte :: "char \<Rightarrow> nat" where "byte c \<equiv> of_char c"

definition ascii_space :: "nat \<Rightarrow> bool" where
  "ascii_space b \<longleftrightarrow> (9 \<le> b \<and> b \<le> 13) \<or> b = 32"

fun blank_bytes :: "nat list \<Rightarrow> bool" where
  "blank_bytes [] = True"
| "blank_bytes [a] = ascii_space a"
| "blank_bytes [a, b] =
     (if ascii_space a then blank_bytes [b] else a = 194 \<and> (b = 133 \<or> b = 160))"
| "blank_bytes (a # b # c # bs) =
     (if ascii_space a then blank_bytes (b # c # bs)
      else if a = 194 \<and> (b = 133 \<or> b = 160) then blank_bytes (c # bs)
      else if a = 225 \<and> b = 154 \<and> c = 128
           \<or> a = 226 \<and> b = 128 \<and> (128 \<le> c \<and> c \<le> 138 \<or> c = 168 \<or> c = 169 \<or> c = 175)
           \<or> a = 226 \<and> b = 129 \<and> c = 159
           \<or> a = 227 \<and> b = 128 \<and> c = 128
      then blank_bytes bs
      else False)"

definition blank :: "string \<Rightarrow> bool" where
  "blank s = blank_bytes (map byte s)"

definition HasRenderableText :: "display option \<Rightarrow> bool" where
  "HasRenderableText d = (case d of None \<Rightarrow> False | Some x \<Rightarrow> \<not> blank (dp_Title x) \<or> \<not> blank (dp_Body x))"

record envelope =
  en_AppID :: string
  en_Channel :: string
  en_IdempotencyKey :: string
  en_ToDestination :: string
  en_ToRecipient :: string
  en_DeliverAt :: "time option"
  en_Critical :: bool
  en_Payload :: string
  en_Display :: "display option"
  en_Hold :: bool

section \<open>Deliveries and messages\<close>

record delivery_target =
  dt_DestinationID :: "int option"
  dt_DestinationName :: string
  dt_DestinationType :: dest_type

record delivery =
  d_ID :: int
  d_MessageID :: string
  d_DestinationID :: "int option"
  d_DestinationName :: string
  d_DestinationType :: dest_type
  d_State :: delivery_state
  d_DeadReason :: "dead_reason option"
  d_AttemptCount :: int
  d_BudgetAttempts :: int
  d_BudgetStartedAt :: time
  d_NextAttemptAt :: time
  d_LastStatusCode :: "int option"
  d_DeliveredAt :: "time option"
  d_CreatedAt :: time
  d_UpdatedAt :: time

record admin_delivery = delivery +
  ad_AppID :: string
  ad_Channel :: string

record stored_message =
  sm_ID :: string
  sm_Envelope :: envelope
  sm_CreatedAt :: time
  sm_CancelledAt :: "time option"
  sm_HeldAt :: "time option"
  sm_ReleasedAt :: "time option"
  sm_HeldCancelledAt :: "time option"
  sm_ReleaseFailedAt :: "time option"
  sm_ReleaseFailedReason :: string
  sm_Deliveries :: "delivery list"

record message_state =
  ms_HeldAt :: "time option"
  ms_CancelledAt :: "time option"
  ms_ReleaseFailedAt :: "time option"

definition State :: "stored_message \<Rightarrow> message_state" where
  "State stored = \<lparr>ms_HeldAt = sm_HeldAt stored, ms_CancelledAt = sm_CancelledAt stored,
                   ms_ReleaseFailedAt = sm_ReleaseFailedAt stored\<rparr>"

record scheduled_destination =
  sdn_Name :: string
  sdn_Type :: dest_type

record scheduled_message =
  sc_MessageID :: string
  sc_AppID :: string
  sc_Channel :: string
  sc_IdempotencyKey :: string
  sc_DeliverAt :: time
  sc_CreatedAt :: time
  sc_Recipient :: bool
  sc_Destinations :: "scheduled_destination list"

record submit_outcome =
  so_Duplicate :: bool
  so_Replaced :: bool
  so_Scheduled :: bool
  so_Held :: bool

record cancel_outcome =
  co_MessageID :: string
  co_Status :: "message_status option" \<comment> \<open>\<open>None\<close> is the empty status of a store miss\<close>
  co_Cancelled :: bool
  co_Transitioned :: bool
  co_Found :: bool

record claim =
  cl_Delivery :: delivery
  cl_Message :: stored_message

record attempt_record =
  ar_DeliveryID :: int
  ar_Outcome :: attempt_outcome
  ar_StatusCode :: "int option"
  ar_LatencyMS :: int
  ar_Error :: "string option"
  ar_ResponseSnippet :: "string option"
  ar_StartedAt :: time

record attempt_result =
  res_Record :: attempt_record
  res_NextState :: delivery_state
  res_DeadReason :: "dead_reason option"
  res_NextAttemptAt :: time

record attempt = attempt_record +
  at_ID :: int
  at_AttemptNumber :: int

section \<open>The derived status\<close>

text \<open>
  The counting loop of \<open>DeriveStatus\<close>: it returns early (\<open>None\<close>) on a delivery in any
  state that is not counted.
\<close>

record state_counts =
  n_delivered :: nat
  n_dead :: nat
  n_scheduled :: nat
  n_cancelled :: nat

definition no_counts :: state_counts where
  "no_counts = \<lparr>n_delivered = 0, n_dead = 0, n_scheduled = 0, n_cancelled = 0\<rparr>"

fun count_states :: "state_counts \<Rightarrow> delivery list \<Rightarrow> state_counts option" where
  "count_states n [] = Some n"
| "count_states n (d # ds) =
     (case d_State d of
        StateDelivered \<Rightarrow> count_states (n\<lparr>n_delivered := Suc (n_delivered n)\<rparr>) ds
      | StateDead \<Rightarrow> count_states (n\<lparr>n_dead := Suc (n_dead n)\<rparr>) ds
      | StateScheduled \<Rightarrow> count_states (n\<lparr>n_scheduled := Suc (n_scheduled n)\<rparr>) ds
      | StateCancelled \<Rightarrow> count_states (n\<lparr>n_cancelled := Suc (n_cancelled n)\<rparr>) ds
      | _ \<Rightarrow> None)"

definition DeriveStatus :: "delivery list \<Rightarrow> message_state \<Rightarrow> message_status" where
  "DeriveStatus deliveries state =
     (if ms_CancelledAt state \<noteq> None then StatusCancelled
      else if ms_HeldAt state \<noteq> None then StatusUnrouted
      else if ms_ReleaseFailedAt state \<noteq> None then StatusReleaseFailed
      else if deliveries = [] then StatusPending
      else case count_states no_counts deliveries of
        None \<Rightarrow> StatusPending
      | Some n \<Rightarrow>
          if n_scheduled n = length deliveries then StatusScheduled
          else if n_cancelled n = length deliveries then StatusCancelled
          else if n_scheduled n > 0 \<or> n_cancelled n > 0 then StatusPending
          else if n_dead n = 0 then StatusDelivered
          else if n_delivered n = 0 then StatusDead
          else StatusPartial)"

text \<open>What the loop computes: the number of deliveries per state, or nothing.\<close>

abbreviation in_state :: "delivery_state \<Rightarrow> delivery list \<Rightarrow> nat" where
  "in_state s ds \<equiv> length (filter (\<lambda>d. d_State d = s) ds)"

definition counted :: "delivery \<Rightarrow> bool" where
  "counted d \<longleftrightarrow> d_State d \<in> {StateDelivered, StateDead, StateScheduled, StateCancelled}"

lemma count_states_eq:
  "count_states n ds =
     (if list_all counted ds
      then Some \<lparr>n_delivered = n_delivered n + in_state StateDelivered ds,
                 n_dead = n_dead n + in_state StateDead ds,
                 n_scheduled = n_scheduled n + in_state StateScheduled ds,
                 n_cancelled = n_cancelled n + in_state StateCancelled ds\<rparr>
      else None)"
proof (induction ds arbitrary: n)
  case (Cons d ds)
  show ?case by (cases "d_State d") (simp_all add: Cons.IH counted_def)
qed simp

lemma in_state_all: "in_state s ds = length ds \<longleftrightarrow> (\<forall>d \<in> set ds. d_State d = s)"
proof (induction ds)
  case (Cons d ds)
  have "in_state s ds \<noteq> Suc (length ds)"
    by (rule less_imp_neq [OF le_imp_less_Suc [OF length_filter_le]])
  with Cons show ?case by auto
qed simp

lemma in_state_none: "in_state s ds = 0 \<longleftrightarrow> (\<forall>d \<in> set ds. d_State d \<noteq> s)"
  by (auto simp: filter_empty_conv)

lemma list_all_counted: "list_all counted ds \<longleftrightarrow> (\<forall>d \<in> set ds. counted d)"
  by (simp add: list_all_iff)

text \<open>A message row whose own state does not decide, so its deliveries do.\<close>

definition plain_state :: "message_state \<Rightarrow> bool" where
  "plain_state st \<longleftrightarrow> ms_CancelledAt st = None \<and> ms_HeldAt st = None \<and> ms_ReleaseFailedAt st = None"

lemma DeriveStatus_scheduled_iff:
  "DeriveStatus ds st = StatusScheduled \<longleftrightarrow>
     plain_state st \<and> ds \<noteq> [] \<and> (\<forall>d \<in> set ds. d_State d = StateScheduled)"
proof (cases "plain_state st \<and> ds \<noteq> [] \<and> list_all counted ds")
  case True
  then have "DeriveStatus ds st = StatusScheduled \<longleftrightarrow> in_state StateScheduled ds = length ds"
    by (auto simp: DeriveStatus_def plain_state_def count_states_eq no_counts_def split: if_splits)
  with True show ?thesis by (simp only: in_state_all) auto
next
  case False
  then have "DeriveStatus ds st \<noteq> StatusScheduled"
    by (auto simp: DeriveStatus_def plain_state_def count_states_eq)
  with False show ?thesis by (auto simp: list_all_counted counted_def)
qed

lemma DeriveStatus_cases:
  assumes "plain_state st" and "ds \<noteq> []"
  shows "DeriveStatus ds st =
    (if \<forall>d \<in> set ds. d_State d = StateScheduled then StatusScheduled
     else if \<forall>d \<in> set ds. d_State d = StateCancelled then StatusCancelled
     else if \<forall>d \<in> set ds. d_State d = StateDelivered then StatusDelivered
     else if \<forall>d \<in> set ds. d_State d = StateDead then StatusDead
     else if \<forall>d \<in> set ds. d_State d \<in> {StateDelivered, StateDead} then StatusPartial
     else StatusPending)"
proof (cases "list_all counted ds")
  case True
  let ?n = "\<lambda>s. in_state s ds"
  have eq: "DeriveStatus ds st =
    (if ?n StateScheduled = length ds then StatusScheduled
     else if ?n StateCancelled = length ds then StatusCancelled
     else if \<not> (?n StateScheduled = 0 \<and> ?n StateCancelled = 0) then StatusPending
     else if ?n StateDead = 0 then StatusDelivered
     else if ?n StateDelivered = 0 then StatusDead else StatusPartial)"
    using assms True by (simp add: DeriveStatus_def plain_state_def count_states_eq no_counts_def)
  have ended: "?n StateScheduled = 0 \<and> ?n StateCancelled = 0 \<longleftrightarrow>
      (\<forall>d \<in> set ds. d_State d \<in> {StateDelivered, StateDead})"
    unfolding in_state_none using True by (auto simp: list_all_counted counted_def)
  obtain x where x: "x \<in> set ds" using assms(2) by (cases ds) auto
  show ?thesis
    unfolding eq ended in_state_all in_state_none
    using x True [unfolded list_all_counted counted_def] by auto
next
  case False
  then obtain d where d: "d \<in> set ds" "\<not> counted d" by (auto simp: list_all_iff)
  then have "d_State d \<notin> {StateDelivered, StateDead, StateScheduled, StateCancelled}"
    by (simp add: counted_def)
  with d(1) have no: "\<not> (\<forall>d \<in> set ds. d_State d \<in> {StateDelivered, StateDead, StateScheduled, StateCancelled})"
    by blast
  have "DeriveStatus ds st = StatusPending"
    using False assms by (simp add: DeriveStatus_def plain_state_def count_states_eq)
  with no show ?thesis by auto
qed

end
