(* ===== verification/Utf8.thy ===== *)
theory Utf8
  imports Prelude
begin

text \<open>
  UTF-8 as Go decodes it (\<open>unicode/utf8\<close>) and the text-bounding helpers of
  \<^verbatim>\<open>delivery-api/internal/message/pgstore.go\<close>: \<open>cleanOptionalText\<close>,
  \<open>truncateRunes\<close> and \<open>truncateBytes\<close>. Text is a list of bytes; \<open>decode_width\<close> is
  the width of the first rune, and \<open>None\<close> where Go's decoder reports an invalid byte
  (\<open>RuneError\<close> with width 1).
\<close>

abbreviation byte_val :: "char \<Rightarrow> nat" where "byte_val c \<equiv> of_char c"

definition is_cont :: "char \<Rightarrow> bool" where
  "is_cont c \<longleftrightarrow> 128 \<le> byte_val c \<and> byte_val c \<le> 191"

text \<open>\<open>utf8.RuneStart\<close>: any byte that is not a continuation byte.\<close>

definition RuneStart :: "char \<Rightarrow> bool" where
  "RuneStart c \<longleftrightarrow> \<not> is_cont c"

definition in_bytes :: "nat \<Rightarrow> nat \<Rightarrow> char \<Rightarrow> bool" where
  "in_bytes lo hi c \<longleftrightarrow> lo \<le> byte_val c \<and> byte_val c \<le> hi"

fun decode_width :: "string \<Rightarrow> nat option" where
  "decode_width [] = None"
| "decode_width (a # rest) =
     (if byte_val a < 128 then Some 1
      else if in_bytes 194 223 a then
        (case rest of b # _ \<Rightarrow> if is_cont b then Some 2 else None | _ \<Rightarrow> None)
      else if in_bytes 224 239 a then
        (case rest of
           b # c # _ \<Rightarrow>
             if is_cont b \<and> is_cont c \<and> (byte_val a = 224 \<longrightarrow> 160 \<le> byte_val b)
                \<and> (byte_val a = 237 \<longrightarrow> byte_val b \<le> 159) then Some 3 else None
         | _ \<Rightarrow> None)
      else if in_bytes 240 244 a then
        (case rest of
           b # c # d # _ \<Rightarrow>
             if is_cont b \<and> is_cont c \<and> is_cont d \<and> (byte_val a = 240 \<longrightarrow> 144 \<le> byte_val b)
                \<and> (byte_val a = 244 \<longrightarrow> byte_val b \<le> 143) then Some 4 else None
         | _ \<Rightarrow> None)
      else None)"

text \<open>The width a \<^verbatim>\<open>range\<close> loop advances by: one byte where the text is invalid.\<close>

definition rune_width :: "string \<Rightarrow> nat" where
  "rune_width s = (case decode_width s of None \<Rightarrow> 1 | Some w \<Rightarrow> w)"

lemma decode_width_range: "decode_width s = Some w \<Longrightarrow> 1 \<le> w \<and> w \<le> length s \<and> w \<le> 4"
  by (cases s) (auto split: if_splits list.splits)

declare decode_width.simps(2) [simp del]

lemma rune_width_pos [simp]: "0 < rune_width s"
  by (auto simp: rune_width_def split: option.splits dest: decode_width_range)

lemma rune_width_le: "s \<noteq> [] \<Longrightarrow> rune_width s \<le> length s"
  using decode_width_range [of s] by (cases "decode_width s") (auto simp: rune_width_def Suc_le_eq)

lemma drop_rune_shorter [termination_simp]: "s \<noteq> [] \<Longrightarrow> length (drop (rune_width s) s) < length s"
  by (cases s) auto

text \<open>\<open>utf8.ValidString\<close> and the number of runes.\<close>

function valid_utf8 :: "string \<Rightarrow> bool" where
  "valid_utf8 s =
     (if s = [] then True else if decode_width s = None then False
      else valid_utf8 (drop (rune_width s) s))"
  by pat_completeness auto
termination by (relation "measure length") (auto intro: drop_rune_shorter [simplified])

function rune_count :: "string \<Rightarrow> nat" where
  "rune_count s = (if s = [] then 0 else Suc (rune_count (drop (rune_width s) s)))"
  by pat_completeness auto
termination by (relation "measure length") (auto intro: drop_rune_shorter [simplified])

declare valid_utf8.simps [simp del] rune_count.simps [simp del]

lemma valid_utf8_Nil [simp]: "valid_utf8 []"
  by (simp add: valid_utf8.simps)

lemma rune_count_Nil [simp]: "rune_count [] = 0"
  by (simp add: rune_count.simps)

section \<open>Bounding text\<close>

text \<open>
  \<open>truncateRunes\<close>: the range loop stops at the byte index of the rune that would be the
  \<open>limit\<close>-th, counting from 0.
\<close>

function runes_prefix :: "nat \<Rightarrow> string \<Rightarrow> string" where
  "runes_prefix limit s =
     (if s = [] \<or> limit = 0 then []
      else take (rune_width s) s @ runes_prefix (limit - 1) (drop (rune_width s) s))"
  by pat_completeness auto
termination by (relation "measure fst") auto

declare runes_prefix.simps [simp del]

definition truncateRunes :: "string \<Rightarrow> int \<Rightarrow> string" where
  "truncateRunes text limit = (if limit \<le> 0 then [] else runes_prefix (nat limit) text)"

fun cut_back :: "string \<Rightarrow> nat \<Rightarrow> nat" where
  "cut_back text 0 = 0"
| "cut_back text (Suc n) = (if RuneStart (text ! Suc n) then Suc n else cut_back text n)"

definition truncateBytes :: "string \<Rightarrow> int \<Rightarrow> string" where
  "truncateBytes text limit =
     (if limit \<le> 0 then []
      else if int (length text) \<le> limit then text
      else take (cut_back text (nat limit)) text)"

text \<open>
  \<^verbatim>\<open>strings.ToValidUTF8(s, U+FFFD)\<close>: each maximal run of invalid bytes becomes one
  replacement rune. The flag says that the previous byte was invalid.
\<close>

definition replacement :: string where
  "replacement = [char_of (239::nat), char_of (191::nat), char_of (189::nat)]"

function to_valid :: "bool \<Rightarrow> string \<Rightarrow> string" where
  "to_valid bad s =
     (if s = [] then []
      else case decode_width s of
             None \<Rightarrow> (if bad then [] else replacement) @ to_valid True (tl s)
           | Some w \<Rightarrow> take (rune_width s) s @ to_valid False (drop (rune_width s) s))"
  by pat_completeness auto
termination by (relation "measure (length \<circ> snd)") (auto intro: drop_rune_shorter [simplified])

declare to_valid.simps [simp del]

definition cleanOptionalText :: "string option \<Rightarrow> int \<Rightarrow> (string \<Rightarrow> int \<Rightarrow> string) \<Rightarrow> string option" where
  "cleanOptionalText text limit truncate =
     (case text of
        None \<Rightarrow> None
      | Some t \<Rightarrow> Some (truncate (filter (\<lambda>c. byte_val c \<noteq> 0) (to_valid False t)) limit))"

section \<open>Facts\<close>

text \<open>The first rune depends only on its own bytes.\<close>

lemma decode_width_append:
  "decode_width s = Some w \<Longrightarrow> decode_width (s @ t) = Some w"
  by (cases s) (auto simp: decode_width.simps(2) split: if_splits list.splits)

lemma decode_width_take:
  "decode_width s = Some w \<Longrightarrow> decode_width (take w s) = Some w"
  by (cases s) (auto simp: decode_width.simps(2) split: if_splits list.splits)

lemma decode_width_take_append:
  "decode_width s = Some w \<Longrightarrow> decode_width (take w s @ t) = Some w"
  by (rule decode_width_append [OF decode_width_take])

lemma decode_shape:
  assumes "decode_width s = Some w"
  obtains a cs t where "s = a # cs @ t" "w = Suc (length cs)" "list_all is_cont cs" "RuneStart a"
proof -
  obtain a rest where s: "s = a # rest" using assms by (cases s) auto
  have start: "RuneStart a"
    using assms s by (auto simp: decode_width.simps(2) RuneStart_def is_cont_def in_bytes_def split: if_splits)
  have "\<exists>cs t. rest = cs @ t \<and> w = Suc (length cs) \<and> list_all is_cont cs"
  proof -
    consider "w = 1" | b t where "rest = b # t" "is_cont b" "w = 2"
      | b c t where "rest = b # c # t" "is_cont b" "is_cont c" "w = 3"
      | b c d t where "rest = b # c # d # t" "is_cont b" "is_cont c" "is_cont d" "w = 4"
      using assms s by (auto simp: decode_width.simps(2) split: if_splits list.splits)
    then show ?thesis
    proof cases
      case 1 then show ?thesis by (intro exI [of _ "[]"] exI [of _ rest]) simp
    next
      case (2 b t) then show ?thesis by (intro exI [of _ "[b]"] exI [of _ t]) simp
    next
      case (3 b c t) then show ?thesis by (intro exI [of _ "[b, c]"] exI [of _ t]) simp
    next
      case (4 b c d t) then show ?thesis by (intro exI [of _ "[b, c, d]"] exI [of _ t]) simp
    qed
  qed
  with s start that show thesis by blast
qed

lemma decode_first_start: "decode_width s = Some w \<Longrightarrow> RuneStart (s ! 0)"
  by (erule decode_shape) simp

lemma decode_inner_cont:
  assumes "decode_width s = Some w" "0 < i" "i < w"
  shows "is_cont (s ! i)"
proof -
  obtain a cs t where s: "s = a # cs @ t" "w = Suc (length cs)" "list_all is_cont cs"
    using assms(1) by (rule decode_shape)
  obtain j where j: "i = Suc j" "j < length cs"
    using assms(2,3) s(2) by (cases i) auto
  then show ?thesis using s(1,3) by (simp add: nth_append list_all_length)
qed

lemma valid_utf8_rune:
  "decode_width s = Some w \<Longrightarrow> valid_utf8 (take w s @ t) \<longleftrightarrow> valid_utf8 t"
  using decode_width_range [of s w]
  by (subst valid_utf8.simps)
    (auto simp: decode_width_take_append rune_width_def min_absorb2)

lemma rune_count_rune:
  "decode_width s = Some w \<Longrightarrow> rune_count (take w s @ t) = Suc (rune_count t)"
  using decode_width_range [of s w]
  by (subst rune_count.simps)
    (auto simp: decode_width_take_append rune_width_def min_absorb2)

lemma valid_utf8_induct [consumes 1, case_names Nil Rune]:
  assumes "valid_utf8 s" and "P []"
    and "\<And>s w. decode_width s = Some w \<Longrightarrow> rune_width s = w \<Longrightarrow> s \<noteq> [] \<Longrightarrow>
          valid_utf8 (drop w s) \<Longrightarrow> P (drop w s) \<Longrightarrow> P s"
  shows "P s"
  using assms(1)
proof (induction s rule: length_induct)
  case (1 s)
  show ?case
  proof (cases "s = []")
    case False
    with 1(2) obtain w where w: "decode_width s = Some w" "valid_utf8 (drop (rune_width s) s)"
      using valid_utf8.simps [of s] by (auto split: if_splits)
    then have r: "rune_width s = w" by (simp add: rune_width_def)
    have "P (drop w s)"
      using 1(1) drop_rune_shorter [OF False] w(2) unfolding r by blast
    with w r False show ?thesis by (intro assms(3) [of s w]) simp_all
  qed (simp add: assms(2))
qed

lemma rune_count_le: "rune_count s \<le> length s"
proof (induction s rule: rune_count.induct)
  case (1 s)
  show ?case
  proof (cases "s = []")
    case False
    with 1 have "rune_count (drop (rune_width s) s) \<le> length (drop (rune_width s) s)" by simp
    with drop_rune_shorter [OF False] have "Suc (rune_count (drop (rune_width s) s)) \<le> length s"
      by linarith
    with False show ?thesis by (subst rune_count.simps) simp
  qed simp
qed

lemma runes_prefix_valid:
  "valid_utf8 s \<Longrightarrow> valid_utf8 (runes_prefix n s) \<and> rune_count (runes_prefix n s) = min n (rune_count s)
     \<and> (\<exists>t. s = runes_prefix n s @ t)"
proof (induction s arbitrary: n rule: valid_utf8_induct)
  case Nil
  then show ?case by (simp add: runes_prefix.simps)
next
  case (Rune s w)
  show ?case
  proof (cases n)
    case (Suc k)
    let ?r = "runes_prefix k (drop w s)"
    have eq: "runes_prefix n s = take w s @ ?r"
      using Rune Suc by (subst runes_prefix.simps) simp
    have count: "rune_count s = Suc (rune_count (drop w s))"
      using Rune by (subst rune_count.simps) simp
    obtain t where "drop w s = ?r @ t" using Rune.IH by blast
    then have "s = (take w s @ ?r) @ t" by (metis append_assoc append_take_drop_id)
    with Rune.IH [of k] show ?thesis
      unfolding eq count using Suc
      by (simp add: valid_utf8_rune [OF Rune.hyps(1)] rune_count_rune [OF Rune.hyps(1)]) blast
  qed (simp add: runes_prefix.simps)
qed

lemma truncateRunes_valid:
  assumes "valid_utf8 s" and "0 \<le> limit"
  shows "valid_utf8 (truncateRunes s limit)" "int (rune_count (truncateRunes s limit)) \<le> limit"
  using runes_prefix_valid [OF assms(1), of "nat limit"] assms(2) by (auto simp: truncateRunes_def)

text \<open>A cut at a rune start of valid text leaves valid text.\<close>

lemma valid_utf8_take_start:
  "valid_utf8 s \<Longrightarrow> n < length s \<Longrightarrow> RuneStart (s ! n) \<Longrightarrow> valid_utf8 (take n s)"
proof (induction s arbitrary: n rule: valid_utf8_induct)
  case (Rune s w)
  consider "n = 0" | "0 < n" "n < w" | "w \<le> n" by linarith
  then show ?case
  proof cases
    case 2
    from decode_inner_cont [OF Rune.hyps(1) 2] Rune.prems(2) show ?thesis by (simp add: RuneStart_def)
  next
    case 3
    then have "take n s = take w s @ take (n - w) (drop w s)"
      by (metis append_take_drop_id le_add_diff_inverse take_add)
    moreover have "valid_utf8 (take (n - w) (drop w s))"
      using Rune.prems 3 by (intro Rune.IH) (auto simp: nth_drop)
    ultimately show ?thesis by (simp add: valid_utf8_rune [OF Rune.hyps(1)])
  qed simp
qed simp

lemma valid_utf8_first: "valid_utf8 s \<Longrightarrow> s \<noteq> [] \<Longrightarrow> RuneStart (s ! 0)"
  using valid_utf8.simps [of s] by (auto split: if_splits dest: decode_first_start)

lemma cut_back_le: "cut_back s n \<le> n"
  by (induction n) (auto intro: le_SucI)

lemma cut_back_start: "valid_utf8 s \<Longrightarrow> s \<noteq> [] \<Longrightarrow> RuneStart (s ! cut_back s n)"
  by (induction n) (auto simp: valid_utf8_first)

lemma truncateBytes_valid:
  assumes "valid_utf8 s" and "0 \<le> limit"
  shows "valid_utf8 (truncateBytes s limit)" "int (length (truncateBytes s limit)) \<le> limit"
proof -
  show "int (length (truncateBytes s limit)) \<le> limit"
    using cut_back_le [of s "nat limit"] assms(2) by (auto simp: truncateBytes_def)
  show "valid_utf8 (truncateBytes s limit)"
  proof (cases "0 < limit \<and> limit < int (length s)")
    case True
    then have "cut_back s (nat limit) < length s" "s \<noteq> []"
      using cut_back_le [of s "nat limit"] by auto
    then have "valid_utf8 (take (cut_back s (nat limit)) s)"
      using assms(1) by (intro valid_utf8_take_start cut_back_start)
    with True show ?thesis by (simp add: truncateBytes_def)
  next
    case False
    with assms show ?thesis by (auto simp: truncateBytes_def)
  qed
qed

lemma valid_utf8_replacement: "valid_utf8 (replacement @ t) \<longleftrightarrow> valid_utf8 t"
  using valid_utf8_rune [of replacement 3 t]
  by (simp add: replacement_def decode_width.simps(2) in_bytes_def is_cont_def)

lemma to_valid_valid: "valid_utf8 (to_valid bad s)"
proof (induction bad s rule: to_valid.induct)
  case (1 bad s)
  show ?case
  proof (cases "s = []")
    case False
    show ?thesis
    proof (cases "decode_width s")
      case None
      with 1(1) False show ?thesis
        by (simp add: to_valid.simps [of bad s] valid_utf8_replacement)
    next
      case (Some w)
      then have "rune_width s = w" by (simp add: rune_width_def)
      with 1(2) [OF False Some] False Some show ?thesis
        by (simp add: to_valid.simps [of bad s] valid_utf8_rune [OF Some])
    qed
  qed (simp add: to_valid.simps)
qed

text \<open>Dropping the NUL bytes of valid text leaves valid text: NUL is a rune of its own.\<close>

abbreviation drop_nul :: "string \<Rightarrow> string" where
  "drop_nul s \<equiv> filter (\<lambda>c. byte_val c \<noteq> 0) s"

lemma drop_nul_rune:
  assumes "decode_width s = Some w"
  shows "drop_nul (take w s) = (if w = 1 \<and> byte_val (hd s) = 0 then [] else take w s)"
proof -
  obtain a cs t where s: "s = a # cs @ t" "w = Suc (length cs)" "list_all is_cont cs" "RuneStart a"
    using assms by (rule decode_shape)
  have cs: "drop_nul cs = cs"
    using s(3) by (auto simp: filter_id_conv list_all_iff is_cont_def)
  have "cs = [] \<or> byte_val a \<noteq> 0"
    using assms s(1,2) by (auto simp: decode_width.simps(2) split: if_splits)
  with s cs show ?thesis by auto
qed

lemma drop_nul_valid: "valid_utf8 s \<Longrightarrow> valid_utf8 (drop_nul s)"
proof (induction s rule: valid_utf8_induct)
  case (Rune s w)
  have "drop_nul s = drop_nul (take w s) @ drop_nul (drop w s)"
    by (metis append_take_drop_id filter_append)
  then show ?case
    using Rune.IH drop_nul_rune [OF Rune.hyps(1)] valid_utf8_rune [OF Rune.hyps(1)] by auto
qed simp

lemmas text_valid = truncateRunes_valid truncateBytes_valid drop_nul_valid to_valid_valid

end
