(* ===== verification/Message_Validate.thy ===== *)
theory Message_Validate
  imports Message_Types Utf8 Env_Int
begin

text \<open>
  Envelope validation and content equality (\<^verbatim>\<open>delivery-api/internal/message\<close>: validate.go,
  email.go, equality.go) and the person hash (\<^verbatim>\<open>internal/personhash\<close>). Byte loops with an index
  become recursion on the bytes that remain. \<open>text_lib\<close> holds what these functions take from
  outside: the URL parser, the JSON checker and decoder, Unicode lower-casing, the exact value of a
  number literal, and SHA-256.
\<close>

datatype json =
    JObject "(string \<times> json) list" \<comment> \<open>a decoded map: distinct keys\<close>
  | JArray "json list"
  | JNumber string
  | JString string
  | JBool bool
  | JNull

record text_lib =
  tl_url_parse :: "string \<Rightarrow> parsed_url option"
  tl_json_valid :: "string \<Rightarrow> bool"
  tl_json_decode :: "string \<Rightarrow> json option"
  tl_rat :: "string \<Rightarrow> rat option"
  tl_lower :: "string \<Rightarrow> string"
  tl_sha256 :: "string \<Rightarrow> string"

type_synonym msg_checked = "message_error + unit"

abbreviation msg_invalid :: "string \<Rightarrow> message_error + 'a" where
  "msg_invalid text \<equiv> Inl (MessageValidation text)"

section \<open>White space\<close>

text \<open>\<^verbatim>\<open>strings.TrimSpace\<close>: the longest blank prefix and the longest blank suffix are removed.\<close>

definition trim_left :: "string \<Rightarrow> string" where
  "trim_left s = (case find (\<lambda>n. blank (take n s)) (rev [0..<Suc (length s)]) of None \<Rightarrow> s | Some n \<Rightarrow> drop n s)"

definition trim_right :: "string \<Rightarrow> string" where
  "trim_right s = (case find (\<lambda>n. blank (drop n s)) [0..<Suc (length s)] of None \<Rightarrow> s | Some n \<Rightarrow> take n s)"

definition TrimSpace :: "string \<Rightarrow> string" where
  "TrimSpace s = trim_right (trim_left s)"

definition has_space :: "string \<Rightarrow> bool" where
  "has_space s \<longleftrightarrow>
     list_ex (\<lambda>i. list_ex (\<lambda>w. i + w \<le> length s \<and> blank (take w (drop i s))) [1, 2, 3]) [0..<length s]"

text \<open>An evaluation of \<open>TrimSpace\<close> that looks at the ends first.\<close>

definition plain_char :: "char \<Rightarrow> bool" where
  "plain_char c \<longleftrightarrow> 33 \<le> byte c \<and> byte c < 127"

lemma blank_bytes_ends:
  "blank_bytes bs \<Longrightarrow> bs \<noteq> [] \<Longrightarrow> (hd bs < 33 \<or> 127 \<le> hd bs) \<and> (last bs < 33 \<or> 127 \<le> last bs)"
  by (induction bs rule: blank_bytes.induct) (auto simp: ascii_space_def split: if_splits)

lemma blank_ends: "blank s \<Longrightarrow> s \<noteq> [] \<Longrightarrow> \<not> plain_char (hd s) \<and> \<not> plain_char (last s)"
  using blank_bytes_ends [of "map byte s"] by (auto simp: blank_def plain_char_def hd_map last_map)

lemma trim_left_plain: "s \<noteq> [] \<Longrightarrow> plain_char (hd s) \<Longrightarrow> trim_left s = s"
proof (cases "find (\<lambda>n. blank (take n s)) (rev [0..<Suc (length s)])")
  case (Some n)
  assume s: "s \<noteq> []" "plain_char (hd s)"
  from find_Some_in [OF Some] have "blank (take n s)" by blast
  with s blank_ends [of "take n s"] have "n = 0" by (cases n) auto
  with Some show ?thesis by (simp add: trim_left_def)
qed (simp add: trim_left_def)

lemma trim_right_plain: "s \<noteq> [] \<Longrightarrow> plain_char (last s) \<Longrightarrow> trim_right s = s"
proof (cases "find (\<lambda>n. blank (drop n s)) [0..<Suc (length s)]")
  case (Some n)
  assume s: "s \<noteq> []" "plain_char (last s)"
  from find_Some_in [OF Some] have "blank (drop n s)" by blast
  with s blank_ends [of "drop n s"] have "length s \<le> n" by (cases "n < length s") auto
  with Some show ?thesis by (simp add: trim_right_def)
qed (simp add: trim_right_def)

lemma TrimSpace_code [code]:
  "TrimSpace s = (if s \<noteq> [] \<and> plain_char (hd s) \<and> plain_char (last s) then s else trim_right (trim_left s))"
  by (simp add: TrimSpace_def trim_left_plain trim_right_plain)

section \<open>Person hash and email\<close>

definition is_base32 :: "char \<Rightarrow> bool" where
  "is_base32 c \<longleftrightarrow> is_lower c \<or> (CHR ''2'' \<le> c \<and> c \<le> CHR ''7'')"

definition IsHash :: "string \<Rightarrow> bool" where
  "IsHash value \<longleftrightarrow> length value = 16 \<and> list_all is_base32 value"

definition Normalize :: "text_lib \<Rightarrow> string \<Rightarrow> string" where
  "Normalize lib email = tl_lower lib (TrimSpace email)"

text \<open>
  The first 16 characters of the base32 encoding of a digest are the 16 five-bit groups of its first
  10 bytes, most significant first; lower-casing maps the alphabet to \<^verbatim>\<open>a-z2-7\<close>.
\<close>

definition base32_alphabet :: string where
  "base32_alphabet = ''abcdefghijklmnopqrstuvwxyz234567''"

definition be_number :: "string \<Rightarrow> nat" where
  "be_number bytes = foldl (\<lambda>acc c. acc * 256 + of_char c) 0 bytes"

definition base32_16 :: "string \<Rightarrow> string" where
  "base32_16 digest =
     map (\<lambda>i. base32_alphabet ! (be_number (take 10 digest) div 32 ^ (15 - i) mod 32)) [0..<16]"

definition Hash :: "text_lib \<Rightarrow> string \<Rightarrow> string" where
  "Hash lib email = base32_16 (tl_sha256 lib (Normalize lib email))"

definition PersonChannelTopic :: "string \<Rightarrow> string \<Rightarrow> string \<Rightarrow> string" where
  "PersonChannelTopic appID hash channel = appID @ ''-'' @ hash @ ''-'' @ channel"

definition isValidEmail :: "text_lib \<Rightarrow> string \<Rightarrow> bool" where
  "isValidEmail lib email =
     (let normalized = tl_lower lib (TrimSpace email)
      in normalized \<noteq> [] \<and> length normalized \<le> 254 \<and> \<not> has_space normalized
         \<and> length (filter (\<lambda>c. c = CHR ''@'') normalized) = 1
         \<and> takeWhile (\<lambda>c. c \<noteq> CHR ''@'') normalized \<noteq> []
         \<and> tl (dropWhile (\<lambda>c. c \<noteq> CHR ''@'') normalized) \<noteq> [])"

section \<open>Names and targets\<close>

definition ValidateAppID :: "string \<Rightarrow> msg_checked" where
  "ValidateAppID appID = (if app_id_valid appID then Inr () else msg_invalid ''invalid app_id'')"

definition ValidateChannel :: "string \<Rightarrow> msg_checked" where
  "ValidateChannel channel = (if slug 31 channel then Inr () else msg_invalid ''invalid channel'')"

definition ValidateIdempotencyKey :: "string \<Rightarrow> msg_checked" where
  "ValidateIdempotencyKey key =
     (if 1 \<le> length key \<and> length key \<le> 200 \<and> list_all (\<lambda>c. CHR ''!'' \<le> c \<and> c \<le> CHR ''~'') key
      then Inr () else msg_invalid ''invalid idempotency_key'')"

definition ValidateTo :: "text_lib \<Rightarrow> string \<Rightarrow> string \<Rightarrow> msg_checked" where
  "ValidateTo lib toDestination toRecipient =
     (if toDestination \<noteq> [] \<and> toRecipient \<noteq> []
      then msg_invalid ''to.destination and to.recipient cannot both be set''
      else if toRecipient \<noteq> [] then
        (if \<not> IsHash toRecipient \<and> \<not> isValidEmail lib toRecipient
         then msg_invalid ''to.recipient must be an email or person_hash'' else Inr ())
      else if toDestination \<noteq> [] \<and> ValidateDestinationName toDestination \<noteq> Inr ()
      then msg_invalid ''invalid to.destination'' else Inr ())"

text \<open>9999-12-31T23:59:59Z: 3652058 days after the zero time, less a second of the next day.\<close>

definition maxDeliverAt :: time where
  "maxDeliverAt = (3652058 * 86400 + 86399) * Second"

definition ValidateDeliverAt :: "time option \<Rightarrow> msg_checked" where
  "ValidateDeliverAt deliverAt =
     (case deliverAt of
        None \<Rightarrow> Inr ()
      | Some t \<Rightarrow> if IsZero t \<or> t < 0 \<or> t > maxDeliverAt then msg_invalid ''invalid deliver_at'' else Inr ())"

section \<open>Payload\<close>

definition isNumberLiteralByte :: "char \<Rightarrow> bool" where
  "isNumberLiteralByte c \<longleftrightarrow> is_digit c \<or> c \<in> {CHR ''-'', CHR ''+'', CHR ''.'', CHR ''e'', CHR ''E''}"

text \<open>\<^verbatim>\<open>strings.Cut\<close> at the first \<open>c\<close>: before, after, found.\<close>

definition cut :: "char \<Rightarrow> string \<Rightarrow> string \<times> string \<times> bool" where
  "cut c s = (takeWhile (\<lambda>x. x \<noteq> c) s, tl (dropWhile (\<lambda>x. x \<noteq> c) s), c \<in> set s)"

definition numericMaxIntegerDigits :: int where "numericMaxIntegerDigits = 131072"
definition numericMaxScale :: int where "numericMaxScale = 16383"

definition exponent_value :: "string \<Rightarrow> int option" where
  "exponent_value text =
     (let negative = (text \<noteq> [] \<and> hd text = CHR ''-'');
          digits = dropWhile (\<lambda>c. c = CHR ''0'') (dropWhile (\<lambda>c. c = CHR ''+'' \<or> c = CHR ''-'') text)
      in if length digits > 7 then None
         else if digits = [] then Some 0
         else case Atoi digits of None \<Rightarrow> None | Some n \<Rightarrow> Some (if negative then - n else n))"

definition numberLiteralStorable :: "string \<Rightarrow> bool" where
  "numberLiteralStorable literal =
     (case cut (CHR ''e'') (map to_lower literal) of (mantissa, exponentText, hasExponent) \<Rightarrow>
        case (if hasExponent then exponent_value exponentText else Some 0) of
          None \<Rightarrow> False
        | Some exponent \<Rightarrow>
            (let body = (if mantissa \<noteq> [] \<and> hd mantissa = CHR ''-'' then tl mantissa else mantissa);
                 (integerPart, fractionPart, _) = cut (CHR ''.'') body;
                 integerDigits = int (length (dropWhile (\<lambda>c. c = CHR ''0'') integerPart))
                                 + (if exponent > 0 then exponent else 0);
                 scale = int (length fractionPart) - exponent
             in integerDigits \<le> numericMaxIntegerDigits \<and> scale \<le> numericMaxScale))"

text \<open>What follows the closing quote of a string whose opening quote has been read.\<close>

fun after_string :: "string \<Rightarrow> string" where
  "after_string [] = []"
| "after_string (c # cs) =
     (if c = CHR 0x5C then (case cs of [] \<Rightarrow> [] | _ # rest \<Rightarrow> after_string rest)
      else if c = CHR 0x22 then cs
      else after_string cs)"

lemma after_string_length: "length (after_string s) \<le> length s"
proof (induction s rule: after_string.induct)
  case (2 c cs)
  show ?case
  proof (cases "c = CHR 0x5C")
    case True
    with 2 show ?thesis by (cases cs) (simp_all add: le_SucI)
  next
    case False
    with 2 show ?thesis by (simp add: le_SucI)
  qed
qed simp

function numberLiteralsStorable :: "string \<Rightarrow> bool" where
  "numberLiteralsStorable [] = True"
| "numberLiteralsStorable (c # cs) =
     (if c = CHR 0x22 then numberLiteralsStorable (after_string cs)
      else if c = CHR ''-'' \<or> is_digit c then
        numberLiteralStorable (c # takeWhile isNumberLiteralByte cs)
        \<and> numberLiteralsStorable (dropWhile isNumberLiteralByte cs)
      else numberLiteralsStorable cs)"
  by pat_completeness auto
termination
  by (relation "measure length")
    (auto simp: le_imp_less_Suc after_string_length length_dropWhile_le)

definition hex_value :: "char \<Rightarrow> nat option" where
  "hex_value c =
     (if is_digit c then Some (of_char c - 48)
      else if CHR ''a'' \<le> c \<and> c \<le> CHR ''f'' then Some (of_char c - 87)
      else if CHR ''A'' \<le> c \<and> c \<le> CHR ''F'' then Some (of_char c - 55)
      else None)"

fun parseUnicodeEscape :: "string \<Rightarrow> nat option" where
  "parseUnicodeEscape (s # u # a # b # c # d # _) =
     (if s = CHR 0x5C \<and> u = CHR ''u'' then
        (case (hex_value a, hex_value b, hex_value c, hex_value d) of
           (Some w, Some x, Some y, Some z) \<Rightarrow> Some (((w * 16 + x) * 16 + y) * 16 + z)
         | _ \<Rightarrow> None)
      else None)"
| "parseUnicodeEscape _ = None"

function unicodeEscapesStorable :: "string \<Rightarrow> bool" where
  "unicodeEscapesStorable [] = True"
| "unicodeEscapesStorable (c # cs) =
     (if c \<noteq> CHR 0x5C then unicodeEscapesStorable cs
      else if cs \<noteq> [] \<and> hd cs \<noteq> CHR ''u'' then unicodeEscapesStorable (tl cs)
      else case parseUnicodeEscape (c # cs) of
        None \<Rightarrow> False
      | Some unit \<Rightarrow>
          if unit = 0 then False
          else if 0xD800 \<le> unit \<and> unit \<le> 0xDBFF then
            (case parseUnicodeEscape (drop 5 cs) of
               None \<Rightarrow> False
             | Some low \<Rightarrow> 0xDC00 \<le> low \<and> low \<le> 0xDFFF \<and> unicodeEscapesStorable (drop 11 cs))
          else if 0xDC00 \<le> unit \<and> unit \<le> 0xDFFF then False
          else unicodeEscapesStorable (drop 5 cs))"
  by pat_completeness auto
termination by (relation "measure length") auto

definition MaxPayloadBytes :: int where "MaxPayloadBytes = 131072"

definition ValidatePayload :: "text_lib \<Rightarrow> string \<Rightarrow> msg_checked" where
  "ValidatePayload lib payload =
     (if int (length payload) > MaxPayloadBytes then msg_invalid ''payload too large''
      else
        (let trimmed = TrimSpace payload
         in if trimmed = [] \<or> hd trimmed \<noteq> CHR ''{'' \<or> \<not> tl_json_valid lib trimmed
            then msg_invalid ''invalid payload''
            else if \<not> valid_utf8 trimmed \<or> \<not> unicodeEscapesStorable trimmed
                    \<or> \<not> numberLiteralsStorable trimmed
            then msg_invalid ''invalid payload''
            else Inr ()))"

section \<open>Display\<close>

text \<open>Control characters of valid UTF-8 text: the C0 range, DEL, and the C1 range (lead byte 0xC2).\<close>

fun no_controls :: "bool \<Rightarrow> nat list \<Rightarrow> bool" where
  "no_controls breaks [] = True"
| "no_controls breaks [b] = (if b < 32 \<or> b = 127 then breaks \<and> b \<in> {9, 10, 13} else True)"
| "no_controls breaks (a # b # bs) =
     (if a < 32 \<or> a = 127 then breaks \<and> a \<in> {9, 10, 13} \<and> no_controls breaks (b # bs)
      else if a = 194 \<and> 128 \<le> b \<and> b \<le> 159 then False
      else no_controls breaks (b # bs))"

definition validDisplayText :: "string \<Rightarrow> bool \<Rightarrow> bool" where
  "validDisplayText text breaks \<longleftrightarrow> valid_utf8 text \<and> no_controls breaks (map byte text)"

definition validDisplayURL :: "text_lib \<Rightarrow> string \<Rightarrow> bool" where
  "validDisplayURL lib rawURL \<longleftrightarrow>
     length rawURL \<le> 2048
     \<and> (case tl_url_parse lib rawURL of None \<Rightarrow> False
        | Some p \<Rightarrow> pu_Scheme p = ''https'' \<and> pu_Hostname p \<noteq> [] \<and> \<not> pu_HasUser p)"

definition displayPriorities :: "string list" where
  "displayPriorities = [''min'', ''low'', ''default'', ''high'', ''urgent'']"

definition ValidateDisplay :: "text_lib \<Rightarrow> display option \<Rightarrow> msg_checked" where
  "ValidateDisplay lib display =
     (case display of
        None \<Rightarrow> Inr ()
      | Some d \<Rightarrow>
          if length (dp_Title d) > 250 \<or> \<not> validDisplayText (dp_Title d) False
          then msg_invalid ''invalid display.title''
          else if length (dp_Body d) > 4096 \<or> \<not> validDisplayText (dp_Body d) True
          then msg_invalid ''invalid display.body''
          else if dp_URL d \<noteq> [] \<and> \<not> validDisplayURL lib (dp_URL d) then msg_invalid ''invalid display.url''
          else if dp_Priority d \<noteq> [] \<and> dp_Priority d \<notin> set displayPriorities
          then msg_invalid ''invalid display.priority''
          else Inr ())"

definition ValidateEnvelope :: "text_lib \<Rightarrow> envelope \<Rightarrow> msg_checked" where
  "ValidateEnvelope lib e =
     (case ValidateAppID (en_AppID e) of Inl x \<Rightarrow> Inl x | Inr _ \<Rightarrow>
      case ValidateChannel (en_Channel e) of Inl x \<Rightarrow> Inl x | Inr _ \<Rightarrow>
      case ValidateIdempotencyKey (en_IdempotencyKey e) of Inl x \<Rightarrow> Inl x | Inr _ \<Rightarrow>
      case ValidateTo lib (en_ToDestination e) (en_ToRecipient e) of Inl x \<Rightarrow> Inl x | Inr _ \<Rightarrow>
      case ValidateDeliverAt (en_DeliverAt e) of Inl x \<Rightarrow> Inl x | Inr _ \<Rightarrow>
      case ValidatePayload lib (en_Payload e) of Inl x \<Rightarrow> Inl x | Inr _ \<Rightarrow>
      ValidateDisplay lib (en_Display e))"

section \<open>Content equality\<close>

definition sameDeliverAt :: "time option \<Rightarrow> time option \<Rightarrow> bool" where
  "sameDeliverAt stored submitted =
     (case (stored, submitted) of
        (Some a, Some b) \<Rightarrow> time_truncate a Microsecond = time_truncate b Microsecond
      | _ \<Rightarrow> stored = None \<and> submitted = None)"

definition zero_display :: display where
  "zero_display = \<lparr>dp_Title = [], dp_Body = [], dp_URL = [], dp_Priority = []\<rparr>"

definition sameDisplay :: "display option \<Rightarrow> display option \<Rightarrow> bool" where
  "sameDisplay stored submitted =
     ((case stored of None \<Rightarrow> zero_display | Some d \<Rightarrow> d)
      = (case submitted of None \<Rightarrow> zero_display | Some d \<Rightarrow> d))"

definition sameJSONNumber :: "(string \<Rightarrow> rat option) \<Rightarrow> string \<Rightarrow> string \<Rightarrow> bool" where
  "sameJSONNumber rat_of left right =
     (if left = right then True
      else case (rat_of left, rat_of right) of (Some a, Some b) \<Rightarrow> a = b | _ \<Rightarrow> False)"

fun sameJSONValue :: "(string \<Rightarrow> rat option) \<Rightarrow> json \<Rightarrow> json \<Rightarrow> bool"
  and same_fields :: "(string \<Rightarrow> rat option) \<Rightarrow> (string \<times> json) list \<Rightarrow> (string \<times> json) list \<Rightarrow> bool"
  and same_items :: "(string \<Rightarrow> rat option) \<Rightarrow> json list \<Rightarrow> json list \<Rightarrow> bool" where
  "sameJSONValue rat_of (JObject l) right =
     (case right of JObject r \<Rightarrow> length l = length r \<and> same_fields rat_of l r | _ \<Rightarrow> False)"
| "sameJSONValue rat_of (JArray l) right =
     (case right of JArray r \<Rightarrow> same_items rat_of l r | _ \<Rightarrow> False)"
| "sameJSONValue rat_of (JNumber l) right =
     (case right of JNumber r \<Rightarrow> sameJSONNumber rat_of l r | _ \<Rightarrow> False)"
| "sameJSONValue rat_of (JString l) right = (right = JString l)"
| "sameJSONValue rat_of (JBool l) right = (right = JBool l)"
| "sameJSONValue rat_of JNull right = (right = JNull)"
| "same_fields rat_of [] r = True"
| "same_fields rat_of ((key, item) # l) r =
     ((case map_of r key of None \<Rightarrow> False | Some right \<Rightarrow> sameJSONValue rat_of item right) \<and> same_fields rat_of l r)"
| "same_items rat_of [] r = (r = [])"
| "same_items rat_of (x # xs) r = (case r of [] \<Rightarrow> False | y # ys \<Rightarrow> sameJSONValue rat_of x y \<and> same_items rat_of xs ys)"

definition samePayload :: "text_lib \<Rightarrow> string \<Rightarrow> string \<Rightarrow> bool" where
  "samePayload lib stored submitted =
     (case (tl_json_decode lib stored, tl_json_decode lib submitted) of
        (Some a, Some b) \<Rightarrow> sameJSONValue (tl_rat lib) a b
      | _ \<Rightarrow> False)"

definition sameContent :: "text_lib \<Rightarrow> envelope \<Rightarrow> envelope \<Rightarrow> bool" where
  "sameContent lib stored submitted \<longleftrightarrow>
     en_Channel stored = en_Channel submitted
     \<and> en_ToDestination stored = en_ToDestination submitted
     \<and> en_ToRecipient stored = en_ToRecipient submitted
     \<and> en_Critical stored = en_Critical submitted
     \<and> sameDeliverAt (en_DeliverAt stored) (en_DeliverAt submitted)
     \<and> samePayload lib (en_Payload stored) (en_Payload submitted)
     \<and> sameDisplay (en_Display stored) (en_Display submitted)"

section \<open>Facts\<close>

lemma base32_alphabet_ok: "n < 32 \<Longrightarrow> is_base32 (base32_alphabet ! n)"
proof -
  have "list_all is_base32 base32_alphabet" "length base32_alphabet = 32" by code_simp+
  then show "n < 32 \<Longrightarrow> is_base32 (base32_alphabet ! n)" by (simp add: list_all_length)
qed

lemma Hash_IsHash: "IsHash (Hash lib email)"
  by (auto simp: Hash_def IsHash_def base32_16_def list_all_iff intro!: base32_alphabet_ok)

text \<open>A decoded document has distinct keys in every object.\<close>

fun json_wf :: "json \<Rightarrow> bool" where
  "json_wf (JObject l) = (distinct (map fst l) \<and> list_all (\<lambda>p. json_wf (snd p)) l)"
| "json_wf (JArray l) = list_all json_wf l"
| "json_wf _ = True"

lemma same_fields_all:
  "same_fields rat_of l r \<longleftrightarrow>
     (\<forall>(k, v) \<in> set l. case map_of r k of None \<Rightarrow> False | Some w \<Rightarrow> sameJSONValue rat_of v w)"
  by (induction l) auto

lemma same_items_refl: "(\<And>x. x \<in> set xs \<Longrightarrow> sameJSONValue rat_of x x) \<Longrightarrow> same_items rat_of xs xs"
  by (induction xs) auto

lemma sameJSONValue_refl: "json_wf j \<Longrightarrow> sameJSONValue rat_of j j"
proof (induction j)
  case (JObject l)
  then have d: "distinct (map fst l)" and wf: "\<And>k v. (k, v) \<in> set l \<Longrightarrow> json_wf v"
    by (auto simp: list_all_iff)
  have "map_of l k = Some v" if "(k, v) \<in> set l" for k v using d that by simp
  moreover have "sameJSONValue rat_of v v" if "(k, v) \<in> set l" for k v
    using JObject.IH [of "(k, v)" v] wf [OF that] that by simp
  ultimately have "same_fields rat_of l l" by (auto simp: same_fields_all)
  then show ?case by simp
next
  case (JArray l)
  then show ?case by (auto simp: list_all_iff intro!: same_items_refl)
qed (simp_all add: sameJSONNumber_def)

lemma sameContent_refl:
  assumes "tl_json_decode lib (en_Payload a) = Some j" "json_wf j"
    and "en_Channel b = en_Channel a" "en_ToDestination b = en_ToDestination a" "en_ToRecipient b = en_ToRecipient a"
      "en_Critical b = en_Critical a" "en_DeliverAt b = en_DeliverAt a" "en_Payload b = en_Payload a"
      "en_Display b = en_Display a"
  shows "sameContent lib a b"
  using assms sameJSONValue_refl [OF assms(2)]
  by (simp add: sameContent_def sameDeliverAt_def samePayload_def sameDisplay_def split: option.split)

lemma ValidateEnvelope_Inr:
  assumes "ValidateEnvelope lib e = Inr u"
  shows "slug 62 (en_AppID e)" "slug 31 (en_Channel e)" "ValidateIdempotencyKey (en_IdempotencyKey e) = Inr ()"
    "en_ToDestination e = [] \<or> en_ToRecipient e = []"
    "en_ToRecipient e \<noteq> [] \<Longrightarrow> IsHash (en_ToRecipient e) \<or> isValidEmail lib (en_ToRecipient e)"
    "en_ToDestination e \<noteq> [] \<Longrightarrow> slug 62 (en_ToDestination e)"
    "en_DeliverAt e = Some t \<Longrightarrow> 0 < t \<and> t \<le> maxDeliverAt"
    "ValidatePayload lib (en_Payload e) = Inr ()" "ValidateDisplay lib (en_Display e) = Inr ()"
  using assms
  by (auto simp: ValidateEnvelope_def ValidateAppID_def app_id_valid_def ValidateChannel_def ValidateTo_def
      ValidateDeliverAt_def ValidateDestinationName_def IsZero_def split: sum.splits if_splits)

end
