(* ===== verification/Seal.thy ===== *)
theory Seal
  imports Env_Int Message_Validate
begin

text \<open>
  Sealing of small secrets (\<^verbatim>\<open>delivery-api/internal/seal\<close>): the blob is a version byte, a nonce, and what
  AES-256-GCM makes of the plaintext. The cipher under a key is the parameter \<open>gcm\<close>, the bytes of the random
  source an argument. During a rotation a sealer holds a previous key beside its primary one.
\<close>

section \<open>Sealers\<close>

abbreviation KeySize :: nat where "KeySize \<equiv> 32"
abbreviation nonceSize :: nat where "nonceSize \<equiv> 12"
abbreviation tagSize :: nat where "tagSize \<equiv> 16"
abbreviation hexKeyLength :: nat where "hexKeyLength \<equiv> 2 * KeySize"
abbreviation formatVersion :: char where "formatVersion \<equiv> CHR 0x01"

definition EnvMasterKey :: string where "EnvMasterKey = ''DELIVERY_MASTER_KEY''"

definition EnvMasterKeyPrevious :: string where "EnvMasterKeyPrevious = ''DELIVERY_MASTER_KEY_PREVIOUS''"

datatype seal_error =
    ErrMalformed
  | ErrUnsupportedVersion
  | ErrDecrypt
  | PreviousEqualsPrimary
  | SealFailure string

datatype key_used = KeyPrimary | KeyPrevious

text \<open>A \<^verbatim>\<open>cipher.AEAD\<close>: sealing from nonce, plaintext and additional data, and opening from nonce, body and data.\<close>

record aead =
  ae_Seal :: "string \<Rightarrow> string \<Rightarrow> string \<Rightarrow> string"
  ae_Open :: "string \<Rightarrow> string \<Rightarrow> string \<Rightarrow> string option"

record sealer =
  sr_aead :: aead
  sr_previousAEAD :: "aead option"

definition newAEAD :: "(string \<Rightarrow> aead) \<Rightarrow> string \<Rightarrow> seal_error + aead" where
  "newAEAD gcm key = (if length key \<noteq> KeySize then Inl (SealFailure ''seal key must be 32 bytes'') else Inr (gcm key))"

definition New :: "(string \<Rightarrow> aead) \<Rightarrow> string \<Rightarrow> seal_error + sealer" where
  "New gcm key = (case newAEAD gcm key of Inl e \<Rightarrow> Inl e | Inr a \<Rightarrow> Inr \<lparr>sr_aead = a, sr_previousAEAD = None\<rparr>)"

definition NewWithPrevious :: "(string \<Rightarrow> aead) \<Rightarrow> string \<Rightarrow> string \<Rightarrow> seal_error + sealer" where
  "NewWithPrevious gcm primary previous =
     (if length primary = KeySize \<and> primary = previous then Inl PreviousEqualsPrimary
      else case New gcm primary of Inl e \<Rightarrow> Inl e
           | Inr s \<Rightarrow>
               (case newAEAD gcm previous of
                  Inl e \<Rightarrow> Inl (SealFailure ''previous key: seal key must be 32 bytes'')
                | Inr a \<Rightarrow> Inr (s\<lparr>sr_previousAEAD := Some a\<rparr>)))"

definition HasPrevious :: "sealer \<Rightarrow> bool" where
  "HasPrevious s \<longleftrightarrow> sr_previousAEAD s \<noteq> None"

definition PrimaryOnly :: "sealer \<Rightarrow> sealer" where
  "PrimaryOnly s = \<lparr>sr_aead = sr_aead s, sr_previousAEAD = None\<rparr>"

text \<open>\<open>random\<close> are the bytes the random source can give: \<^verbatim>\<open>io.ReadFull\<close> takes a whole nonce or fails.\<close>

definition sealer_Seal :: "sealer \<Rightarrow> string \<Rightarrow> string \<Rightarrow> string \<Rightarrow> seal_error + string" where
  "sealer_Seal s random plaintext aad =
     (if length random < nonceSize then Inl (SealFailure ''generate nonce'')
      else let nonce = take nonceSize random in Inr (formatVersion # nonce @ ae_Seal (sr_aead s) nonce plaintext aad))"

definition OpenReportingKey :: "sealer \<Rightarrow> string \<Rightarrow> string \<Rightarrow> seal_error + string \<times> key_used" where
  "OpenReportingKey s box aad =
     (if length box < 1 + nonceSize + tagSize then Inl ErrMalformed
      else if hd box \<noteq> formatVersion then Inl ErrUnsupportedVersion
      else let nonce = take nonceSize (tl box); body = drop (1 + nonceSize) box
           in case ae_Open (sr_aead s) nonce body aad of
                Some plaintext \<Rightarrow> Inr (plaintext, KeyPrimary)
              | None \<Rightarrow>
                  (case sr_previousAEAD s of
                     None \<Rightarrow> Inl ErrDecrypt
                   | Some previous \<Rightarrow>
                       (case ae_Open previous nonce body aad of
                          Some plaintext \<Rightarrow> Inr (plaintext, KeyPrevious)
                        | None \<Rightarrow> Inl ErrDecrypt)))"

definition sealer_Open :: "sealer \<Rightarrow> string \<Rightarrow> string \<Rightarrow> seal_error + string" where
  "sealer_Open s box aad = map_sum id fst (OpenReportingKey s box aad)"

section \<open>Keys from the environment\<close>

fun hex_decode :: "string \<Rightarrow> string option" where
  "hex_decode [] = Some []"
| "hex_decode [c] = None"
| "hex_decode (a # b # rest) =
     (case (hex_value a, hex_value b, hex_decode rest) of
        (Some h, Some l, Some bytes) \<Rightarrow> Some (char_of (16 * h + l) # bytes) | _ \<Rightarrow> None)"

text \<open>Where the value decodes as hex, \<^verbatim>\<open>strings.ToLower\<close> changes it exactly if it has one of the letters A to F.\<close>

definition parseHexKeyNamed :: "string \<Rightarrow> string \<Rightarrow> seal_error + string" where
  "parseHexKeyNamed name value =
     (case hex_decode value of
        Some key \<Rightarrow>
          if length value \<noteq> hexKeyLength \<or> list_ex (\<lambda>c. CHR ''A'' \<le> c \<and> c \<le> CHR ''F'') value
          then Inl (SealFailure (name @ '' must be 64 lowercase hex characters'')) else Inr key
      | None \<Rightarrow> Inl (SealFailure (name @ '' must be 64 lowercase hex characters'')))"

definition ParseHexKey :: "string \<Rightarrow> seal_error + string" where
  "ParseHexKey value = parseHexKeyNamed EnvMasterKey value"

definition seal_FromEnv :: "(string \<Rightarrow> aead) \<Rightarrow> (string \<Rightarrow> string + string) \<Rightarrow> seal_error + sealer" where
  "seal_FromEnv gcm resolveSecret =
     (case resolveSecret EnvMasterKey of Inl e \<Rightarrow> Inl (SealFailure (''resolve '' @ EnvMasterKey))
      | Inr value \<Rightarrow>
          if value = [] then Inl (SealFailure (EnvMasterKey @ '' is required''))
          else case ParseHexKey value of Inl e \<Rightarrow> Inl e
               | Inr key \<Rightarrow>
                   (case resolveSecret EnvMasterKeyPrevious of Inl e \<Rightarrow> Inl (SealFailure (''resolve '' @ EnvMasterKeyPrevious))
                    | Inr previousValue \<Rightarrow>
                        if previousValue = [] then New gcm key
                        else case parseHexKeyNamed EnvMasterKeyPrevious previousValue of Inl e \<Rightarrow> Inl e
                             | Inr previousKey \<Rightarrow>
                                 (case NewWithPrevious gcm key previousKey of
                                    Inl e \<Rightarrow> Inl (if e = PreviousEqualsPrimary
                                                  then SealFailure (EnvMasterKeyPrevious @ '' must differ from '' @ EnvMasterKey) else e)
                                  | Inr s \<Rightarrow> Inr s)))"

section \<open>Facts\<close>

text \<open>What GCM promises: what was sealed under a key opens under it, and the tag adds sixteen bytes.\<close>

definition aead_documented :: "aead \<Rightarrow> bool" where
  "aead_documented a \<longleftrightarrow>
     (\<forall>nonce plaintext aad. length nonce = nonceSize \<longrightarrow>
        ae_Open a nonce (ae_Seal a nonce plaintext aad) aad = Some plaintext
        \<and> length (ae_Seal a nonce plaintext aad) = length plaintext + tagSize)"

lemma Open_Seal:
  assumes "aead_documented (sr_aead s)" "sealer_Seal s random plaintext aad = Inr box"
  shows "OpenReportingKey s' box aad = Inr (plaintext, KeyPrimary) \<or> sr_aead s' \<noteq> sr_aead s"
proof (cases "sr_aead s' = sr_aead s")
  case True
  from assms(2) have len: "\<not> length random < nonceSize"
    and box: "box = formatVersion # take nonceSize random @ ae_Seal (sr_aead s) (take nonceSize random) plaintext aad"
    by (auto simp: sealer_Seal_def Let_def split: if_splits)
  let ?nonce = "take nonceSize random"
  have nonce: "length ?nonce = nonceSize" using len by simp
  have body: "length (ae_Seal (sr_aead s) ?nonce plaintext aad) = length plaintext + tagSize"
    "ae_Open (sr_aead s) ?nonce (ae_Seal (sr_aead s) ?nonce plaintext aad) aad = Some plaintext"
    using assms(1) nonce by (simp_all add: aead_documented_def)
  have parts: "take nonceSize (tl box) = ?nonce" "drop (1 + nonceSize) box = ae_Seal (sr_aead s) ?nonce plaintext aad"
    "hd box = formatVersion" "length box = 1 + nonceSize + (length plaintext + tagSize)"
    using nonce body(1) len unfolding box by simp_all
  show ?thesis unfolding OpenReportingKey_def Let_def parts using body(2) True by simp
qed simp

lemma Open_PrimaryOnly:
  "OpenReportingKey (PrimaryOnly s) box aad =
     (case OpenReportingKey s box aad of Inr (p, KeyPrimary) \<Rightarrow> Inr (p, KeyPrimary)
      | Inr (p, KeyPrevious) \<Rightarrow> Inl ErrDecrypt | Inl e \<Rightarrow> Inl e)"
  by (auto simp: OpenReportingKey_def PrimaryOnly_def Let_def split: option.split)

lemma hex_decode_length: "hex_decode s = Some bytes \<Longrightarrow> length s = 2 * length bytes"
  by (induction s arbitrary: bytes rule: hex_decode.induct) (auto split: option.splits)

lemma ParseHexKey_length: "parseHexKeyNamed name value = Inr key \<Longrightarrow> length key = KeySize"
  by (auto simp: parseHexKeyNamed_def split: option.splits if_splits dest: hex_decode_length)

text \<open>A sealer from the environment always has a key of the right size, and never the same key twice.\<close>

lemma FromEnv_keys:
  assumes "seal_FromEnv gcm resolve = Inr s"
  shows "\<exists>key. length key = KeySize \<and> sr_aead s = gcm key
    \<and> (sr_previousAEAD s = None \<or> (\<exists>previous. length previous = KeySize \<and> previous \<noteq> key \<and> sr_previousAEAD s = Some (gcm previous)))"
  using assms
  by (auto simp: seal_FromEnv_def ParseHexKey_def New_def NewWithPrevious_def newAEAD_def
      split: sum.splits if_splits dest: ParseHexKey_length) metis

end
