(* ===== verification/Identity_Key.thy ===== *)
theory Identity_Key
  imports Message_Validate
begin

text \<open>
  App keys and the identity configuration (\<^verbatim>\<open>delivery-api/internal/appidentity\<close>: key.go, config.go),
  with the unpadded base64url codec of \<^verbatim>\<open>encoding/base64\<close> they use. A byte is a \<open>char\<close>; the bytes
  \<^verbatim>\<open>rand.Read\<close> delivers are an argument, and SHA-256 is the field \<open>tl_sha256\<close> of the text library.
\<close>

section \<open>Unpadded base64url\<close>

definition b64url_char :: "nat \<Rightarrow> char" where
  "b64url_char v =
     (if v < 26 then char_of (65 + v) else if v < 52 then char_of (71 + v)
      else if v < 62 then char_of (v - 4) else if v = 62 then CHR ''-'' else CHR ''_'')"

definition b64url_value :: "char \<Rightarrow> nat option" where
  "b64url_value c =
     (let n = (of_char c :: nat)
      in if 65 \<le> n \<and> n \<le> 90 then Some (n - 65) else if 97 \<le> n \<and> n \<le> 122 then Some (n - 71)
         else if 48 \<le> n \<and> n \<le> 57 then Some (n + 4) else if c = CHR ''-'' then Some 62
         else if c = CHR ''_'' then Some 63 else None)"

definition is_b64url :: "char \<Rightarrow> bool" where
  "is_b64url c \<longleftrightarrow> is_upper c \<or> is_lower c \<or> is_digit c \<or> c = CHR ''_'' \<or> c = CHR ''-''"

fun sextets :: "nat list \<Rightarrow> nat list" where
  "sextets [] = []"
| "sextets [a] = [a div 4, (a mod 4) * 16]"
| "sextets [a, b] = [a div 4, (a mod 4) * 16 + b div 16, (b mod 16) * 4]"
| "sextets (a # b # c # rest) =
     [a div 4, (a mod 4) * 16 + b div 16, (b mod 16) * 4 + c div 64, c mod 64] @ sextets rest"

text \<open>The decoder is not strict: it ignores the bits of the last sextet that no byte needs.\<close>

fun octets :: "nat list \<Rightarrow> nat list option" where
  "octets [] = Some []"
| "octets [v] = None"
| "octets [v, w] = Some [v * 4 + w div 16]"
| "octets [v, w, x] = Some [v * 4 + w div 16, (w mod 16) * 16 + x div 4]"
| "octets (v # w # x # y # rest) =
     map_option (\<lambda>bs. [v * 4 + w div 16, (w mod 16) * 16 + x div 4, (x mod 4) * 64 + y] @ bs) (octets rest)"

definition EncodeToString :: "string \<Rightarrow> string" where
  "EncodeToString bs = map b64url_char (sextets (map of_char bs))"

text \<open>The decoder skips carriage returns and line feeds; any other foreign character is an error.\<close>

definition DecodeString :: "string \<Rightarrow> string option" where
  "DecodeString s =
     (let vs = map b64url_value (filter (\<lambda>c. c \<noteq> CHR 0x0A \<and> c \<noteq> CHR 0x0D) s)
      in if None \<in> set vs then None else map_option (map char_of) (octets (map the vs)))"

section \<open>Keys\<close>

definition KeyPrefix :: string where "KeyPrefix = ''dak_''"

abbreviation keyRandomBytes :: nat where "keyRandomBytes \<equiv> 32"
abbreviation keyRandomChars :: nat where "keyRandomChars \<equiv> 43"
abbreviation keyHintRandomChars :: nat where "keyHintRandomChars \<equiv> 4"
abbreviation SupersededGrace :: duration where "SupersededGrace \<equiv> 24 * Hour"

definition keyPattern :: "string \<Rightarrow> bool" where
  "keyPattern s \<longleftrightarrow> take 4 s = KeyPrefix \<and> length s = 4 + keyRandomChars \<and> list_all is_b64url (drop 4 s)"

text \<open>The argument is what \<^verbatim>\<open>rand.Read\<close> delivers: an error, or the bytes of the buffer.\<close>

definition NewKey :: "string + string \<Rightarrow> string + string" where
  "NewKey random =
     (case random of Inl e \<Rightarrow> Inl (''generate app key: '' @ e) | Inr bs \<Rightarrow> Inr (KeyPrefix @ EncodeToString bs))"

definition WellFormedKey :: "string \<Rightarrow> bool" where
  "WellFormedKey key = keyPattern key"

definition HashKey :: "text_lib \<Rightarrow> string \<Rightarrow> string" where
  "HashKey lib key = tl_sha256 lib key"

definition KeyHint :: "string \<Rightarrow> string" where
  "KeyHint key = (if \<not> WellFormedKey key then [] else take (length KeyPrefix + keyHintRandomChars) key)"

datatype key_state = KeyActive | KeySuperseded | KeyRevoked

record key_record =
  kr_SupersededAt :: "time option"
  kr_RevokedAt :: "time option"

definition Valid :: "key_record \<Rightarrow> time \<Rightarrow> bool" where
  "Valid rec now =
     (case kr_RevokedAt rec of Some _ \<Rightarrow> False
      | None \<Rightarrow> (case kr_SupersededAt rec of None \<Rightarrow> True | Some s \<Rightarrow> now < s + SupersededGrace))"

definition key_State :: "key_record \<Rightarrow> time \<Rightarrow> key_state" where
  "key_State rec now =
     (if \<not> Valid rec now then KeyRevoked else if kr_SupersededAt rec \<noteq> None then KeySuperseded else KeyActive)"

section \<open>Configuration\<close>

definition AudienceEnvVar :: string where "AudienceEnvVar = ''DELIVERY_OIDC_AUDIENCE''"
definition JWKSFileEnvVar :: string where "JWKSFileEnvVar = ''DELIVERY_OIDC_JWKS_FILE''"
definition DevModeEnvVar :: string where "DevModeEnvVar = ''DELIVERY_OIDC_DEV_MODE''"
definition PendingRequestDaysEnvVar :: string where
  "PendingRequestDaysEnvVar = ''DELIVERY_PENDING_IDENTITY_REQUEST_DAYS''"
definition DefaultAudience :: string where "DefaultAudience = ''notifs-delivery''"

abbreviation DefaultPendingRequestDays :: int where "DefaultPendingRequestDays \<equiv> 7"
abbreviation MaxPendingRequestDays :: int where "MaxPendingRequestDays \<equiv> 365"
abbreviation maxAudienceChars :: nat where "maxAudienceChars \<equiv> 200"

definition audiencePattern :: "string \<Rightarrow> bool" where
  "audiencePattern s \<longleftrightarrow> 1 \<le> length s \<and> length s \<le> maxAudienceChars
     \<and> list_all (\<lambda>c. CHR ''!'' \<le> c \<and> c \<le> CHR ''~'') s"

record identity_config =
  ic_Audience :: string
  ic_JWKSFile :: string
  ic_DevMode :: bool
  ic_PendingRequestTTL :: duration

definition pending_ttl_from_env :: "(string \<Rightarrow> string) \<Rightarrow> string + duration" where
  "pending_ttl_from_env getenv =
     (let rawDays = getenv PendingRequestDaysEnvVar
      in if rawDays = [] then Inr (DefaultPendingRequestDays * 24 * Hour)
         else case Atoi rawDays of
                None \<Rightarrow> Inl (''invalid '' @ PendingRequestDaysEnvVar)
              | Some days \<Rightarrow> if days < 1 \<or> days > MaxPendingRequestDays
                              then Inl (''invalid '' @ PendingRequestDaysEnvVar) else Inr (days * 24 * Hour))"

definition audience_from_env :: "(string \<Rightarrow> string) \<Rightarrow> string + string" where
  "audience_from_env getenv =
     (let audience = getenv AudienceEnvVar
      in if audience = [] then Inr DefaultAudience
         else if \<not> audiencePattern audience then Inl (''invalid '' @ AudienceEnvVar) else Inr audience)"

definition dev_mode_from_env :: "(string \<Rightarrow> string) \<Rightarrow> string + bool" where
  "dev_mode_from_env getenv =
     (let mode = getenv DevModeEnvVar
      in if mode = [] \<or> mode = ''0'' then Inr False else if mode = ''1'' then Inr True
         else Inl (''invalid '' @ DevModeEnvVar @ '': must be empty, 0 or 1''))"

definition identity_ConfigFromEnv :: "(string \<Rightarrow> string) \<Rightarrow> string + identity_config" where
  "identity_ConfigFromEnv getenv =
     (case pending_ttl_from_env getenv of Inl e \<Rightarrow> Inl e | Inr ttl \<Rightarrow>
      case audience_from_env getenv of Inl e \<Rightarrow> Inl e | Inr audience \<Rightarrow>
      case dev_mode_from_env getenv of Inl e \<Rightarrow> Inl e | Inr dev \<Rightarrow>
      (let file = getenv JWKSFileEnvVar
       in if file \<noteq> [] \<and> \<not> dev then Inl (JWKSFileEnvVar @ '' requires '' @ DevModeEnvVar @ ''=1'')
          else Inr \<lparr>ic_Audience = audience, ic_JWKSFile = file, ic_DevMode = dev, ic_PendingRequestTTL = ttl\<rparr>))"

section \<open>Facts about the codec\<close>

lemma sextets_less: "list_all (\<lambda>b. b < 256) bs \<Longrightarrow> v \<in> set (sextets bs) \<Longrightarrow> v < 64"
  by (induction bs rule: sextets.induct) auto

lemma length_sextets: "length (sextets bs) = (4 * length bs + 2) div 3"
  by (induction bs rule: sextets.induct) auto

lemma octets_sextets: "list_all (\<lambda>b. b < 256) bs \<Longrightarrow> octets (sextets bs) = Some bs"
  by (induction bs rule: sextets.induct) auto

lemma b64url_value_char: "v < 64 \<Longrightarrow> b64url_value (b64url_char v) = Some v"
  by (auto simp: b64url_value_def b64url_char_def Let_def)

lemma b64url_char_ok: "v < 64 \<Longrightarrow> is_b64url (b64url_char v)"
  by (auto simp: is_b64url_def b64url_char_def is_upper_def is_lower_def is_digit_def less_eq_char_def)

lemma b64url_char_plain: "v < 64 \<Longrightarrow> b64url_char v \<noteq> CHR 0x0A \<and> b64url_char v \<noteq> CHR 0x0D"
  using b64url_value_char [of v] by (auto simp: b64url_value_def split: if_splits)

lemma bytes_less: "list_all (\<lambda>b. b < 256) (map of_char bs :: nat list)"
  by (induction bs) auto

text \<open>Decoding what was encoded gives the bytes back, and the code has the alphabet and length of a key.\<close>

lemma Decode_Encode: "DecodeString (EncodeToString bs) = Some bs"
proof -
  let ?vs = "sextets (map of_char bs :: nat list)"
  have less: "\<forall>v \<in> set ?vs. v < 64" using sextets_less [OF bytes_less] by blast
  have keep: "filter (\<lambda>c. c \<noteq> CHR 0x0A \<and> c \<noteq> CHR 0x0D) (map b64url_char ?vs) = map b64url_char ?vs"
    using less b64url_char_plain by (intro filter_True) auto
  have vals: "map b64url_value (map b64url_char ?vs) = map Some ?vs"
    using less b64url_value_char by simp
  have "octets ?vs = Some (map of_char bs)" by (rule octets_sextets [OF bytes_less])
  then show ?thesis
    unfolding DecodeString_def EncodeToString_def Let_def keep vals by (auto simp: comp_def image_iff)
qed

lemma Encode_chars: "list_all is_b64url (EncodeToString bs)"
  using sextets_less [OF bytes_less] b64url_char_ok by (fastforce simp: EncodeToString_def list_all_iff)

lemma length_Encode: "length (EncodeToString bs) = (4 * length bs + 2) div 3"
  by (simp add: EncodeToString_def length_sextets)

section \<open>Facts about keys\<close>

text \<open>A key made of 32 random bytes is well formed, its hint is its first eight characters, and it determines the bytes.\<close>

lemma NewKey_shape:
  assumes "NewKey (Inr random) = Inr key" and "length random = keyRandomBytes"
  shows "WellFormedKey key" "length (KeyHint key) = 8" "KeyHint key \<noteq> []" "DecodeString (drop 4 key) = Some random"
proof -
  from assms(1) have key: "key = KeyPrefix @ EncodeToString random" by (simp add: NewKey_def)
  have len: "length (EncodeToString random) = keyRandomChars" by (simp add: length_Encode assms(2))
  show wf: "WellFormedKey key"
    using len Encode_chars by (simp add: WellFormedKey_def keyPattern_def key KeyPrefix_def)
  show hint: "length (KeyHint key) = 8" using len by (simp add: KeyHint_def wf) (simp add: key KeyPrefix_def)
  then show "KeyHint key \<noteq> []" by auto
  show "DecodeString (drop 4 key) = Some random" by (simp add: key KeyPrefix_def Decode_Encode)
qed

lemma NewKey_inj:
  assumes "NewKey (Inr a) = Inr key" "NewKey (Inr b) = Inr key"
  shows "a = b"
proof -
  from assms have "EncodeToString a = EncodeToString b" by (auto simp: NewKey_def)
  then show ?thesis by (metis Decode_Encode option.inject)
qed

lemma Valid_iff:
  "Valid rec now \<longleftrightarrow> kr_RevokedAt rec = None \<and> (\<forall>s. kr_SupersededAt rec = Some s \<longrightarrow> now < s + SupersededGrace)"
  by (auto simp: Valid_def split: option.splits)

lemma State_simps:
  "key_State rec now = KeyActive \<longleftrightarrow> kr_RevokedAt rec = None \<and> kr_SupersededAt rec = None"
  "key_State rec now = KeySuperseded \<longleftrightarrow> Valid rec now \<and> kr_SupersededAt rec \<noteq> None"
  "key_State rec now = KeyRevoked \<longleftrightarrow> \<not> Valid rec now"
  by (auto simp: key_State_def Valid_def split: option.splits)

lemma Valid_antimono: "Valid rec t \<Longrightarrow> s \<le> t \<Longrightarrow> Valid rec s"
  by (auto simp: Valid_iff)

text \<open>A key file is only ever configured in dev mode, and a pending request lives one to 365 days.\<close>

lemma pending_ttl_bounds:
  "pending_ttl_from_env getenv = Inr ttl \<Longrightarrow> 24 * Hour \<le> ttl \<and> ttl \<le> 365 * 24 * Hour"
  by (auto simp: pending_ttl_from_env_def Let_def split: if_splits option.splits)

lemma ConfigFromEnv_ok:
  assumes "identity_ConfigFromEnv getenv = Inr c"
  shows "ic_JWKSFile c \<noteq> [] \<longrightarrow> ic_DevMode c \<and> getenv DevModeEnvVar = ''1''"
    and "24 * Hour \<le> ic_PendingRequestTTL c" "ic_PendingRequestTTL c \<le> 365 * 24 * Hour"
    and "audiencePattern (ic_Audience c)"
proof -
  obtain ttl where ttl: "pending_ttl_from_env getenv = Inr ttl"
    using assms by (auto simp: identity_ConfigFromEnv_def split: sum.splits)
  obtain aud where aud: "audience_from_env getenv = Inr aud"
    using assms ttl by (auto simp: identity_ConfigFromEnv_def split: sum.splits)
  obtain dev where dev: "dev_mode_from_env getenv = Inr dev"
    using assms ttl aud by (auto simp: identity_ConfigFromEnv_def split: sum.splits)
  have c: "c = \<lparr>ic_Audience = aud, ic_JWKSFile = getenv JWKSFileEnvVar, ic_DevMode = dev, ic_PendingRequestTTL = ttl\<rparr>"
    "getenv JWKSFileEnvVar \<noteq> [] \<longrightarrow> dev"
    using assms by (auto simp: identity_ConfigFromEnv_def ttl aud dev Let_def split: if_splits)
  have "dev \<Longrightarrow> getenv DevModeEnvVar = ''1''"
    using dev by (auto simp: dev_mode_from_env_def Let_def split: if_splits)
  with c show "ic_JWKSFile c \<noteq> [] \<longrightarrow> ic_DevMode c \<and> getenv DevModeEnvVar = ''1''" by simp
  from pending_ttl_bounds [OF ttl] c(1) show "24 * Hour \<le> ic_PendingRequestTTL c" "ic_PendingRequestTTL c \<le> 365 * 24 * Hour"
    by simp_all
  have "audiencePattern DefaultAudience" by (simp add: audiencePattern_def DefaultAudience_def less_eq_char_def)
  with aud have "audiencePattern aud" by (auto simp: audience_from_env_def Let_def split: if_splits)
  with c(1) show "audiencePattern (ic_Audience c)" by simp
qed

end
