(* ===== verification/Identity_Verifier.thy ===== *)
theory Identity_Verifier
  imports Identity_Key "HOL-Library.AList"
begin

text \<open>
  The verifier of GitHub Actions tokens (\<^verbatim>\<open>delivery-api/internal/appidentity/verifier.go\<close>): the key set it
  caches and refetches, the claims it extracts, and the checks around the JWT library. The library
  itself (\<^verbatim>\<open>golang-jwt\<close>) is the parameter \<open>jwt_lib\<close>, called with the key function as the source calls it;
  the JSON decoder of a key set and the response of the issuer are arguments.
\<close>

section \<open>Errors\<close>

datatype identity_error =
    ErrInvalidToken string
  | ErrReplayed
  | ErrKeysUnavailable string
  | ErrPendingCap
  | ErrInvalidKey string
  | ErrBindingAppeared
  | ErrBindingMismatch
  | IdentityValidation string
  | ErrRequestNotFound
  | ErrRequestNotPending
  | ErrAppAlreadyBound
  | ErrWorkflowIdentityBound
  | ErrAppIDOverlap
  | ErrRequestChanged
  | ErrAppRegistryUnavailable string
  | ErrAppRegistryNotConfigured
  | ErrAppIDReserved
  | ErrKeyNotFound
  | IdentityDBError string
  | IdentityOther string

type_synonym 'a identity_result = "identity_error + 'a"

section \<open>Claims\<close>

abbreviation ClockLeeway :: duration where "ClockLeeway \<equiv> 60 * Second"

record claims =
  cl_Repository :: string
  cl_RepositoryID :: int
  cl_RepositoryOwnerID :: int
  cl_WorkflowPath :: string
  cl_Ref :: string
  cl_Environment :: string
  cl_RunID :: string
  cl_JTI :: string
  cl_ExpiresAt :: time

definition ReplayExpiry :: "claims \<Rightarrow> time" where
  "ReplayExpiry c = cl_ExpiresAt c + ClockLeeway"

record tokenClaims =
  tc_ID :: string
  tc_ExpiresAt :: "time option"
  tc_Repository :: string
  tc_RepositoryID :: string
  tc_RepositoryOwnerID :: string
  tc_WorkflowRef :: string
  tc_Ref :: string
  tc_Environment :: string
  tc_RunID :: string

definition digitsOnly :: "string \<Rightarrow> bool" where
  "digitsOnly s \<longleftrightarrow> s \<noteq> [] \<and> list_all is_digit s"

text \<open>The \<open>scalar\<close> type of the source: a JSON string or a literal of digits, as text.\<close>

definition scalar_UnmarshalJSON :: "text_lib \<Rightarrow> string \<Rightarrow> string + string" where
  "scalar_UnmarshalJSON lib data =
     (let trimmed = TrimSpace data
      in if trimmed = ''null'' then Inr []
         else if trimmed \<noteq> [] \<and> hd trimmed = CHR 0x22
         then (case tl_json_decode lib trimmed of Some (JString text) \<Rightarrow> Inr text | _ \<Rightarrow> Inl ''invalid string'')
         else if digitsOnly trimmed then Inr trimmed
         else Inl ''claim must be a string or a non-negative integer'')"

definition positiveID :: "string \<Rightarrow> string + int" where
  "positiveID text =
     (case Atoi text of
        None \<Rightarrow> Inl ''missing or not a positive integer''
      | Some value \<Rightarrow> if value \<le> 0 then Inl ''missing or not a positive integer'' else Inr value)"

definition workflowPathFromRef :: "string \<Rightarrow> string \<Rightarrow> string + string" where
  "workflowPathFromRef workflowRef repository =
     (if repository = [] then Inl ''repository claim is missing''
      else if CHR ''@'' \<notin> set workflowRef then Inl ''missing or malformed''
      else let withoutRef = takeWhile (\<lambda>c. c \<noteq> CHR ''@'') workflowRef;
               stem = repository @ ''/'';
               path = drop (length stem) withoutRef
           in if take (length stem) withoutRef \<noteq> stem \<or> path = []
              then Inl ''does not belong to the repository claim'' else Inr path)"

definition toClaims :: "tokenClaims \<Rightarrow> string + claims" where
  "toClaims p =
     (if tc_ID p = [] then Inl ''missing jti'' else
      case tc_ExpiresAt p of None \<Rightarrow> Inl ''missing exp'' | Some expiresAt \<Rightarrow>
      case positiveID (tc_RepositoryID p) of Inl e \<Rightarrow> Inl (''repository_id: '' @ e) | Inr repositoryID \<Rightarrow>
      case positiveID (tc_RepositoryOwnerID p) of Inl e \<Rightarrow> Inl (''repository_owner_id: '' @ e) | Inr ownerID \<Rightarrow>
      case workflowPathFromRef (tc_WorkflowRef p) (tc_Repository p) of
        Inl e \<Rightarrow> Inl (''workflow_ref: '' @ e) | Inr workflowPath \<Rightarrow>
      if tc_Repository p = [] then Inl ''missing repository''
      else if tc_Ref p = [] then Inl ''missing ref''
      else if \<not> digitsOnly (tc_RunID p) then Inl ''run_id missing or not numeric''
      else Inr \<lparr>cl_Repository = tc_Repository p, cl_RepositoryID = repositoryID, cl_RepositoryOwnerID = ownerID,
                cl_WorkflowPath = workflowPath, cl_Ref = tc_Ref p, cl_Environment = tc_Environment p,
                cl_RunID = tc_RunID p, cl_JTI = tc_ID p, cl_ExpiresAt = expiresAt\<rparr>)"

section \<open>Signing keys\<close>

record rsa_key =
  rk_N :: nat
  rk_E :: int

record jwk =
  jwk_KeyType :: string
  jwk_KeyID :: string
  jwk_Use :: string
  jwk_Algorithm :: string
  jwk_Modulus :: string
  jwk_Exponent :: string

definition signingAlgorithm :: string where "signingAlgorithm = ''RS256''"

abbreviation minRSABits :: nat where "minRSABits \<equiv> 2048"

text \<open>\<^verbatim>\<open>big.Int\<close>: \<^verbatim>\<open>SetBytes\<close> reads big-endian bytes, \<^verbatim>\<open>BitLen\<close> is the number of binary digits.\<close>

definition SetBytes :: "string \<Rightarrow> nat" where
  "SetBytes bs = foldl (\<lambda>n b. n * 256 + of_char b) 0 bs"

fun BitLen :: "nat \<Rightarrow> nat" where
  "BitLen n = (if n = 0 then 0 else Suc (BitLen (n div 2)))"

declare BitLen.simps [simp del]

definition jwk_publicKey :: "jwk \<Rightarrow> string + rsa_key" where
  "jwk_publicKey entry =
     (case DecodeString (jwk_Modulus entry) of None \<Rightarrow> Inl ''illegal base64 data'' | Some modulusBytes \<Rightarrow>
      case DecodeString (jwk_Exponent entry) of None \<Rightarrow> Inl ''illegal base64 data'' | Some exponentBytes \<Rightarrow>
      (let modulus = SetBytes modulusBytes; exponent = SetBytes exponentBytes
       in if BitLen modulus < minRSABits then Inl ''rsa key too small''
          else if exponent \<ge> 2 ^ 63 \<or> exponent < 3 \<or> exponent > 2 ^ 31 - 1 \<or> even exponent
          then Inl ''rsa exponent out of range''
          else Inr \<lparr>rk_N = modulus, rk_E = int exponent\<rparr>))"

type_synonym key_set = "(string \<times> rsa_key) list"

definition add_jwk :: "key_set \<Rightarrow> jwk \<Rightarrow> key_set" where
  "add_jwk keys entry =
     (if jwk_KeyType entry \<noteq> ''RSA'' \<or> jwk_KeyID entry = [] then keys
      else if jwk_Use entry \<noteq> [] \<and> jwk_Use entry \<noteq> ''sig'' then keys
      else if jwk_Algorithm entry \<noteq> [] \<and> jwk_Algorithm entry \<noteq> signingAlgorithm then keys
      else case jwk_publicKey entry of Inl _ \<Rightarrow> keys | Inr key \<Rightarrow> AList.update (jwk_KeyID entry) key keys)"

definition parseJWKS :: "(string \<Rightarrow> string + jwk list) \<Rightarrow> string \<Rightarrow> string + key_set" where
  "parseJWKS decode document =
     (case decode document of Inl e \<Rightarrow> Inl (''decode jwks: '' @ e) | Inr entries \<Rightarrow>
      (let keys = foldl add_jwk [] entries
       in if keys = [] then Inl ''jwks holds no usable RS256 signing key'' else Inr keys))"

section \<open>The verifier\<close>

definition GitHubIssuer :: string where "GitHubIssuer = ''https://token.actions.githubusercontent.com''"
definition jwksPath :: string where "jwksPath = ''/.well-known/jwks''"

abbreviation DefaultFetchTimeout :: duration where "DefaultFetchTimeout \<equiv> 5 * Second"
abbreviation DefaultRefetchInterval :: duration where "DefaultRefetchInterval \<equiv> Minute"
abbreviation maxJWKSBytes :: nat where "maxJWKSBytes \<equiv> 1048576"
abbreviation maxTokenBytes :: nat where "maxTokenBytes \<equiv> 16384"

record verifier_config =
  vc_Audience :: string
  vc_JWKSFile :: string
  vc_Issuer :: string
  vc_JWKSURL :: string
  vc_FetchTimeout :: duration
  vc_RefetchInterval :: duration

record verifier =
  vf_issuer :: string
  vf_audience :: string
  vf_jwksURL :: string
  vf_fetchTimeout :: duration
  vf_refetchInterval :: duration
  vf_static :: bool
  vf_keys :: key_set
  vf_lastFetch :: time
  vf_lastFetchErr :: "string option"

text \<open>\<open>file\<close> is what reading the configured key file gives.\<close>

definition NewVerifier ::
  "(string \<Rightarrow> string + jwk list) \<Rightarrow> string + string \<Rightarrow> verifier_config \<Rightarrow> string + verifier" where
  "NewVerifier decode file config =
     (if vc_Audience config = [] then Inl ''oidc audience is required''
      else let issuer = (if vc_Issuer config = [] then GitHubIssuer else vc_Issuer config);
               v = \<lparr>vf_issuer = issuer, vf_audience = vc_Audience config,
                    vf_jwksURL = (if vc_JWKSURL config = [] then issuer @ jwksPath else vc_JWKSURL config),
                    vf_fetchTimeout = (if vc_FetchTimeout config \<le> 0 then DefaultFetchTimeout else vc_FetchTimeout config),
                    vf_refetchInterval =
                      (if vc_RefetchInterval config \<le> 0 then DefaultRefetchInterval else vc_RefetchInterval config),
                    vf_static = False, vf_keys = [], vf_lastFetch = 0, vf_lastFetchErr = None\<rparr>
           in if vc_JWKSFile config = [] then Inr v
              else case file of
                     Inl e \<Rightarrow> Inl (''read '' @ JWKSFileEnvVar @ '': '' @ e)
                   | Inr contents \<Rightarrow>
                       (case parseJWKS decode contents of
                          Inl e \<Rightarrow> Inl (''parse '' @ JWKSFileEnvVar @ '': '' @ e)
                        | Inr keys \<Rightarrow> Inr (v\<lparr>vf_keys := keys, vf_static := True\<rparr>)))"

text \<open>What the issuer answers to one fetch, and what a refresh meets: whether the caller's context
  ends while it waits for its turn, the clock, and that answer.\<close>

datatype fetch_response =
    RequestInvalid string
  | RequestFailed string
  | Responded int "string + string" \<comment> \<open>the status, and the body or the error of reading it\<close>

record refresh_env =
  re_context_done :: bool
  re_now :: time
  re_response :: fetch_response

definition fetchKeys :: "(string \<Rightarrow> string + jwk list) \<Rightarrow> fetch_response \<Rightarrow> string + key_set" where
  "fetchKeys decode response =
     (case response of
        RequestInvalid e \<Rightarrow> Inl (''build jwks request: '' @ e)
      | RequestFailed e \<Rightarrow> Inl (''fetch jwks: '' @ e)
      | Responded status body \<Rightarrow>
          if status \<noteq> 200 then Inl (''fetch jwks: status '' @ dec_int status)
          else case body of Inl e \<Rightarrow> Inl (''read jwks: '' @ e)
               | Inr bytes \<Rightarrow> parseJWKS decode (take maxJWKSBytes bytes))"

definition refresh ::
  "(string \<Rightarrow> string + jwk list) \<Rightarrow> refresh_env \<Rightarrow> verifier \<Rightarrow> unit identity_result \<times> verifier" where
  "refresh decode env v =
     (if re_context_done env then (Inl (ErrKeysUnavailable ''waiting for jwks refresh''), v)
      else let started = re_now env
           in if \<not> IsZero (vf_lastFetch v) \<and> time_sub started (vf_lastFetch v) < vf_refetchInterval v
              then (case vf_lastFetchErr v of
                      Some e \<Rightarrow> (Inl (ErrKeysUnavailable (''last fetch failed: '' @ e)), v)
                    | None \<Rightarrow> (Inr (), v))
              else case fetchKeys decode (re_response env) of
                     Inl e \<Rightarrow> (Inl (ErrKeysUnavailable e), v\<lparr>vf_lastFetch := started, vf_lastFetchErr := Some e\<rparr>)
                   | Inr keys \<Rightarrow> (Inr (), v\<lparr>vf_lastFetch := started, vf_lastFetchErr := None, vf_keys := keys\<rparr>))"

definition cachedKey :: "verifier \<Rightarrow> string \<Rightarrow> rsa_key option" where
  "cachedKey v keyID = map_of (vf_keys v) keyID"

definition verifier_publicKey ::
  "(string \<Rightarrow> string + jwk list) \<Rightarrow> refresh_env \<Rightarrow> string \<Rightarrow> verifier \<Rightarrow> rsa_key identity_result \<times> verifier" where
  "verifier_publicKey decode env keyID v =
     (case cachedKey v keyID of
        Some key \<Rightarrow> (Inr key, v)
      | None \<Rightarrow>
          if vf_static v then (Inl (IdentityOther ''unknown kid''), v)
          else case refresh decode env v of
                 (Inl e, v') \<Rightarrow> (Inl e, v')
               | (Inr _, v') \<Rightarrow>
                   (case cachedKey v' keyID of
                      Some key \<Rightarrow> (Inr key, v')
                    | None \<Rightarrow> (Inl (IdentityOther ''unknown kid''), v')))"

text \<open>The header of a token as the key function sees it; \<open>kid\<close> is \<open>None\<close> unless it is a string.\<close>

record jwt_token =
  jt_alg :: string
  jt_kid :: "string option"

definition signingKey ::
  "(string \<Rightarrow> string + jwk list) \<Rightarrow> refresh_env \<Rightarrow> jwt_token \<Rightarrow> verifier \<Rightarrow> rsa_key identity_result \<times> verifier" where
  "signingKey decode env token v =
     (if jt_alg token \<noteq> signingAlgorithm then (Inl (IdentityOther ''unexpected signing algorithm''), v)
      else case jt_kid token of
             None \<Rightarrow> (Inl (IdentityOther ''token has no kid''), v)
           | Some keyID \<Rightarrow> if keyID = [] then (Inl (IdentityOther ''token has no kid''), v)
                            else verifier_publicKey decode env keyID v)"

text \<open>
  \<^verbatim>\<open>jwt.Parser.ParseWithClaims\<close>, built for the issuer and the audience of the verifier: given the clock,
  the raw token and the key function, it answers the decoded claims or its error, which wraps the
  error of the key function.
\<close>

type_synonym key_function = "jwt_token \<Rightarrow> verifier \<Rightarrow> rsa_key identity_result \<times> verifier"
type_synonym jwt_lib = "time \<Rightarrow> string \<Rightarrow> key_function \<Rightarrow> verifier \<Rightarrow> tokenClaims identity_result \<times> verifier"
type_synonym 's replay_recorder = "string \<Rightarrow> time \<Rightarrow> 's \<Rightarrow> bool identity_result \<times> 's"

definition record_replay ::
  "'s replay_recorder \<Rightarrow> claims \<Rightarrow> 's \<Rightarrow> claims identity_result \<times> 's" where
  "record_replay replay c s =
     (case replay (cl_JTI c) (ReplayExpiry c) s of
        (Inl e, s') \<Rightarrow> (Inl e, s')
      | (Inr fresh, s') \<Rightarrow> if fresh then (Inr c, s') else (Inl ErrReplayed, s'))"

definition Verify ::
  "jwt_lib \<Rightarrow> (string \<Rightarrow> string + jwk list) \<Rightarrow> refresh_env \<Rightarrow> string \<Rightarrow> 's replay_recorder option
   \<Rightarrow> verifier \<times> 's \<Rightarrow> claims identity_result \<times> verifier \<times> 's" where
  "Verify jwt decode env rawToken replay vs =
     (case vs of (v, s) \<Rightarrow>
      case replay of None \<Rightarrow> (Inl (IdentityOther ''verify identity token: replay recorder is required''), v, s)
      | Some recorder \<Rightarrow>
      if rawToken = [] \<or> length rawToken > maxTokenBytes
      then (Inl (ErrInvalidToken ''token empty or too large''), v, s)
      else case jwt (re_now env) rawToken (signingKey decode env) v of
             (Inl (ErrKeysUnavailable e), v') \<Rightarrow> (Inl (ErrKeysUnavailable []), v', s)
           | (Inl e, v') \<Rightarrow> (Inl (ErrInvalidToken ''parse''), v', s)
           | (Inr parsed, v') \<Rightarrow>
               (case toClaims parsed of
                  Inl e \<Rightarrow> (Inl (ErrInvalidToken e), v', s)
                | Inr c \<Rightarrow> (case record_replay recorder c s of (r, s') \<Rightarrow> (r, v', s'))))"

section \<open>Facts about claims\<close>

text \<open>What a verified token carries: the values the identity tables' CHECKs ask for.\<close>

definition claims_ok :: "claims \<Rightarrow> bool" where
  "claims_ok c \<longleftrightarrow> cl_Repository c \<noteq> [] \<and> cl_RepositoryID c > 0 \<and> cl_RepositoryOwnerID c > 0
     \<and> cl_WorkflowPath c \<noteq> [] \<and> cl_Ref c \<noteq> [] \<and> cl_RunID c \<noteq> [] \<and> cl_JTI c \<noteq> []
     \<and> cl_RepositoryID c \<le> maxDuration \<and> cl_RepositoryOwnerID c \<le> maxDuration"

lemma positiveID_Inr: "positiveID text = Inr i \<Longrightarrow> 0 < i \<and> i \<le> maxDuration"
  by (auto simp: positiveID_def Atoi_def Let_def split: option.splits if_splits prod.splits)

lemma workflowPathFromRef_Inr:
  assumes "workflowPathFromRef ref repository = Inr path"
  shows "path \<noteq> [] \<and> (\<exists>rest. ref = repository @ ''/'' @ path @ ''@'' @ rest) \<and> CHR ''@'' \<notin> set path"
proof -
  let ?w = "takeWhile (\<lambda>c. c \<noteq> CHR ''@'') ref"
  let ?stem = "repository @ ''/''"
  from assms have at: "CHR ''@'' \<in> set ref" and path: "path = drop (length ?stem) ?w" "path \<noteq> []"
    and stem: "take (length ?stem) ?w = ?stem"
    by (auto simp: workflowPathFromRef_def Let_def split: if_splits)
  have "?w = ?stem @ path" using append_take_drop_id [of "length ?stem" ?w] stem path(1) by metis
  moreover obtain rest where "dropWhile (\<lambda>c. c \<noteq> CHR ''@'') ref = CHR ''@'' # rest"
  proof (cases "dropWhile (\<lambda>c. c \<noteq> CHR ''@'') ref")
    case Nil
    with at show ?thesis by (simp add: dropWhile_eq_Nil_conv) (metis)
  next
    case (Cons c rest)
    then have "c = CHR ''@''" using hd_dropWhile [of "\<lambda>c. c \<noteq> CHR ''@''" ref] by auto
    with Cons show ?thesis by (intro that) simp
  qed
  ultimately have "ref = repository @ ''/'' @ path @ ''@'' @ rest"
    using takeWhile_dropWhile_id [of "\<lambda>c. c \<noteq> CHR ''@''" ref] by simp
  moreover have "CHR ''@'' \<notin> set path"
    unfolding path(1) by (auto dest!: in_set_dropD set_takeWhileD)
  ultimately show ?thesis using path(2) by blast
qed

lemma toClaims_ok:
  assumes "toClaims p = Inr c"
  shows "claims_ok c" "tc_ExpiresAt p = Some (cl_ExpiresAt c)" "cl_JTI c = tc_ID p"
proof -
  obtain e i j w where parts: "tc_ExpiresAt p = Some e" "positiveID (tc_RepositoryID p) = Inr i"
      "positiveID (tc_RepositoryOwnerID p) = Inr j" "workflowPathFromRef (tc_WorkflowRef p) (tc_Repository p) = Inr w"
    using assms by (auto simp: toClaims_def split: if_splits option.splits sum.splits)
  have "tc_ID p \<noteq> []" "tc_Repository p \<noteq> []" "tc_Ref p \<noteq> []" "digitsOnly (tc_RunID p)"
    and c: "c = \<lparr>cl_Repository = tc_Repository p, cl_RepositoryID = i, cl_RepositoryOwnerID = j,
                cl_WorkflowPath = w, cl_Ref = tc_Ref p, cl_Environment = tc_Environment p,
                cl_RunID = tc_RunID p, cl_JTI = tc_ID p, cl_ExpiresAt = e\<rparr>"
    using assms by (auto simp: toClaims_def parts split: if_splits)
  then show "claims_ok c"
    using positiveID_Inr [OF parts(2)] positiveID_Inr [OF parts(3)] workflowPathFromRef_Inr [OF parts(4)]
    by (simp add: claims_ok_def digitsOnly_def)
  show "tc_ExpiresAt p = Some (cl_ExpiresAt c)" "cl_JTI c = tc_ID p" by (simp_all add: c parts)
qed

section \<open>Facts about keys\<close>

definition strong_key :: "rsa_key \<Rightarrow> bool" where
  "strong_key key \<longleftrightarrow> minRSABits \<le> BitLen (rk_N key) \<and> odd (rk_E key) \<and> 3 \<le> rk_E key \<and> rk_E key < 2 ^ 31"

definition keys_strong :: "key_set \<Rightarrow> bool" where
  "keys_strong keys \<longleftrightarrow> list_all (\<lambda>(keyID, key). keyID \<noteq> [] \<and> strong_key key) keys"

text \<open>The bit length is the least number of bits the value fits in.\<close>

lemma BitLen_less: "n < 2 ^ BitLen n"
proof (induction n rule: BitLen.induct)
  case (1 n)
  show ?case
  proof (cases "n = 0")
    case False
    have "n < 2 * Suc (n div 2)" by presburger
    also have "\<dots> \<le> 2 * 2 ^ BitLen (n div 2)" using 1 [OF False] by simp
    finally show ?thesis using False by (simp add: BitLen.simps [of n])
  qed (simp add: BitLen.simps)
qed

lemma BitLen_ge: "n \<noteq> 0 \<Longrightarrow> 2 ^ (BitLen n - 1) \<le> n"
proof (induction n rule: BitLen.induct)
  case (1 n)
  show ?case
  proof (cases "n div 2 = 0")
    case True
    with 1(2) show ?thesis by (simp add: BitLen.simps [of n] BitLen.simps [of 0])
  next
    case False
    then have "BitLen (n div 2) = Suc (BitLen (n div 2) - 1)" by (simp add: BitLen.simps [of "n div 2"])
    then have "2 ^ BitLen (n div 2) = 2 * (2 ^ (BitLen (n div 2) - 1) :: nat)" by (metis power_Suc)
    also have "\<dots> \<le> 2 * (n div 2)" using 1(1) [OF 1(2) False] by simp
    also have "\<dots> \<le> n" by simp
    finally show ?thesis using 1(2) by (simp add: BitLen.simps [of n])
  qed
qed

lemma jwk_publicKey_strong: "jwk_publicKey entry = Inr key \<Longrightarrow> strong_key key"
  by (auto simp: jwk_publicKey_def strong_key_def Let_def not_less split: option.splits if_splits)

lemma set_alist_update: "set (AList.update k v xs) \<subseteq> insert (k, v) (set xs)"
  by (induction xs) auto

lemma add_jwk_strong: "keys_strong keys \<Longrightarrow> keys_strong (add_jwk keys entry)"
proof (cases "jwk_publicKey entry")
  case (Inr key)
  assume "keys_strong keys"
  then have "jwk_KeyID entry \<noteq> [] \<Longrightarrow> keys_strong (AList.update (jwk_KeyID entry) key keys)"
    using set_alist_update [of "jwk_KeyID entry" key keys] jwk_publicKey_strong [OF Inr]
    by (auto simp: keys_strong_def list_all_iff)
  with \<open>keys_strong keys\<close> Inr show ?thesis by (simp add: add_jwk_def)
qed (simp add: add_jwk_def)

lemma parseJWKS_strong:
  assumes "parseJWKS decode document = Inr keys"
  shows "keys_strong keys" "keys \<noteq> []"
proof -
  have "keys_strong (foldl add_jwk ks entries)" if "keys_strong ks" for ks entries
    using that by (induction entries arbitrary: ks) (auto simp: add_jwk_strong)
  then have "keys_strong (foldl add_jwk [] entries)" for entries by (simp add: keys_strong_def)
  with assms show "keys_strong keys" "keys \<noteq> []"
    by (auto simp: parseJWKS_def Let_def split: sum.splits if_splits)
qed

section \<open>Facts about the verifier\<close>

definition verifier_ok :: "verifier \<Rightarrow> bool" where
  "verifier_ok v \<longleftrightarrow> keys_strong (vf_keys v) \<and> 0 < vf_refetchInterval v"

lemma NewVerifier_ok: "NewVerifier decode file config = Inr v \<Longrightarrow> verifier_ok v \<and> vf_audience v \<noteq> []"
  using parseJWKS_strong(1)
  by (auto simp: NewVerifier_def verifier_ok_def keys_strong_def Let_def split: if_splits sum.splits)

lemma fetchKeys_strong: "fetchKeys decode response = Inr keys \<Longrightarrow> keys_strong keys"
  using parseJWKS_strong(1) by (auto simp: fetchKeys_def split: fetch_response.splits if_splits sum.splits)

text \<open>A refresh fetches only when none was attempted within the interval; a failed fetch keeps the keys.\<close>

lemma refresh_cases:
  obtains (kept) "snd (refresh decode env v) = v"
  | (fetched) "\<not> re_context_done env" "IsZero (vf_lastFetch v) \<or> vf_refetchInterval v \<le> time_sub (re_now env) (vf_lastFetch v)"
      "vf_lastFetch (snd (refresh decode env v)) = re_now env"
      "vf_keys (snd (refresh decode env v)) = (case fetchKeys decode (re_response env) of Inl _ \<Rightarrow> vf_keys v | Inr keys \<Rightarrow> keys)"
      "vf_refetchInterval (snd (refresh decode env v)) = vf_refetchInterval v"
proof (cases "re_context_done env \<or> \<not> IsZero (vf_lastFetch v) \<and> time_sub (re_now env) (vf_lastFetch v) < vf_refetchInterval v")
  case True
  then have "snd (refresh decode env v) = v" by (auto simp: refresh_def Let_def split: option.split)
  then show ?thesis by (rule kept)
next
  case False
  then show ?thesis by (intro fetched) (auto simp: refresh_def Let_def split: sum.split)
qed

lemma refresh_ok: "verifier_ok v \<Longrightarrow> verifier_ok (snd (refresh decode env v))"
  by (cases rule: refresh_cases [of decode env v])
    (auto simp: verifier_ok_def split: sum.splits dest: fetchKeys_strong)

lemma verifier_publicKey_state:
  "snd (verifier_publicKey decode env keyID v) = v \<or> snd (verifier_publicKey decode env keyID v) = snd (refresh decode env v)"
  by (auto simp: verifier_publicKey_def split: option.split prod.split sum.split)

lemma signingKey_state:
  "snd (signingKey decode env token v) = v \<or> snd (signingKey decode env token v) = snd (refresh decode env v)"
  using verifier_publicKey_state by (simp add: signingKey_def split: option.split)

lemma signingKey_ok: "verifier_ok v \<Longrightarrow> verifier_ok (snd (signingKey decode env token v))"
  using signingKey_state [of decode env token v] refresh_ok [of v decode env] by auto

lemma cachedKey_strong: "verifier_ok v \<Longrightarrow> cachedKey v keyID = Some key \<Longrightarrow> strong_key key"
  by (auto simp: cachedKey_def verifier_ok_def keys_strong_def list_all_iff dest: map_of_SomeD)

lemma signingKey_strong:
  assumes "verifier_ok v" "fst (signingKey decode env token v) = Inr key"
  shows "strong_key key" "jt_alg token = signingAlgorithm"
proof -
  have v': "verifier_ok (snd (signingKey decode env token v))" using signingKey_ok [OF assms(1)] .
  show "jt_alg token = signingAlgorithm" using assms(2) by (simp add: signingKey_def split: if_splits)
  have "\<exists>keyID. cachedKey (snd (signingKey decode env token v)) keyID = Some key"
    using assms(2) by (auto simp: signingKey_def verifier_publicKey_def split: if_splits option.splits prod.splits sum.splits)
  with v' show "strong_key key" using cachedKey_strong by blast
qed

text \<open>
  The documented behaviour of the JWT library the program relies on: it accepts a token only with a key
  its key function returned, and only before the token's expiry plus the leeway; it decodes a token to
  the same claims every time; and it touches no state but through the key function, called at most once.
\<close>

definition jwt_documented :: "jwt_lib \<Rightarrow> bool" where
  "jwt_documented jwt \<longleftrightarrow>
     (\<forall>now raw kf v p v'. jwt now raw kf v = (Inr p, v') \<longrightarrow>
        (\<exists>token key. kf token v = (Inr key, v'))
        \<and> (\<exists>e. tc_ExpiresAt p = Some e \<and> now < e + ClockLeeway)
        \<and> (\<forall>now2 kf2 v2 p2 v2'. jwt now2 raw kf2 v2 = (Inr p2, v2') \<longrightarrow> p2 = p))
   \<and> (\<forall>now raw kf v e v'. jwt now raw kf v = (Inl e, v') \<longrightarrow> v' = v \<or> (\<exists>token. v' = snd (kf token v)))"

lemma jwt_state_ok:
  assumes "jwt_documented jwt" "verifier_ok v"
  shows "verifier_ok (snd (jwt now raw (signingKey decode env) v))"
proof (cases "jwt now raw (signingKey decode env) v")
  case (Pair r v')
  have "v' = v \<or> (\<exists>token. v' = snd (signingKey decode env token v))"
  proof (cases r)
    case (Inr p)
    with assms(1) Pair obtain token key where "signingKey decode env token v = (Inr key, v')"
      unfolding jwt_documented_def by blast
    then have "v' = snd (signingKey decode env token v)" by simp
    then show ?thesis by blast
  next
    case (Inl e)
    with assms(1) Pair show ?thesis unfolding jwt_documented_def by blast
  qed
  with signingKey_ok [OF assms(2)] assms(2) Pair show ?thesis by auto
qed

lemma Verify_state: "fst (snd (Verify jwt decode env raw replay (v, s))) = v
  \<or> fst (snd (Verify jwt decode env raw replay (v, s))) = snd (jwt (re_now env) raw (signingKey decode env) v)"
  by (auto simp: Verify_def split: option.split prod.split sum.split identity_error.split)

lemma Verify_ok: "jwt_documented jwt \<Longrightarrow> verifier_ok v \<Longrightarrow> verifier_ok (fst (snd (Verify jwt decode env raw replay (v, s))))"
  using Verify_state [of jwt decode env raw replay v s] jwt_state_ok by metis

text \<open>A token passes only when it is signed with a strong key, has not expired, and its claims are storable.\<close>

lemma Verify_accepts:
  assumes "Verify jwt decode env raw (Some recorder) (v, s) = (Inr c, v', s')"
  shows "\<exists>p. fst (jwt (re_now env) raw (signingKey decode env) v) = Inr p \<and> toClaims p = Inr c"
    and "recorder (cl_JTI c) (ReplayExpiry c) s = (Inr True, s')"
  using assms
  by (auto simp: Verify_def record_replay_def split: prod.splits sum.splits if_splits identity_error.splits)

lemma Verify_sound:
  assumes "jwt_documented jwt" "verifier_ok v"
    and "Verify jwt decode env raw (Some recorder) (v, s) = (Inr c, v', s')"
  shows "claims_ok c" "re_now env < ReplayExpiry c"
    "\<exists>token key. signingKey decode env token v = (Inr key, v') \<and> strong_key key \<and> jt_alg token = signingAlgorithm"
proof -
  obtain p where p: "fst (jwt (re_now env) raw (signingKey decode env) v) = Inr p" "toClaims p = Inr c"
    using Verify_accepts(1) [OF assms(3)] by blast
  then obtain v1 where v1: "jwt (re_now env) raw (signingKey decode env) v = (Inr p, v1)" by (metis prod.collapse)
  have "v1 = v'" using assms(3) v1 p(2)
    by (auto simp: Verify_def split: if_splits prod.splits)
  with v1 assms(1) obtain token key e where key: "signingKey decode env token v = (Inr key, v')"
    and e: "tc_ExpiresAt p = Some e" "re_now env < e + ClockLeeway"
    unfolding jwt_documented_def by blast
  show "claims_ok c" by (rule toClaims_ok(1) [OF p(2)])
  show "re_now env < ReplayExpiry c" using e toClaims_ok(2) [OF p(2)] by (simp add: ReplayExpiry_def)
  have "strong_key key \<and> jt_alg token = signingAlgorithm"
    using signingKey_strong [OF assms(2), of decode env token key] key by simp
  with key show "\<exists>token key. signingKey decode env token v = (Inr key, v') \<and> strong_key key \<and> jt_alg token = signingAlgorithm"
    by blast
qed

end
