(* ===== verification/Identity_Store.thy ===== *)
theory Identity_Store
  imports Identity_Verifier
begin

text \<open>
  The Postgres store of app identity (\<^verbatim>\<open>delivery-api/internal/appidentity\<close>: store.go, admin.go, pgstore.go,
  pgstore_admin.go; tables of \<^verbatim>\<open>migrations/0008_app_identity.sql\<close>): bindings, registration requests, app
  keys and the replay ledger. Columns that no statement reads (\<^verbatim>\<open>created_at\<close> of a binding) are left out.
  Statements under the advisory lock or the lock of a binding row are one step.
\<close>

section \<open>Tables\<close>

record binding_row =
  br_app_id :: string
  br_repository :: string
  br_repository_id :: int
  br_owner_id :: int
  br_workflow_path :: string
  br_git_ref :: string
  br_environment :: "string option"
  br_approved_at :: time

datatype request_status = RequestPending | RequestRejected

record request_row =
  rq_id :: int
  rq_app_id :: string
  rq_repository :: string
  rq_repository_id :: int
  rq_owner_id :: int
  rq_workflow_path :: string
  rq_git_ref :: string
  rq_environment :: "string option"
  rq_run_id :: string
  rq_status :: request_status
  rq_created_at :: time
  rq_updated_at :: time
  rq_decided_at :: "time option"

record key_row =
  k_id :: int
  k_app_id :: string
  k_hash :: string
  k_hint :: string
  k_created_at :: time
  k_superseded_at :: "time option"
  k_revoked_at :: "time option"
  k_revoked_reason :: "string option"
  k_last_used_at :: "time option"
  k_run_id :: "string option"

record replay_row =
  rp_jti :: string
  rp_expires_at :: time

record identity_db =
  idb_bindings :: "binding_row list"
  idb_requests :: "request_row list"
  idb_keys :: "key_row list"
  idb_replay :: "replay_row list"
  idb_request_seq :: int
  idb_key_seq :: int

definition empty_identity :: identity_db where
  "empty_identity = \<lparr>idb_bindings = [], idb_requests = [], idb_keys = [], idb_replay = [],
     idb_request_seq = 1, idb_key_seq = 1\<rparr>"

definition bindings_check :: "binding_row \<Rightarrow> bool" where
  "bindings_check b \<longleftrightarrow> slug 62 (br_app_id b) \<and> br_repository b \<noteq> [] \<and> br_repository_id b > 0 \<and> br_owner_id b > 0
     \<and> br_workflow_path b \<noteq> [] \<and> br_git_ref b \<noteq> [] \<and> br_environment b \<noteq> Some []"

definition requests_check :: "request_row \<Rightarrow> bool" where
  "requests_check r \<longleftrightarrow> slug 62 (rq_app_id r) \<and> rq_repository r \<noteq> [] \<and> rq_repository_id r > 0 \<and> rq_owner_id r > 0
     \<and> rq_workflow_path r \<noteq> [] \<and> rq_git_ref r \<noteq> [] \<and> rq_environment r \<noteq> Some [] \<and> rq_run_id r \<noteq> []
     \<and> (rq_status r = RequestRejected) = (rq_decided_at r \<noteq> None)"

definition keys_check :: "key_row \<Rightarrow> bool" where
  "keys_check k \<longleftrightarrow> length (k_hash k) = 32 \<and> k_hint k \<noteq> []
     \<and> (case k_revoked_reason k of None \<Rightarrow> True | Some r \<Rightarrow> r \<in> {''operator'', ''unbound''})
     \<and> (k_revoked_at k = None) = (k_revoked_reason k = None)"

text \<open>The unique keys: a workflow identity, and the claims of a pending request (nulls not distinct).\<close>

definition br_identity :: "binding_row \<Rightarrow> int \<times> string \<times> string \<times> string option" where
  "br_identity b = (br_repository_id b, br_workflow_path b, br_git_ref b, br_environment b)"

definition rq_identity :: "request_row \<Rightarrow> int \<times> string \<times> string \<times> string option" where
  "rq_identity r = (rq_repository_id r, rq_workflow_path r, rq_git_ref r, rq_environment r)"

definition rq_pending :: "request_row \<Rightarrow> bool" where
  "rq_pending r \<longleftrightarrow> rq_status r = RequestPending"

section \<open>Values of the store\<close>

abbreviation MaxPendingRequests :: nat where "MaxPendingRequests \<equiv> 20"
abbreviation touchInterval :: duration where "touchInterval \<equiv> Minute"
abbreviation RejectedRequestWindow :: duration where "RejectedRequestWindow \<equiv> 30 * 24 * Hour"

definition RevokedReasonOperator :: string where "RevokedReasonOperator = ''operator''"
definition RevokedReasonSuperseded :: string where "RevokedReasonSuperseded = ''superseded''"

record binding =
  bn_AppID :: string
  bn_Repository :: string
  bn_RepositoryID :: int
  bn_RepositoryOwnerID :: int
  bn_WorkflowPath :: string
  bn_Ref :: string
  bn_Environment :: string
  bn_ApprovedAt :: time

definition Matches :: "binding \<Rightarrow> claims \<Rightarrow> bool" where
  "Matches b c \<longleftrightarrow>
     bn_RepositoryID b = cl_RepositoryID c \<and> bn_RepositoryOwnerID b = cl_RepositoryOwnerID c
     \<and> bn_WorkflowPath b = cl_WorkflowPath c \<and> bn_Ref b = cl_Ref c \<and> bn_Environment b = cl_Environment c"

record IssuedKey =
  ik_ID :: int
  ik_Plaintext :: string
  ik_Hint :: string

record ResolvedKey =
  rk_ID :: int
  rk_AppID :: string
  rk_Hint :: string

record identity_request =
  ir_ID :: int
  ir_AppID :: string
  ir_Repository :: string
  ir_RepositoryID :: int
  ir_RepositoryOwnerID :: int
  ir_WorkflowPath :: string
  ir_Ref :: string
  ir_Environment :: string
  ir_GitHubRunID :: string
  ir_Status :: request_status
  ir_CreatedAt :: time
  ir_UpdatedAt :: time
  ir_DecidedAt :: "time option"

record identity_key =
  iy_ID :: int
  iy_AppID :: string
  iy_Hint :: string
  iy_State :: key_state
  iy_CreatedAt :: time
  iy_SupersededAt :: "time option"
  iy_RevokedAt :: "time option"
  iy_RevokedReason :: string
  iy_LastUsedAt :: "time option"

record BindingWithKeys =
  bk_Binding :: binding
  bk_Keys :: "identity_key list"

definition row_record :: "key_row \<Rightarrow> key_record" where
  "row_record k = \<lparr>kr_SupersededAt = k_superseded_at k, kr_RevokedAt = k_revoked_at k\<rparr>"

text \<open>\<^verbatim>\<open>toKey\<close> of the source dereferences \<^verbatim>\<open>SupersededAt\<close> only for a key that is revoked without a
  revoke time, which has one (\<open>toKey_superseded\<close>); the \<open>None\<close> branch stands for its nil dereference.\<close>

definition toKey :: "key_row \<Rightarrow> time \<Rightarrow> identity_key" where
  "toKey stored now =
     (let key = \<lparr>iy_ID = k_id stored, iy_AppID = k_app_id stored, iy_Hint = k_hint stored,
                 iy_State = key_State (row_record stored) now, iy_CreatedAt = k_created_at stored,
                 iy_SupersededAt = k_superseded_at stored, iy_RevokedAt = None, iy_RevokedReason = [],
                 iy_LastUsedAt = k_last_used_at stored\<rparr>
      in if iy_State key \<noteq> KeyRevoked then key
         else case k_revoked_at stored of
                Some r \<Rightarrow> key\<lparr>iy_RevokedAt := Some r,
                              iy_RevokedReason := (case k_revoked_reason stored of None \<Rightarrow> RevokedReasonOperator | Some t \<Rightarrow> t)\<rparr>
              | None \<Rightarrow>
                  (case k_superseded_at stored of
                     None \<Rightarrow> key
                   | Some s \<Rightarrow> key\<lparr>iy_RevokedAt := Some (s + SupersededGrace), iy_RevokedReason := RevokedReasonSuperseded\<rparr>))"

definition environmentArgument :: "string \<Rightarrow> string option" where
  "environmentArgument environment = (if environment = [] then None else Some environment)"

definition environment_text :: "string option \<Rightarrow> string" where
  "environment_text environment = (case environment of None \<Rightarrow> [] | Some e \<Rightarrow> e)"

definition identity_storeTime :: "time \<Rightarrow> time" where
  "identity_storeTime now = time_truncate now Microsecond"

definition scanBinding :: "binding_row \<Rightarrow> binding" where
  "scanBinding b =
     \<lparr>bn_AppID = br_app_id b, bn_Repository = br_repository b, bn_RepositoryID = br_repository_id b,
      bn_RepositoryOwnerID = br_owner_id b, bn_WorkflowPath = br_workflow_path b, bn_Ref = br_git_ref b,
      bn_Environment = environment_text (br_environment b), bn_ApprovedAt = br_approved_at b\<rparr>"

definition scanRequest :: "request_row \<Rightarrow> identity_request" where
  "scanRequest r =
     \<lparr>ir_ID = rq_id r, ir_AppID = rq_app_id r, ir_Repository = rq_repository r, ir_RepositoryID = rq_repository_id r,
      ir_RepositoryOwnerID = rq_owner_id r, ir_WorkflowPath = rq_workflow_path r, ir_Ref = rq_git_ref r,
      ir_Environment = environment_text (rq_environment r), ir_GitHubRunID = rq_run_id r, ir_Status = rq_status r,
      ir_CreatedAt = rq_created_at r, ir_UpdatedAt = rq_updated_at r, ir_DecidedAt = rq_decided_at r\<rparr>"

section \<open>Keys and the replay ledger\<close>

definition ResolveKey :: "text_lib \<Rightarrow> string \<Rightarrow> time \<Rightarrow> identity_db \<Rightarrow> ResolvedKey identity_result" where
  "ResolveKey lib key now db =
     (if \<not> WellFormedKey key then Inl (ErrInvalidKey ''malformed'')
      else case find (\<lambda>k. k_hash k = HashKey lib key) (idb_keys db) of
             None \<Rightarrow> Inl (ErrInvalidKey ''unknown'')
           | Some k \<Rightarrow>
               if \<not> Valid (row_record k) (identity_storeTime now)
               then Inl (ErrInvalidKey (if k_revoked_at k \<noteq> None then ''revoked'' else ''past supersede grace''))
               else Inr \<lparr>rk_ID = k_id k, rk_AppID = k_app_id k, rk_Hint = k_hint k\<rparr>)"

definition touch_where :: "int \<Rightarrow> time \<Rightarrow> key_row \<Rightarrow> bool" where
  "touch_where keyID now k \<longleftrightarrow>
     k_id k = keyID \<and> (case k_last_used_at k of None \<Rightarrow> True | Some t \<Rightarrow> t \<le> now - touchInterval)"

definition TouchKey :: "int \<Rightarrow> time \<Rightarrow> identity_db \<Rightarrow> bool \<times> identity_db" where
  "TouchKey keyID now db =
     (let t = identity_storeTime now
      in (length (filter (touch_where keyID t) (idb_keys db)) = 1,
          db\<lparr>idb_keys := update_where (touch_where keyID t) (\<lambda>k. k\<lparr>k_last_used_at := Some t\<rparr>) (idb_keys db)\<rparr>))"

definition DeleteExpiredReplay :: "time \<Rightarrow> identity_db \<Rightarrow> int \<times> identity_db" where
  "DeleteExpiredReplay now db =
     (let gone = (\<lambda>r. rp_expires_at r < identity_storeTime now)
      in (int (length (filter gone (idb_replay db))), db\<lparr>idb_replay := filter (\<lambda>r. \<not> gone r) (idb_replay db)\<rparr>))"

section \<open>The exchange transaction\<close>

type_synonym 'a identity_tx = "'a identity_result \<times> identity_db"

text \<open>\<^verbatim>\<open>INSERT \<dots> ON CONFLICT DO NOTHING\<close>: whether a row was added; an empty jti violates its CHECK.\<close>

definition RecordJTI :: "string \<Rightarrow> time \<Rightarrow> identity_db \<Rightarrow> bool identity_tx" where
  "RecordJTI jti expiresAt db =
     (if jti = [] then (Inl (IdentityDBError ''record oidc jti''), db)
      else if list_ex (\<lambda>r. rp_jti r = jti) (idb_replay db) then (Inr False, db)
      else (Inr True, db\<lparr>idb_replay := idb_replay db @ [\<lparr>rp_jti = jti, rp_expires_at = identity_storeTime expiresAt\<rparr>]\<rparr>))"

definition LockBinding :: "string \<Rightarrow> identity_db \<Rightarrow> binding option" where
  "LockBinding appID db = map_option scanBinding (find (\<lambda>b. br_app_id b = appID) (idb_bindings db))"

definition BindingExists :: "string \<Rightarrow> identity_db \<Rightarrow> bool" where
  "BindingExists appID db = list_ex (\<lambda>b. br_app_id b = appID) (idb_bindings db)"

definition refresh_where :: "string \<Rightarrow> claims \<Rightarrow> request_row \<Rightarrow> bool" where
  "refresh_where appID c r \<longleftrightarrow>
     rq_pending r \<and> rq_app_id r = appID
     \<and> rq_identity r = (cl_RepositoryID c, cl_WorkflowPath c, cl_Ref c, environmentArgument (cl_Environment c))"

definition refresh_row :: "claims \<Rightarrow> time \<Rightarrow> request_row \<Rightarrow> request_row" where
  "refresh_row c now r =
     r\<lparr>rq_updated_at := now, rq_run_id := cl_RunID c, rq_repository := cl_Repository c,
       rq_owner_id := cl_RepositoryOwnerID c\<rparr>"

definition new_request_row :: "int \<Rightarrow> string \<Rightarrow> claims \<Rightarrow> time \<Rightarrow> request_row" where
  "new_request_row i appID c now =
     \<lparr>rq_id = i, rq_app_id = appID, rq_repository = cl_Repository c, rq_repository_id = cl_RepositoryID c,
      rq_owner_id = cl_RepositoryOwnerID c, rq_workflow_path = cl_WorkflowPath c, rq_git_ref = cl_Ref c,
      rq_environment = environmentArgument (cl_Environment c), rq_run_id = cl_RunID c, rq_status = RequestPending,
      rq_created_at = now, rq_updated_at = now, rq_decided_at = None\<rparr>"

definition FilePendingRequest :: "string \<Rightarrow> claims \<Rightarrow> time \<Rightarrow> identity_db \<Rightarrow> int identity_tx" where
  "FilePendingRequest appID c time db =
     (let now = identity_storeTime time
      in if BindingExists appID db then (Inl ErrBindingAppeared, db)
         else case find (refresh_where appID c) (idb_requests db) of
                Some r \<Rightarrow>
                  if \<not> requests_check (refresh_row c now r)
                  then (Inl (IdentityDBError ''refresh pending identity request''), db)
                  else (Inr (rq_id r),
                        db\<lparr>idb_requests := update_where (refresh_where appID c) (refresh_row c now) (idb_requests db)\<rparr>)
              | None \<Rightarrow>
                  if length (filter rq_pending (idb_requests db)) \<ge> MaxPendingRequests then (Inl ErrPendingCap, db)
                  else (let row = new_request_row (idb_request_seq db) appID c now
                        in if \<not> requests_check row
                           then (Inl (IdentityDBError ''insert pending identity request''), db)
                           else (Inr (rq_id row), db\<lparr>idb_requests := idb_requests db @ [row],
                                   idb_request_seq := idb_request_seq db + 1\<rparr>)))"

definition live_key :: "string \<Rightarrow> key_row \<Rightarrow> bool" where
  "live_key appID k \<longleftrightarrow> k_app_id k = appID \<and> k_superseded_at k = None \<and> k_revoked_at k = None"

definition supersede :: "string \<Rightarrow> time \<Rightarrow> identity_db \<Rightarrow> identity_db" where
  "supersede appID now db =
     db\<lparr>idb_keys := update_where (live_key appID) (\<lambda>k. k\<lparr>k_superseded_at := Some now\<rparr>) (idb_keys db)\<rparr>"

definition new_key_row :: "text_lib \<Rightarrow> int \<Rightarrow> string \<Rightarrow> string \<Rightarrow> string \<Rightarrow> time \<Rightarrow> key_row" where
  "new_key_row lib i appID plaintext githubRunID now =
     \<lparr>k_id = i, k_app_id = appID, k_hash = HashKey lib plaintext, k_hint = KeyHint plaintext, k_created_at = now,
      k_superseded_at = None, k_revoked_at = None, k_revoked_reason = None, k_last_used_at = None,
      k_run_id = Some githubRunID\<rparr>"

definition IssueKey ::
  "text_lib \<Rightarrow> string + string \<Rightarrow> string \<Rightarrow> string \<Rightarrow> time \<Rightarrow> identity_db \<Rightarrow> IssuedKey identity_tx" where
  "IssueKey lib random appID githubRunID time db =
     (let now = identity_storeTime time
      in case NewKey random of
           Inl e \<Rightarrow> (Inl (IdentityOther e), db)
         | Inr plaintext \<Rightarrow>
             (let row = new_key_row lib (idb_key_seq db) appID plaintext githubRunID now;
                  db1 = supersede appID now db
              in if \<not> keys_check row \<or> \<not> BindingExists appID db \<or> list_ex (\<lambda>k. k_hash k = k_hash row) (idb_keys db)
                 then (Inl (IdentityDBError ''insert app key''), db)
                 else (Inr \<lparr>ik_ID = k_id row, ik_Plaintext = plaintext, ik_Hint = k_hint row\<rparr>,
                       db1\<lparr>idb_keys := idb_keys db1 @ [row], idb_key_seq := idb_key_seq db + 1\<rparr>)))"

text \<open>
  A transaction in progress: what is committed, and what the transaction sees (its own writes too). What
  other transactions commit between two of its statements reaches both. The function returns, and its
  writes are committed when it succeeds and undone when it fails.
\<close>

record 'db open_tx =
  et_committed :: 'db
  et_view :: 'db

type_synonym exchange_tx = "identity_db open_tx"

definition see_commits :: "('db \<Rightarrow> 'db) \<Rightarrow> 'db open_tx \<Rightarrow> 'db open_tx" where
  "see_commits others tx = \<lparr>et_committed = others (et_committed tx), et_view = others (et_view tx)\<rparr>"

definition store_Exchange ::
  "(exchange_tx \<Rightarrow> 'a identity_result \<times> exchange_tx) \<Rightarrow> identity_db \<Rightarrow> 'a identity_tx" where
  "store_Exchange fn db =
     (case fn \<lparr>et_committed = db, et_view = db\<rparr> of
        (Inl e, tx) \<Rightarrow> (Inl e, et_committed tx)
      | (Inr x, tx) \<Rightarrow> (Inr x, et_view tx))"

section \<open>The operator's store\<close>

text \<open>\<^verbatim>\<open>ORDER BY (status = 'pending') DESC, updated_at DESC, id DESC\<close>.\<close>

definition request_order :: "request_row \<Rightarrow> bool \<times> int \<times> int" where
  "request_order r = (\<not> rq_pending r, - rq_updated_at r, - rq_id r)"

definition rejected_cutoff :: "time \<Rightarrow> time" where
  "rejected_cutoff now = identity_storeTime now - RejectedRequestWindow"

definition listed_request :: "time \<Rightarrow> request_row \<Rightarrow> bool" where
  "listed_request now r \<longleftrightarrow>
     rq_pending r \<or> (case rq_decided_at r of None \<Rightarrow> False | Some t \<Rightarrow> rejected_cutoff now \<le> t)"

definition ListRequests :: "time \<Rightarrow> identity_db \<Rightarrow> identity_request list" where
  "ListRequests now db = map scanRequest (sort_key request_order (filter (listed_request now) (idb_requests db)))"

definition delete_requests :: "(request_row \<Rightarrow> bool) \<Rightarrow> identity_db \<Rightarrow> int \<times> identity_db" where
  "delete_requests p db =
     (int (length (filter p (idb_requests db))), db\<lparr>idb_requests := filter (\<lambda>r. \<not> p r) (idb_requests db)\<rparr>)"

definition DeleteExpiredRejectedRequests :: "time \<Rightarrow> identity_db \<Rightarrow> int \<times> identity_db" where
  "DeleteExpiredRejectedRequests now db =
     delete_requests (\<lambda>r. \<not> rq_pending r
       \<and> (case rq_decided_at r of None \<Rightarrow> False | Some t \<Rightarrow> t < rejected_cutoff now)) db"

definition DeleteStalePendingRequests :: "time \<Rightarrow> duration \<Rightarrow> identity_db \<Rightarrow> (string + int) \<times> identity_db" where
  "DeleteStalePendingRequests now ttl db =
     (if ttl \<le> 0 then (Inl ''delete stale pending identity requests: ttl must be positive'', db)
      else case delete_requests (\<lambda>r. rq_pending r \<and> rq_updated_at r < identity_storeTime now - ttl) db of
             (n, db') \<Rightarrow> (Inr n, db'))"

definition GetRequest :: "int \<Rightarrow> identity_db \<Rightarrow> identity_request identity_result" where
  "GetRequest requestID db =
     (case find (\<lambda>r. rq_id r = requestID) (idb_requests db) of
        None \<Rightarrow> Inl ErrRequestNotFound | Some r \<Rightarrow> Inr (scanRequest r))"

definition lockRequest :: "int \<Rightarrow> identity_db \<Rightarrow> identity_request identity_result" where
  "lockRequest requestID db =
     (case find (\<lambda>r. rq_id r = requestID) (idb_requests db) of
        None \<Rightarrow> Inl ErrRequestNotFound | Some r \<Rightarrow> Inr (scanRequest r))"

definition starts_with :: "string \<Rightarrow> string \<Rightarrow> bool" where
  "starts_with s stem \<longleftrightarrow> take (length stem) s = stem"

definition app_ids_overlap :: "string \<Rightarrow> string \<Rightarrow> bool" where
  "app_ids_overlap a b \<longleftrightarrow> starts_with a (b @ ''_'') \<or> starts_with b (a @ ''_'')"

definition request_binding_row :: "identity_request \<Rightarrow> time \<Rightarrow> binding_row" where
  "request_binding_row r now =
     \<lparr>br_app_id = ir_AppID r, br_repository = ir_Repository r, br_repository_id = ir_RepositoryID r,
      br_owner_id = ir_RepositoryOwnerID r, br_workflow_path = ir_WorkflowPath r, br_git_ref = ir_Ref r,
      br_environment = environmentArgument (ir_Environment r), br_approved_at = now\<rparr>"

definition sibling_request :: "binding_row \<Rightarrow> request_row \<Rightarrow> bool" where
  "sibling_request b r \<longleftrightarrow> rq_pending r \<and> (rq_app_id r = br_app_id b \<or> rq_identity r = br_identity b)"

definition store_ApproveRequest :: "int \<Rightarrow> string \<Rightarrow> time \<Rightarrow> identity_db \<Rightarrow> binding identity_tx" where
  "store_ApproveRequest requestID expectedAppID time db =
     (let now = identity_storeTime time
      in case lockRequest requestID db of Inl e \<Rightarrow> (Inl e, db) | Inr request \<Rightarrow>
         if ir_Status request \<noteq> RequestPending then (Inl ErrRequestNotPending, db)
         else if ir_AppID request \<noteq> expectedAppID then (Inl ErrRequestChanged, db)
         else if list_ex (\<lambda>b. app_ids_overlap (ir_AppID request) (br_app_id b)) (idb_bindings db)
         then (Inl ErrAppIDOverlap, db)
         else (let row = request_binding_row request now
               in if \<not> bindings_check row then (Inl (IdentityDBError ''insert app binding''), db)
                  else if BindingExists (br_app_id row) db then (Inl ErrAppAlreadyBound, db)
                  else if list_ex (\<lambda>b. br_identity b = br_identity row) (idb_bindings db)
                  then (Inl ErrWorkflowIdentityBound, db)
                  else (Inr (scanBinding row),
                        db\<lparr>idb_bindings := idb_bindings db @ [row],
                           idb_requests := filter (\<lambda>r. \<not> sibling_request row r)
                             (filter (\<lambda>r. rq_id r \<noteq> requestID) (idb_requests db))\<rparr>)))"

definition store_RejectRequest :: "int \<Rightarrow> time \<Rightarrow> identity_db \<Rightarrow> identity_request identity_tx" where
  "store_RejectRequest requestID time db =
     (let now = identity_storeTime time
      in case lockRequest requestID db of Inl e \<Rightarrow> (Inl e, db) | Inr request \<Rightarrow>
         if ir_Status request = RequestRejected then (Inr request, db)
         else (let f = (\<lambda>r. r\<lparr>rq_status := RequestRejected, rq_decided_at := Some now, rq_updated_at := now\<rparr>);
                   db1 = db\<lparr>idb_requests := update_where (\<lambda>r. rq_id r = requestID) f (idb_requests db)\<rparr>
               in case find (\<lambda>r. rq_id r = requestID) (idb_requests db1) of
                    None \<Rightarrow> (Inl (IdentityDBError ''reject identity request''), db)
                  | Some r \<Rightarrow> (Inr (scanRequest r), db1)))"

text \<open>
  \<^verbatim>\<open>ListBindings\<close>: the key rows arrive by app and newest first, and each is appended to its binding.
  \<open>collate\<close> is the collation of the database, which orders the app ids.
\<close>

definition add_listed_key :: "time \<Rightarrow> BindingWithKeys list \<Rightarrow> key_row \<Rightarrow> BindingWithKeys list" where
  "add_listed_key now listed k =
     map (\<lambda>l. if bn_AppID (bk_Binding l) = k_app_id k then l\<lparr>bk_Keys := bk_Keys l @ [toKey k now]\<rparr> else l) listed"

definition store_ListBindings :: "(string \<Rightarrow> 'k::linorder) \<Rightarrow> time \<Rightarrow> identity_db \<Rightarrow> BindingWithKeys list" where
  "store_ListBindings collate time db =
     (let now = identity_storeTime time;
          listed = map (\<lambda>b. \<lparr>bk_Binding = scanBinding b, bk_Keys = []\<rparr>)
                     (sort_key (\<lambda>b. collate (br_app_id b)) (idb_bindings db))
      in foldl (add_listed_key now) listed (sort_key (\<lambda>k. (collate (k_app_id k), - k_id k)) (idb_keys db)))"

definition revocable :: "int \<Rightarrow> time \<Rightarrow> key_row \<Rightarrow> bool" where
  "revocable keyID now k \<longleftrightarrow>
     k_id k = keyID \<and> k_revoked_at k = None
     \<and> (case k_superseded_at k of None \<Rightarrow> True | Some s \<Rightarrow> now - SupersededGrace < s)"

definition store_RevokeKey :: "int \<Rightarrow> time \<Rightarrow> identity_db \<Rightarrow> identity_key identity_tx" where
  "store_RevokeKey keyID time db =
     (let now = identity_storeTime time;
          db1 = db\<lparr>idb_keys := update_where (revocable keyID now)
                  (\<lambda>k. k\<lparr>k_revoked_at := Some now, k_revoked_reason := Some ''operator''\<rparr>) (idb_keys db)\<rparr>
      in case find (\<lambda>k. k_id k = keyID) (idb_keys db1) of
           None \<Rightarrow> (Inl ErrKeyNotFound, db)
         | Some k \<Rightarrow> (Inr (toKey k now), db1))"

text \<open>Deleting a binding cascades to its keys.\<close>

definition store_Unbind :: "string \<Rightarrow> identity_db \<Rightarrow> bool \<times> identity_db" where
  "store_Unbind appID db =
     (length (filter (\<lambda>b. br_app_id b = appID) (idb_bindings db)) = 1,
      db\<lparr>idb_bindings := filter (\<lambda>b. br_app_id b \<noteq> appID) (idb_bindings db),
         idb_keys := (if BindingExists appID db then filter (\<lambda>k. k_app_id k \<noteq> appID) (idb_keys db) else idb_keys db)\<rparr>)"

end
