(* ===== verification/Identity_Invariant.thy ===== *)
theory Identity_Invariant
  imports Identity_Store
begin

text \<open>
  The invariant of the identity tables, and that every store operation keeps it: bound app ids and
  workflow identities are unique and never overlap; no pending request names a bound app, and at most
  twenty are pending; every key belongs to a binding, and an app has at most one key that is neither
  superseded nor revoked.
\<close>

section \<open>The invariant\<close>

definition bindings_inv :: "binding_row list \<Rightarrow> bool" where
  "bindings_inv bs \<longleftrightarrow>
     distinct (map br_app_id bs) \<and> distinct (map br_identity bs) \<and> list_all bindings_check bs
     \<and> (\<forall>a \<in> set bs. \<forall>b \<in> set bs. \<not> app_ids_overlap (br_app_id a) (br_app_id b))"

definition requests_inv :: "int \<Rightarrow> request_row list \<Rightarrow> bool" where
  "requests_inv seq rs \<longleftrightarrow>
     distinct (map rq_id rs) \<and> list_all (\<lambda>r. rq_id r < seq) rs \<and> list_all requests_check rs
     \<and> distinct (map (\<lambda>r. (rq_app_id r, rq_identity r)) (filter rq_pending rs))
     \<and> length (filter rq_pending rs) \<le> MaxPendingRequests"

definition keys_inv :: "int \<Rightarrow> key_row list \<Rightarrow> bool" where
  "keys_inv seq ks \<longleftrightarrow>
     distinct (map k_id ks) \<and> list_all (\<lambda>k. k_id k < seq) ks \<and> list_all keys_check ks \<and> distinct (map k_hash ks)
     \<and> (\<forall>app. length (filter (live_key app) ks) \<le> 1)"

definition replay_inv :: "replay_row list \<Rightarrow> bool" where
  "replay_inv rs \<longleftrightarrow> distinct (map rp_jti rs) \<and> list_all (\<lambda>r. rp_jti r \<noteq> []) rs"

definition identity_refs :: "identity_db \<Rightarrow> bool" where
  "identity_refs db \<longleftrightarrow>
     k_app_id ` set (idb_keys db) \<subseteq> br_app_id ` set (idb_bindings db)
     \<and> rq_app_id ` set (filter rq_pending (idb_requests db)) \<inter> br_app_id ` set (idb_bindings db) = {}"

definition identity_inv :: "identity_db \<Rightarrow> bool" where
  "identity_inv db \<longleftrightarrow>
     bindings_inv (idb_bindings db) \<and> requests_inv (idb_request_seq db) (idb_requests db)
     \<and> keys_inv (idb_key_seq db) (idb_keys db) \<and> replay_inv (idb_replay db) \<and> identity_refs db"

lemma identity_invI:
  assumes "bindings_inv (idb_bindings db)" "requests_inv (idb_request_seq db) (idb_requests db)"
    "keys_inv (idb_key_seq db) (idb_keys db)" "replay_inv (idb_replay db)" "identity_refs db"
  shows "identity_inv db"
  using assms by (simp add: identity_inv_def)

lemma identity_invD:
  assumes "identity_inv db"
  shows "bindings_inv (idb_bindings db)" "requests_inv (idb_request_seq db) (idb_requests db)"
    "keys_inv (idb_key_seq db) (idb_keys db)" "replay_inv (idb_replay db)" "identity_refs db"
  using assms by (simp_all add: identity_inv_def)

lemma empty_identity_inv: "identity_inv empty_identity"
  by (simp add: identity_inv_def empty_identity_def bindings_inv_def requests_inv_def keys_inv_def
      replay_inv_def identity_refs_def)

lemma BindingExists_iff: "BindingExists app db \<longleftrightarrow> app \<in> br_app_id ` set (idb_bindings db)"
  by (auto simp: BindingExists_def list_ex_iff)

lemma bindings_inv_filter: "bindings_inv bs \<Longrightarrow> bindings_inv (filter p bs)"
  by (auto simp: bindings_inv_def distinct_map_filter_sub list_all_iff)

lemma requests_inv_filter:
  assumes "requests_inv seq rs"
  shows "requests_inv seq (filter p rs)"
proof -
  have "filter rq_pending (filter p rs) = filter p (filter rq_pending rs)" by (simp add: conj_commute)
  moreover have "length (filter p (filter rq_pending rs)) \<le> MaxPendingRequests"
    using assms length_filter_le order.trans unfolding requests_inv_def by blast
  ultimately show ?thesis
    using assms by (auto simp: requests_inv_def distinct_map_filter_sub list_all_iff simp del: filter_filter)
qed

lemma keys_inv_filter:
  assumes "keys_inv seq ks"
  shows "keys_inv seq (filter p ks)"
proof -
  have "length (filter (live_key app) (filter p ks)) \<le> 1" for app
  proof -
    have "filter (live_key app) (filter p ks) = filter p (filter (live_key app) ks)" by (simp add: conj_commute)
    moreover have "length (filter p (filter (live_key app) ks)) \<le> length (filter (live_key app) ks)"
      by (rule length_filter_le)
    ultimately show ?thesis using assms unfolding keys_inv_def by (metis order.trans)
  qed
  then show ?thesis using assms
    by (auto simp: keys_inv_def distinct_map_filter_sub list_all_iff simp del: filter_filter)
qed

lemma replay_inv_filter: "replay_inv rs \<Longrightarrow> replay_inv (filter p rs)"
  by (auto simp: replay_inv_def distinct_map_filter_sub list_all_iff)

lemma identity_inv_drop_requests:
  "identity_inv db \<Longrightarrow> identity_inv (db\<lparr>idb_requests := filter p (idb_requests db)\<rparr>)"
  by (auto simp: identity_inv_def requests_inv_filter identity_refs_def)

text \<open>A rewrite of key rows that keeps the identity of a key, its CHECKs and what is no longer live.\<close>

lemma keys_inv_update:
  assumes "keys_inv seq ks"
    and f: "\<And>k. k \<in> set ks \<Longrightarrow> p k \<Longrightarrow> k_id (f k) = k_id k \<and> k_hash (f k) = k_hash k \<and> k_app_id (f k) = k_app_id k
      \<and> (keys_check k \<longrightarrow> keys_check (f k)) \<and> (\<forall>app. live_key app (f k) \<longrightarrow> live_key app k)"
  shows "keys_inv seq (update_where p f ks)"
proof -
  have maps: "map k_id (update_where p f ks) = map k_id ks" "map k_hash (update_where p f ks) = map k_hash ks"
    using f by (simp_all add: update_where_def)
  have "length (filter (live_key app) (update_where p f ks)) \<le> length (filter (live_key app) ks)" for app
    using f by (induction ks) (auto simp: update_where_def le_SucI)
  then have live: "length (filter (live_key app) (update_where p f ks)) \<le> 1" for app
    using assms(1) unfolding keys_inv_def by (metis order.trans)
  have checks: "list_all (\<lambda>k. k_id k < seq) (update_where p f ks)" "list_all keys_check (update_where p f ks)"
    using assms(1) f by (auto simp: keys_inv_def list_all_iff in_update_where)
  show ?thesis using assms(1) live checks maps by (simp add: keys_inv_def)
qed

lemma identity_refs_keys:
  "identity_refs db \<Longrightarrow> k_app_id ` set ks \<subseteq> k_app_id ` set (idb_keys db) \<Longrightarrow> identity_refs (db\<lparr>idb_keys := ks\<rparr>)"
  by (auto simp: identity_refs_def)

lemma disjoint_mono: "A \<subseteq> A' \<Longrightarrow> B \<subseteq> B' \<Longrightarrow> A' \<inter> B' = {} \<Longrightarrow> A \<inter> B = {}"
  by blast

lemma identity_refs_requests:
  assumes "identity_refs db" "set (filter rq_pending rs) \<subseteq> set (filter rq_pending (idb_requests db))"
  shows "identity_refs (db\<lparr>idb_requests := rs\<rparr>)"
proof -
  have "rq_app_id ` set (filter rq_pending rs) \<inter> br_app_id ` set (idb_bindings db) = {}"
    by (rule disjoint_mono [OF image_mono [OF assms(2)] order_refl]) (use assms(1) in \<open>simp only: identity_refs_def\<close>)
  with assms(1) show ?thesis by (simp add: identity_refs_def)
qed

section \<open>Keys and the ledger\<close>

lemma TouchKey_inv: "identity_inv db \<Longrightarrow> identity_inv (snd (TouchKey keyID now db))"
proof -
  assume inv: "identity_inv db"
  let ?p = "touch_where keyID (identity_storeTime now)"
  let ?f = "\<lambda>k :: key_row. k\<lparr>k_last_used_at := Some (identity_storeTime now)\<rparr>"
  have keys: "keys_inv (idb_key_seq db) (update_where ?p ?f (idb_keys db))"
    by (rule keys_inv_update [OF identity_invD(3) [OF inv]]) (auto simp: keys_check_def live_key_def)
  have "map k_app_id (update_where ?p ?f (idb_keys db)) = map k_app_id (idb_keys db)" by (rule map_update_where) simp
  then have apps: "k_app_id ` set (update_where ?p ?f (idb_keys db)) = k_app_id ` set (idb_keys db)" by (metis set_map)
  with identity_invD [OF inv] keys show ?thesis
    by (intro identity_invI) (simp_all add: TouchKey_def Let_def identity_refs_keys)
qed

lemma DeleteExpiredReplay_inv: "identity_inv db \<Longrightarrow> identity_inv (snd (DeleteExpiredReplay now db))"
  by (simp add: identity_inv_def DeleteExpiredReplay_def Let_def replay_inv_filter identity_refs_def)

lemma RecordJTI_inv: "identity_inv db \<Longrightarrow> identity_inv (snd (RecordJTI jti expires db))"
  by (auto simp: identity_inv_def RecordJTI_def replay_inv_def identity_refs_def list_ex_iff image_iff)

lemma RecordJTI_frame: "RecordJTI jti expires db = (r, db') \<Longrightarrow> db' = db\<lparr>idb_replay := idb_replay db'\<rparr>"
  by (auto simp: RecordJTI_def split: if_splits)

section \<open>Filing\<close>

lemma refresh_where_row [simp]: "refresh_where app c (refresh_row c' now r) = refresh_where app c r"
  by (simp add: refresh_where_def refresh_row_def rq_pending_def rq_identity_def)

lemma refresh_row_simps [simp]:
  "rq_id (refresh_row c now r) = rq_id r" "rq_pending (refresh_row c now r) = rq_pending r"
  "rq_app_id (refresh_row c now r) = rq_app_id r" "rq_identity (refresh_row c now r) = rq_identity r"
  by (simp_all add: refresh_row_def rq_pending_def rq_identity_def)

text \<open>The refresh rewrites one row: the claims are a unique key of the pending requests.\<close>

lemma refresh_unique:
  assumes "requests_inv seq rs" "r \<in> set rs" "r' \<in> set rs" "refresh_where app c r" "refresh_where app c r'"
  shows "r = r'"
proof -
  have "distinct (map (\<lambda>r. (rq_app_id r, rq_identity r)) (filter rq_pending rs))"
    using assms(1) by (simp add: requests_inv_def)
  moreover have "r \<in> set (filter rq_pending rs)" "r' \<in> set (filter rq_pending rs)"
    and "(rq_app_id r, rq_identity r) = (rq_app_id r', rq_identity r')"
    using assms(2-) by (auto simp: refresh_where_def)
  ultimately show ?thesis by (rule distinct_map_inj)
qed

lemma requests_inv_refresh:
  assumes "requests_inv seq rs" "r \<in> set rs" "refresh_where app c r" "requests_check (refresh_row c now r)"
  shows "requests_inv seq (update_where (refresh_where app c) (refresh_row c now) rs)"
proof -
  let ?rs = "update_where (refresh_where app c) (refresh_row c now) rs"
  have pend: "filter rq_pending ?rs = update_where (refresh_where app c) (refresh_row c now) (filter rq_pending rs)"
    by (rule filter_update_where) simp
  have maps: "map rq_id ?rs = map rq_id rs"
    "map (\<lambda>r. (rq_app_id r, rq_identity r)) (filter rq_pending ?rs)
     = map (\<lambda>r. (rq_app_id r, rq_identity r)) (filter rq_pending rs)"
    unfolding pend by (simp_all add: map_update_where)
  have "requests_check x \<and> rq_id x < seq" if "x \<in> set ?rs" for x
    using that
  proof (cases rule: update_whereE)
    case (updated r')
    then have "r' = r" using refresh_unique [OF assms(1) updated(1) assms(2) updated(2) assms(3)] by simp
    with updated assms show ?thesis by (simp add: requests_inv_def list_all_iff)
  next
    case kept
    with assms(1) show ?thesis by (simp add: requests_inv_def list_all_iff)
  qed
  then have checks: "list_all requests_check ?rs" "list_all (\<lambda>r. rq_id r < seq) ?rs" by (simp_all add: list_all_iff)
  show ?thesis using assms(1) maps checks by (simp add: requests_inv_def pend)
qed

text \<open>The outcomes of filing: refused, refreshed, or a new row below the cap.\<close>

lemma FilePendingRequest_cases:
  obtains (failed) e where "FilePendingRequest app c now db = (Inl e, db)"
  | (refreshed) r where "FilePendingRequest app c now db
      = (Inr (rq_id r), db\<lparr>idb_requests := update_where (refresh_where app c)
          (refresh_row c (identity_storeTime now)) (idb_requests db)\<rparr>)"
      "r \<in> set (idb_requests db)" "refresh_where app c r" "requests_check (refresh_row c (identity_storeTime now) r)"
      "\<not> BindingExists app db"
  | (added) row where "row = new_request_row (idb_request_seq db) app c (identity_storeTime now)"
      "FilePendingRequest app c now db
      = (Inr (rq_id row), db\<lparr>idb_requests := idb_requests db @ [row], idb_request_seq := idb_request_seq db + 1\<rparr>)"
      "\<not> BindingExists app db" "\<forall>r \<in> set (idb_requests db). \<not> refresh_where app c r"
      "length (filter rq_pending (idb_requests db)) < MaxPendingRequests" "requests_check row"
proof -
  let ?now = "identity_storeTime now"
  consider "BindingExists app db"
    | (hit) r where "\<not> BindingExists app db" "find (refresh_where app c) (idb_requests db) = Some r"
    | (miss) "\<not> BindingExists app db" "find (refresh_where app c) (idb_requests db) = None"
    by (cases "find (refresh_where app c) (idb_requests db)") auto
  then show ?thesis
  proof cases
    case 1
    then show ?thesis by (intro failed) (simp add: FilePendingRequest_def)
  next
    case (hit r)
    show ?thesis
    proof (cases "requests_check (refresh_row c ?now r)")
      case True
      with hit find_Some_in [OF hit(2)] show ?thesis by (intro refreshed) (simp_all add: FilePendingRequest_def)
    next
      case False
      with hit show ?thesis by (intro failed) (simp add: FilePendingRequest_def)
    qed
  next
    case miss
    let ?row = "new_request_row (idb_request_seq db) app c ?now"
    show ?thesis
    proof (cases "MaxPendingRequests \<le> length (filter rq_pending (idb_requests db)) \<or> \<not> requests_check ?row")
      case True
      with miss show ?thesis by (cases "MaxPendingRequests \<le> length (filter rq_pending (idb_requests db))")
          (rule failed, simp add: FilePendingRequest_def Let_def)+
    next
      case False
      have none: "\<forall>r \<in> set (idb_requests db). \<not> refresh_where app c r" using miss(2) by (auto simp: find_None_iff)
      from False have ok: "length (filter rq_pending (idb_requests db)) < MaxPendingRequests" "requests_check ?row" by auto
      show ?thesis
        by (rule added [OF refl _ miss(1) none ok]) (use miss ok in \<open>simp add: FilePendingRequest_def Let_def\<close>)
    qed
  qed
qed

lemma FilePendingRequest_inv:
  assumes inv: "identity_inv db"
  shows "identity_inv (snd (FilePendingRequest app c now db))"
proof (cases rule: FilePendingRequest_cases [of app c now db])
  case (failed e)
  then show ?thesis by (simp add: inv)
next
  case (refreshed r)
  let ?rs = "update_where (refresh_where app c) (refresh_row c (identity_storeTime now)) (idb_requests db)"
  have "filter rq_pending ?rs
      = update_where (refresh_where app c) (refresh_row c (identity_storeTime now)) (filter rq_pending (idb_requests db))"
    by (rule filter_update_where) simp
  then have "map rq_app_id (filter rq_pending ?rs) = map rq_app_id (filter rq_pending (idb_requests db))"
    by (simp add: map_update_where)
  then have apps: "rq_app_id ` set (filter rq_pending ?rs) = rq_app_id ` set (filter rq_pending (idb_requests db))"
    by (metis set_map)
  have "identity_refs (db\<lparr>idb_requests := ?rs\<rparr>)"
    using identity_invD(5) [OF inv] apps unfolding identity_refs_def by simp
  with identity_invD [OF inv] requests_inv_refresh [OF identity_invD(2) [OF inv] refreshed(2-4)]
  show ?thesis unfolding refreshed(1) by (intro identity_invI) simp_all
next
  case (added row)
  have row: "rq_pending row" "rq_app_id row = app" "rq_id row = idb_request_seq db"
    "rq_identity row = (cl_RepositoryID c, cl_WorkflowPath c, cl_Ref c, environmentArgument (cl_Environment c))"
    by (simp_all add: added(1) new_request_row_def rq_pending_def rq_identity_def)
  have fresh: "(rq_app_id row, rq_identity row) \<notin> set (map (\<lambda>r. (rq_app_id r, rq_identity r)) (filter rq_pending (idb_requests db)))"
    using added(4) by (auto simp: refresh_where_def row)
  have "requests_inv (idb_request_seq db + 1) (idb_requests db @ [row])"
    using identity_invD(2) [OF inv] added(5,6) fresh row by (auto simp: requests_inv_def list_all_iff)
  moreover have "identity_refs (db\<lparr>idb_requests := idb_requests db @ [row], idb_request_seq := idb_request_seq db + 1\<rparr>)"
    using identity_invD(5) [OF inv] added(3) row by (auto simp: identity_refs_def BindingExists_iff)
  ultimately show ?thesis
    using identity_invD [OF inv] unfolding added(2) by (intro identity_invI) simp_all
qed

section \<open>Issuing\<close>

lemma IssueKey_cases:
  obtains (failed) e where "IssueKey lib random app run now db = (Inl e, db)"
  | (issued) plaintext row where "NewKey random = Inr plaintext"
      "row = new_key_row lib (idb_key_seq db) app plaintext run (identity_storeTime now)"
      "IssueKey lib random app run now db
       = (Inr \<lparr>ik_ID = k_id row, ik_Plaintext = plaintext, ik_Hint = k_hint row\<rparr>,
          db\<lparr>idb_keys := update_where (live_key app) (\<lambda>k. k\<lparr>k_superseded_at := Some (identity_storeTime now)\<rparr>) (idb_keys db) @ [row],
             idb_key_seq := idb_key_seq db + 1\<rparr>)"
      "keys_check row" "BindingExists app db" "k_hash row \<notin> k_hash ` set (idb_keys db)"
proof (cases "NewKey random")
  case (Inl e)
  then show ?thesis by (intro failed) (simp add: IssueKey_def)
next
  case (Inr plaintext)
  let ?row = "new_key_row lib (idb_key_seq db) app plaintext run (identity_storeTime now)"
  show ?thesis
  proof (cases "\<not> keys_check ?row \<or> \<not> BindingExists app db \<or> list_ex (\<lambda>k. k_hash k = k_hash ?row) (idb_keys db)")
    case True
    with Inr show ?thesis by (intro failed) (simp add: IssueKey_def Let_def)
  next
    case False
    then have "k_hash ?row \<notin> k_hash ` set (idb_keys db)" by (auto simp: list_ex_iff)
    with False Inr show ?thesis
      by (intro issued [OF Inr refl]) (simp_all add: IssueKey_def Let_def supersede_def)
  qed
qed

lemma supersede_keys_inv:
  assumes "keys_inv seq ks"
  shows "keys_inv seq (update_where (live_key app) (\<lambda>k. k\<lparr>k_superseded_at := Some now\<rparr>) ks)"
    and "filter (live_key app) (update_where (live_key app) (\<lambda>k. k\<lparr>k_superseded_at := Some now\<rparr>) ks) = []"
proof -
  show "keys_inv seq (update_where (live_key app) (\<lambda>k. k\<lparr>k_superseded_at := Some now\<rparr>) ks)"
    by (rule keys_inv_update [OF assms]) (auto simp: keys_check_def live_key_def)
  show "filter (live_key app) (update_where (live_key app) (\<lambda>k. k\<lparr>k_superseded_at := Some now\<rparr>) ks) = []"
    by (auto simp: filter_empty_conv elim!: update_whereE) (simp add: live_key_def)
qed

lemma keys_inv_add:
  assumes "keys_inv seq ks" "k_id row = seq" "keys_check row" "k_hash row \<notin> k_hash ` set ks"
    and "filter (live_key (k_app_id row)) ks = []"
  shows "keys_inv (seq + 1) (ks @ [row])"
proof -
  have "length (filter (live_key app) (ks @ [row])) \<le> 1" for app
    using assms(1,5) by (cases "live_key app row") (auto simp: keys_inv_def live_key_def)
  with assms show ?thesis by (auto simp: keys_inv_def list_all_iff)
qed

lemma IssueKey_inv:
  assumes inv: "identity_inv db"
  shows "identity_inv (snd (IssueKey lib random app run now db))"
proof (cases rule: IssueKey_cases [of lib random app run now db])
  case (failed e)
  then show ?thesis by (simp add: inv)
next
  case (issued plaintext row)
  let ?ks = "update_where (live_key app) (\<lambda>k. k\<lparr>k_superseded_at := Some (identity_storeTime now)\<rparr>) (idb_keys db)"
  have maps: "map k_hash ?ks = map k_hash (idb_keys db)" "map k_app_id ?ks = map k_app_id (idb_keys db)"
    by (simp_all add: map_update_where)
  then have sets: "k_hash ` set ?ks = k_hash ` set (idb_keys db)" "k_app_id ` set ?ks = k_app_id ` set (idb_keys db)"
    by (metis set_map)+
  have row: "k_id row = idb_key_seq db" "k_app_id row = app" by (simp_all add: issued(2) new_key_row_def)
  have "keys_inv (idb_key_seq db + 1) (?ks @ [row])"
    using supersede_keys_inv [OF identity_invD(3) [OF inv], of app "identity_storeTime now"] row issued(4,6) sets(1)
    by (intro keys_inv_add) simp_all
  moreover have "k_app_id ` set (?ks @ [row]) \<subseteq> br_app_id ` set (idb_bindings db)"
    using identity_invD(5) [OF inv] sets(2) issued(5) row(2) by (auto simp: identity_refs_def BindingExists_iff)
  ultimately show ?thesis
    using identity_invD [OF inv] unfolding issued(3) by (intro identity_invI) (simp_all add: identity_refs_def)
qed

section \<open>The operator's operations\<close>

lemma delete_requests_inv: "identity_inv db \<Longrightarrow> identity_inv (snd (delete_requests p db))"
  by (simp add: delete_requests_def identity_inv_drop_requests)

lemma DeleteExpiredRejectedRequests_inv: "identity_inv db \<Longrightarrow> identity_inv (snd (DeleteExpiredRejectedRequests now db))"
  by (simp add: DeleteExpiredRejectedRequests_def delete_requests_inv)

lemma DeleteStalePendingRequests_inv: "identity_inv db \<Longrightarrow> identity_inv (snd (DeleteStalePendingRequests now ttl db))"
  using delete_requests_inv [of db] by (auto simp: DeleteStalePendingRequests_def split: prod.split) (metis snd_conv)

lemma environment_inverse:
  "e \<noteq> Some [] \<Longrightarrow> environmentArgument (environment_text e) = e" "environment_text (environmentArgument s) = s"
  by (auto simp: environmentArgument_def environment_text_def split: option.splits)

lemma app_ids_overlap_sym: "app_ids_overlap a b = app_ids_overlap b a"
  by (auto simp: app_ids_overlap_def)

lemma app_ids_overlap_irrefl [simp]: "\<not> app_ids_overlap a a"
proof
  assume "app_ids_overlap a a"
  then have "take (length (a @ ''_'')) a = a @ ''_''" by (simp add: app_ids_overlap_def starts_with_def)
  then have "length (take (length (a @ ''_'')) a) = length (a @ ''_'')" by (rule arg_cong)
  then show False by simp
qed

text \<open>What an approval does when it succeeds: the binding of the request, and the request and its siblings gone.\<close>

lemma store_ApproveRequest_cases:
  obtains (failed) e where "store_ApproveRequest i expected now db = (Inl e, db)"
  | (approved) r row where "find (\<lambda>r. rq_id r = i) (idb_requests db) = Some r" "rq_pending r" "rq_app_id r = expected"
      "row = request_binding_row (scanRequest r) (identity_storeTime now)"
      "store_ApproveRequest i expected now db
       = (Inr (scanBinding row), db\<lparr>idb_bindings := idb_bindings db @ [row],
           idb_requests := filter (\<lambda>r. rq_id r \<noteq> i \<and> \<not> sibling_request row r) (idb_requests db)\<rparr>)"
      "bindings_check row" "expected \<notin> br_app_id ` set (idb_bindings db)"
      "br_identity row \<notin> br_identity ` set (idb_bindings db)"
      "\<forall>b \<in> set (idb_bindings db). \<not> app_ids_overlap expected (br_app_id b)"
proof (cases "find (\<lambda>r. rq_id r = i) (idb_requests db)")
  case None
  then show ?thesis by (intro failed) (simp add: store_ApproveRequest_def lockRequest_def)
next
  case (Some r)
  let ?row = "request_binding_row (scanRequest r) (identity_storeTime now)"
  let ?bad = "rq_status r \<noteq> RequestPending \<or> rq_app_id r \<noteq> expected
    \<or> list_ex (\<lambda>b. app_ids_overlap (rq_app_id r) (br_app_id b)) (idb_bindings db)
    \<or> \<not> bindings_check ?row \<or> BindingExists (br_app_id ?row) db
    \<or> list_ex (\<lambda>b. br_identity b = br_identity ?row) (idb_bindings db)"
  have fields: "ir_Status (scanRequest r) = rq_status r" "ir_AppID (scanRequest r) = rq_app_id r"
    by (simp_all add: scanRequest_def)
  show ?thesis
  proof (cases ?bad)
    case True
    then have "\<exists>e. store_ApproveRequest i expected now db = (Inl e, db)"
      by (auto simp: store_ApproveRequest_def lockRequest_def Some fields Let_def)
    then show ?thesis using failed by blast
  next
    case False
    then have *: "rq_pending r" "rq_app_id r = expected" "bindings_check ?row"
      "expected \<notin> br_app_id ` set (idb_bindings db)" "br_identity ?row \<notin> br_identity ` set (idb_bindings db)"
      "\<forall>b \<in> set (idb_bindings db). \<not> app_ids_overlap expected (br_app_id b)"
      by (auto simp: rq_pending_def list_ex_iff BindingExists_iff request_binding_row_def fields)
    have "store_ApproveRequest i expected now db
       = (Inr (scanBinding ?row), db\<lparr>idb_bindings := idb_bindings db @ [?row],
           idb_requests := filter (\<lambda>r. rq_id r \<noteq> i \<and> \<not> sibling_request ?row r) (idb_requests db)\<rparr>)"
      using False by (simp add: store_ApproveRequest_def lockRequest_def Some fields Let_def conj_commute)
    with * Some show ?thesis by (intro approved) simp_all
  qed
qed

lemma request_binding_row_app [simp]: "br_app_id (request_binding_row (scanRequest r) now) = rq_app_id r"
  by (simp add: request_binding_row_def scanRequest_def)

lemma store_ApproveRequest_inv:
  assumes inv: "identity_inv db"
  shows "identity_inv (snd (store_ApproveRequest i expected now db))"
proof (cases rule: store_ApproveRequest_cases [of i expected now db])
  case (failed e)
  then show ?thesis by (simp add: inv)
next
  case (approved r row)
  let ?rs = "filter (\<lambda>r. rq_id r \<noteq> i \<and> \<not> sibling_request row r) (idb_requests db)"
  let ?db = "db\<lparr>idb_bindings := idb_bindings db @ [row], idb_requests := ?rs\<rparr>"
  have app: "br_app_id row = expected" by (simp add: approved(3,4))
  have "bindings_inv (idb_bindings db @ [row])"
    using identity_invD(1) [OF inv] approved(6-9) app by (auto simp: bindings_inv_def app_ids_overlap_sym)
  moreover have "identity_refs ?db"
    using identity_invD(5) [OF inv] app by (auto simp: identity_refs_def sibling_request_def)
  ultimately show ?thesis
    using identity_invD [OF inv] unfolding approved(5) by (intro identity_invI) (simp_all add: requests_inv_filter)
qed

lemma store_RejectRequest_cases:
  obtains (kept) r where "store_RejectRequest i now db = (r, db)"
  | (rejected) r where "find (\<lambda>r. rq_id r = i) (idb_requests db) = Some r" "rq_pending r"
      "snd (store_RejectRequest i now db) = db\<lparr>idb_requests := update_where (\<lambda>r. rq_id r = i)
         (\<lambda>r. r\<lparr>rq_status := RequestRejected, rq_decided_at := Some (identity_storeTime now),
                rq_updated_at := identity_storeTime now\<rparr>) (idb_requests db)\<rparr>"
proof (cases "find (\<lambda>r. rq_id r = i) (idb_requests db)")
  case None
  then show ?thesis by (intro kept) (simp add: store_RejectRequest_def lockRequest_def)
next
  case (Some r)
  show ?thesis
  proof (cases "rq_pending r")
    case True
    let ?rs = "update_where (\<lambda>r. rq_id r = i) (\<lambda>r. r\<lparr>rq_status := RequestRejected,
      rq_decided_at := Some (identity_storeTime now), rq_updated_at := identity_storeTime now\<rparr>) (idb_requests db)"
    have "find (\<lambda>r. rq_id r = i) ?rs \<noteq> None"
      using find_Some_in [OF Some] by (auto simp: find_None_iff in_update_where)
    then obtain r' where "find (\<lambda>r. rq_id r = i) ?rs = Some r'" by blast
    with True Some show ?thesis
      by (intro rejected) (simp_all add: store_RejectRequest_def lockRequest_def scanRequest_def rq_pending_def Let_def)
  next
    case False
    then have "rq_status r = RequestRejected" using request_status.exhaust by (auto simp: rq_pending_def)
    with Some show ?thesis
      by (intro kept) (simp add: store_RejectRequest_def lockRequest_def scanRequest_def)
  qed
qed

lemma store_RejectRequest_inv:
  assumes inv: "identity_inv db"
  shows "identity_inv (snd (store_RejectRequest i now db))"
proof (cases rule: store_RejectRequest_cases [of i now db])
  case (kept r)
  then show ?thesis by (simp add: inv)
next
  case (rejected r)
  let ?f = "\<lambda>r :: request_row. r\<lparr>rq_status := RequestRejected, rq_decided_at := Some (identity_storeTime now),
                rq_updated_at := identity_storeTime now\<rparr>"
  let ?rs = "update_where (\<lambda>r. rq_id r = i) ?f (idb_requests db)"
  have pend: "filter rq_pending (update_where (\<lambda>r. rq_id r = i) ?f rs) = filter (\<lambda>r. rq_id r \<noteq> i) (filter rq_pending rs)" for rs
    by (induction rs) (auto simp: update_where_def rq_pending_def)
  have ids: "map rq_id ?rs = map rq_id (idb_requests db)" by (rule map_update_where) simp
  have req: "requests_inv (idb_request_seq db) (idb_requests db)" by (rule identity_invD(2) [OF inv])
  have "length (filter (\<lambda>r. rq_id r \<noteq> i) (filter rq_pending (idb_requests db))) \<le> MaxPendingRequests"
    using req length_filter_le order.trans unfolding requests_inv_def by blast
  moreover have "requests_check x \<and> rq_id x < idb_request_seq db" if "x \<in> set ?rs" for x
    using that
  proof (cases rule: update_whereE)
    case (updated r)
    with req show ?thesis by (auto simp: requests_inv_def list_all_iff requests_check_def)
  next
    case kept
    with req show ?thesis by (simp add: requests_inv_def list_all_iff)
  qed
  ultimately have "requests_inv (idb_request_seq db) ?rs"
    using req unfolding requests_inv_def pend ids
    by (simp add: distinct_map_filter_sub list_all_iff del: filter_filter)
  moreover have "set (filter rq_pending ?rs) \<subseteq> set (filter rq_pending (idb_requests db))"
    unfolding pend by auto
  then have "identity_refs (db\<lparr>idb_requests := ?rs\<rparr>)" by (rule identity_refs_requests [OF identity_invD(5) [OF inv]])
  ultimately show ?thesis using identity_invD [OF inv] unfolding rejected(3) by (intro identity_invI) simp_all
qed

lemma store_RevokeKey_inv:
  assumes inv: "identity_inv db"
  shows "identity_inv (snd (store_RevokeKey keyID now db))"
proof -
  let ?now = "identity_storeTime now"
  let ?ks = "update_where (revocable keyID ?now) (\<lambda>k. k\<lparr>k_revoked_at := Some ?now, k_revoked_reason := Some ''operator''\<rparr>) (idb_keys db)"
  have keys: "keys_inv (idb_key_seq db) ?ks"
    by (rule keys_inv_update [OF identity_invD(3) [OF inv]]) (auto simp: keys_check_def live_key_def)
  have "map k_app_id ?ks = map k_app_id (idb_keys db)" by (simp add: map_update_where)
  then have "k_app_id ` set ?ks = k_app_id ` set (idb_keys db)" by (metis set_map)
  with keys identity_invD [OF inv] have "identity_inv (db\<lparr>idb_keys := ?ks\<rparr>)"
    by (intro identity_invI) (simp_all add: identity_refs_keys)
  then show ?thesis using inv by (simp add: store_RevokeKey_def Let_def split: option.split)
qed

lemma store_Unbind_inv:
  assumes inv: "identity_inv db"
  shows "identity_inv (snd (store_Unbind app db))"
proof -
  have "identity_refs (snd (store_Unbind app db))"
  proof (cases "BindingExists app db")
    case True
    have "k_app_id ` set (filter (\<lambda>k. k_app_id k \<noteq> app) (idb_keys db))
      \<subseteq> br_app_id ` set (filter (\<lambda>b. br_app_id b \<noteq> app) (idb_bindings db))"
    proof (rule image_subsetI)
      fix k assume k: "k \<in> set (filter (\<lambda>k. k_app_id k \<noteq> app) (idb_keys db))"
      then have "k_app_id k \<in> br_app_id ` set (idb_bindings db)"
        using identity_invD(5) [OF inv] unfolding identity_refs_def by (simp add: image_subset_iff)
      with k show "k_app_id k \<in> br_app_id ` set (filter (\<lambda>b. br_app_id b \<noteq> app) (idb_bindings db))" by auto
    qed
    moreover have "br_app_id ` set (filter (\<lambda>b. br_app_id b \<noteq> app) (idb_bindings db)) \<subseteq> br_app_id ` set (idb_bindings db)"
      by auto
    then have "rq_app_id ` set (filter rq_pending (idb_requests db))
      \<inter> br_app_id ` set (filter (\<lambda>b. br_app_id b \<noteq> app) (idb_bindings db)) = {}"
      by (rule disjoint_mono [OF order_refl]) (use identity_invD(5) [OF inv] in \<open>simp only: identity_refs_def\<close>)
    ultimately show ?thesis unfolding identity_refs_def store_Unbind_def by (simp add: True)
  next
    case False
    then have "filter (\<lambda>b. br_app_id b \<noteq> app) (idb_bindings db) = idb_bindings db"
      by (intro filter_True) (auto simp: BindingExists_def list_ex_iff)
    with False identity_invD(5) [OF inv] show ?thesis by (simp add: identity_refs_def store_Unbind_def)
  qed
  with identity_invD [OF inv] show ?thesis
    by (intro identity_invI) (simp_all add: store_Unbind_def bindings_inv_filter keys_inv_filter)
qed

lemma toKey_superseded:
  "key_State (row_record k) now = KeyRevoked \<Longrightarrow> k_revoked_at k = None \<Longrightarrow> k_superseded_at k \<noteq> None"
  by (auto simp: State_simps Valid_iff row_record_def)

end
