(* ===== verification/Identity_Service.thy ===== *)
theory Identity_Service
  imports Identity_Invariant Registry_Types
begin

text \<open>
  The app identity use cases (\<^verbatim>\<open>delivery-api/internal/appidentity/service.go\<close>): the token exchange with its
  decision inside one transaction, the operator's approvals, revocations and unbinding, and the check of
  a presented key. Logging is left out, but for the bound on a logged reason.
\<close>

section \<open>Validation\<close>

definition reservedAppID :: string where "reservedAppID = ''everyone''"

abbreviation maxLoggedReasonChars :: nat where "maxLoggedReasonChars \<equiv> 300"

definition identity_ValidateAppID :: "string \<Rightarrow> unit identity_result" where
  "identity_ValidateAppID appID = (if app_id_valid appID then Inr () else Inl (IdentityValidation ''invalid app_id''))"

definition validateExchangeAppID :: "string \<Rightarrow> unit identity_result" where
  "validateExchangeAppID appID =
     (if appID = reservedAppID then Inl (IdentityValidation ''invalid app_id'') else Inr ())"

definition loggedReason :: "string \<Rightarrow> string" where
  "loggedReason reason =
     (if length reason \<le> maxLoggedReasonChars then reason
      else take (cut_back reason maxLoggedReasonChars) reason @ ''...'')"

section \<open>The exchange\<close>

datatype ExchangeResult =
    ExchangeIssued (er_AppID: string) (er_Key: string) (er_KeyID: int)
  | ExchangePending (er_RequestID: int)

text \<open>
  What one exchange meets: what other transactions commit before its first read of the binding, while
  it waits to file and before its second read; the random bytes of a key; and the service's clock.
\<close>

datatype exchange_phase = FirstRead | Filing | SecondRead

record exchange_env =
  ee_between :: "exchange_phase \<Rightarrow> identity_db \<Rightarrow> identity_db"
  ee_random :: "string + string"
  ee_now :: time

definition verifyOnly_RecordJTI :: "unit replay_recorder" where
  "verifyOnly_RecordJTI jti expiresAt s = (Inr True, s)"

text \<open>The second decision runs with \<open>mayFile\<close> false, so there is no third.\<close>

function decideClaims ::
  "text_lib \<Rightarrow> exchange_env \<Rightarrow> string \<Rightarrow> claims \<Rightarrow> time \<Rightarrow> bool \<Rightarrow> exchange_tx
   \<Rightarrow> ExchangeResult identity_result \<times> exchange_tx" where
  "decideClaims lib env appID c now mayFile tx =
     (let tx1 = see_commits (ee_between env (if mayFile then FirstRead else SecondRead)) tx
      in case LockBinding appID (et_view tx1) of
           None \<Rightarrow>
             if \<not> mayFile then (Inl ErrBindingAppeared, tx1)
             else (let tx2 = see_commits (ee_between env Filing) tx1
                   in case FilePendingRequest appID c now (et_view tx2) of
                        (Inl e, _) \<Rightarrow>
                          if e = ErrBindingAppeared then decideClaims lib env appID c now False tx2 else (Inl e, tx2)
                      | (Inr requestID, view) \<Rightarrow> (Inr (ExchangePending requestID), tx2\<lparr>et_view := view\<rparr>))
         | Some b \<Rightarrow>
             if \<not> Matches b c then (Inl ErrBindingMismatch, tx1)
             else case IssueKey lib (ee_random env) appID (cl_RunID c) now (et_view tx1) of
                    (Inl e, _) \<Rightarrow> (Inl e, tx1)
                  | (Inr issued, view) \<Rightarrow>
                      (Inr (ExchangeIssued appID (ik_Plaintext issued) (ik_ID issued)), tx1\<lparr>et_view := view\<rparr>))"
  by pat_completeness auto
termination by (relation "measure (\<lambda>(lib, env, appID, c, now, mayFile, tx). if mayFile then 1 else 0)") auto

declare decideClaims.simps [simp del]

definition exchangeClaims ::
  "text_lib \<Rightarrow> exchange_env \<Rightarrow> string \<Rightarrow> claims \<Rightarrow> exchange_tx \<Rightarrow> ExchangeResult identity_result \<times> exchange_tx" where
  "exchangeClaims lib env appID c tx = decideClaims lib env appID c (ee_now env) True tx"

text \<open>The body of the transaction, and the transaction.\<close>

definition exchange_body ::
  "text_lib \<Rightarrow> exchange_env \<Rightarrow> string \<Rightarrow> claims \<Rightarrow> exchange_tx \<Rightarrow> ExchangeResult identity_result \<times> exchange_tx" where
  "exchange_body lib env appID c tx =
     (case RecordJTI (cl_JTI c) (ReplayExpiry c) (et_view tx) of
        (Inl e, _) \<Rightarrow> (Inl e, tx)
      | (Inr fresh, view) \<Rightarrow>
          if \<not> fresh then (Inl ErrReplayed, tx) else exchangeClaims lib env appID c (tx\<lparr>et_view := view\<rparr>))"

definition exchange_commit ::
  "text_lib \<Rightarrow> exchange_env \<Rightarrow> string \<Rightarrow> claims \<Rightarrow> identity_db \<Rightarrow> ExchangeResult identity_tx" where
  "exchange_commit lib env appID c db = store_Exchange (exchange_body lib env appID c) db"

definition service_Exchange ::
  "text_lib \<Rightarrow> jwt_lib \<Rightarrow> (string \<Rightarrow> string + jwk list) \<Rightarrow> refresh_env \<Rightarrow> exchange_env \<Rightarrow> string \<Rightarrow> string
   \<Rightarrow> verifier \<times> identity_db \<Rightarrow> ExchangeResult identity_result \<times> verifier \<times> identity_db" where
  "service_Exchange lib jwt decode renv env appID token vdb =
     (case vdb of (v, db) \<Rightarrow>
      case identity_ValidateAppID appID of Inl e \<Rightarrow> (Inl e, v, db) | Inr _ \<Rightarrow>
      case validateExchangeAppID appID of Inl e \<Rightarrow> (Inl e, v, db) | Inr _ \<Rightarrow>
      if token = [] then (Inl (IdentityValidation ''token is required''), v, db)
      else case Verify jwt decode renv token (Some verifyOnly_RecordJTI) (v, ()) of
             (Inl e, v', _) \<Rightarrow> (Inl e, v', db)
           | (Inr c, v', _) \<Rightarrow> (case exchange_commit lib env appID c db of (r, db') \<Rightarrow> (r, v', db')))"

section \<open>The operator\<close>

definition service_ListRequests :: "time \<Rightarrow> identity_db \<Rightarrow> identity_request list" where
  "service_ListRequests now db = ListRequests now db"

text \<open>
  The registrar is the people directory, a remote service: \<^verbatim>\<open>CreateApp\<close> answers or fails. \<open>ctx_done\<close> says
  that the caller's context ended, and \<open>others\<close> is what commits during the registration.
\<close>

definition service_ApproveRequest ::
  "(string \<Rightarrow> string \<Rightarrow> string + unit) option \<Rightarrow> bool \<Rightarrow> (identity_db \<Rightarrow> identity_db) \<Rightarrow> int \<Rightarrow> time
   \<Rightarrow> identity_db \<Rightarrow> binding identity_tx" where
  "service_ApproveRequest registrar ctx_done others requestID now db =
     (case registrar of None \<Rightarrow> (Inl ErrAppRegistryNotConfigured, db)
      | Some CreateApp \<Rightarrow>
      case GetRequest requestID db of Inl e \<Rightarrow> (Inl e, db)
      | Inr request \<Rightarrow>
      if ir_Status request \<noteq> RequestPending then (Inl ErrRequestNotPending, db)
      else if ir_AppID request = reservedAppID then (Inl ErrAppIDReserved, db)
      else case CreateApp (ir_AppID request) (ir_AppID request) of
             Inl e \<Rightarrow> if ctx_done then (Inl (IdentityOther ''context ended''), others db)
                      else (Inl (ErrAppRegistryUnavailable e), others db)
           | Inr _ \<Rightarrow> store_ApproveRequest requestID (ir_AppID request) now (others db))"

definition service_RejectRequest :: "int \<Rightarrow> time \<Rightarrow> identity_db \<Rightarrow> identity_request identity_tx" where
  "service_RejectRequest requestID now db = store_RejectRequest requestID now db"

definition service_ListBindings :: "(string \<Rightarrow> 'k::linorder) \<Rightarrow> time \<Rightarrow> identity_db \<Rightarrow> BindingWithKeys list" where
  "service_ListBindings collate now db = store_ListBindings collate now db"

text \<open>Recording the use of a key is best effort: \<open>touch_fails\<close> says that the database refused it.\<close>

definition service_ResolveKey :: "text_lib \<Rightarrow> bool \<Rightarrow> string \<Rightarrow> time \<Rightarrow> identity_db \<Rightarrow> ResolvedKey identity_tx" where
  "service_ResolveKey lib touch_fails key now db =
     (case ResolveKey lib key now db of
        Inl e \<Rightarrow> (Inl e, db)
      | Inr resolved \<Rightarrow> (Inr resolved, if touch_fails then db else snd (TouchKey (rk_ID resolved) now db)))"

definition service_RevokeKey :: "int \<Rightarrow> time \<Rightarrow> identity_db \<Rightarrow> identity_key identity_tx" where
  "service_RevokeKey keyID now db = store_RevokeKey keyID now db"

definition HasBinding :: "string \<Rightarrow> identity_db \<Rightarrow> bool identity_result" where
  "HasBinding appID db =
     (case identity_ValidateAppID appID of Inl e \<Rightarrow> Inl e | Inr _ \<Rightarrow> Inr (BindingExists appID db))"

definition service_Unbind :: "string \<Rightarrow> identity_db \<Rightarrow> bool identity_tx" where
  "service_Unbind appID db =
     (case identity_ValidateAppID appID of Inl e \<Rightarrow> (Inl e, db)
      | Inr _ \<Rightarrow> (case store_Unbind appID db of (deleted, db') \<Rightarrow> (Inr deleted, db')))"

section \<open>Facts\<close>

lemma loggedReason_length: "length (loggedReason reason) \<le> maxLoggedReasonChars + 3"
proof -
  have "cut_back reason n \<le> n" for n by (induction n) auto
  then have "length (take (cut_back reason maxLoggedReasonChars) reason) \<le> maxLoggedReasonChars"
    by (metis length_take min.coboundedI2)
  then show ?thesis by (auto simp: loggedReason_def)
qed

lemma LockBinding_None: "LockBinding app db = None \<longleftrightarrow> \<not> BindingExists app db"
  by (auto simp: LockBinding_def BindingExists_def find_None_iff list_ex_iff)

text \<open>
  The decision leaves the committed state to the others, and what the transaction sees is one filing or
  one issue on top of what they committed, or nothing more.
\<close>

definition issued_view ::
  "text_lib \<Rightarrow> exchange_env \<Rightarrow> string \<Rightarrow> claims \<Rightarrow> time \<Rightarrow> identity_db \<Rightarrow> ExchangeResult \<Rightarrow> identity_db \<Rightarrow> bool" where
  "issued_view lib env app c now view r view' \<longleftrightarrow>
     (\<exists>b issued. LockBinding app view = Some b \<and> Matches b c
        \<and> IssueKey lib (ee_random env) app (cl_RunID c) now view = (Inr issued, view')
        \<and> r = ExchangeIssued app (ik_Plaintext issued) (ik_ID issued))"

definition filed_view :: "string \<Rightarrow> claims \<Rightarrow> time \<Rightarrow> identity_db \<Rightarrow> ExchangeResult \<Rightarrow> identity_db \<Rightarrow> bool" where
  "filed_view app c now view r view' \<longleftrightarrow>
     (\<exists>i. FilePendingRequest app c now view = (Inr i, view') \<and> r = ExchangePending i)"

lemma decideClaims_bound:
  assumes "tx1 = see_commits (ee_between env (if mayFile then FirstRead else SecondRead)) tx" "LockBinding app (et_view tx1) = Some b"
  shows "(\<exists>e. decideClaims lib env app c now mayFile tx = (Inl e, tx1))
    \<or> (\<exists>r view. decideClaims lib env app c now mayFile tx = (Inr r, tx1\<lparr>et_view := view\<rparr>)
        \<and> issued_view lib env app c now (et_view tx1) r view)"
  using assms
  by (subst (1 2) decideClaims.simps) (auto simp: Let_def issued_view_def split: prod.splits sum.splits)

lemma decideClaims_False:
  assumes "tx1 = see_commits (ee_between env SecondRead) tx"
  shows "(\<exists>e. decideClaims lib env app c now False tx = (Inl e, tx1))
    \<or> (\<exists>r view. decideClaims lib env app c now False tx = (Inr r, tx1\<lparr>et_view := view\<rparr>)
        \<and> issued_view lib env app c now (et_view tx1) r view)"
proof (cases "LockBinding app (et_view tx1)")
  case None
  with assms show ?thesis by (subst (1) decideClaims.simps) (simp add: Let_def)
next
  case (Some b)
  with assms show ?thesis by (intro decideClaims_bound) simp_all
qed

lemma see_commits_simps [simp]:
  "et_committed (see_commits o1 tx) = o1 (et_committed tx)" "et_view (see_commits o1 tx) = o1 (et_view tx)"
  by (simp_all add: see_commits_def)

text \<open>Every run of the decision: the commits it saw, then an error, an issue or a filing.\<close>

lemma decideClaims_cases:
  assumes "decideClaims lib env app c now True tx = (r, tx')"
  shows "\<exists>others. others \<in> {ee_between env FirstRead, ee_between env Filing \<circ> ee_between env FirstRead,
       ee_between env SecondRead \<circ> ee_between env Filing \<circ> ee_between env FirstRead}
     \<and> et_committed tx' = others (et_committed tx)
     \<and> (case r of Inl _ \<Rightarrow> et_view tx' = others (et_view tx)
        | Inr x \<Rightarrow> issued_view lib env app c now (others (et_view tx)) x (et_view tx')
            \<or> filed_view app c now (others (et_view tx)) x (et_view tx'))"
proof (cases "LockBinding app (ee_between env FirstRead (et_view tx))")
  case (Some b)
  with decideClaims_bound [of "see_commits (ee_between env FirstRead) tx" env True tx app b lib c now] assms
  show ?thesis by (intro exI [of _ "ee_between env FirstRead"]) auto
next
  case None
  let ?tx2 = "see_commits (ee_between env Filing) (see_commits (ee_between env FirstRead) tx)"
  have step: "decideClaims lib env app c now True tx =
      (case FilePendingRequest app c now (et_view ?tx2) of
         (Inl e, _) \<Rightarrow> if e = ErrBindingAppeared then decideClaims lib env app c now False ?tx2 else (Inl e, ?tx2)
       | (Inr requestID, view) \<Rightarrow> (Inr (ExchangePending requestID), ?tx2\<lparr>et_view := view\<rparr>))"
    using None by (subst decideClaims.simps) (simp add: Let_def)
  show ?thesis
  proof (cases "FilePendingRequest app c now (et_view ?tx2)")
    case (Pair f view)
    show ?thesis
    proof (cases "f = Inl ErrBindingAppeared")
      case True
      with Pair step assms have "decideClaims lib env app c now False ?tx2 = (r, tx')" by simp
      with decideClaims_False [of "see_commits (ee_between env SecondRead) ?tx2" env ?tx2 lib app c now] show ?thesis
        by (intro exI [of _ "ee_between env SecondRead \<circ> ee_between env Filing \<circ> ee_between env FirstRead"]) auto
    next
      case False
      with Pair step assms show ?thesis
        by (intro exI [of _ "ee_between env Filing \<circ> ee_between env FirstRead"])
          (auto simp: filed_view_def split: sum.splits if_splits)
    qed
  qed
qed

text \<open>What a committed exchange did.\<close>

lemma exchange_commit_Inr:
  assumes "exchange_commit lib env app c db = (Inr r, db')"
  obtains others db1 where "others \<in> {ee_between env FirstRead, ee_between env Filing \<circ> ee_between env FirstRead,
       ee_between env SecondRead \<circ> ee_between env Filing \<circ> ee_between env FirstRead}"
    "RecordJTI (cl_JTI c) (ReplayExpiry c) db = (Inr True, db1)"
    "issued_view lib env app c (ee_now env) (others db1) r db' \<or> filed_view app c (ee_now env) (others db1) r db'"
proof -
  obtain db1 tx where jti: "RecordJTI (cl_JTI c) (ReplayExpiry c) db = (Inr True, db1)"
    and run: "decideClaims lib env app c (ee_now env) True \<lparr>et_committed = db, et_view = db1\<rparr> = (Inr r, tx)"
    and db': "db' = et_view tx"
    using assms
    by (auto simp: exchange_commit_def store_Exchange_def exchange_body_def exchangeClaims_def
        split: prod.splits sum.splits if_splits)
  from decideClaims_cases [OF run] jti that show ?thesis by (auto simp: db')
qed

lemma exchange_commit_Inl:
  assumes "exchange_commit lib env app c db = (Inl e, db')"
  shows "db' \<in> {db, ee_between env FirstRead db, ee_between env Filing (ee_between env FirstRead db),
    ee_between env SecondRead (ee_between env Filing (ee_between env FirstRead db))}"
proof -
  consider "db' = db" | db1 tx where
      "decideClaims lib env app c (ee_now env) True \<lparr>et_committed = db, et_view = db1\<rparr> = (Inl e, tx)" "db' = et_committed tx"
    using assms
    by (auto simp: exchange_commit_def store_Exchange_def exchange_body_def exchangeClaims_def
        split: prod.splits sum.splits if_splits)
  then show ?thesis
  proof cases
    case (2 db1 tx)
    with decideClaims_cases [OF 2(1)] show ?thesis by auto
  qed simp
qed

lemma issued_view_inv: "issued_view lib env app c now view r view' \<Longrightarrow> identity_inv view \<Longrightarrow> identity_inv view'"
  unfolding issued_view_def by (metis IssueKey_inv snd_conv)

lemma filed_view_inv: "filed_view app c now view r view' \<Longrightarrow> identity_inv view \<Longrightarrow> identity_inv view'"
  unfolding filed_view_def by (metis FilePendingRequest_inv snd_conv)

end
