(* ===== verification/Publisher.thy ===== *)
theory Publisher
  imports Identity_Service
begin

text \<open>
  Per-app ntfy publisher tokens (\<^verbatim>\<open>delivery-api/internal/publisher\<close>: types.go, store.go, pgstore.go,
  service.go; tables \<^verbatim>\<open>app_publishers\<close> and \<^verbatim>\<open>app_publisher_mints\<close>): minting under the per-app advisory lock
  and the in-flight cap, the rate limit, removal, and the destination of a recipient. The state holds the
  advisory locks taken and the mint slots in use, so what other requests do while a mint waits for the
  provisioning API is a function on the same state. That API, the sealer and the binding checker are
  fields of \<open>publisher_service\<close>. Two apps whose lock keys collide are not modelled.
\<close>

section \<open>State\<close>

datatype publisher_error =
    ErrMintUnavailable string
  | ErrMintBusy
  | ErrAppNotBound
  | MintRateLimited duration
  | PublisherValidation string
  | MintFailed string
  | PublisherMissing \<comment> \<open>\<^verbatim>\<open>registry.ErrNoPublisher\<close>\<close>
  | PublisherDBError string
  | PublisherOther string

record stored_publisher =
  pb_AppID :: string
  pb_PublisherUserID :: string
  pb_TopicPattern :: string
  pb_SealedToken :: string
  pb_CreatedAt :: time
  pb_UpdatedAt :: time

record publisher_view =
  pbv_AppID :: string
  pbv_PublisherUserID :: string
  pbv_TopicPattern :: string
  pbv_CreatedAt :: time
  pbv_UpdatedAt :: time

record mint_row =
  mr_app_id :: string
  mr_minted_at :: time

record publisher_db =
  pdb_identity :: identity_db
  pdb_publishers :: "stored_publisher list"
  pdb_mints :: "mint_row list"
  pdb_locks :: "string list"
  pdb_slots :: nat

definition empty_publishers :: "identity_db \<Rightarrow> publisher_db" where
  "empty_publishers db = \<lparr>pdb_identity = db, pdb_publishers = [], pdb_mints = [], pdb_locks = [], pdb_slots = 0\<rparr>"

abbreviation MintRateLimit :: nat where "MintRateLimit \<equiv> 10"
abbreviation MintRateWindow :: duration where "MintRateWindow \<equiv> Hour"
abbreviation MaxInFlightMints :: nat where "MaxInFlightMints \<equiv> 2"
abbreviation MintBeginTimeout :: duration where "MintBeginTimeout \<equiv> 3 * Second"

record publisher_grant =
  pg_AppID :: string
  pg_PublisherUserID :: string
  pg_TopicPattern :: string
  pg_Token :: string

text \<open>A field is \<open>None\<close> where the source has a nil dependency.\<close>

record publisher_service =
  pv_minter :: "(string \<Rightarrow> bool \<Rightarrow> string + publisher_grant) option"
  pv_checker :: "(string \<Rightarrow> publisher_db \<Rightarrow> string + bool) option"
  pv_seal :: "string \<Rightarrow> string \<Rightarrow> string option"
  pv_open :: "string \<Rightarrow> string \<Rightarrow> string option"

type_synonym 'a publisher_result = "publisher_error + 'a"
type_synonym mint_tx = "publisher_db open_tx"

section \<open>Store\<close>

definition viewOf :: "stored_publisher \<Rightarrow> publisher_view" where
  "viewOf stored =
     \<lparr>pbv_AppID = pb_AppID stored, pbv_PublisherUserID = pb_PublisherUserID stored,
      pbv_TopicPattern = pb_TopicPattern stored, pbv_CreatedAt = pb_CreatedAt stored, pbv_UpdatedAt = pb_UpdatedAt stored\<rparr>"

definition store_Get :: "string \<Rightarrow> publisher_db \<Rightarrow> stored_publisher publisher_result" where
  "store_Get appID db =
     (case find (\<lambda>p. pb_AppID p = appID) (pdb_publishers db) of None \<Rightarrow> Inl PublisherMissing | Some p \<Rightarrow> Inr p)"

definition store_Delete :: "string \<Rightarrow> publisher_db \<Rightarrow> publisher_db" where
  "store_Delete appID db = db\<lparr>pdb_publishers := filter (\<lambda>p. pb_AppID p \<noteq> appID) (pdb_publishers db)\<rparr>"

text \<open>\<^verbatim>\<open>INSERT \<dots> ON CONFLICT (app_id) DO UPDATE\<close>; \<open>now\<close> is Postgres's.\<close>

definition upsertPublisher :: "time \<Rightarrow> stored_publisher \<Rightarrow> publisher_db \<Rightarrow> stored_publisher publisher_result \<times> publisher_db" where
  "upsertPublisher now p db =
     (if \<not> slug 62 (pb_AppID p) then (Inl (PublisherDBError ''upsert app publisher''), db)
      else case find (\<lambda>q. pb_AppID q = pb_AppID p) (pdb_publishers db) of
             Some old \<Rightarrow>
               (let row = old\<lparr>pb_PublisherUserID := pb_PublisherUserID p, pb_TopicPattern := pb_TopicPattern p,
                              pb_SealedToken := pb_SealedToken p, pb_UpdatedAt := now\<rparr>
                in (Inr row, db\<lparr>pdb_publishers := update_where (\<lambda>q. pb_AppID q = pb_AppID p) (\<lambda>_. row) (pdb_publishers db)\<rparr>))
           | None \<Rightarrow>
               (let row = p\<lparr>pb_CreatedAt := now, pb_UpdatedAt := now\<rparr>
                in (Inr row, db\<lparr>pdb_publishers := pdb_publishers db @ [row]\<rparr>)))"

definition ceil_seconds :: "duration \<Rightarrow> int" where
  "ceil_seconds d = - ((- d) div Second)"

definition mints_of :: "string \<Rightarrow> publisher_db \<Rightarrow> time list" where
  "mints_of appID db = map mr_minted_at (filter (\<lambda>r. mr_app_id r = appID) (pdb_mints db))"

definition wait_seconds :: "time list \<Rightarrow> duration \<Rightarrow> time \<Rightarrow> int" where
  "wait_seconds ts window now = (case ts of [] \<Rightarrow> 0 | t # rest \<Rightarrow> ceil_seconds (foldl min t rest + window - now))"

definition prune_mints :: "string \<Rightarrow> time \<Rightarrow> publisher_db \<Rightarrow> publisher_db" where
  "prune_mints appID cutoff db =
     db\<lparr>pdb_mints := filter (\<lambda>r. \<not> (mr_app_id r = appID \<and> mr_minted_at r < cutoff)) (pdb_mints db)\<rparr>"

definition ReserveMintSlot ::
  "time \<Rightarrow> string \<Rightarrow> nat \<Rightarrow> duration \<Rightarrow> publisher_db \<Rightarrow> unit publisher_result \<times> publisher_db" where
  "ReserveMintSlot now appID limit window db =
     (let db1 = prune_mints appID (now - window) db; ts = mints_of appID db1
      in if length ts \<ge> limit then (Inl (MintRateLimited (max (wait_seconds ts window now) 1 * Second)), db1)
         else (Inr (), db1\<lparr>pdb_mints := pdb_mints db1 @ [\<lparr>mr_app_id = appID, mr_minted_at = now\<rparr>]\<rparr>))"

definition DeleteExpiredPublisherMints :: "time \<Rightarrow> duration \<Rightarrow> publisher_db \<Rightarrow> (string + int) \<times> publisher_db" where
  "DeleteExpiredPublisherMints now window db =
     (if window \<le> 0 then (Inl ''delete old publisher mints: window must be positive'', db)
      else (Inr (int (length (filter (\<lambda>r. mr_minted_at r < now - window) (pdb_mints db)))),
            db\<lparr>pdb_mints := filter (\<lambda>r. \<not> mr_minted_at r < now - window) (pdb_mints db)\<rparr>))"

text \<open>
  What one locked transaction meets: whether it cannot begin or lock, whether its commit fails, Postgres's
  \<^verbatim>\<open>now()\<close>, and what other requests do before it locks, after it locked, and while it waits upstream.
\<close>

datatype mint_phase = BeforeLock | Locked | Upstream

record mint_env =
  mv_begin_fails :: bool
  mv_commit_fails :: bool
  mv_now :: time
  mv_between :: "mint_phase \<Rightarrow> publisher_db \<Rightarrow> publisher_db"

text \<open>How the locked function ended: \<open>NotRun\<close> and \<open>FnFailed\<close> carry the error the store returns.\<close>

datatype 'a lock_outcome =
    NotRun publisher_error
  | FnFailed publisher_error
  | CommitFailed 'a
  | Committed 'a

definition lock_app :: "string \<Rightarrow> publisher_db \<Rightarrow> publisher_db" where
  "lock_app appID db = db\<lparr>pdb_locks := appID # pdb_locks db\<rparr>"

definition unlock_app :: "string \<Rightarrow> publisher_db \<Rightarrow> publisher_db" where
  "unlock_app appID db = db\<lparr>pdb_locks := removeAll appID (pdb_locks db)\<rparr>"

definition WithAppMintLock ::
  "mint_env \<Rightarrow> string \<Rightarrow> (mint_tx \<Rightarrow> 'a publisher_result \<times> mint_tx) \<Rightarrow> publisher_db \<Rightarrow> 'a lock_outcome \<times> publisher_db" where
  "WithAppMintLock env appID fn db =
     (if mv_begin_fails env then (NotRun (ErrMintUnavailable ''begin mint transaction''), db)
      else if appID \<in> set (pdb_locks db) then (NotRun ErrMintBusy, db)
      else let locked = lock_app appID db
           in case fn \<lparr>et_committed = locked, et_view = locked\<rparr> of
                (r, tx) \<Rightarrow>
                  (case r of
                     Inl e \<Rightarrow> (FnFailed e, unlock_app appID (if mv_commit_fails env then et_committed tx else et_view tx))
                   | Inr x \<Rightarrow>
                       if mv_commit_fails env then (CommitFailed x, unlock_app appID (et_committed tx))
                       else (Committed x, unlock_app appID (et_view tx))))"

section \<open>Service\<close>

definition tokenAADPrefix :: string where "tokenAADPrefix = ''delivery-api/app-publisher/v1:''"

definition TokenAAD :: "string \<Rightarrow> string" where
  "TokenAAD appID = tokenAADPrefix @ appID"

definition publisher_ValidateAppID :: "string \<Rightarrow> unit publisher_result" where
  "publisher_ValidateAppID appID = (if app_id_valid appID then Inr () else Inl (PublisherValidation ''invalid app_id''))"

definition requireBound :: "publisher_service \<Rightarrow> string \<Rightarrow> publisher_db \<Rightarrow> unit publisher_result" where
  "requireBound svc appID db =
     (case pv_checker svc of
        None \<Rightarrow> Inl (ErrMintUnavailable [])
      | Some checker \<Rightarrow>
          (case checker appID db of
             Inl e \<Rightarrow> Inl (ErrMintUnavailable (''binding lookup: '' @ e))
           | Inr bound \<Rightarrow> if bound then Inr () else Inl ErrAppNotBound))"

text \<open>The checker of the deployment is the identity service.\<close>

definition identity_checker :: "string \<Rightarrow> publisher_db \<Rightarrow> string + bool" where
  "identity_checker appID db =
     (case HasBinding appID (pdb_identity db) of Inl _ \<Rightarrow> Inl ''has binding'' | Inr b \<Rightarrow> Inr b)"

text \<open>The part of the locked function after the slot: the minter, the grant check, the seal and the upsert.\<close>

definition mint_and_store ::
  "publisher_service \<Rightarrow> mint_env \<Rightarrow> string \<Rightarrow> bool \<Rightarrow> mint_tx \<Rightarrow> publisher_view publisher_result \<times> mint_tx" where
  "mint_and_store svc env appID rotating tx0 =
     (let tx = see_commits (mv_between env Upstream) tx0
      in case (case pv_minter svc of None \<Rightarrow> Inl ''no minter'' | Some MintPublisher \<Rightarrow> MintPublisher appID rotating) of
           Inl e \<Rightarrow> (Inl (MintFailed (''mint publisher: '' @ e)), tx)
         | Inr grant \<Rightarrow>
             if pg_AppID grant \<noteq> appID then (Inl (MintFailed ''mint publisher: grant is for a different app''), tx)
             else case pv_seal svc (pg_Token grant) (TokenAAD appID) of
                    None \<Rightarrow> (Inl (ErrMintUnavailable ''seal publisher token''), tx)
                  | Some sealedToken \<Rightarrow>
                      (case upsertPublisher (mv_now env)
                              \<lparr>pb_AppID = appID, pb_PublisherUserID = pg_PublisherUserID grant,
                               pb_TopicPattern = pg_TopicPattern grant, pb_SealedToken = sealedToken,
                               pb_CreatedAt = 0, pb_UpdatedAt = 0\<rparr> (et_view tx) of
                         (Inl e, _) \<Rightarrow> (Inl (ErrMintUnavailable ''upsert''), tx)
                       | (Inr stored, view) \<Rightarrow> (Inr (viewOf stored), tx\<lparr>et_view := view\<rparr>)))"

definition mintLocked ::
  "publisher_service \<Rightarrow> mint_env \<Rightarrow> string \<Rightarrow> bool \<Rightarrow> bool \<Rightarrow> mint_tx \<Rightarrow> publisher_view publisher_result \<times> mint_tx" where
  "mintLocked svc env appID rotating limited tx0 =
     (let tx = see_commits (mv_between env Locked) tx0
      in case requireBound svc appID (et_view tx) of Inl e \<Rightarrow> (Inl e, tx)
         | Inr _ \<Rightarrow>
             if \<not> limited then mint_and_store svc env appID rotating tx
             else case ReserveMintSlot (mv_now env) appID MintRateLimit MintRateWindow (et_view tx) of
                    (Inl e, view) \<Rightarrow> (Inl e, tx\<lparr>et_view := view\<rparr>)
                  | (Inr _, view) \<Rightarrow> mint_and_store svc env appID rotating (tx\<lparr>et_view := view\<rparr>))"

definition mint ::
  "publisher_service \<Rightarrow> mint_env \<Rightarrow> string \<Rightarrow> bool \<Rightarrow> bool \<Rightarrow> publisher_db \<Rightarrow> publisher_view publisher_result \<times> publisher_db" where
  "mint svc env appID rotating limited db =
     (case publisher_ValidateAppID appID of Inl e \<Rightarrow> (Inl e, db) | Inr _ \<Rightarrow>
      if pv_minter svc = None then (Inl (ErrMintUnavailable []), db)
      else case requireBound svc appID db of Inl e \<Rightarrow> (Inl e, db) | Inr _ \<Rightarrow>
      if pdb_slots db \<ge> MaxInFlightMints then (Inl (ErrMintUnavailable []), db)
      else let db1 = mv_between env BeforeLock (db\<lparr>pdb_slots := Suc (pdb_slots db)\<rparr>)
           in case WithAppMintLock env appID (mintLocked svc env appID rotating limited) db1 of
                (outcome, db2) \<Rightarrow>
                  (case outcome of
                     Committed view \<Rightarrow> Inr view
                   | CommitFailed _ \<Rightarrow> Inl (ErrMintUnavailable ''commit'')
                   | FnFailed e \<Rightarrow> Inl e
                   | NotRun e \<Rightarrow> Inl e,
                   db2\<lparr>pdb_slots := pdb_slots db2 - 1\<rparr>))"

definition publisher_Mint ::
  "publisher_service \<Rightarrow> mint_env \<Rightarrow> string \<Rightarrow> bool \<Rightarrow> publisher_db
   \<Rightarrow> publisher_view publisher_result \<times> publisher_db" where
  "publisher_Mint svc env appID rotating db = mint svc env appID rotating True db"

definition MintAsOperator ::
  "publisher_service \<Rightarrow> mint_env \<Rightarrow> string \<Rightarrow> bool \<Rightarrow> publisher_db
   \<Rightarrow> publisher_view publisher_result \<times> publisher_db" where
  "MintAsOperator svc env appID rotating db = mint svc env appID rotating False db"

definition publisher_Get :: "string \<Rightarrow> publisher_db \<Rightarrow> publisher_view publisher_result" where
  "publisher_Get appID db = (case store_Get appID db of Inl e \<Rightarrow> Inl e | Inr stored \<Rightarrow> Inr (viewOf stored))"

definition publisher_Remove :: "string \<Rightarrow> publisher_db \<Rightarrow> unit publisher_result \<times> publisher_db" where
  "publisher_Remove appID db =
     (case publisher_ValidateAppID appID of Inl e \<Rightarrow> (Inl e, db) | Inr _ \<Rightarrow> (Inr (), store_Delete appID db))"

definition RemoveExclusive :: "mint_env \<Rightarrow> string \<Rightarrow> publisher_db \<Rightarrow> unit publisher_result \<times> publisher_db" where
  "RemoveExclusive env appID db =
     (case publisher_ValidateAppID appID of Inl e \<Rightarrow> (Inl e, db) | Inr _ \<Rightarrow>
      case WithAppMintLock env appID (\<lambda>tx. (Inr (), tx\<lparr>et_view := store_Delete appID (et_view tx)\<rparr>)) db of
        (outcome, db') \<Rightarrow>
          (case outcome of
             Committed _ \<Rightarrow> Inr ()
           | CommitFailed _ \<Rightarrow> Inl (PublisherDBError ''commit mint transaction'')
           | FnFailed e \<Rightarrow> Inl e
           | NotRun e \<Rightarrow> Inl e, db'))"

definition HasPublisher :: "string \<Rightarrow> publisher_db \<Rightarrow> bool publisher_result" where
  "HasPublisher appID db =
     (case store_Get appID db of Inl e \<Rightarrow> if e = PublisherMissing then Inr False else Inl e | Inr _ \<Rightarrow> Inr True)"

definition publisher_Token :: "publisher_service \<Rightarrow> string \<Rightarrow> publisher_db \<Rightarrow> string publisher_result" where
  "publisher_Token svc appID db =
     (case store_Get appID db of Inl e \<Rightarrow> Inl e | Inr stored \<Rightarrow>
      case pv_open svc (pb_SealedToken stored) (TokenAAD appID) of
        None \<Rightarrow> Inl (PublisherOther ''open publisher token'') | Some token \<Rightarrow> Inr token)"

definition ResolveRecipient ::
  "publisher_service \<Rightarrow> string \<Rightarrow> string \<Rightarrow> string \<Rightarrow> publisher_db \<Rightarrow> resolved_destination publisher_result" where
  "ResolveRecipient svc appID personHash channel db =
     (if \<not> IsHash personHash then Inl (PublisherOther ''recipient is not a person hash'')
      else case publisher_Token svc appID db of Inl e \<Rightarrow> Inl e
           | Inr token \<Rightarrow>
               Inr \<lparr>rd_ID = 0, rd_Name = RecipientDestinationName, rd_Type = TypeNtfy,
                    rd_Config = [(''topic'', PersonChannelTopic appID personHash channel)],
                    rd_Secrets = [(''access_token'', token)]\<rparr>)"

end
