(* ===== verification/History.thy ===== *)
theory History
  imports Prelude
begin

text \<open>
  Histories of admissions under a clock that never goes back, and two laws about them, each stated once
  for any state with the right operations: a ledger that remembers what was admitted until its deadline
  admits nothing twice (\<open>replay_ledger\<close>), and a table of recent attempts bounds the admissions in every
  window (\<open>sliding_limit\<close>).
\<close>

section \<open>Histories\<close>

inductive history_run ::
  "'s \<Rightarrow> (time \<Rightarrow> 'k \<Rightarrow> 's \<Rightarrow> 's \<Rightarrow> bool) \<Rightarrow> (time \<Rightarrow> 's \<Rightarrow> 's \<Rightarrow> bool) \<Rightarrow> time \<Rightarrow> 'k list \<Rightarrow> 's \<Rightarrow> bool"
  for start accept other where
  start: "history_run start accept other t [] start"
| accepted: "history_run start accept other t h s \<Longrightarrow> t \<le> t' \<Longrightarrow> accept t' k s s' \<Longrightarrow>
     history_run start accept other t' (k # h) s'"
| other: "history_run start accept other t h s \<Longrightarrow> t \<le> t' \<Longrightarrow> other t' s s' \<Longrightarrow>
     history_run start accept other t' h s'"

section \<open>A ledger\<close>

locale replay_ledger =
  fixes mark :: "'k \<Rightarrow> 'm" and deadline :: "'m \<Rightarrow> time" and knows :: "'s \<Rightarrow> 'm \<Rightarrow> bool"
    and accept :: "time \<Rightarrow> 'k \<Rightarrow> 's \<Rightarrow> 's \<Rightarrow> bool" and other :: "time \<Rightarrow> 's \<Rightarrow> 's \<Rightarrow> bool"
  assumes accept_fresh: "accept t k s s' \<Longrightarrow> \<not> knows s (mark k)"
    and accept_knows: "accept t k s s' \<Longrightarrow> knows s' (mark k)"
    and accept_in_time: "accept t k s s' \<Longrightarrow> t \<le> deadline (mark k)"
    and accept_keeps: "accept t k s s' \<Longrightarrow> knows s m \<Longrightarrow> t \<le> deadline m \<Longrightarrow> knows s' m"
    and other_keeps: "other t s s' \<Longrightarrow> knows s m \<Longrightarrow> t \<le> deadline m \<Longrightarrow> knows s' m"
begin

lemma history_known:
  "history_run start accept other t h s \<Longrightarrow>
     distinct (map mark h) \<and> (\<forall>m \<in> set (map mark h). t \<le> deadline m \<longrightarrow> knows s m)"
proof (induction rule: history_run.induct)
  case (accepted t h s t' k s')
  have "mark k \<notin> set (map mark h)"
  proof
    assume "mark k \<in> set (map mark h)"
    moreover have "t \<le> deadline (mark k)" using accepted(2) accept_in_time [OF accepted(3)] by simp
    ultimately have "knows s (mark k)" using accepted.IH by blast
    with accept_fresh [OF accepted(3)] show False by simp
  qed
  moreover have "knows s' m" if "m \<in> set (map mark (k # h))" "t' \<le> deadline m" for m
  proof (cases "m = mark k")
    case True
    with accept_knows [OF accepted(3)] show ?thesis by simp
  next
    case False
    with that accepted.IH accepted(2) have "knows s m" by auto
    with accept_keeps [OF accepted(3)] that(2) show ?thesis by blast
  qed
  ultimately show ?case using accepted.IH by auto
next
  case (other t h s t' s')
  then show ?case using other_keeps [OF other(3)] by auto
qed simp

lemma history_distinct: "history_run start accept other t h s \<Longrightarrow> distinct (map mark h)"
  using history_known by blast

end

section \<open>A rolling limit\<close>

lemma filter_mset_mono_pred:
  assumes "\<And>x. P x \<Longrightarrow> Q x"
  shows "filter_mset P M \<subseteq># filter_mset Q M"
proof -
  have "filter_mset P M = filter_mset P (filter_mset Q M)"
    using assms by (simp add: filter_filter_mset) (rule filter_mset_cong, auto)
  then show ?thesis by (metis multiset_filter_subset)
qed

text \<open>Rows that count at a time \<open>f\<close>, and the recent ones among them that a deletion keeps.\<close>

definition row_times :: "('r \<Rightarrow> time) \<Rightarrow> ('r \<Rightarrow> bool) \<Rightarrow> 'r list \<Rightarrow> time multiset" where
  "row_times f p rows = image_mset f (filter_mset p (mset rows))"

lemma row_times_simps [simp]:
  "row_times f p [] = {#}" "row_times f p (xs @ ys) = row_times f p xs + row_times f p ys"
  "row_times f p (r # rs) = (if p r then {#f r#} else {#}) + row_times f p rs"
  by (simp_all add: row_times_def)

lemma row_times_filter:
  assumes "\<And>r. t \<le> f r \<Longrightarrow> q r"
  shows "filter_mset (\<lambda>a. t \<le> a) (row_times f p rows) \<subseteq># row_times f p (filter q rows)"
proof -
  have "filter_mset (\<lambda>a. t \<le> a) (row_times f p rows) = image_mset f (filter_mset (\<lambda>r. p r \<and> t \<le> f r) (mset rows))"
    by (simp add: row_times_def filter_mset_image_mset filter_filter_mset)
  also have "\<dots> \<subseteq># image_mset f (filter_mset (\<lambda>r. p r \<and> q r) (mset rows))"
    by (rule image_mset_subseteq_mono, rule filter_mset_mono_pred) (use assms in auto)
  finally show ?thesis by (simp add: row_times_def filter_filter_mset conj_commute)
qed

lemma kept_trans:
  assumes "filter_mset P A \<subseteq># B" "filter_mset P B \<subseteq># C"
  shows "filter_mset P A \<subseteq># C"
proof -
  have "filter_mset P (filter_mset P A) \<subseteq># filter_mset P B" by (rule multiset_filter_mono [OF assms(1)])
  then show ?thesis using assms(2) by (simp add: filter_filter_mset)
qed

lemma size_less: "(A :: 'a multiset) \<subseteq># mset xs \<Longrightarrow> length xs < n \<Longrightarrow> size A < n"
  by (metis order_le_less_trans size_mset size_mset_mono)

text \<open>
  \<open>attempts\<close> are the recorded attempts; an admission at clock \<open>t\<close> finds room among those of the last
  \<open>window\<close>, and records one that is at most \<open>delay\<close> old. Nothing forgets an attempt of the last window.
  Then no window shorter by \<open>delay\<close> holds more admissions than the limit.
\<close>

locale sliding_limit =
  fixes window :: duration and delay :: duration and limit :: nat
    and attempts :: "'s \<Rightarrow> time multiset"
    and admit :: "time \<Rightarrow> 's \<Rightarrow> 's \<Rightarrow> bool" and other :: "time \<Rightarrow> 's \<Rightarrow> 's \<Rightarrow> bool"
  assumes admit_room: "admit t s s' \<Longrightarrow> size (filter_mset (\<lambda>a. t - window \<le> a) (attempts s)) < limit"
    and admit_adds: "admit t s s' \<Longrightarrow> \<exists>a. t - delay \<le> a
      \<and> add_mset a (filter_mset (\<lambda>a. t - window \<le> a) (attempts s)) \<subseteq># attempts s'"
    and other_keeps: "other t s s' \<Longrightarrow> filter_mset (\<lambda>a. t - window \<le> a) (attempts s) \<subseteq># attempts s'"
begin

definition recent :: "time \<Rightarrow> 's \<Rightarrow> nat" where
  "recent y s = size (filter_mset (\<lambda>a. y - window \<le> a) (attempts s))"

lemma recent_mono:
  assumes "filter_mset (\<lambda>a. t - window \<le> a) (attempts s) \<subseteq># attempts s'" "t \<le> y"
  shows "recent y s \<le> recent y s'"
proof -
  have "filter_mset (\<lambda>a. y - window \<le> a) (filter_mset (\<lambda>a. t - window \<le> a) (attempts s))
      = filter_mset (\<lambda>a. y - window \<le> a) (attempts s)"
    using assms(2) by (simp add: filter_filter_mset) (rule filter_mset_cong, auto)
  then have "filter_mset (\<lambda>a. y - window \<le> a) (attempts s) \<subseteq># filter_mset (\<lambda>a. y - window \<le> a) (attempts s')"
    using multiset_filter_mono [OF assms(1), of "\<lambda>a. y - window \<le> a"] by simp
  then show ?thesis unfolding recent_def by (rule size_mset_mono)
qed

lemma recent_admit:
  assumes "admit t s s'" "t \<le> y" "y - window + delay \<le> t"
  shows "Suc (recent y s) \<le> recent y s'"
proof -
  obtain a where a: "t - delay \<le> a" and add: "add_mset a (filter_mset (\<lambda>a. t - window \<le> a) (attempts s)) \<subseteq># attempts s'"
    using admit_adds [OF assms(1)] by blast
  have eq: "filter_mset (\<lambda>a. y - window \<le> a) (add_mset a (filter_mset (\<lambda>a. t - window \<le> a) (attempts s)))
      = add_mset a (filter_mset (\<lambda>a. y - window \<le> a) (attempts s))"
    using a assms(2,3) by (simp add: filter_filter_mset) (rule filter_mset_cong, auto)
  have "size (add_mset a (filter_mset (\<lambda>a. y - window \<le> a) (attempts s))) \<le> recent y s'"
    unfolding recent_def eq [symmetric] by (rule size_mset_mono [OF multiset_filter_mono [OF add]])
  then show ?thesis by (simp add: recent_def)
qed

lemma history_recorded:
  assumes "history_run start (\<lambda>t k s s'. k = t \<and> admit t s s') other t h s" "t \<le> y"
  shows "length (filter (\<lambda>k. y - window + delay \<le> k) h) \<le> recent y s"
  using assms
proof (induction arbitrary: y rule: history_run.induct)
  case (accepted t h s t' k s')
  then have k: "k = t'" "admit t' s s'" by auto
  have ih: "length (filter (\<lambda>k. y - window + delay \<le> k) h) \<le> recent y s" using accepted by simp
  obtain a where "add_mset a (filter_mset (\<lambda>a. t' - window \<le> a) (attempts s)) \<subseteq># attempts s'"
    using admit_adds [OF k(2)] by blast
  then have "filter_mset (\<lambda>a. t' - window \<le> a) (attempts s) \<subseteq># attempts s'"
    by (meson mset_subset_eq_add_right mset_subset_eq_insertD subset_mset.dual_order.strict_implies_order)
  then have "recent y s \<le> recent y s'" using recent_mono accepted.prems by blast
  with ih recent_admit [OF k(2) accepted.prems] k(1) show ?case by auto
next
  case (other t h s t' s')
  have "recent y s \<le> recent y s'" using recent_mono [OF other_keeps [OF other(3)] other.prems] .
  moreover have "length (filter (\<lambda>k. y - window + delay \<le> k) h) \<le> recent y s" using other by simp
  ultimately show ?case by simp
qed simp

lemma history_limit:
  assumes "history_run start (\<lambda>t k s s'. k = t \<and> admit t s s') other t h s"
  shows "length (filter (\<lambda>k. y \<le> k \<and> k \<le> y + window - delay) h) \<le> limit"
  using assms
proof (induction arbitrary: y rule: history_run.induct)
  case (accepted t h s t' k s')
  then have k: "k = t'" "admit t' s s'" by auto
  show ?case
  proof (cases "y \<le> k \<and> k \<le> y + window - delay")
    case True
    have "length (filter (\<lambda>k. y \<le> k \<and> k \<le> y + window - delay) h) \<le> length (filter (\<lambda>k. t' - window + delay \<le> k) h)"
      using True k(1) by (induction h) auto
    also have "\<dots> \<le> recent t' s" by (rule history_recorded [OF accepted(1,2)])
    also have "\<dots> < limit" using admit_room [OF k(2)] by (simp add: recent_def)
    finally show ?thesis using True by simp
  next
    case False
    with accepted.IH [of y] show ?thesis by auto
  qed
qed auto

end

end
