(* ===== verification/Identity_System.thy ===== *)
theory Identity_System
  imports Identity_Service History
begin

text \<open>
  App identity as a transition system: a step is one committed transaction of the identity store, and an
  exchange sees what other steps commit while it runs. A law that every single operation satisfies holds
  of every step (the locale \<open>identity_law\<close>); it is interpreted for the invariant, for the replay ledger
  and for keys that stopped working. The ledger of \<^verbatim>\<open>History\<close> is why a token is exchanged once.
\<close>

section \<open>Steps\<close>

text \<open>\<open>t\<close> bounds the clock of the step; only the sweep of the ledger depends on it.\<close>

inductive identity_step :: "time \<Rightarrow> identity_db \<Rightarrow> identity_db \<Rightarrow> bool" for t :: time where
  exchange: "(\<And>k x. (identity_step t)\<^sup>*\<^sup>* x (ee_between env k x)) \<Longrightarrow>
     identity_step t db (snd (exchange_commit lib env app c db))"
| touch: "identity_step t db (snd (TouchKey i now db))"
| sweep: "now \<le> t \<Longrightarrow> identity_step t db (snd (DeleteExpiredReplay now db))"
| delete_rejected: "identity_step t db (snd (DeleteExpiredRejectedRequests now db))"
| delete_stale: "identity_step t db (snd (DeleteStalePendingRequests now ttl db))"
| approve: "identity_step t db (snd (store_ApproveRequest i app now db))"
| reject: "identity_step t db (snd (store_RejectRequest i now db))"
| revoke: "identity_step t db (snd (store_RevokeKey i now db))"
| unbind: "identity_step t db (snd (store_Unbind app db))"

inductive identity_reachable :: "time \<Rightarrow> identity_db \<Rightarrow> bool" where
  start: "identity_reachable t empty_identity"
| step: "identity_reachable t db \<Longrightarrow> t \<le> t' \<Longrightarrow> identity_step t' db db' \<Longrightarrow> identity_reachable t' db'"

section \<open>Laws of operations are laws of steps\<close>

locale identity_law =
  fixes t :: time and R :: "identity_db \<Rightarrow> identity_db \<Rightarrow> bool"
  assumes refl: "R x x"
    and trans: "R x y \<Longrightarrow> R y z \<Longrightarrow> R x z"
    and jti: "R x (snd (RecordJTI j e x))"
    and filing: "R x (snd (FilePendingRequest app c now x))"
    and issue: "R x (snd (IssueKey lib random app run now x))"
    and touch: "R x (snd (TouchKey i now x))"
    and sweep: "now \<le> t \<Longrightarrow> R x (snd (DeleteExpiredReplay now x))"
    and requests: "R x (snd (delete_requests p x))"
    and approve: "R x (snd (store_ApproveRequest i app now x))"
    and reject: "R x (snd (store_RejectRequest i now x))"
    and revoke: "R x (snd (store_RevokeKey i now x))"
    and unbind: "R x (snd (store_Unbind app x))"
begin

lemma stale: "R x (snd (DeleteStalePendingRequests now ttl x))"
  using requests [of x] refl [of x] by (simp add: DeleteStalePendingRequests_def case_prod_beta)

lemma rejected: "R x (snd (DeleteExpiredRejectedRequests now x))"
  by (simp add: DeleteExpiredRejectedRequests_def requests)

lemma view: "issued_view lib env app c now v r v' \<or> filed_view app c now v r v' \<Longrightarrow> R v v'"
  unfolding issued_view_def filed_view_def by (metis filing issue snd_conv)

lemma others:
  assumes "\<And>k x. R x (ee_between env k x)"
    and "o1 \<in> {ee_between env FirstRead, ee_between env Filing \<circ> ee_between env FirstRead,
       ee_between env SecondRead \<circ> ee_between env Filing \<circ> ee_between env FirstRead}"
  shows "R x (o1 x)"
  using assms(2) assms(1) trans by (auto simp: comp_def) blast+

text \<open>A committed exchange: its record of the token, the others' commits, and its own filing or issue.\<close>

lemma commit_Inr:
  assumes "\<And>k x. R x (ee_between env k x)" and "exchange_commit lib env app c db = (Inr r, db')"
  shows "R db db'" and "R (snd (RecordJTI (cl_JTI c) (ReplayExpiry c) db)) db'"
proof -
  obtain o1 db1 where o1: "o1 \<in> {ee_between env FirstRead, ee_between env Filing \<circ> ee_between env FirstRead,
       ee_between env SecondRead \<circ> ee_between env Filing \<circ> ee_between env FirstRead}"
    and db1: "RecordJTI (cl_JTI c) (ReplayExpiry c) db = (Inr True, db1)"
    and last: "issued_view lib env app c (ee_now env) (o1 db1) r db' \<or> filed_view app c (ee_now env) (o1 db1) r db'"
    using exchange_commit_Inr [OF assms(2)] by blast
  have "R db1 db'" using others [OF assms(1) o1] view [OF last] trans by blast
  moreover have "R db db1" using jti [of db "cl_JTI c" "ReplayExpiry c"] db1 by simp
  ultimately show "R db db'" and "R (snd (RecordJTI (cl_JTI c) (ReplayExpiry c) db)) db'"
    using trans db1 by auto
qed

lemma commit:
  assumes between: "\<And>k x. R x (ee_between env k x)"
  shows "R db (snd (exchange_commit lib env app c db))"
proof (cases "exchange_commit lib env app c db")
  case (Pair r db')
  show ?thesis
  proof (cases r)
    case (Inr x)
    with commit_Inr(1) [OF between, where db' = db'] Pair show ?thesis by simp
  next
    case (Inl e)
    have a: "R db (ee_between env FirstRead db)" by (rule between)
    have b: "R db (ee_between env Filing (ee_between env FirstRead db))" by (rule trans [OF a between])
    have "R db (ee_between env SecondRead (ee_between env Filing (ee_between env FirstRead db)))"
      by (rule trans [OF b between])
    with a b exchange_commit_Inl [of lib env app c db e db'] Pair Inl refl [of db] show ?thesis by auto
  qed
qed

lemma nested: "(\<lambda>x y. identity_step t x y \<and> R x y)\<^sup>*\<^sup>* x y \<Longrightarrow> R x y"
  by (induction rule: rtranclp_induct) (use refl trans in blast)+

lemma law_step: "identity_step t db db' \<Longrightarrow> R db db'"
proof (induction rule: identity_step.induct)
  case (exchange env db lib app c)
  then show ?case by (intro commit nested)
qed (rule touch sweep rejected stale approve reject revoke unbind, assumption?)+

lemma law_steps: "(identity_step t)\<^sup>*\<^sup>* db db' \<Longrightarrow> R db db'"
  by (induction rule: rtranclp_induct) (use refl trans law_step in blast)+

end

section \<open>The invariant\<close>

interpretation inv_law: identity_law t "\<lambda>x y. identity_inv x \<longrightarrow> identity_inv y" for t
proof
  show "identity_inv x \<longrightarrow> identity_inv (snd (RecordJTI j e x))" for x j e by (simp add: RecordJTI_inv)
qed (simp_all add: FilePendingRequest_inv IssueKey_inv TouchKey_inv DeleteExpiredReplay_inv delete_requests_inv
    store_ApproveRequest_inv store_RejectRequest_inv store_RevokeKey_inv store_Unbind_inv)

lemma reachable_identity_inv: "identity_reachable t db \<Longrightarrow> identity_inv db"
  by (induction rule: identity_reachable.induct) (use empty_identity_inv inv_law.law_step in blast)+

section \<open>The replay ledger\<close>

definition remembers :: "identity_db \<Rightarrow> string \<times> time \<Rightarrow> bool" where
  "remembers db m = list_ex (\<lambda>r. rp_jti r = fst m \<and> rp_expires_at r = identity_storeTime (snd m)) (idb_replay db)"

lemma storeTime_mono: "a \<le> b \<Longrightarrow> identity_storeTime a \<le> identity_storeTime b"
proof -
  assume "a \<le> b"
  then have "a div 1000 \<le> b div 1000" by (rule zdiv_mono1) simp
  then show ?thesis by (simp add: identity_storeTime_def time_truncate_def minus_mod_eq_mult_div)
qed

lemma remembers_frame: "idb_replay y = idb_replay x \<Longrightarrow> remembers y m = remembers x m"
  by (simp add: remembers_def)

lemma sweep_remembers:
  assumes "now \<le> snd m" "remembers db m"
  shows "remembers (snd (DeleteExpiredReplay now db)) m"
  using assms storeTime_mono [OF assms(1)] by (auto simp: remembers_def DeleteExpiredReplay_def Let_def list_ex_iff)

lemma record_remembers: "remembers db m \<Longrightarrow> remembers (snd (RecordJTI j e db)) m"
  by (simp add: remembers_def RecordJTI_def)

lemma record_fresh: "fst (RecordJTI j e db) = Inr True \<Longrightarrow> \<not> remembers db (j, e') \<and> remembers (snd (RecordJTI j e db)) (j, e)"
  by (auto simp: remembers_def RecordJTI_def list_ex_iff split: if_splits)

lemma other_ops_replay:
  "idb_replay (snd (FilePendingRequest app c now x)) = idb_replay x"
  "idb_replay (snd (IssueKey lib random app run now x)) = idb_replay x"
  "idb_replay (snd (TouchKey i now x)) = idb_replay x"
  "idb_replay (snd (delete_requests p x)) = idb_replay x"
  "idb_replay (snd (store_ApproveRequest i app now x)) = idb_replay x"
  "idb_replay (snd (store_RejectRequest i now x)) = idb_replay x"
  "idb_replay (snd (store_RevokeKey i now x)) = idb_replay x"
  "idb_replay (snd (store_Unbind app x)) = idb_replay x"
proof -
  show "idb_replay (snd (FilePendingRequest app c now x)) = idb_replay x"
    by (cases rule: FilePendingRequest_cases [of app c now x]) simp_all
  show "idb_replay (snd (IssueKey lib random app run now x)) = idb_replay x"
    by (cases rule: IssueKey_cases [of lib random app run now x]) simp_all
  show "idb_replay (snd (store_ApproveRequest i app now x)) = idb_replay x"
    by (cases rule: store_ApproveRequest_cases [of i app now x]) simp_all
  show "idb_replay (snd (store_RejectRequest i now x)) = idb_replay x"
    by (cases rule: store_RejectRequest_cases [of i now x]) simp_all
qed (simp_all add: TouchKey_def delete_requests_def store_RevokeKey_def store_Unbind_def Let_def split: option.split)

text \<open>Until its deadline a recorded token stays recorded, whatever step runs.\<close>

interpretation ledger_law: identity_law t "\<lambda>x y. \<forall>m. t \<le> snd m \<longrightarrow> remembers x m \<longrightarrow> remembers y m" for t
proof
  show "\<forall>m. t \<le> snd m \<longrightarrow> remembers x m \<longrightarrow> remembers (snd (DeleteExpiredReplay now x)) m" if "now \<le> t" for x now
    using that sweep_remembers by (meson order.trans)
qed (auto simp: remembers_frame [OF other_ops_replay(1)] remembers_frame [OF other_ops_replay(2)]
    remembers_frame [OF other_ops_replay(3)] remembers_frame [OF other_ops_replay(4)]
    remembers_frame [OF other_ops_replay(5)] remembers_frame [OF other_ops_replay(6)]
    remembers_frame [OF other_ops_replay(7)] remembers_frame [OF other_ops_replay(8)] record_remembers)

section \<open>Exchanged tokens\<close>

text \<open>
  A token and its claims are accepted when the service exchanges it with a transaction that runs, at
  clock \<open>t\<close>, no later than the token's expiry plus the leeway; other steps may commit while it runs.
\<close>

definition token_accepted ::
  "jwt_lib \<Rightarrow> time \<Rightarrow> string \<times> claims \<Rightarrow> verifier \<times> identity_db \<Rightarrow> verifier \<times> identity_db \<Rightarrow> bool" where
  "token_accepted jwt t k s s' \<longleftrightarrow>
     (\<exists>lib decode renv env app r.
        service_Exchange lib jwt decode renv env app (fst k) s = (Inr r, s')
        \<and> fst (Verify jwt decode renv (fst k) (Some verifyOnly_RecordJTI) (fst s, ())) = Inr (snd k)
        \<and> (\<forall>phase x. (identity_step t)\<^sup>*\<^sup>* x (ee_between env phase x))
        \<and> t \<le> ReplayExpiry (snd k))"

definition token_mark :: "string \<times> claims \<Rightarrow> string \<times> time" where
  "token_mark k = (cl_JTI (snd k), ReplayExpiry (snd k))"

definition identity_other :: "time \<Rightarrow> verifier \<times> identity_db \<Rightarrow> verifier \<times> identity_db \<Rightarrow> bool" where
  "identity_other t s s' \<longleftrightarrow> identity_step t (snd s) (snd s')"

lemma service_Exchange_commits:
  assumes "service_Exchange lib jwt decode renv env app raw s = (Inr r, s')"
    and "fst (Verify jwt decode renv raw (Some verifyOnly_RecordJTI) (fst s, ())) = Inr c"
  shows "exchange_commit lib env app c (snd s) = (Inr r, snd s')" "app_id_valid app" "app \<noteq> reservedAppID"
proof -
  obtain v db where s: "s = (v, db)" by fastforce
  obtain w where w: "Verify jwt decode renv raw (Some verifyOnly_RecordJTI) (v, ()) = (Inr c, w)"
    using assms(2) s by (metis fst_conv prod.collapse)
  have app: "identity_ValidateAppID app = Inr ()" "validateExchangeAppID app = Inr ()"
    using assms(1) by (auto simp: service_Exchange_def s split: sum.splits)
  then show "app_id_valid app" "app \<noteq> reservedAppID"
    by (auto simp: identity_ValidateAppID_def validateExchangeAppID_def split: if_splits)
  show "exchange_commit lib env app c (snd s) = (Inr r, snd s')"
    using assms(1) w by (auto simp: service_Exchange_def s app split: if_splits prod.splits)
qed

lemma exchange_commit_record:
  "exchange_commit lib env app c db = (Inr r, db') \<Longrightarrow> fst (RecordJTI (cl_JTI c) (ReplayExpiry c) db) = Inr True"
  using exchange_commit_Inr by (metis fst_conv)

interpretation token_ledger: replay_ledger token_mark snd "\<lambda>s. remembers (snd s)" "token_accepted jwt" identity_other
  for jwt
proof
  fix t k and s s' :: "verifier \<times> identity_db"
  assume "token_accepted jwt t k s s'"
  then obtain lib env app r where commit: "exchange_commit lib env app (snd k) (snd s) = (Inr r, snd s')"
    and between: "\<And>phase x. (identity_step t)\<^sup>*\<^sup>* x (ee_between env phase x)" and t: "t \<le> ReplayExpiry (snd k)"
    unfolding token_accepted_def using service_Exchange_commits(1) by metis
  note keeps = ledger_law.commit_Inr [OF ledger_law.law_steps [OF between] commit]
  show "\<not> remembers (snd s) (token_mark k)"
    using record_fresh [OF exchange_commit_record [OF commit]] by (simp add: token_mark_def)
  show "remembers (snd s') (token_mark k)"
    using record_fresh [OF exchange_commit_record [OF commit]] keeps(2) t by (simp add: token_mark_def)
  show "t \<le> snd (token_mark k)" using t by (simp add: token_mark_def)
  show "remembers (snd s') m" if "remembers (snd s) m" "t \<le> snd m" for m
    using keeps(1) that by blast
next
  fix t and s s' :: "verifier \<times> identity_db" and m
  assume "identity_other t s s'" "remembers (snd s) m" "t \<le> snd m"
  then show "remembers (snd s') m" using ledger_law.law_step unfolding identity_other_def by blast
qed

section \<open>Keys that stopped working\<close>

definition dead_at :: "time \<Rightarrow> int \<Rightarrow> identity_db \<Rightarrow> bool" where
  "dead_at now i db \<longleftrightarrow> i < idb_key_seq db \<and> list_all (\<lambda>k. k_id k = i \<longrightarrow> \<not> Valid (row_record k) now) (idb_keys db)"

lemma dead_at_rows:
  assumes "dead_at now i x" "idb_key_seq x \<le> idb_key_seq y"
    and "\<And>k. k \<in> set (idb_keys y) \<Longrightarrow> k_id k < idb_key_seq x \<Longrightarrow> \<exists>k0 \<in> set (idb_keys x). k_id k0 = k_id k
      \<and> (Valid (row_record k) now \<longrightarrow> Valid (row_record k0) now)"
  shows "dead_at now i y"
  using assms unfolding dead_at_def list_all_iff by (metis order_less_le_trans)

lemma dead_at_frame: "idb_keys y = idb_keys x \<Longrightarrow> idb_key_seq y = idb_key_seq x \<Longrightarrow> dead_at now i y = dead_at now i x"
  by (simp add: dead_at_def)

lemma issue_dead: "dead_at now i x \<Longrightarrow> dead_at now i (snd (IssueKey lib random app run time x))"
proof (cases rule: IssueKey_cases [of lib random app run time x])
  case (issued plaintext row)
  assume dead: "dead_at now i x"
  have row: "k_id row = idb_key_seq x" by (simp add: issued(2) new_key_row_def)
  show ?thesis unfolding issued(3)
  proof (rule dead_at_rows [OF dead])
    fix k
    assume k: "k \<in> set (idb_keys (snd (Inr \<lparr>ik_ID = k_id row, ik_Plaintext = plaintext, ik_Hint = k_hint row\<rparr> :: IssuedKey identity_result,
      x\<lparr>idb_keys := update_where (live_key app) (\<lambda>k. k\<lparr>k_superseded_at := Some (identity_storeTime time)\<rparr>) (idb_keys x) @ [row],
        idb_key_seq := idb_key_seq x + 1\<rparr>)))" "k_id k < idb_key_seq x"
    with row have "k \<in> set (update_where (live_key app) (\<lambda>k. k\<lparr>k_superseded_at := Some (identity_storeTime time)\<rparr>) (idb_keys x))"
      by auto
    then show "\<exists>k0 \<in> set (idb_keys x). k_id k0 = k_id k \<and> (Valid (row_record k) now \<longrightarrow> Valid (row_record k0) now)"
      by (cases rule: update_whereE) (auto simp: Valid_iff row_record_def live_key_def)
  qed simp
qed simp

lemma update_keys_dead:
  assumes "dead_at now i x" and "\<And>k. p k \<Longrightarrow> k_id (f k) = k_id k \<and> (Valid (row_record (f k)) now \<longrightarrow> Valid (row_record k) now)"
  shows "dead_at now i (x\<lparr>idb_keys := update_where p f (idb_keys x)\<rparr>)"
proof (rule dead_at_rows [OF assms(1)])
  fix k
  assume "k \<in> set (idb_keys (x\<lparr>idb_keys := update_where p f (idb_keys x)\<rparr>))"
  then have "k \<in> set (update_where p f (idb_keys x))" by simp
  then show "\<exists>k0 \<in> set (idb_keys x). k_id k0 = k_id k \<and> (Valid (row_record k) now \<longrightarrow> Valid (row_record k0) now)"
    by (cases rule: update_whereE) (use assms(2) in auto)
qed simp

lemma revoke_dead: "dead_at now i x \<Longrightarrow> dead_at now i (snd (store_RevokeKey j time x))"
  by (auto simp: store_RevokeKey_def Let_def Valid_iff row_record_def split: option.split intro!: update_keys_dead)

lemma touch_dead: "dead_at now i x \<Longrightarrow> dead_at now i (snd (TouchKey j time x))"
  by (auto simp: TouchKey_def Let_def row_record_def intro!: update_keys_dead)

lemma unbind_dead: "dead_at now i x \<Longrightarrow> dead_at now i (snd (store_Unbind app x))"
  by (auto simp: dead_at_def store_Unbind_def list_all_iff)

lemma key_frame:
  "dead_at now i (snd (RecordJTI j e x)) = dead_at now i x"
  "dead_at now i (snd (FilePendingRequest app c time x)) = dead_at now i x"
  "dead_at now i (snd (DeleteExpiredReplay time x)) = dead_at now i x"
  "dead_at now i (snd (delete_requests p x)) = dead_at now i x"
  "dead_at now i (snd (store_ApproveRequest q app time x)) = dead_at now i x"
  "dead_at now i (snd (store_RejectRequest q time x)) = dead_at now i x"
proof -
  show "dead_at now i (snd (FilePendingRequest app c time x)) = dead_at now i x"
    by (cases rule: FilePendingRequest_cases [of app c time x]) (simp_all add: dead_at_def)
  show "dead_at now i (snd (store_ApproveRequest q app time x)) = dead_at now i x"
    by (cases rule: store_ApproveRequest_cases [of q app time x]) (simp_all add: dead_at_def)
  show "dead_at now i (snd (store_RejectRequest q time x)) = dead_at now i x"
    by (cases rule: store_RejectRequest_cases [of q time x]) (simp_all add: dead_at_def)
qed (simp_all add: dead_at_def RecordJTI_def DeleteExpiredReplay_def delete_requests_def Let_def)

interpretation dead_law: identity_law t "\<lambda>x y. dead_at now i x \<longrightarrow> dead_at now i y" for t now i
  by unfold_locales (simp_all add: key_frame issue_dead revoke_dead touch_dead unbind_dead)

lemma dead_at_later: "dead_at now i db \<Longrightarrow> now \<le> later \<Longrightarrow> dead_at later i db"
  using Valid_antimono by (auto simp: dead_at_def list_all_iff)

lemma dead_never_resolves:
  assumes "dead_at (identity_storeTime now) i db" "now \<le> later" "ResolveKey lib key later db = Inr r"
  shows "rk_ID r \<noteq> i"
proof -
  from assms(3) obtain k where k: "find (\<lambda>k. k_hash k = HashKey lib key) (idb_keys db) = Some k"
    "Valid (row_record k) (identity_storeTime later)" "rk_ID r = k_id k"
    by (auto simp: ResolveKey_def split: if_splits option.splits)
  have "dead_at (identity_storeTime later) i db" using dead_at_later [OF assms(1) storeTime_mono [OF assms(2)]] .
  with k find_Some_in [OF k(1)] show ?thesis by (auto simp: dead_at_def list_all_iff)
qed

text \<open>A revoked key is dead from then on, and so is every key of an unbound app.\<close>

lemma revoked_dead:
  assumes "identity_inv db" "store_RevokeKey i now db = (Inr key, db')"
  shows "dead_at (identity_storeTime now) i db'"
proof -
  let ?now = "identity_storeTime now"
  let ?f = "\<lambda>k :: key_row. k\<lparr>k_revoked_at := Some ?now, k_revoked_reason := Some ''operator''\<rparr>"
  from assms(2) obtain k where db': "db' = db\<lparr>idb_keys := update_where (revocable i ?now) ?f (idb_keys db)\<rparr>"
    and k: "k \<in> set (idb_keys db')" "k_id k = i"
    by (auto simp: store_RevokeKey_def Let_def split: option.splits dest: find_Some_in)
  have "\<not> Valid (row_record x) ?now" if "x \<in> set (update_where (revocable i ?now) ?f (idb_keys db))" "k_id x = i" for x
    using that(1)
  proof (cases rule: update_whereE)
    case kept
    with that(2) show ?thesis by (auto simp: revocable_def Valid_iff row_record_def split: option.splits)
  qed (simp add: Valid_iff row_record_def)
  moreover have "i < idb_key_seq db"
    using k identity_invD(3) [OF assms(1)] by (auto simp: db' keys_inv_def list_all_iff elim!: update_whereE)
  ultimately show ?thesis by (auto simp: dead_at_def db' list_all_iff)
qed

lemma unbound_dead:
  assumes "identity_inv db" "k \<in> set (idb_keys db)"
  shows "dead_at now (k_id k) (snd (store_Unbind (k_app_id k) db))"
proof -
  have keys: "keys_inv (idb_key_seq db) (idb_keys db)" by (rule identity_invD(3) [OF assms(1)])
  have "BindingExists (k_app_id k) db"
    using identity_invD(5) [OF assms(1)] assms(2) by (auto simp: identity_refs_def BindingExists_iff)
  moreover have "k_id x \<noteq> k_id k" if "x \<in> set (idb_keys db)" "k_app_id x \<noteq> k_app_id k" for x
    using distinct_map_inj [of k_id "idb_keys db" x k] that assms(2) keys by (auto simp: keys_inv_def)
  ultimately show ?thesis
    using keys assms(2) by (auto simp: dead_at_def store_Unbind_def list_all_iff keys_inv_def)
qed

end
