(* ===== verification/Publisher_System.thy ===== *)
theory Publisher_System
  imports Publisher Identity_System
begin

text \<open>
  Publishers beside app identity as a transition system: a step is an identity transaction, a mint with
  whatever other steps run while it holds its lock, a removal, or a sweep. The lemma \<open>mint_lift\<close> carries a
  predicate through a mint; with it every step keeps the invariant, keeps the recent mint attempts
  (the rolling limit of \<^verbatim>\<open>History\<close>), and keeps an unbound app without a publisher.
\<close>

section \<open>Steps\<close>

text \<open>\<open>calm\<close> are the apps that no approval binds; with none, every step is allowed.\<close>

definition identity_calm :: "string set \<Rightarrow> identity_db \<Rightarrow> identity_db \<Rightarrow> bool" where
  "identity_calm calm x y \<longleftrightarrow> (\<forall>app \<in> calm. BindingExists app y \<longrightarrow> BindingExists app x)"

inductive publisher_step :: "time \<Rightarrow> string set \<Rightarrow> publisher_db \<Rightarrow> publisher_db \<Rightarrow> bool" for t calm where
  identity: "identity_step t (pdb_identity db) i \<Longrightarrow> identity_calm calm (pdb_identity db) i \<Longrightarrow>
     publisher_step t calm db (db\<lparr>pdb_identity := i\<rparr>)"
| mint: "(\<And>phase x. (publisher_step t calm)\<^sup>*\<^sup>* x (mv_between env phase x)) \<Longrightarrow> mv_now env \<le> t \<Longrightarrow>
     pv_checker svc = Some identity_checker \<Longrightarrow> publisher_step t calm db (snd (mint svc env app rotating limited db))"
| remove: "publisher_step t calm db (snd (publisher_Remove app db))"
| remove_exclusive: "publisher_step t calm db (snd (RemoveExclusive env app db))"
| sweep: "now \<le> t \<Longrightarrow> publisher_step t calm db (snd (DeleteExpiredPublisherMints now MintRateWindow db))"

section \<open>Carrying a predicate through a mint\<close>

lemma mint_and_store_view:
  assumes "mint_and_store svc env app rotating tx = (r, tx')"
  shows "et_committed tx' = mv_between env Upstream (et_committed tx)"
    and "et_view tx' = mv_between env Upstream (et_view tx)
      \<or> (\<exists>p. pb_AppID p = app \<and> et_view tx' = snd (upsertPublisher (mv_now env) p (mv_between env Upstream (et_view tx))))"
  using assms
  by (auto simp: mint_and_store_def Let_def split: sum.splits if_splits option.splits prod.splits)
    (metis snd_conv stored_publisher.select_convs(1))

text \<open>A predicate that the parts of a mint for \<open>app\<close> keep: what others do, its locks and slot, and its writes.\<close>

definition mint_closed :: "publisher_service \<Rightarrow> mint_env \<Rightarrow> string \<Rightarrow> (publisher_db \<Rightarrow> bool) \<Rightarrow> bool" where
  "mint_closed svc env app Q \<longleftrightarrow>
     (\<forall>x n. Q x \<longrightarrow> Q (x\<lparr>pdb_slots := n\<rparr>)) \<and> (\<forall>x. Q x \<longrightarrow> Q (lock_app app x)) \<and> (\<forall>x. Q x \<longrightarrow> Q (unlock_app app x))
     \<and> (\<forall>x phase. Q x \<longrightarrow> Q (mv_between env phase x))
     \<and> (\<forall>x. Q x \<longrightarrow> Q (snd (ReserveMintSlot (mv_now env) app MintRateLimit MintRateWindow x)))
     \<and> (\<forall>x y p. Q y \<longrightarrow> requireBound svc app y = Inr () \<longrightarrow> Q x \<longrightarrow> pb_AppID p = app \<longrightarrow>
          Q (snd (upsertPublisher (mv_now env) p x)))"

lemma mint_closedD:
  assumes "mint_closed svc env app Q"
  shows "Q x \<Longrightarrow> Q (x\<lparr>pdb_slots := n\<rparr>)" "Q x \<Longrightarrow> Q (lock_app app x)" "Q x \<Longrightarrow> Q (unlock_app app x)"
    "Q x \<Longrightarrow> Q (mv_between env phase x)"
    "Q x \<Longrightarrow> Q (snd (ReserveMintSlot (mv_now env) app MintRateLimit MintRateWindow x))"
    "Q y \<Longrightarrow> requireBound svc app y = Inr () \<Longrightarrow> Q x \<Longrightarrow> pb_AppID p = app \<Longrightarrow> Q (snd (upsertPublisher (mv_now env) p x))"
proof -
  note c = assms [unfolded mint_closed_def]
  show "Q x \<Longrightarrow> Q (x\<lparr>pdb_slots := n\<rparr>)" by (rule c [THEN conjunct1, THEN spec, THEN spec, THEN mp])
  note c = c [THEN conjunct2]
  show "Q x \<Longrightarrow> Q (lock_app app x)" by (rule c [THEN conjunct1, THEN spec, THEN mp])
  note c = c [THEN conjunct2]
  show "Q x \<Longrightarrow> Q (unlock_app app x)" by (rule c [THEN conjunct1, THEN spec, THEN mp])
  note c = c [THEN conjunct2]
  show "Q x \<Longrightarrow> Q (mv_between env phase x)" by (rule c [THEN conjunct1, THEN spec, THEN spec, THEN mp])
  note c = c [THEN conjunct2]
  show "Q x \<Longrightarrow> Q (snd (ReserveMintSlot (mv_now env) app MintRateLimit MintRateWindow x))"
    by (rule c [THEN conjunct1, THEN spec, THEN mp])
  note c = c [THEN conjunct2]
  show "Q y \<Longrightarrow> requireBound svc app y = Inr () \<Longrightarrow> Q x \<Longrightarrow> pb_AppID p = app \<Longrightarrow> Q (snd (upsertPublisher (mv_now env) p x))"
    by (rule c [THEN spec, THEN spec, THEN spec, THEN mp, THEN mp, THEN mp, THEN mp])
qed

lemma store_lift:
  assumes closed: "mint_closed svc env app Q"
    and "Q (et_committed tx)" "Q (et_view tx)" "Q y" "requireBound svc app y = Inr ()"
    and "mint_and_store svc env app rotating tx = (r, tx')"
  shows "Q (et_committed tx') \<and> Q (et_view tx')"
proof
  show "Q (et_committed tx')" unfolding mint_and_store_view(1) [OF assms(6)] by (rule mint_closedD(4) [OF closed assms(2)])
  have view: "Q (mv_between env Upstream (et_view tx))" by (rule mint_closedD(4) [OF closed assms(3)])
  from mint_and_store_view(2) [OF assms(6)] show "Q (et_view tx')"
    using view mint_closedD(6) [OF closed assms(4,5) view] by auto
qed

lemma locked_lift:
  assumes closed: "mint_closed svc env app Q" and "Q (et_committed tx)" "Q (et_view tx)"
    and locked: "mintLocked svc env app rotating limited tx = (r, tx')"
  shows "Q (et_committed tx') \<and> Q (et_view tx')"
proof -
  let ?tx = "see_commits (mv_between env Locked) tx"
  have q: "Q (et_committed ?tx)" "Q (et_view ?tx)" using assms(2,3) mint_closedD(4) [OF closed] by simp_all
  show ?thesis
  proof (cases "requireBound svc app (et_view ?tx)")
    case (Inl e)
    with locked q show ?thesis by (auto simp: mintLocked_def Let_def)
  next
    case (Inr u)
    then have bound: "requireBound svc app (et_view ?tx) = Inr ()" by simp
    obtain f view where f: "ReserveMintSlot (mv_now env) app MintRateLimit MintRateWindow (et_view ?tx) = (f, view)" by fastforce
    have view: "Q view" using mint_closedD(5) [OF closed q(2)] f by simp
    have final: "mint_and_store svc env app rotating x = (r, tx') \<Longrightarrow> Q (et_committed x) \<Longrightarrow> Q (et_view x) \<Longrightarrow> ?thesis" for x
      using store_lift [OF closed _ _ q(2) bound] by blast
    show ?thesis
    proof (cases limited)
      case False
      with locked bound have "mint_and_store svc env app rotating ?tx = (r, tx')" by (simp add: mintLocked_def Let_def)
      then show ?thesis using q by (rule final)
    next
      case True
      show ?thesis
      proof (cases f)
        case (Inl e)
        with True locked bound f q view show ?thesis by (auto simp: mintLocked_def Let_def)
      next
        case (Inr v)
        with True locked bound f have "mint_and_store svc env app rotating (?tx\<lparr>et_view := view\<rparr>) = (r, tx')"
          by (simp add: mintLocked_def Let_def)
        then show ?thesis by (rule final) (use q view in simp_all)
      qed
    qed
  qed
qed

lemma lock_lift:
  assumes closed: "mint_closed svc env app Q" and "Q db"
    and fn: "\<And>tx r tx'. Q (et_committed tx) \<Longrightarrow> Q (et_view tx) \<Longrightarrow> fn tx = (r, tx') \<Longrightarrow> Q (et_committed tx') \<and> Q (et_view tx')"
  shows "Q (snd (WithAppMintLock env app fn db))"
proof -
  obtain r tx where r: "fn \<lparr>et_committed = lock_app app db, et_view = lock_app app db\<rparr> = (r, tx)" by fastforce
  have "Q (et_committed tx) \<and> Q (et_view tx)" by (rule fn [OF _ _ r]) (simp_all add: mint_closedD(2) [OF closed] assms(2))
  then show ?thesis using assms(2) mint_closedD(3) [OF closed] by (simp add: WithAppMintLock_def Let_def r split: sum.split)
qed

lemma mint_lift:
  assumes closed: "mint_closed svc env app Q" and "Q db"
  shows "Q (snd (mint svc env app rotating limited db))"
proof -
  let ?db1 = "mv_between env BeforeLock (db\<lparr>pdb_slots := Suc (pdb_slots db)\<rparr>)"
  have "Q ?db1" by (intro mint_closedD(4) [OF closed] mint_closedD(1) [OF closed] assms(2))
  then have "Q (snd (WithAppMintLock env app (mintLocked svc env app rotating limited) ?db1))"
    by (rule lock_lift [OF closed]) (rule locked_lift [OF closed])
  then show ?thesis using assms(2) mint_closedD(1) [OF closed] by (simp add: mint_def Let_def case_prod_beta split: sum.split)
qed

section \<open>The invariant\<close>

definition publisher_inv :: "publisher_db \<Rightarrow> bool" where
  "publisher_inv db \<longleftrightarrow> identity_inv (pdb_identity db) \<and> distinct (map pb_AppID (pdb_publishers db))
     \<and> list_all (\<lambda>p. slug 62 (pb_AppID p)) (pdb_publishers db)"

lemma publisher_inv_frame [simp]:
  "publisher_inv (x\<lparr>pdb_slots := n\<rparr>) = publisher_inv x" "publisher_inv (lock_app app x) = publisher_inv x"
  "publisher_inv (unlock_app app x) = publisher_inv x" "publisher_inv (x\<lparr>pdb_mints := ms\<rparr>) = publisher_inv x"
  by (simp_all add: publisher_inv_def lock_app_def unlock_app_def)

lemma reserve_frame:
  "\<exists>ms. snd (ReserveMintSlot now app limit window x) = x\<lparr>pdb_mints := ms\<rparr>"
  by (auto simp: ReserveMintSlot_def prune_mints_def Let_def)

lemma upsert_inv: "publisher_inv x \<Longrightarrow> publisher_inv (snd (upsertPublisher now p x))"
proof (cases "find (\<lambda>q. pb_AppID q = pb_AppID p) (pdb_publishers x)")
  case (Some old)
  assume inv: "publisher_inv x"
  let ?row = "old\<lparr>pb_PublisherUserID := pb_PublisherUserID p, pb_TopicPattern := pb_TopicPattern p,
                  pb_SealedToken := pb_SealedToken p, pb_UpdatedAt := now\<rparr>"
  let ?ps = "update_where (\<lambda>q. pb_AppID q = pb_AppID p) (\<lambda>_. ?row) (pdb_publishers x)"
  have old: "pb_AppID old = pb_AppID p" using find_Some_in [OF Some] by simp
  then have "map pb_AppID ?ps = map pb_AppID (pdb_publishers x)" by (intro map_update_where) simp
  moreover have "list_all (\<lambda>q. slug 62 (pb_AppID q)) ?ps" if "slug 62 (pb_AppID p)"
    using inv that old by (auto simp: publisher_inv_def list_all_iff in_update_where)
  ultimately show ?thesis using inv Some by (simp add: upsertPublisher_def publisher_inv_def Let_def)
next
  case None
  assume "publisher_inv x"
  moreover have "pb_AppID p \<notin> pb_AppID ` set (pdb_publishers x)" using None by (auto simp: find_None_iff)
  ultimately show ?thesis using None by (simp add: upsertPublisher_def publisher_inv_def Let_def)
qed

lemma store_Delete_inv: "publisher_inv x \<Longrightarrow> publisher_inv (store_Delete app x)"
  by (auto simp: publisher_inv_def store_Delete_def distinct_map_filter_sub list_all_iff)

lemma RemoveExclusive_state:
  "snd (RemoveExclusive env app x) = x \<or> snd (RemoveExclusive env app x) = unlock_app app (lock_app app x)
   \<or> snd (RemoveExclusive env app x) = unlock_app app (store_Delete app (lock_app app x))"
  by (auto simp: RemoveExclusive_def WithAppMintLock_def Let_def split: sum.split)

lemma sweep_frame: "\<exists>ms. snd (DeleteExpiredPublisherMints now window x) = x\<lparr>pdb_mints := ms\<rparr>"
proof (cases "window \<le> 0")
  case True
  then show ?thesis by (intro exI [of _ "pdb_mints x"]) (simp add: DeleteExpiredPublisherMints_def)
qed (auto simp: DeleteExpiredPublisherMints_def)

lemma publisher_nested:
  assumes "(\<lambda>x y. publisher_step t calm x y \<and> (Q x \<longrightarrow> Q y))\<^sup>*\<^sup>* x y" "Q x"
  shows "Q y"
  using assms by (induction rule: rtranclp_induct) auto

lemma publisher_step_inv: "publisher_step t calm x y \<Longrightarrow> publisher_inv x \<longrightarrow> publisher_inv y"
proof (induction rule: publisher_step.induct)
  case (identity db i)
  then show ?case using inv_law.law_step by (auto simp: publisher_inv_def)
next
  case (mint env svc db app rotating limited)
  then have between: "\<And>phase x. publisher_inv x \<Longrightarrow> publisher_inv (mv_between env phase x)"
    by (blast intro: publisher_nested)
  have "publisher_inv (snd (ReserveMintSlot now a n w x)) = publisher_inv x" for now a n w x
    using reserve_frame [of now a n w x] by auto
  with between have "mint_closed svc env app publisher_inv" by (simp add: mint_closed_def upsert_inv)
  then show ?case using mint_lift by blast
next
  case (remove db app)
  then show ?case by (simp add: publisher_Remove_def store_Delete_inv split: sum.split)
next
  case (remove_exclusive db env app)
  then show ?case using RemoveExclusive_state [of env app db] store_Delete_inv by auto
next
  case (sweep now db)
  then show ?case using sweep_frame [of now MintRateWindow db] by auto
qed

section \<open>Recent mint attempts\<close>

abbreviation mint_times :: "string \<Rightarrow> publisher_db \<Rightarrow> time multiset" where
  "mint_times app db \<equiv> row_times mr_minted_at (\<lambda>r. mr_app_id r = app) (pdb_mints db)"

lemma mset_mints_of: "mset (mints_of app db) = mint_times app db"
  by (simp add: mints_of_def row_times_def)

definition mints_kept :: "time \<Rightarrow> string \<Rightarrow> publisher_db \<Rightarrow> publisher_db \<Rightarrow> bool" where
  "mints_kept t app x y \<longleftrightarrow> filter_mset (\<lambda>a. t - MintRateWindow \<le> a) (mint_times app x) \<subseteq># mint_times app y"

lemma mints_kept_refl: "mints_kept t app x x"
  by (simp add: mints_kept_def)

lemma mints_kept_trans: "mints_kept t app x y \<Longrightarrow> mints_kept t app y z \<Longrightarrow> mints_kept t app x z"
  unfolding mints_kept_def by (rule kept_trans)

lemma mints_kept_frame: "pdb_mints y = pdb_mints x \<Longrightarrow> mints_kept t app x y"
  by (simp add: mints_kept_def)

lemma prune_kept: "now \<le> t \<Longrightarrow> mints_kept t app x (prune_mints a (now - MintRateWindow) x)"
  unfolding mints_kept_def prune_mints_def by (simp, rule row_times_filter) simp

lemma reserve_kept: "now \<le> t \<Longrightarrow> mints_kept t app x (snd (ReserveMintSlot now a limit MintRateWindow x))"
  using prune_kept [of now t app x a] unfolding mints_kept_def
  by (auto simp: ReserveMintSlot_def Let_def intro: subset_mset.order_trans)

lemma upsert_mints [simp]: "pdb_mints (snd (upsertPublisher now p x)) = pdb_mints x"
  by (simp add: upsertPublisher_def Let_def split: option.split)

lemma lock_simps [simp]:
  "pdb_mints (lock_app app x) = pdb_mints x" "pdb_mints (unlock_app app x) = pdb_mints x"
  "pdb_mints (store_Delete app x) = pdb_mints x"
  by (simp_all add: lock_app_def unlock_app_def store_Delete_def)

lemma mint_kept_closed:
  assumes "\<And>phase x. mints_kept t a x (mv_between env phase x)" "mv_now env \<le> t"
  shows "mint_closed svc env app (mints_kept t a db)"
proof -
  have frame: "pdb_mints y = pdb_mints x \<Longrightarrow> mints_kept t a db x \<Longrightarrow> mints_kept t a db y" for x y
    by (simp add: mints_kept_def)
  show ?thesis
    unfolding mint_closed_def
    using frame mints_kept_trans [OF _ assms(1)] mints_kept_trans [OF _ reserve_kept [OF assms(2)]] by auto
qed

lemma publisher_step_mints: "publisher_step t calm x y \<Longrightarrow> mints_kept t a x y"
proof (induction rule: publisher_step.induct)
  case (identity db i)
  then show ?case by (simp add: mints_kept_frame)
next
  case (mint env svc db app rotating limited)
  have "mints_kept t a x y" if "(\<lambda>x y. publisher_step t calm x y \<and> mints_kept t a x y)\<^sup>*\<^sup>* x y" for x y
    using that by (induction rule: rtranclp_induct) (auto intro: mints_kept_refl mints_kept_trans)
  with mint(1) have "\<And>phase x. mints_kept t a x (mv_between env phase x)" by blast
  from mint_kept_closed [OF this mint(2)] show ?case by (rule mint_lift) (rule mints_kept_refl)
next
  case (remove db app)
  then show ?case by (auto simp: publisher_Remove_def mints_kept_frame split: sum.split)
next
  case (remove_exclusive db env app)
  then show ?case using RemoveExclusive_state [of env app db] by (intro mints_kept_frame) auto
next
  case (sweep now db)
  then show ?case unfolding mints_kept_def DeleteExpiredPublisherMints_def
    by (simp, intro row_times_filter) simp
qed

lemma publisher_steps_mints: "(publisher_step t calm)\<^sup>*\<^sup>* x y \<Longrightarrow> mints_kept t a x y"
  by (induction rule: rtranclp_induct) (auto intro: mints_kept_refl mints_kept_trans publisher_step_mints)

section \<open>The rate limit of minting\<close>

text \<open>When an app's mint calls the provisioning API: every check passed and a slot was reserved.\<close>

definition locked_view :: "mint_env \<Rightarrow> string \<Rightarrow> publisher_db \<Rightarrow> publisher_db" where
  "locked_view env app db =
     mv_between env Locked (lock_app app (mv_between env BeforeLock (db\<lparr>pdb_slots := Suc (pdb_slots db)\<rparr>)))"

definition calls_minter :: "publisher_service \<Rightarrow> mint_env \<Rightarrow> string \<Rightarrow> publisher_db \<Rightarrow> bool" where
  "calls_minter svc env app db \<longleftrightarrow>
     publisher_ValidateAppID app = Inr () \<and> pv_minter svc \<noteq> None \<and> requireBound svc app db = Inr ()
     \<and> pdb_slots db < MaxInFlightMints \<and> \<not> mv_begin_fails env
     \<and> app \<notin> set (pdb_locks (mv_between env BeforeLock (db\<lparr>pdb_slots := Suc (pdb_slots db)\<rparr>)))
     \<and> requireBound svc app (locked_view env app db) = Inr ()
     \<and> fst (ReserveMintSlot (mv_now env) app MintRateLimit MintRateWindow (locked_view env app db)) = Inr ()"

definition mint_admit :: "string \<Rightarrow> time \<Rightarrow> publisher_db \<Rightarrow> publisher_db \<Rightarrow> bool" where
  "mint_admit app t x y \<longleftrightarrow>
     (\<exists>svc env rotating. y = snd (publisher_Mint svc env app rotating x) \<and> calls_minter svc env app x
        \<and> \<not> mv_commit_fails env \<and> (\<forall>phase z. (publisher_step t {})\<^sup>*\<^sup>* z (mv_between env phase z))
        \<and> t - MintBeginTimeout \<le> mv_now env \<and> mv_now env \<le> t)"

lemma mint_reserved_view:
  assumes "calls_minter svc env app x" "\<not> mv_commit_fails env"
  shows "pdb_mints (snd (publisher_Mint svc env app rotating x))
    = pdb_mints (mv_between env Upstream
        (snd (ReserveMintSlot (mv_now env) app MintRateLimit MintRateWindow (locked_view env app x))))"
proof -
  let ?db1 = "mv_between env BeforeLock (x\<lparr>pdb_slots := Suc (pdb_slots x)\<rparr>)"
  let ?tx = "see_commits (mv_between env Locked) \<lparr>et_committed = lock_app app ?db1, et_view = lock_app app ?db1\<rparr>"
  have view: "et_view ?tx = locked_view env app x" by (simp add: locked_view_def)
  obtain v where v: "ReserveMintSlot (mv_now env) app MintRateLimit MintRateWindow (locked_view env app x) = (Inr (), v)"
    using assms(1) unfolding calls_minter_def by (metis prod.collapse)
  obtain r tx' where r: "mint_and_store svc env app rotating (?tx\<lparr>et_view := v\<rparr>) = (r, tx')" by fastforce
  have locked: "mintLocked svc env app rotating True \<lparr>et_committed = lock_app app ?db1, et_view = lock_app app ?db1\<rparr> = (r, tx')"
    using assms(1) by (simp add: mintLocked_def Let_def view [simplified] v r calls_minter_def locked_view_def [symmetric])
  have "pdb_mints (snd (publisher_Mint svc env app rotating x)) = pdb_mints (et_view tx')"
    using assms by (cases r) (auto simp: publisher_Mint_def mint_def calls_minter_def WithAppMintLock_def Let_def locked)
  also have "\<dots> = pdb_mints (mv_between env Upstream v)" using mint_and_store_view(2) [OF r] by auto
  finally show ?thesis by (simp add: v)
qed

interpretation mint_limit: sliding_limit MintRateWindow MintBeginTimeout MintRateLimit "mint_times app" "mint_admit app"
  "\<lambda>t. publisher_step t {}" for app
proof
  fix t x y
  assume "mint_admit app t x y"
  then obtain svc env rotating where y: "y = snd (publisher_Mint svc env app rotating x)" and calls: "calls_minter svc env app x"
    and commit: "\<not> mv_commit_fails env" and steps: "\<And>phase z. (publisher_step t {})\<^sup>*\<^sup>* z (mv_between env phase z)"
    and now: "t - MintBeginTimeout \<le> mv_now env" "mv_now env \<le> t"
    unfolding mint_admit_def by blast
  have between: "mints_kept t app z (mv_between env phase z)" for phase z by (rule publisher_steps_mints [OF steps])
  let ?view = "locked_view env app x"
  let ?pruned = "prune_mints app (mv_now env - MintRateWindow) ?view"
  have "mints_kept t app x ?view"
    unfolding locked_view_def
    by (rule mints_kept_trans [OF mints_kept_trans [OF mints_kept_trans [OF mints_kept_frame between] mints_kept_frame] between])
      simp_all
  then have pruned: "mints_kept t app x ?pruned" using prune_kept [OF now(2)] mints_kept_trans by blast
  have room: "length (mints_of app ?pruned) < MintRateLimit"
    and reserved: "pdb_mints (snd (ReserveMintSlot (mv_now env) app MintRateLimit MintRateWindow ?view))
      = pdb_mints ?pruned @ [\<lparr>mr_app_id = app, mr_minted_at = mv_now env\<rparr>]"
    using calls by (auto simp: calls_minter_def ReserveMintSlot_def Let_def split: if_splits)
  show "size (filter_mset (\<lambda>a. t - MintRateWindow \<le> a) (mint_times app x)) < MintRateLimit"
    using pruned by (intro size_less [OF _ room]) (simp add: mints_kept_def mset_mints_of)
  let ?v = "snd (ReserveMintSlot (mv_now env) app MintRateLimit MintRateWindow ?view)"
  have "mints_kept t app ?v (mv_between env Upstream ?v)" by (rule between)
  then have "filter_mset (\<lambda>a. t - MintRateWindow \<le> a) (mint_times app ?pruned + {#mv_now env#}) \<subseteq># mint_times app y"
    unfolding y mints_kept_def mint_reserved_view [OF calls commit] reserved by simp
  moreover have "filter_mset (\<lambda>a. t - MintRateWindow \<le> a) (mint_times app x)
      \<subseteq># filter_mset (\<lambda>a. t - MintRateWindow \<le> a) (mint_times app ?pruned)"
    using multiset_filter_mono [OF pruned [unfolded mints_kept_def], of "\<lambda>a. t - MintRateWindow \<le> a"] by (simp add: filter_filter_mset)
  moreover have "t - MintRateWindow \<le> mv_now env" using now(1) by simp
  ultimately have "add_mset (mv_now env) (filter_mset (\<lambda>a. t - MintRateWindow \<le> a) (mint_times app x)) \<subseteq># mint_times app y"
    by simp (meson mset_subset_eq_add_mset_cancel subset_mset.order_trans)
  with now(1) show "\<exists>a. t - MintBeginTimeout \<le> a
      \<and> add_mset a (filter_mset (\<lambda>a. t - MintRateWindow \<le> a) (mint_times app x)) \<subseteq># mint_times app y" by blast
next
  fix t x y
  assume "publisher_step t {} x y"
  then show "filter_mset (\<lambda>a. t - MintRateWindow \<le> a) (mint_times app x) \<subseteq># mint_times app y"
    using publisher_step_mints by (simp add: mints_kept_def)
qed

section \<open>An unbound app stays without a publisher\<close>

definition app_clear :: "string \<Rightarrow> publisher_db \<Rightarrow> bool" where
  "app_clear app db \<longleftrightarrow> \<not> BindingExists app (pdb_identity db) \<and> app \<notin> pb_AppID ` set (pdb_publishers db)"

lemma requireBound_checked:
  "pv_checker svc = Some identity_checker \<Longrightarrow> requireBound svc app db = Inr () \<Longrightarrow> BindingExists app (pdb_identity db)"
  by (auto simp: requireBound_def identity_checker_def HasBinding_def split: sum.splits if_splits)

lemma upsert_apps: "pb_AppID ` set (pdb_publishers (snd (upsertPublisher now p x))) \<subseteq> insert (pb_AppID p) (pb_AppID ` set (pdb_publishers x))"
  by (auto simp: upsertPublisher_def Let_def in_update_where split: option.split if_splits dest!: find_Some_in)

lemma upsert_identity [simp]: "pdb_identity (snd (upsertPublisher now p x)) = pdb_identity x"
  by (simp add: upsertPublisher_def Let_def split: option.split)

lemma app_clear_frame [simp]:
  "app_clear a (x\<lparr>pdb_slots := n\<rparr>) = app_clear a x" "app_clear a (lock_app app x) = app_clear a x"
  "app_clear a (unlock_app app x) = app_clear a x" "app_clear a (x\<lparr>pdb_mints := ms\<rparr>) = app_clear a x"
  by (simp_all add: app_clear_def lock_app_def unlock_app_def)

lemma clear_mint_closed:
  assumes "\<And>phase x. app_clear a x \<Longrightarrow> app_clear a (mv_between env phase x)" "pv_checker svc = Some identity_checker"
  shows "mint_closed svc env app (app_clear a)"
proof -
  have "app_clear a (snd (ReserveMintSlot now app n w x)) = app_clear a x" for now n w x
    using reserve_frame [of now app n w x] by auto
  moreover have "app_clear a (snd (upsertPublisher now p x))"
    if "app_clear a y" "requireBound svc app y = Inr ()" "app_clear a x" "pb_AppID p = app" for now p x y
  proof -
    have "app \<noteq> a" using requireBound_checked [OF assms(2) that(2)] that(1) by (auto simp: app_clear_def)
    with upsert_apps [of now p x] that(3,4) show ?thesis by (auto simp: app_clear_def)
  qed
  ultimately show ?thesis using assms(1) by (simp add: mint_closed_def)
qed

lemma publisher_step_clear: "publisher_step t calm x y \<Longrightarrow> a \<in> calm \<Longrightarrow> app_clear a x \<longrightarrow> app_clear a y"
proof (induction rule: publisher_step.induct)
  case (identity db i)
  then show ?case by (auto simp: app_clear_def identity_calm_def)
next
  case (mint env svc db app rotating limited)
  have "app_clear a y" if "(\<lambda>x y. publisher_step t calm x y \<and> (a \<in> calm \<longrightarrow> app_clear a x \<longrightarrow> app_clear a y))\<^sup>*\<^sup>* x y" "app_clear a x" for x y
    using that mint.prems by (induction rule: rtranclp_induct) auto
  with mint(1) have "\<And>phase x. app_clear a x \<Longrightarrow> app_clear a (mv_between env phase x)" by blast
  from clear_mint_closed [OF this mint(3)] show ?case using mint_lift by blast
next
  case (remove db app)
  then show ?case by (auto simp: publisher_Remove_def store_Delete_def app_clear_def split: sum.split)
next
  case (remove_exclusive db env app)
  have "app_clear a (store_Delete app z)" if "app_clear a z" for z using that by (auto simp: app_clear_def store_Delete_def)
  then show ?case using RemoveExclusive_state [of env app db] by auto
next
  case (sweep now db)
  then show ?case using sweep_frame [of now MintRateWindow db] by auto
qed

lemma publisher_steps_clear: "(publisher_step t calm)\<^sup>*\<^sup>* x y \<Longrightarrow> a \<in> calm \<Longrightarrow> app_clear a x \<Longrightarrow> app_clear a y"
  by (induction rule: rtranclp_induct) (use publisher_step_clear in blast)+

end
