(* ===== verification/Heartbeat_Types.thy ===== *)
theory Heartbeat_Types
  imports Registry_Types Message_Validate
begin

text \<open>
  \<^verbatim>\<open>internal/heartbeat\<close>: \<^verbatim>\<open>types.go\<close>, \<^verbatim>\<open>validate.go\<close> and \<^verbatim>\<open>probe_seal.go\<close>. A stored state, ping kind,
  down reason or alert kind is a datatype with one constructor per constant of the source and one for
  any other text. A heartbeat check has the columns of its row (\<open>check_row\<close>) extended by its
  destinations and its probe state. \<open>url.Parse\<close> (with the fragment), \<^verbatim>\<open>netip.ParseAddr\<close>,
  \<^verbatim>\<open>strings.ToLower\<close> and the sealer are fields of \<open>probe_lib\<close>.
\<close>

section \<open>Types\<close>

datatype check_state = StateNew | StateUp | StateDown | StateLate | OtherCheckState string

datatype ping_kind = PingSuccess | PingFail | OtherPing string

datatype down_reason =
    ReasonMissed | ReasonFail | ReasonHTTPStatus | ReasonTimeout | ReasonBodyMismatch | ReasonBlocked
  | ReasonTLS | ReasonScheme | ReasonNetwork | ReasonConfig | OtherDownReason string

datatype alert_kind = AlertDown | AlertRecovered | OtherAlert string

definition KnownDownReasons :: "down_reason list" where
  "KnownDownReasons =
     [ReasonMissed, ReasonFail, ReasonHTTPStatus, ReasonTimeout, ReasonBodyMismatch, ReasonBlocked,
      ReasonTLS, ReasonScheme, ReasonNetwork, ReasonConfig]"

definition IsProbeResultReason :: "down_reason \<Rightarrow> bool" where
  "IsProbeResultReason reason =
     (case reason of
        ReasonHTTPStatus \<Rightarrow> True | ReasonTimeout \<Rightarrow> True | ReasonBodyMismatch \<Rightarrow> True | ReasonBlocked \<Rightarrow> True
      | ReasonTLS \<Rightarrow> True | ReasonScheme \<Rightarrow> True | ReasonNetwork \<Rightarrow> True | ReasonConfig \<Rightarrow> True
      | _ \<Rightarrow> False)"

definition IsKnownDownReason :: "down_reason \<Rightarrow> bool" where
  "IsKnownDownReason reason \<longleftrightarrow> reason \<in> set KnownDownReasons"

datatype heartbeat_error =
    ErrCheckNotFound
  | ErrCheckExists
  | ErrProbeCheckPing
  | HeartbeatValidation string
  | HeartbeatRegistry registry_error
  | HeartbeatFailure string \<comment> \<open>any other error: a database or a sealing failure\<close>

definition ProbeFailureThreshold :: int where "ProbeFailureThreshold = 3"

record destination_ref =
  dr_Name :: string
  dr_Type :: dest_type
  dr_Enabled :: bool

record probe_config =
  pc_URL :: string
  pc_ExpectedStatuses :: "int list"
  pc_BodyMatch :: "string option"
  pc_TimeoutSeconds :: int
  pc_IntervalSeconds :: int

record access_token =
  tk_ClientID :: string
  tk_ClientSecret :: string

record probe_result_record =
  rr_At :: time
  rr_Status :: "int option"
  rr_Reason :: "down_reason option"
  rr_Detail :: "string option"

text \<open>The stored state never carries the sealed bytes (\<^verbatim>\<open>probeColumns\<close>), only whether there are any.\<close>

record probe_state =
  ps_Config :: probe_config
  ps_HasAccessToken :: bool
  ps_ConsecutiveFailures :: int
  ps_NextProbeAt :: time
  ps_ConfigVersion :: int
  ps_LastResult :: "probe_result_record option"
  ps_DownDetail :: "string option"

record probe_result =
  pr_Status :: "int option"
  pr_Reason :: "down_reason option"
  pr_Detail :: string

record check_row =
  hc_ID :: int
  hc_AppID :: string
  hc_Name :: string
  hc_PeriodSeconds :: int
  hc_GraceSeconds :: int
  hc_State :: check_state
  hc_Paused :: bool
  hc_AnchorAt :: time
  hc_LastPingAt :: "time option"
  hc_LastPingKind :: "ping_kind option"
  hc_DownSince :: "time option"
  hc_DownReason :: "down_reason option"
  hc_AlertSeq :: int
  hc_PendingAlert :: "alert_kind option"
  hc_OwnerKind :: owner_kind
  hc_OwnerAppID :: "string option"
  hc_CreatedAt :: time
  hc_UpdatedAt :: time

record stored_check = check_row +
  hc_Destinations :: "destination_ref list"
  hc_Probe :: "probe_state option"

datatype check_kind = KindPush | KindProbe

definition Kind :: "stored_check \<Rightarrow> check_kind" where
  "Kind check = (if hc_Probe check \<noteq> None then KindProbe else KindPush)"

section \<open>Inputs\<close>

record new_check =
  nc_AppID :: string
  nc_Name :: string
  nc_PeriodSeconds :: int
  nc_GraceSeconds :: int
  nc_DestinationNames :: "string list"
  nc_OwnerKind :: owner_kind
  nc_OwnerAppID :: "string option"
  nc_Probe :: "probe_config option"
  nc_AccessToken :: "access_token option"
  nc_ScheduleSupplied :: bool

text \<open>\<open>AccessTokenAction\<close> with the token it carries.\<close>

datatype access_token_patch =
  AccessTokenUnchanged | AccessTokenReplace access_token | AccessTokenClear | OtherTokenAction int

record check_update =
  cu_PeriodSeconds :: int
  cu_GraceSeconds :: int
  cu_DestinationNames :: "string list"
  cu_Probe :: "probe_config option"
  cu_AccessToken :: access_token_patch

record probe_patch =
  pp_URL :: "string option"
  pp_ExpectedStatuses :: "int list option"
  pp_BodyMatch :: "string option"
  pp_ClearBodyMatch :: bool
  pp_TimeoutSeconds :: "int option"
  pp_IntervalSeconds :: "int option"

record check_patch =
  cp_PeriodSeconds :: "int option"
  cp_GraceSeconds :: "int option"
  cp_DestinationNames :: "string list option"
  cp_Probe :: "probe_patch option"
  cp_AccessToken :: access_token_patch

definition IsEmpty :: "check_patch \<Rightarrow> bool" where
  "IsEmpty patch \<longleftrightarrow>
     cp_PeriodSeconds patch = None \<and> cp_GraceSeconds patch = None \<and> cp_DestinationNames patch = None
     \<and> cp_Probe patch = None \<and> cp_AccessToken patch = AccessTokenUnchanged"

definition NormalizeStatuses :: "int list \<Rightarrow> int list" where
  "NormalizeStatuses statuses = sort statuses"

text \<open>\<open>DerivedSchedule\<close> in Go's \<open>int\<close>.\<close>

definition DerivedSchedule :: "int \<Rightarrow> int \<times> int" where
  "DerivedSchedule intervalSeconds =
     (intervalSeconds, wrap64 (intervalSeconds * (ProbeFailureThreshold + 1)))"

definition or_else :: "'a option \<Rightarrow> 'a \<Rightarrow> 'a" where
  "or_else patched current = (case patched of None \<Rightarrow> current | Some x \<Rightarrow> x)"

definition mergeProbeConfig :: "probe_config \<Rightarrow> probe_patch option \<Rightarrow> probe_config" where
  "mergeProbeConfig current patch =
     (let merged = current\<lparr>pc_ExpectedStatuses := NormalizeStatuses (pc_ExpectedStatuses current)\<rparr>
      in case patch of
           None \<Rightarrow> merged
         | Some p \<Rightarrow>
             merged\<lparr>pc_URL := or_else (pp_URL p) (pc_URL merged),
                    pc_ExpectedStatuses := (case pp_ExpectedStatuses p of
                        None \<Rightarrow> pc_ExpectedStatuses merged | Some s \<Rightarrow> NormalizeStatuses s),
                    pc_BodyMatch := (if pp_ClearBodyMatch p then None
                        else case pp_BodyMatch p of None \<Rightarrow> pc_BodyMatch merged | Some b \<Rightarrow> Some b),
                    pc_TimeoutSeconds := or_else (pp_TimeoutSeconds p) (pc_TimeoutSeconds merged),
                    pc_IntervalSeconds := or_else (pp_IntervalSeconds p) (pc_IntervalSeconds merged)\<rparr>)"

definition ApplyPatch :: "stored_check \<Rightarrow> check_patch \<Rightarrow> check_update" where
  "ApplyPatch current patch =
     (let update = \<lparr>cu_PeriodSeconds = or_else (cp_PeriodSeconds patch) (hc_PeriodSeconds current),
                    cu_GraceSeconds = or_else (cp_GraceSeconds patch) (hc_GraceSeconds current),
                    cu_DestinationNames = or_else (cp_DestinationNames patch) (map dr_Name (hc_Destinations current)),
                    cu_Probe = None, cu_AccessToken = cp_AccessToken patch\<rparr>
      in case hc_Probe current of
           None \<Rightarrow> update
         | Some probe \<Rightarrow>
             (let merged = mergeProbeConfig (ps_Config probe) (cp_Probe patch);
                  (period, grace) = DerivedSchedule (pc_IntervalSeconds merged)
              in update\<lparr>cu_Probe := Some merged, cu_PeriodSeconds := period, cu_GraceSeconds := grace\<rparr>))"

definition ProbeConfigChanged :: "probe_config \<Rightarrow> probe_config \<Rightarrow> access_token_patch \<Rightarrow> bool" where
  "ProbeConfigChanged current merged token \<longleftrightarrow>
     (case token of AccessTokenReplace _ \<Rightarrow> True | AccessTokenClear \<Rightarrow> True | _ \<Rightarrow> False)
     \<or> pc_URL current \<noteq> pc_URL merged \<or> pc_TimeoutSeconds current \<noteq> pc_TimeoutSeconds merged
     \<or> pc_IntervalSeconds current \<noteq> pc_IntervalSeconds merged
     \<or> NormalizeStatuses (pc_ExpectedStatuses current) \<noteq> NormalizeStatuses (pc_ExpectedStatuses merged)
     \<or> pc_BodyMatch current \<noteq> pc_BodyMatch merged"

end
