(* ===== verification/Heartbeat_Validate.thy ===== *)
theory Heartbeat_Validate
  imports Heartbeat_Types Utf8
begin

text \<open>
  \<^verbatim>\<open>internal/heartbeat/validate.go\<close> and \<^verbatim>\<open>probe_seal.go\<close>: the rules on checks, patches and probe
  configurations in the order of the source, and \<open>SanitizeProbeDetail\<close>, the one place a probe's
  failure text passes before it is stored or announced.
\<close>

record probe_lib =
  pl_url_parse :: "string \<Rightarrow> (parsed_url \<times> string) option" \<comment> \<open>with the fragment\<close>
  pl_parse_addr :: "string \<Rightarrow> bool"
  pl_lower :: "string \<Rightarrow> string"

type_synonym hb_checked = "heartbeat_error + unit"

abbreviation hb_invalid :: "string \<Rightarrow> heartbeat_error + 'a" where
  "hb_invalid text \<equiv> Inl (HeartbeatValidation text)"

section \<open>Checks\<close>

definition hb_ValidateAppID :: "string \<Rightarrow> hb_checked" where
  "hb_ValidateAppID appID = (if app_id_valid appID then Inr () else hb_invalid ''invalid app_id'')"

definition ValidateName :: "string \<Rightarrow> hb_checked" where
  "ValidateName name = (if slug 62 name then Inr () else hb_invalid ''invalid name'')"

definition ValidatePeriodSeconds :: "int \<Rightarrow> hb_checked" where
  "ValidatePeriodSeconds s = (if s < 60 \<or> s > 2678400 then hb_invalid ''invalid period_seconds'' else Inr ())"

definition ValidateGraceSeconds :: "int \<Rightarrow> hb_checked" where
  "ValidateGraceSeconds s = (if s < 60 \<or> s > 604800 then hb_invalid ''invalid grace_seconds'' else Inr ())"

fun fresh_names :: "string list \<Rightarrow> string list \<Rightarrow> bool" where
  "fresh_names seen [] = True"
| "fresh_names seen (name # names) = (slug 62 name \<and> name \<notin> set seen \<and> fresh_names (name # seen) names)"

definition ValidateDestinations :: "string list \<Rightarrow> hb_checked" where
  "ValidateDestinations names =
     (if length names < 1 \<or> length names > 20 then hb_invalid ''invalid destinations''
      else if fresh_names [] names then Inr () else hb_invalid ''invalid destinations'')"

definition ValidatePingKind :: "ping_kind \<Rightarrow> hb_checked" where
  "ValidatePingKind kind =
     (case kind of PingSuccess \<Rightarrow> Inr () | PingFail \<Rightarrow> Inr () | _ \<Rightarrow> hb_invalid ''invalid kind'')"

definition ValidateSchedule :: "int \<Rightarrow> int \<Rightarrow> string list \<Rightarrow> hb_checked" where
  "ValidateSchedule period grace names =
     (case ValidatePeriodSeconds period of Inl e \<Rightarrow> Inl e | Inr _ \<Rightarrow>
      case ValidateGraceSeconds grace of Inl e \<Rightarrow> Inl e | Inr _ \<Rightarrow>
      ValidateDestinations names)"

section \<open>Probe configurations\<close>

definition has_suffix :: "string \<Rightarrow> string \<Rightarrow> bool" where
  "has_suffix e s \<longleftrightarrow> length e \<le> length s \<and> drop (length s - length e) s = e"

definition trim_suffix :: "string \<Rightarrow> string \<Rightarrow> string" where
  "trim_suffix e s = (if has_suffix e s then take (length s - length e) s else s)"

definition validProbeURL :: "probe_lib \<Rightarrow> string \<Rightarrow> bool" where
  "validProbeURL lib raw =
     (if length raw > 2048 \<or> take 8 raw \<noteq> ''https://'' \<or> CHR ''#'' \<in> set raw then False
      else case pl_url_parse lib raw of
        None \<Rightarrow> False
      | Some (parsed, fragment) \<Rightarrow>
          if pu_Scheme parsed \<noteq> ''https'' \<or> pu_HasUser parsed \<or> fragment \<noteq> [] then False
          else (let host = pl_lower lib (trim_suffix ''.'' (pu_Hostname parsed))
                in if host = [] \<or> host = ''localhost'' \<or> has_suffix ''.localhost'' host then False
                   else \<not> pl_parse_addr lib host))"

fun fresh_statuses :: "int list \<Rightarrow> int list \<Rightarrow> bool" where
  "fresh_statuses seen [] = True"
| "fresh_statuses seen (s # ss) = (100 \<le> s \<and> s \<le> 599 \<and> s \<notin> set seen \<and> fresh_statuses (s # seen) ss)"

definition validExpectedStatuses :: "int list \<Rightarrow> bool" where
  "validExpectedStatuses statuses \<longleftrightarrow>
     1 \<le> length statuses \<and> length statuses \<le> 10 \<and> fresh_statuses [] statuses"

definition validBodyMatch :: "string \<Rightarrow> bool" where
  "validBodyMatch value \<longleftrightarrow>
     1 \<le> length value \<and> length value \<le> 256 \<and> valid_utf8 value \<and> CHR 0x00 \<notin> set value"

definition validAccessCredential :: "string \<Rightarrow> bool" where
  "validAccessCredential value \<longleftrightarrow>
     1 \<le> length value \<and> length value \<le> 256 \<and> list_all (\<lambda>c. CHR ''!'' \<le> c \<and> c \<le> CHR ''~'') value"

definition messageInvalidAccessToken :: string where "messageInvalidAccessToken = ''invalid probe.access_token''"
definition messageProbeOnPush :: string where "messageProbeOnPush = ''probe config is not allowed on a push check''"
definition messageDerivedSchedule :: string where
  "messageDerivedSchedule = ''period_seconds and grace_seconds are derived for probe checks''"
definition MessageProbeOnAppOwned :: string where
  "MessageProbeOnAppOwned = ''probe config is not allowed on an app-owned check''"

definition ValidateAccessToken :: "access_token \<Rightarrow> hb_checked" where
  "ValidateAccessToken token =
     (if \<not> validAccessCredential (tk_ClientID token) \<or> \<not> validAccessCredential (tk_ClientSecret token)
      then hb_invalid messageInvalidAccessToken else Inr ())"

definition ValidateProbeConfig :: "probe_lib \<Rightarrow> probe_config \<Rightarrow> hb_checked" where
  "ValidateProbeConfig lib config =
     (if \<not> validProbeURL lib (pc_URL config) then hb_invalid ''invalid probe.url''
      else if \<not> validExpectedStatuses (pc_ExpectedStatuses config) then hb_invalid ''invalid probe.expected_statuses''
      else if (case pc_BodyMatch config of None \<Rightarrow> False | Some b \<Rightarrow> \<not> validBodyMatch b)
      then hb_invalid ''invalid probe.body_match''
      else if pc_IntervalSeconds config < 60 \<or> pc_IntervalSeconds config > 86400
      then hb_invalid ''invalid probe.interval_seconds''
      else if pc_TimeoutSeconds config < 1 \<or> pc_TimeoutSeconds config > 8
              \<or> pc_TimeoutSeconds config \<ge> pc_IntervalSeconds config
      then hb_invalid ''invalid probe.timeout_seconds''
      else Inr ())"

definition ValidateNewCheck :: "probe_lib \<Rightarrow> new_check \<Rightarrow> hb_checked" where
  "ValidateNewCheck lib check =
     (case hb_ValidateAppID (nc_AppID check) of Inl e \<Rightarrow> Inl e | Inr _ \<Rightarrow>
      case ValidateName (nc_Name check) of Inl e \<Rightarrow> Inl e | Inr _ \<Rightarrow>
      if (nc_Probe check \<noteq> None \<or> nc_AccessToken check \<noteq> None)
         \<and> nc_OwnerKind check \<noteq> OtherOwner [] \<and> nc_OwnerKind check \<noteq> OwnerOperator
      then hb_invalid MessageProbeOnAppOwned
      else case nc_Probe check of
        None \<Rightarrow>
          if nc_AccessToken check \<noteq> None then hb_invalid messageInvalidAccessToken
          else ValidateSchedule (nc_PeriodSeconds check) (nc_GraceSeconds check) (nc_DestinationNames check)
      | Some probe \<Rightarrow>
          if nc_ScheduleSupplied check \<or> nc_PeriodSeconds check \<noteq> 0 \<or> nc_GraceSeconds check \<noteq> 0
          then hb_invalid messageDerivedSchedule
          else case ValidateProbeConfig lib probe of Inl e \<Rightarrow> Inl e | Inr _ \<Rightarrow>
            case (case nc_AccessToken check of None \<Rightarrow> Inr () | Some t \<Rightarrow> ValidateAccessToken t) of
              Inl e \<Rightarrow> Inl e
            | Inr _ \<Rightarrow>
                (let (period, grace) = DerivedSchedule (pc_IntervalSeconds probe)
                 in ValidateSchedule period grace (nc_DestinationNames check)))"

definition ValidateCheckUpdate :: "probe_lib \<Rightarrow> check_update \<Rightarrow> hb_checked" where
  "ValidateCheckUpdate lib update =
     (case (case cu_Probe update of None \<Rightarrow> Inr () | Some p \<Rightarrow> ValidateProbeConfig lib p) of
        Inl e \<Rightarrow> Inl e
      | Inr _ \<Rightarrow>
          (case (case cu_AccessToken update of
                   AccessTokenUnchanged \<Rightarrow> Inr ()
                 | AccessTokenClear \<Rightarrow> Inr ()
                 | AccessTokenReplace t \<Rightarrow> ValidateAccessToken t
                 | OtherTokenAction _ \<Rightarrow> hb_invalid messageInvalidAccessToken) of
             Inl e \<Rightarrow> Inl e
           | Inr _ \<Rightarrow> ValidateSchedule (cu_PeriodSeconds update) (cu_GraceSeconds update) (cu_DestinationNames update)))"

definition ValidateCheckPatchForKind :: "stored_check \<Rightarrow> check_patch \<Rightarrow> hb_checked" where
  "ValidateCheckPatchForKind current patch =
     (if Kind current = KindProbe then
        (if cp_PeriodSeconds patch \<noteq> None \<or> cp_GraceSeconds patch \<noteq> None
         then hb_invalid messageDerivedSchedule else Inr ())
      else if cp_Probe patch \<noteq> None \<or> cp_AccessToken patch \<noteq> AccessTokenUnchanged
      then hb_invalid messageProbeOnPush else Inr ())"

section \<open>Probe details\<close>

text \<open>
  The scheme part of \<^verbatim>\<open>(?i)https?://\<close> at the start of a text: the length of the match. Case folding
  in Go's regexp also lets the long s (bytes 0xC5 0xBF) stand for an s.
\<close>

definition fold_byte :: "char \<Rightarrow> nat" where
  "fold_byte c = (let b = byte c in if 65 \<le> b \<and> b \<le> 90 then b + 32 else b)"

definition scheme_end :: "string \<Rightarrow> bool" where
  "scheme_end s \<longleftrightarrow> take 3 s = ''://''"

definition url_scheme :: "string \<Rightarrow> nat option" where
  "url_scheme s =
     (if map fold_byte (take 4 s) \<noteq> map byte ''http'' then None
      else if scheme_end (drop 4 s) then Some 7
      else if map fold_byte (take 1 (drop 4 s)) = map byte ''s'' \<and> scheme_end (drop 5 s) then Some 8
      else if map byte (take 2 (drop 4 s)) = [197, 191] \<and> scheme_end (drop 6 s) then Some 9
      else None)"

definition url_byte :: "char \<Rightarrow> bool" where
  "url_byte c \<longleftrightarrow> byte c \<notin> {9, 10, 12, 13, 32, 34, 39, 60, 62}"

text \<open>\<open>redactURL\<close> on a matched URL whose scheme part has length \<open>n\<close>.\<close>

definition redactURL :: "nat \<Rightarrow> string \<Rightarrow> string" where
  "redactURL n raw =
     (let authority = takeWhile (\<lambda>c. c \<notin> set ''/?#'') (drop n raw)
      in take n raw @ rev (takeWhile (\<lambda>c. c \<noteq> CHR ''@'') (rev authority)))"

lemma url_scheme_range: "url_scheme s = Some n \<Longrightarrow> 0 < n \<and> n \<le> length s"
proof -
  assume a: "url_scheme s = Some n"
  have e: "m + 3 \<le> length s" if "scheme_end (drop m s)" for m
  proof -
    have "length (take 3 (drop m s)) = 3" using that by (simp add: scheme_end_def)
    then show ?thesis by simp
  qed
  show ?thesis using a e [of 4] e [of 5] e [of 6] by (auto simp: url_scheme_def split: if_splits)
qed

function redact_urls :: "string \<Rightarrow> string" where
  "redact_urls s =
     (case s of
        [] \<Rightarrow> []
      | c # cs \<Rightarrow>
          (case url_scheme s of
             None \<Rightarrow> c # redact_urls cs
           | Some n \<Rightarrow>
               redactURL n (take n s @ takeWhile url_byte (drop n s)) @ redact_urls (dropWhile url_byte (drop n s))))"
  by pat_completeness auto
termination
proof (relation "measure length")
  fix s c cs n
  assume s: "s = c # cs" "url_scheme s = Some n"
  have "length (dropWhile url_byte (drop n s)) \<le> length (drop n s)" by (rule length_dropWhile_le)
  with url_scheme_range [OF s(2)] have "length (dropWhile url_byte (drop n s)) < length s" unfolding length_drop by arith
  then show "(dropWhile url_byte (drop n s), s) \<in> measure length" by simp
qed simp_all

declare redact_urls.simps [simp del]

text \<open>\<^verbatim>\<open>strings.Map\<close> of control characters to a space, on valid UTF-8.\<close>

fun blank_controls :: "string \<Rightarrow> string" where
  "blank_controls [] = []"
| "blank_controls [a] = [if byte a < 32 \<or> byte a = 127 then CHR '' '' else a]"
| "blank_controls (a # b # cs) =
     (if byte a < 32 \<or> byte a = 127 then CHR '' '' # blank_controls (b # cs)
      else if byte a = 194 \<and> 128 \<le> byte b \<and> byte b \<le> 159 then CHR '' '' # blank_controls cs
      else a # blank_controls (b # cs))"

definition MaxProbeDetailBytes :: int where "MaxProbeDetailBytes = 256"

definition SanitizeProbeDetail :: "string \<Rightarrow> string" where
  "SanitizeProbeDetail detail =
     truncateBytes (TrimSpace (blank_controls (to_valid False (redact_urls detail)))) MaxProbeDetailBytes"

end
