(* ===== verification/Heartbeat_Machine.thy ===== *)
theory Heartbeat_Machine
  imports Heartbeat_Validate
begin

text \<open>
  \<^verbatim>\<open>internal/heartbeat/machine.go\<close>: the pure state machine over a stored check and an instant. A
  function of the source that reports whether it emitted an alert returns the flag with the check.
  Durations are computed in Go's \<open>int64\<close>.
\<close>

section \<open>Deadlines\<close>

definition seconds :: "int \<Rightarrow> duration" where
  "seconds n = wrap64 (n * Second)"

definition Deadline :: "stored_check \<Rightarrow> time" where
  "Deadline check = hc_AnchorAt check + seconds (wrap64 (hc_PeriodSeconds check + hc_GraceSeconds check))"

definition DerivedState :: "stored_check \<Rightarrow> time \<Rightarrow> check_state" where
  "DerivedState check now =
     (if hc_Probe check \<noteq> None then hc_State check
      else if hc_State check = StateUp \<and> now > hc_AnchorAt check + seconds (hc_PeriodSeconds check) then StateLate
      else hc_State check)"

definition ActiveDownSince :: "stored_check \<Rightarrow> time option" where
  "ActiveDownSince check = (if hc_State check \<noteq> StateDown then None else hc_DownSince check)"

section \<open>Transitions\<close>

definition emitAlert :: "stored_check \<Rightarrow> alert_kind \<Rightarrow> stored_check" where
  "emitAlert check kind = check\<lparr>hc_AlertSeq := hc_AlertSeq check + 1, hc_PendingAlert := Some kind\<rparr>"

text \<open>The state a ping leads to, or None where the machine knows no transition.\<close>

definition pinged :: "stored_check \<Rightarrow> ping_kind \<Rightarrow> time \<Rightarrow> stored_check option" where
  "pinged check kind now =
     (case kind of
        PingSuccess \<Rightarrow>
          (case hc_State check of
             StateNew \<Rightarrow> Some (check\<lparr>hc_State := StateUp\<rparr>)
           | StateUp \<Rightarrow> Some check
           | StateDown \<Rightarrow> Some (check\<lparr>hc_State := StateUp, hc_DownReason := None\<rparr>)
           | _ \<Rightarrow> None)
      | PingFail \<Rightarrow>
          (case hc_State check of
             StateNew \<Rightarrow> Some (check\<lparr>hc_State := StateDown, hc_DownSince := Some now, hc_DownReason := Some ReasonFail\<rparr>)
           | StateUp \<Rightarrow> Some (check\<lparr>hc_State := StateDown, hc_DownSince := Some now, hc_DownReason := Some ReasonFail\<rparr>)
           | StateDown \<Rightarrow> Some check
           | _ \<Rightarrow> None)
      | _ \<Rightarrow> None)"

definition ApplyPing :: "stored_check \<Rightarrow> ping_kind \<Rightarrow> time \<Rightarrow> stored_check \<times> bool" where
  "ApplyPing check kind now =
     (if hc_Probe check \<noteq> None then (check, False)
      else case pinged check kind now of
        None \<Rightarrow> (check, False)
      | Some moved \<Rightarrow>
          (let next = moved\<lparr>hc_LastPingAt := Some now, hc_LastPingKind := Some kind, hc_AnchorAt := now\<rparr>
           in if hc_State next = hc_State check then (next, False)
              else if hc_Paused check then (next\<lparr>hc_PendingAlert := None\<rparr>, False)
              else if hc_State next = StateDown then (emitAlert next AlertDown, True)
              else if hc_State check = StateDown then (emitAlert next AlertRecovered, True)
              else (next, False)))"

definition AdvanceTick :: "stored_check \<Rightarrow> time \<Rightarrow> stored_check \<times> bool" where
  "AdvanceTick check now =
     (if hc_Paused check \<or> hc_State check \<noteq> StateNew \<and> hc_State check \<noteq> StateUp then (check, False)
      else if \<not> now > Deadline check then (check, False)
      else
        (let next = check\<lparr>hc_State := StateDown, hc_DownSince := Some now, hc_DownReason := Some ReasonMissed,
                          hc_Probe := map_option (\<lambda>p. p\<lparr>ps_DownDetail := None\<rparr>) (hc_Probe check)\<rparr>
         in (emitAlert next AlertDown, True)))"

definition bump_version :: "probe_state \<Rightarrow> probe_state" where
  "bump_version p = p\<lparr>ps_ConfigVersion := wrap64 (ps_ConfigVersion p + 1)\<rparr>"

definition ApplyPause :: "stored_check \<Rightarrow> stored_check" where
  "ApplyPause check =
     check\<lparr>hc_Probe := (if hc_Paused check then hc_Probe check else map_option bump_version (hc_Probe check)),
           hc_Paused := True, hc_PendingAlert := None\<rparr>"

definition ApplyProbeReset :: "stored_check \<Rightarrow> time \<Rightarrow> stored_check" where
  "ApplyProbeReset check now =
     (case hc_Probe check of
        None \<Rightarrow> check
      | Some p \<Rightarrow>
          check\<lparr>hc_Probe := Some ((bump_version p)\<lparr>ps_ConsecutiveFailures := 0, ps_LastResult := None,
                  ps_NextProbeAt := now + seconds (pc_IntervalSeconds (ps_Config p))\<rparr>),
                hc_AnchorAt := now\<rparr>)"

definition ApplyResume :: "stored_check \<Rightarrow> time \<Rightarrow> stored_check" where
  "ApplyResume check now =
     (if \<not> hc_Paused check then check
      else (let next = check\<lparr>hc_Paused := False, hc_AnchorAt := now\<rparr>
            in if hc_Probe check \<noteq> None then ApplyProbeReset next now else next))"

definition storableProbeStatus :: "int option \<Rightarrow> int option" where
  "storableProbeStatus status =
     (case status of None \<Rightarrow> None | Some s \<Rightarrow> if s < 100 \<or> s > 599 then None else Some s)"

text \<open>The branch of a failing result, on the check that already carries the result and the raised counter.\<close>

definition probe_failed ::
    "stored_check \<Rightarrow> stored_check \<Rightarrow> probe_state \<Rightarrow> down_reason \<Rightarrow> string option \<Rightarrow> time \<Rightarrow> time
     \<Rightarrow> stored_check \<times> bool \<times> bool" where
  "probe_failed check next p reason detail now holdOffUntil =
     (if hc_State check = StateDown then
        (if hc_DownReason check = Some ReasonMissed
         then (next\<lparr>hc_DownReason := Some reason, hc_Probe := Some (p\<lparr>ps_DownDetail := detail\<rparr>)\<rparr>, True, False)
         else (next, True, False))
      else if ps_ConsecutiveFailures p < ProbeFailureThreshold \<or> now < holdOffUntil then (next, True, False)
      else (emitAlert (next\<lparr>hc_State := StateDown, hc_DownSince := Some now, hc_DownReason := Some reason,
                            hc_Probe := Some (p\<lparr>ps_DownDetail := detail\<rparr>)\<rparr>) AlertDown, True, True))"

definition ApplyProbeResult ::
    "stored_check \<Rightarrow> probe_result \<Rightarrow> time \<Rightarrow> time \<Rightarrow> stored_check \<times> bool \<times> bool" where
  "ApplyProbeResult check result now holdOffUntil =
     (case hc_Probe check of
        None \<Rightarrow> (check, False, False)
      | Some probe \<Rightarrow>
          if hc_Paused check then (check, False, False)
          else if hc_State check \<noteq> StateNew \<and> hc_State check \<noteq> StateUp \<and> hc_State check \<noteq> StateDown
          then (check, False, False)
          else if (case pr_Reason result of None \<Rightarrow> False | Some r \<Rightarrow> \<not> IsProbeResultReason r)
          then (check, False, False)
          else
            (let sanitised = SanitizeProbeDetail (pr_Detail result);
                 detail = (if sanitised = [] then None else Some sanitised);
                 recorded = probe\<lparr>ps_LastResult := Some \<lparr>rr_At = now, rr_Status = storableProbeStatus (pr_Status result),
                                    rr_Reason = pr_Reason result, rr_Detail = detail\<rparr>\<rparr>;
                 next = check\<lparr>hc_AnchorAt := now\<rparr>
             in case pr_Reason result of
                  None \<Rightarrow>
                    (let p = recorded\<lparr>ps_ConsecutiveFailures := 0\<rparr>;
                         up = next\<lparr>hc_LastPingAt := Some now, hc_LastPingKind := Some PingSuccess, hc_State := StateUp\<rparr>
                     in if hc_State check = StateDown
                        then (emitAlert (up\<lparr>hc_DownReason := None, hc_Probe := Some (p\<lparr>ps_DownDetail := None\<rparr>)\<rparr>)
                                AlertRecovered, True, True)
                        else (up\<lparr>hc_Probe := Some p\<rparr>, True, False))
                | Some reason \<Rightarrow>
                    (let p = recorded\<lparr>ps_ConsecutiveFailures := ps_ConsecutiveFailures probe + 1\<rparr>
                     in probe_failed check (next\<lparr>hc_Probe := Some p\<rparr>) p reason detail now holdOffUntil)))"

section \<open>Arithmetic\<close>

text \<open>Within the range of the schedule columns a duration is exact.\<close>

lemma seconds_exact: "\<bar>n\<bar> \<le> 4000000000 \<Longrightarrow> seconds n = n * Second"
  unfolding seconds_def by (rule wrap64_id) auto

definition schedule_ok :: "('a) check_row_scheme \<Rightarrow> bool" where
  "schedule_ok c \<longleftrightarrow> 60 \<le> hc_PeriodSeconds c \<and> hc_PeriodSeconds c \<le> 2678400
     \<and> 60 \<le> hc_GraceSeconds c \<and> hc_GraceSeconds c \<le> 604800"

lemma Deadline_exact:
  "schedule_ok check \<Longrightarrow> Deadline check = hc_AnchorAt check + (hc_PeriodSeconds check + hc_GraceSeconds check) * Second"
  by (simp add: Deadline_def schedule_ok_def seconds_exact wrap64_id)

end
