(* ===== verification/Database.thy ===== *)
theory Database
  imports Message_Types
begin

text \<open>
  The Postgres tables the delivery API keeps (\<^verbatim>\<open>delivery-api/migrations\<close>), as lists of rows, with
  the row-level CHECK constraints and the foreign-key actions its statements rely on. The rows of
  \<^verbatim>\<open>message_deliveries\<close> and \<^verbatim>\<open>delivery_attempts\<close> have exactly the fields of
  \<open>delivery\<close> and \<open>attempt\<close>, so those records are used as rows. A \<open>jsonb\<close> column
  holds the document as it was submitted; timestamps keep the resolution of the clock.
\<close>

record message_row =
  m_id :: string
  m_app_id :: string
  m_channel :: string
  m_idempotency_key :: string
  m_to_destination :: "string option"
  m_to_recipient :: "string option"
  m_deliver_at :: "time option"
  m_critical :: bool
  m_payload :: string
  m_display :: "display option"
  m_created_at :: time
  m_cancelled_at :: "time option"
  m_held_at :: "time option"
  m_held_cancelled_at :: "time option"
  m_released_at :: "time option"
  m_release_failed_at :: "time option"
  m_release_failed_reason :: "string option"

record route_row =
  r_id :: int
  r_app_pattern :: string
  r_channel_pattern :: string
  r_enabled :: bool
  r_owner_kind :: owner_kind
  r_owner_app_id :: "string option"
  r_created_at :: time
  r_updated_at :: time

record database =
  db_messages :: "message_row list"
  db_deliveries :: "delivery list"
  db_attempts :: "attempt list"
  db_destinations :: "stored_destination list"
  db_routes :: "route_row list"
  db_route_destinations :: "(int \<times> int) list"
  db_check_destinations :: "(int \<times> int) list"
  db_delivery_seq :: int
  db_attempt_seq :: int
  db_destination_seq :: int
  db_route_seq :: int

definition empty_db :: database where
  "empty_db = \<lparr>db_messages = [], db_deliveries = [], db_attempts = [], db_destinations = [],
     db_routes = [], db_route_destinations = [], db_check_destinations = [],
     db_delivery_seq = 1, db_attempt_seq = 1, db_destination_seq = 1, db_route_seq = 1\<rparr>"

section \<open>CHECK constraints\<close>

definition key_pattern :: "string \<Rightarrow> bool" where
  "key_pattern s \<longleftrightarrow> 1 \<le> length s \<and> length s \<le> 200
     \<and> list_all (\<lambda>c. CHR ''!'' \<le> c \<and> c \<le> CHR ''~'') s"

definition messages_check :: "message_row \<Rightarrow> bool" where
  "messages_check m \<longleftrightarrow>
     slug 62 (m_app_id m) \<and> slug 31 (m_channel m) \<and> key_pattern (m_idempotency_key m)
     \<and> (m_to_destination m = None \<or> m_to_recipient m = None)
     \<and> (m_cancelled_at m = None \<or> m_deliver_at m \<noteq> None \<or> m_held_cancelled_at m \<noteq> None)
     \<and> (m_held_cancelled_at m = None \<or> m_cancelled_at m \<noteq> None)
     \<and> ((m_release_failed_at m = None) = (m_release_failed_reason m = None))"

definition deliveries_check :: "delivery \<Rightarrow> bool" where
  "deliveries_check d \<longleftrightarrow>
     d_DestinationType d \<in> {TypeNtfy, TypeDiscord, TypeWebhook}
     \<and> d_State d \<in> {StatePending, StateDelivered, StateDead, StateScheduled, StateCancelled}
     \<and> (d_State d = StateDead) = (d_DeadReason d \<noteq> None)
     \<and> (case d_DeadReason d of Some (OtherReason _) \<Rightarrow> False | _ \<Rightarrow> True)
     \<and> 0 \<le> d_AttemptCount d \<and> 0 \<le> d_BudgetAttempts d"

section \<open>Foreign-key actions\<close>

text \<open>Deleting a message cascades to its deliveries, and a delivery to its attempts.\<close>

definition delete_messages :: "string set \<Rightarrow> database \<Rightarrow> database" where
  "delete_messages ids db =
     (let gone = d_ID ` set (filter (\<lambda>d. d_MessageID d \<in> ids) (db_deliveries db))
      in db\<lparr>db_messages := filter (\<lambda>m. m_id m \<notin> ids) (db_messages db),
            db_deliveries := filter (\<lambda>d. d_MessageID d \<notin> ids) (db_deliveries db),
            db_attempts := filter (\<lambda>a. ar_DeliveryID a \<notin> gone) (db_attempts db)\<rparr>)"

definition delete_deliveries_of :: "string \<Rightarrow> database \<Rightarrow> database" where
  "delete_deliveries_of mid db =
     (let gone = d_ID ` set (filter (\<lambda>d. d_MessageID d = mid) (db_deliveries db))
      in db\<lparr>db_deliveries := filter (\<lambda>d. d_MessageID d \<noteq> mid) (db_deliveries db),
            db_attempts := filter (\<lambda>a. ar_DeliveryID a \<notin> gone) (db_attempts db)\<rparr>)"

text \<open>The deliveries of a message and the attempts of a delivery, in table order.\<close>

definition deliveries_of :: "database \<Rightarrow> string \<Rightarrow> delivery list" where
  "deliveries_of db mid = filter (\<lambda>d. d_MessageID d = mid) (db_deliveries db)"

definition attempts_of :: "database \<Rightarrow> int \<Rightarrow> attempt list" where
  "attempts_of db did = filter (\<lambda>a. ar_DeliveryID a = did) (db_attempts db)"

lemma in_deliveries_of: "d \<in> set (deliveries_of db mid) \<longleftrightarrow> d \<in> set (db_deliveries db) \<and> d_MessageID d = mid"
  by (auto simp: deliveries_of_def)

end
