(* ===== verification/Registry_Store.thy ===== *)
theory Registry_Store
  imports Database
begin

text \<open>
  The registry's Postgres store (\<^verbatim>\<open>delivery-api/internal/registry/pgstore.go\<close>): destinations,
  routes and the links between them, with the constraints of the schema (unique names and patterns,
  the ownership CHECKs, the RESTRICT references of routes and heartbeat checks, and the SET NULL
  reference of deliveries). A write is one transaction; \<open>now\<close> is Postgres's \<^verbatim>\<open>now()\<close>.
\<close>

type_synonym 'a reg_tx = "(registry_error + 'a) \<times> database"

section \<open>Constraints\<close>

definition owner_check :: "owner_kind \<Rightarrow> string option \<Rightarrow> bool" where
  "owner_check kind app \<longleftrightarrow>
     kind \<in> {OwnerOperator, OwnerApp}
     \<and> (case app of None \<Rightarrow> True | Some a \<Rightarrow> slug 62 a)
     \<and> (kind = OwnerApp) = (app \<noteq> None)"

definition destinations_check :: "stored_destination \<Rightarrow> bool" where
  "destinations_check d \<longleftrightarrow>
     slug 62 (sd_Name d) \<and> sd_Type d \<in> {TypeNtfy, TypeDiscord, TypeWebhook}
     \<and> owner_check (sd_OwnerKind d) (sd_OwnerAppID d)
     \<and> (case sd_OwnerAppID d of None \<Rightarrow> True
        | Some a \<Rightarrow> take (length a + 1) (sd_Name d) = a @ ''_'')"

definition routes_check :: "route_row \<Rightarrow> bool" where
  "routes_check r \<longleftrightarrow>
     (r_app_pattern r = ''*'' \<or> slug 62 (r_app_pattern r))
     \<and> (r_channel_pattern r = ''*'' \<or> slug 31 (r_channel_pattern r)
        \<or> channel_prefix_pattern (r_channel_pattern r))
     \<and> owner_check (r_owner_kind r) (r_owner_app_id r)
     \<and> (case r_owner_app_id r of None \<Rightarrow> True | Some a \<Rightarrow> r_app_pattern r = a)"

definition ownerKindOrOperator :: "owner_kind \<Rightarrow> owner_kind" where
  "ownerKindOrOperator kind = (if kind = OtherOwner [] then OwnerOperator else kind)"

section \<open>Destinations\<close>

definition InsertDestination :: "time \<Rightarrow> stored_destination \<Rightarrow> database \<Rightarrow> stored_destination reg_tx" where
  "InsertDestination now destination db =
     (let row = destination\<lparr>sd_ID := db_destination_seq db,
                            sd_OwnerKind := ownerKindOrOperator (sd_OwnerKind destination),
                            sd_CreatedAt := now, sd_UpdatedAt := now\<rparr>
      in if \<not> destinations_check row then (Inl ErrCheckViolation, db)
         else if sd_Name row \<in> sd_Name ` set (db_destinations db) then (Inl ErrDestinationExists, db)
         else (Inr row, db\<lparr>db_destinations := db_destinations db @ [row],
                           db_destination_seq := db_destination_seq db + 1\<rparr>))"

definition ListDestinations :: "database \<Rightarrow> stored_destination list" where
  "ListDestinations db = sort_key sd_Name (db_destinations db)"

definition GetDestination :: "database \<Rightarrow> string \<Rightarrow> registry_error + stored_destination" where
  "GetDestination db name =
     (case find (\<lambda>d. sd_Name d = name) (db_destinations db) of
        None \<Rightarrow> Inl ErrDestinationNotFound
      | Some d \<Rightarrow> Inr d)"

definition GetDestinationsByID :: "database \<Rightarrow> int list \<Rightarrow> stored_destination list" where
  "GetDestinationsByID db ids = sort_key sd_Name (filter (\<lambda>d. sd_ID d \<in> set ids) (db_destinations db))"

definition ListDestinationsByOwner :: "database \<Rightarrow> string \<Rightarrow> stored_destination list" where
  "ListDestinationsByOwner db appID =
     sort_key sd_Name (filter (\<lambda>d. sd_OwnerKind d = OwnerApp \<and> sd_OwnerAppID d = Some appID) (db_destinations db))"

text \<open>
  \<open>UpdateDestination\<close> writes back only the mutable columns of what \<open>mutate\<close> returned.
\<close>

definition UpdateDestination ::
    "time \<Rightarrow> string \<Rightarrow> (stored_destination \<Rightarrow> registry_error + stored_destination) \<Rightarrow> database
     \<Rightarrow> stored_destination reg_tx" where
  "UpdateDestination now name mutate db =
     (case find (\<lambda>d. sd_Name d = name) (db_destinations db) of
        None \<Rightarrow> (Inl ErrDestinationNotFound, db)
      | Some current \<Rightarrow>
          (case mutate current of
             Inl e \<Rightarrow> (Inl e, db)
           | Inr mutated \<Rightarrow>
               (let row = current\<lparr>sd_Config := sd_Config mutated, sd_SealedSecrets := sd_SealedSecrets mutated,
                                  sd_Enabled := sd_Enabled mutated, sd_DisabledReason := sd_DisabledReason mutated,
                                  sd_UpdatedAt := now\<rparr>
                in (Inr row, db\<lparr>db_destinations :=
                      update_where (\<lambda>d. sd_ID d = sd_ID current) (\<lambda>_. row) (db_destinations db)\<rparr>))))"

definition referenced :: "database \<Rightarrow> int \<Rightarrow> bool" where
  "referenced db i \<longleftrightarrow> i \<in> snd ` set (db_route_destinations db) \<or> i \<in> snd ` set (db_check_destinations db)"

text \<open>
  The two DELETE statements: refused while a route or a check references a row; a delivery that
  references the deleted row keeps its name and loses the reference (ON DELETE SET NULL).
\<close>

definition delete_destinations :: "(stored_destination \<Rightarrow> bool) \<Rightarrow> database \<Rightarrow> bool reg_tx" where
  "delete_destinations where db =
     (let gone = map sd_ID (filter where (db_destinations db))
      in if list_ex (referenced db) gone then (Inl ErrDestinationInUse, db)
         else (Inr (gone \<noteq> []),
               db\<lparr>db_destinations := filter (\<lambda>d. \<not> where d) (db_destinations db),
                  db_deliveries := update_where (\<lambda>x. case d_DestinationID x of None \<Rightarrow> False | Some i \<Rightarrow> i \<in> set gone)
                                     (\<lambda>x. x\<lparr>d_DestinationID := None\<rparr>) (db_deliveries db)\<rparr>))"

definition DeleteDestination :: "string \<Rightarrow> database \<Rightarrow> bool reg_tx" where
  "DeleteDestination name db = delete_destinations (\<lambda>d. sd_Name d = name) db"

definition DeleteDestinationOwnedBy :: "string \<Rightarrow> string \<Rightarrow> database \<Rightarrow> bool reg_tx" where
  "DeleteDestinationOwnedBy name appID db =
     delete_destinations (\<lambda>d. sd_Name d = name \<and> sd_OwnerKind d = OwnerApp \<and> sd_OwnerAppID d = Some appID) db"

section \<open>Routes\<close>

definition linked :: "database \<Rightarrow> int \<Rightarrow> stored_destination list" where
  "linked db routeID =
     sort_key sd_Name (filter (\<lambda>d. (routeID, sd_ID d) \<in> set (db_route_destinations db)) (db_destinations db))"

definition scanRoute :: "database \<Rightarrow> route_row \<Rightarrow> stored_route" where
  "scanRoute db r =
     \<lparr>sr_ID = r_id r, sr_AppPattern = r_app_pattern r, sr_ChannelPattern = r_channel_pattern r,
      sr_DestinationIDs = map sd_ID (linked db (r_id r)), sr_DestinationNames = map sd_Name (linked db (r_id r)),
      sr_Enabled = r_enabled r, sr_OwnerKind = r_owner_kind r, sr_OwnerAppID = r_owner_app_id r,
      sr_CreatedAt = r_created_at r, sr_UpdatedAt = r_updated_at r\<rparr>"

definition queryRoutes :: "database \<Rightarrow> (route_row \<Rightarrow> bool) \<Rightarrow> stored_route list" where
  "queryRoutes db where = map (scanRoute db) (sort_key r_id (filter where (db_routes db)))"

definition queryRoute :: "database \<Rightarrow> int \<Rightarrow> registry_error + stored_route" where
  "queryRoute db id' =
     (case find (\<lambda>r. r_id r = id') (db_routes db) of
        None \<Rightarrow> Inl ErrRouteNotFound
      | Some r \<Rightarrow> Inr (scanRoute db r))"

definition ListRoutes :: "database \<Rightarrow> stored_route list" where
  "ListRoutes db = queryRoutes db (\<lambda>_. True)"

definition ListEnabledRoutes :: "database \<Rightarrow> stored_route list" where
  "ListEnabledRoutes db = queryRoutes db r_enabled"

definition ListRoutesByOwner :: "database \<Rightarrow> string \<Rightarrow> stored_route list" where
  "ListRoutesByOwner db appID = queryRoutes db (\<lambda>r. r_owner_kind r = OwnerApp \<and> r_owner_app_id r = Some appID)"

definition resolveDestinationIDs :: "database \<Rightarrow> string list \<Rightarrow> string \<Rightarrow> registry_error + int list" where
  "resolveDestinationIDs db names appPattern =
     (let rows = filter (\<lambda>d. sd_Name d \<in> set (remdups names)
                   \<and> (sd_OwnerKind d = OwnerOperator \<or> sd_OwnerAppID d = Some appPattern)) (db_destinations db);
          unusable = list_ex (\<lambda>d. \<not> DestinationUsableBy (sd_OwnerKind d) (sd_OwnerAppID d) appPattern) rows
      in if unusable \<or> length rows \<noteq> length (remdups names) then Inl ErrUnknownDestination
         else Inr (map sd_ID rows))"

definition linkDestinations :: "int \<Rightarrow> int list \<Rightarrow> database \<Rightarrow> database" where
  "linkDestinations routeID ids db =
     db\<lparr>db_route_destinations := db_route_destinations db @ map (\<lambda>i. (routeID, i)) ids\<rparr>"

text \<open>The unique index on the two patterns, ignoring the row with id \<open>self\<close>.\<close>

definition pattern_taken :: "database \<Rightarrow> int \<Rightarrow> string \<Rightarrow> string \<Rightarrow> bool" where
  "pattern_taken db self app channel \<longleftrightarrow>
     list_ex (\<lambda>r. r_id r \<noteq> self \<and> r_app_pattern r = app \<and> r_channel_pattern r = channel) (db_routes db)"

definition InsertRoute :: "time \<Rightarrow> stored_route \<Rightarrow> database \<Rightarrow> stored_route reg_tx" where
  "InsertRoute now route db =
     (case resolveDestinationIDs db (sr_DestinationNames route) (sr_AppPattern route) of
        Inl e \<Rightarrow> (Inl e, db)
      | Inr ids \<Rightarrow>
          (let routeID = db_route_seq db;
               row = \<lparr>r_id = routeID, r_app_pattern = sr_AppPattern route, r_channel_pattern = sr_ChannelPattern route,
                      r_enabled = sr_Enabled route, r_owner_kind = ownerKindOrOperator (sr_OwnerKind route),
                      r_owner_app_id = sr_OwnerAppID route, r_created_at = now, r_updated_at = now\<rparr>
           in if \<not> routes_check row then (Inl ErrCheckViolation, db)
              else if pattern_taken db routeID (sr_AppPattern route) (sr_ChannelPattern route)
              then (Inl ErrRouteExists, db)
              else
                (let db' = linkDestinations routeID ids
                       (db\<lparr>db_routes := db_routes db @ [row], db_route_seq := db_route_seq db + 1\<rparr>)
                 in case queryRoute db' routeID of
                      Inl e \<Rightarrow> (Inl e, db)
                    | Inr loaded \<Rightarrow> (Inr loaded, db'))))"

definition UpdateRoute ::
    "time \<Rightarrow> int \<Rightarrow> (stored_route \<Rightarrow> registry_error + stored_route) \<Rightarrow> database \<Rightarrow> stored_route reg_tx" where
  "UpdateRoute now id' mutate db =
     (case find (\<lambda>r. r_id r = id') (db_routes db) of
        None \<Rightarrow> (Inl ErrRouteNotFound, db)
      | Some row \<Rightarrow>
          (case mutate (scanRoute db row) of
             Inl e \<Rightarrow> (Inl e, db)
           | Inr mutated \<Rightarrow>
               (case resolveDestinationIDs db (sr_DestinationNames mutated) (sr_AppPattern mutated) of
                  Inl e \<Rightarrow> (Inl e, db)
                | Inr ids \<Rightarrow>
                    (let row' = row\<lparr>r_app_pattern := sr_AppPattern mutated,
                                    r_channel_pattern := sr_ChannelPattern mutated,
                                    r_enabled := sr_Enabled mutated, r_updated_at := now\<rparr>
                     in if \<not> routes_check row' then (Inl ErrCheckViolation, db)
                        else if pattern_taken db id' (sr_AppPattern mutated) (sr_ChannelPattern mutated)
                        then (Inl ErrRouteExists, db)
                        else
                          (let db' = linkDestinations id' ids
                                 (db\<lparr>db_routes := update_where (\<lambda>r. r_id r = id') (\<lambda>_. row') (db_routes db),
                                     db_route_destinations :=
                                       filter (\<lambda>(r, _). r \<noteq> id') (db_route_destinations db)\<rparr>)
                           in case queryRoute db' id' of
                                Inl e \<Rightarrow> (Inl e, db)
                              | Inr reloaded \<Rightarrow> (Inr reloaded, db'))))))"

definition delete_routes :: "(route_row \<Rightarrow> bool) \<Rightarrow> database \<Rightarrow> bool \<times> database" where
  "delete_routes where db =
     (let gone = map r_id (filter where (db_routes db))
      in (gone \<noteq> [], db\<lparr>db_routes := filter (\<lambda>r. \<not> where r) (db_routes db),
                        db_route_destinations :=
                          filter (\<lambda>(r, _). r \<notin> set gone) (db_route_destinations db)\<rparr>))"

definition DeleteRoute :: "int \<Rightarrow> database \<Rightarrow> bool \<times> database" where
  "DeleteRoute id' db = delete_routes (\<lambda>r. r_id r = id') db"

definition DeleteRouteOwnedBy :: "int \<Rightarrow> string \<Rightarrow> database \<Rightarrow> bool \<times> database" where
  "DeleteRouteOwnedBy id' appID db =
     delete_routes (\<lambda>r. r_id r = id' \<and> r_owner_kind r = OwnerApp \<and> r_owner_app_id r = Some appID) db"

end
