(* ===== verification/Heartbeat_Store.thy ===== *)
theory Heartbeat_Store
  imports Heartbeat_Machine Registry_Store
begin

text \<open>
  \<^verbatim>\<open>internal/heartbeat/pgstore.go\<close>, \<^verbatim>\<open>probe_store.go\<close> and \<^verbatim>\<open>probe_seal.go\<close>: the tables of heartbeat
  checks beside the tables of the delivery core, and one definition per store operation. As for the
  other stores a transaction returns its result with the tables it leaves, and an error leaves them as
  they were; \<open>locked\<close> are the probe rows another transaction holds (\<^verbatim>\<open>SKIP LOCKED\<close>).
\<close>

section \<open>Tables\<close>

record probe_row =
  pw_check_id :: int
  pw_config :: probe_config
  pw_consecutive_failures :: int
  pw_next_probe_at :: time
  pw_config_version :: int
  pw_last_result :: "probe_result_record option"
  pw_down_detail :: "string option"
  pw_sealed :: "string option"

record heartbeat_db =
  hb_main :: database
  hb_checks :: "check_row list"
  hb_probes :: "probe_row list"
  hb_check_seq :: int

type_synonym 'a hb_tx = "(heartbeat_error + 'a) \<times> heartbeat_db"

definition empty_heartbeats :: "database \<Rightarrow> heartbeat_db" where
  "empty_heartbeats db = \<lparr>hb_main = db, hb_checks = [], hb_probes = [], hb_check_seq = 1\<rparr>"

text \<open>The CHECK constraints, with the range of the \<open>integer\<close> and \<open>bigint\<close> columns that grow.\<close>

definition checks_check :: "check_row \<Rightarrow> bool" where
  "checks_check c \<longleftrightarrow>
     slug 62 (hc_AppID c) \<and> slug 62 (hc_Name c) \<and> schedule_ok c
     \<and> hc_State c \<in> {StateNew, StateUp, StateDown}
     \<and> hc_LastPingKind c \<in> {None, Some PingSuccess, Some PingFail}
     \<and> (case hc_DownReason c of None \<Rightarrow> True | Some r \<Rightarrow> IsKnownDownReason r)
     \<and> hc_PendingAlert c \<in> {None, Some AlertDown, Some AlertRecovered}
     \<and> (hc_LastPingAt c = None) = (hc_LastPingKind c = None)
     \<and> (hc_State c = StateDown \<longrightarrow> hc_DownSince c \<noteq> None \<and> hc_DownReason c \<noteq> None)
     \<and> - (2 ^ 31) \<le> hc_AlertSeq c \<and> hc_AlertSeq c < 2 ^ 31
     \<and> owner_check (hc_OwnerKind c) (hc_OwnerAppID c)
     \<and> (case hc_OwnerAppID c of None \<Rightarrow> True | Some a \<Rightarrow> hc_AppID c = a)"

definition result_check :: "probe_result_record \<Rightarrow> bool" where
  "result_check r \<longleftrightarrow>
     (case rr_Status r of None \<Rightarrow> True | Some s \<Rightarrow> 100 \<le> s \<and> s \<le> 599)
     \<and> (case rr_Reason r of None \<Rightarrow> True | Some x \<Rightarrow> IsProbeResultReason x)
     \<and> (case rr_Detail r of None \<Rightarrow> True | Some t \<Rightarrow> length t \<le> 256)"

definition config_check :: "probe_config \<Rightarrow> bool" where
  "config_check p \<longleftrightarrow>
     take 8 (pc_URL p) = ''https://'' \<and> length (pc_URL p) \<le> 2048
     \<and> 1 \<le> length (pc_ExpectedStatuses p) \<and> length (pc_ExpectedStatuses p) \<le> 10
     \<and> list_all (\<lambda>s. 100 \<le> s \<and> s \<le> 599) (pc_ExpectedStatuses p)
     \<and> (case pc_BodyMatch p of None \<Rightarrow> True | Some b \<Rightarrow> 1 \<le> length b \<and> length b \<le> 256)
     \<and> 1 \<le> pc_TimeoutSeconds p \<and> pc_TimeoutSeconds p \<le> 8
     \<and> 60 \<le> pc_IntervalSeconds p \<and> pc_IntervalSeconds p \<le> 86400
     \<and> pc_TimeoutSeconds p < pc_IntervalSeconds p"

definition probes_check :: "probe_row \<Rightarrow> bool" where
  "probes_check p \<longleftrightarrow>
     config_check (pw_config p)
     \<and> 0 \<le> pw_consecutive_failures p \<and> pw_consecutive_failures p < 2 ^ 31
     \<and> 1 \<le> pw_config_version p \<and> pw_config_version p < 2 ^ 63
     \<and> (case pw_last_result p of None \<Rightarrow> True | Some r \<Rightarrow> result_check r)
     \<and> (case pw_down_detail p of None \<Rightarrow> True | Some t \<Rightarrow> length t \<le> 256)"

section \<open>Reads\<close>

definition storeTime :: "time \<Rightarrow> time" where
  "storeTime now = time_truncate now Microsecond"

definition probe_state_of :: "probe_row \<Rightarrow> probe_state" where
  "probe_state_of row =
     \<lparr>ps_Config = pw_config row, ps_HasAccessToken = (pw_sealed row \<noteq> None),
      ps_ConsecutiveFailures = pw_consecutive_failures row, ps_NextProbeAt = pw_next_probe_at row,
      ps_ConfigVersion = pw_config_version row, ps_LastResult = pw_last_result row,
      ps_DownDetail = pw_down_detail row\<rparr>"

definition lockProbeRows :: "heartbeat_db \<Rightarrow> int \<Rightarrow> probe_state option" where
  "lockProbeRows db i = map_option probe_state_of (find (\<lambda>p. pw_check_id p = i) (hb_probes db))"

definition check_destinations :: "heartbeat_db \<Rightarrow> int \<Rightarrow> destination_ref list" where
  "check_destinations db i =
     map (\<lambda>d. \<lparr>dr_Name = sd_Name d, dr_Type = sd_Type d, dr_Enabled = sd_Enabled d\<rparr>)
       (sort_key sd_Name (filter (\<lambda>d. (i, sd_ID d) \<in> set (db_check_destinations (hb_main db)))
          (db_destinations (hb_main db))))"

definition scanCheck :: "heartbeat_db \<Rightarrow> check_row \<Rightarrow> stored_check" where
  "scanCheck db row =
     check_row.extend row (stored_check.fields (check_destinations db (hc_ID row)) (lockProbeRows db (hc_ID row)))"

text \<open>A locked row carries its probe state and no destinations.\<close>

definition locked_check :: "heartbeat_db \<Rightarrow> check_row \<Rightarrow> stored_check" where
  "locked_check db row = check_row.extend row (stored_check.fields [] (lockProbeRows db (hc_ID row)))"

definition lockCheck :: "heartbeat_db \<Rightarrow> (check_row \<Rightarrow> bool) \<Rightarrow> heartbeat_error + stored_check" where
  "lockCheck db where =
     (case find where (hb_checks db) of None \<Rightarrow> Inl ErrCheckNotFound | Some row \<Rightarrow> Inr (locked_check db row))"

definition owned_by :: "string \<Rightarrow> ('a) check_row_scheme \<Rightarrow> bool" where
  "owned_by appID c \<longleftrightarrow> hc_OwnerKind c = OwnerApp \<and> hc_OwnerAppID c = Some appID"

definition lockCheckByID :: "int \<Rightarrow> heartbeat_db \<Rightarrow> heartbeat_error + stored_check" where
  "lockCheckByID i db = lockCheck db (\<lambda>c. hc_ID c = i)"

definition lockOwnedCheckByID :: "int \<Rightarrow> string \<Rightarrow> heartbeat_db \<Rightarrow> heartbeat_error + stored_check" where
  "lockOwnedCheckByID i appID db = lockCheck db (\<lambda>c. hc_ID c = i \<and> owned_by appID c)"

definition lockChecks :: "heartbeat_db \<Rightarrow> (check_row \<Rightarrow> bool) \<Rightarrow> stored_check list" where
  "lockChecks db where = map (locked_check db) (sort_key hc_ID (filter where (hb_checks db)))"

definition queryCheckByID :: "heartbeat_db \<Rightarrow> int \<Rightarrow> heartbeat_error + stored_check" where
  "queryCheckByID db i =
     (case find (\<lambda>c. hc_ID c = i) (hb_checks db) of None \<Rightarrow> Inl ErrCheckNotFound | Some row \<Rightarrow> Inr (scanCheck db row))"

definition queryChecks :: "heartbeat_db \<Rightarrow> (check_row \<Rightarrow> bool) \<Rightarrow> stored_check list" where
  "queryChecks db where = map (scanCheck db) (sort_key hc_ID (filter where (hb_checks db)))"

definition queryChecksByName :: "heartbeat_db \<Rightarrow> (check_row \<Rightarrow> bool) \<Rightarrow> stored_check list" where
  "queryChecksByName db where =
     map (scanCheck db) (sort_key (\<lambda>c. (hc_AppID c, hc_Name c)) (filter where (hb_checks db)))"

definition hb_Get :: "int \<Rightarrow> heartbeat_db \<Rightarrow> heartbeat_error + stored_check" where
  "hb_Get i db = queryCheckByID db i"

definition hb_List :: "heartbeat_db \<Rightarrow> stored_check list" where
  "hb_List db = queryChecksByName db (\<lambda>_. True)"

definition ListByOwner :: "string \<Rightarrow> heartbeat_db \<Rightarrow> stored_check list" where
  "ListByOwner appID db = queryChecksByName db (owned_by appID)"

definition ListPendingAlerts :: "heartbeat_db \<Rightarrow> stored_check list" where
  "ListPendingAlerts db = queryChecks db (\<lambda>c. hc_PendingAlert c \<noteq> None)"

section \<open>Sealed access tokens\<close>

record probe_sealer =
  sl_seal :: "string \<Rightarrow> string \<Rightarrow> string option"
  sl_open :: "string \<Rightarrow> string \<Rightarrow> string option"
  sl_marshal :: "access_token \<Rightarrow> string"
  sl_unmarshal :: "string \<Rightarrow> access_token option"

definition ProbeAccessAAD :: "int \<Rightarrow> string" where
  "ProbeAccessAAD checkID = ''delivery-api/heartbeat-probe/v1:'' @ dec_int checkID"

definition sealProbeAccessToken :: "probe_sealer option \<Rightarrow> int \<Rightarrow> access_token \<Rightarrow> heartbeat_error + string" where
  "sealProbeAccessToken sealer checkID token =
     (case sealer of
        None \<Rightarrow> Inl (HeartbeatFailure ''seal heartbeat probe access token'')
      | Some s \<Rightarrow>
          (case sl_seal s (sl_marshal s token) (ProbeAccessAAD checkID) of
             None \<Rightarrow> Inl (HeartbeatFailure ''seal heartbeat probe access token'')
           | Some sealed \<Rightarrow> Inr sealed))"

definition OpenProbeAccessToken :: "probe_sealer option \<Rightarrow> int \<Rightarrow> string \<Rightarrow> access_token option" where
  "OpenProbeAccessToken sealer checkID sealed =
     (case sealer of
        None \<Rightarrow> None
      | Some s \<Rightarrow>
          (case sl_open s sealed (ProbeAccessAAD checkID) of
             None \<Rightarrow> None
           | Some plaintext \<Rightarrow>
               (case sl_unmarshal s plaintext of
                  None \<Rightarrow> None
                | Some token \<Rightarrow> if tk_ClientID token = [] \<or> tk_ClientSecret token = [] then None else Some token)))"

section \<open>Probe rows\<close>

text \<open>\<open>sealedAccessChange\<close>: None leaves the column alone, \<open>Some None\<close> clears it.\<close>

type_synonym sealed_access_change = "string option option"

definition written_probe :: "probe_state \<Rightarrow> time option \<Rightarrow> sealed_access_change \<Rightarrow> probe_row \<Rightarrow> probe_row" where
  "written_probe probe baseline access row =
     row\<lparr>pw_config := (ps_Config probe)\<lparr>pc_ExpectedStatuses := NormalizeStatuses (pc_ExpectedStatuses (ps_Config probe))\<rparr>,
         pw_consecutive_failures := ps_ConsecutiveFailures probe, pw_config_version := ps_ConfigVersion probe,
         pw_last_result := ps_LastResult probe, pw_down_detail := ps_DownDetail probe,
         pw_next_probe_at := (if baseline = Some (ps_NextProbeAt probe) then pw_next_probe_at row
                              else storeTime (ps_NextProbeAt probe)),
         pw_sealed := (case access of None \<Rightarrow> pw_sealed row | Some sealed \<Rightarrow> sealed)\<rparr>"

definition writeProbeRow ::
    "int \<Rightarrow> probe_state \<Rightarrow> time option \<Rightarrow> sealed_access_change \<Rightarrow> heartbeat_db \<Rightarrow> heartbeat_error + heartbeat_db" where
  "writeProbeRow i probe baseline access db =
     (let hit = (\<lambda>p. pw_check_id p = i); f = written_probe probe baseline access
      in if list_ex (\<lambda>p. hit p \<and> \<not> probes_check (f p)) (hb_probes db) then Inl (HeartbeatRegistry ErrCheckViolation)
         else Inr (db\<lparr>hb_probes := update_where hit f (hb_probes db)\<rparr>))"

definition insertProbeRow ::
    "probe_sealer option \<Rightarrow> int \<Rightarrow> probe_config \<Rightarrow> access_token option \<Rightarrow> time \<Rightarrow> heartbeat_db \<Rightarrow> heartbeat_error + heartbeat_db" where
  "insertProbeRow sealer checkID probe token now db =
     (case (case token of None \<Rightarrow> Inr None
            | Some t \<Rightarrow> (case sealProbeAccessToken sealer checkID t of Inl e \<Rightarrow> Inl e | Inr b \<Rightarrow> Inr (Some b))) of
        Inl e \<Rightarrow> Inl e
      | Inr sealed \<Rightarrow>
          (let row = \<lparr>pw_check_id = checkID,
                      pw_config = probe\<lparr>pc_ExpectedStatuses := NormalizeStatuses (pc_ExpectedStatuses probe)\<rparr>,
                      pw_consecutive_failures = 0, pw_next_probe_at = now + seconds (pc_IntervalSeconds probe),
                      pw_config_version = 1, pw_last_result = None, pw_down_detail = None, pw_sealed = sealed\<rparr>
           in if \<not> probes_check row then Inl (HeartbeatRegistry ErrCheckViolation)
              else Inr (db\<lparr>hb_probes := hb_probes db @ [row]\<rparr>)))"

definition lockedNextProbeAt :: "stored_check \<Rightarrow> time option" where
  "lockedNextProbeAt locked = map_option ps_NextProbeAt (hc_Probe locked)"

section \<open>Saving a state\<close>

definition saved_row :: "stored_check \<Rightarrow> time \<Rightarrow> check_row \<Rightarrow> check_row" where
  "saved_row check now row =
     row\<lparr>hc_State := hc_State check, hc_Paused := hc_Paused check, hc_AnchorAt := hc_AnchorAt check,
         hc_LastPingAt := hc_LastPingAt check, hc_LastPingKind := hc_LastPingKind check,
         hc_DownSince := hc_DownSince check, hc_DownReason := hc_DownReason check,
         hc_AlertSeq := hc_AlertSeq check, hc_PendingAlert := hc_PendingAlert check, hc_UpdatedAt := now\<rparr>"

definition saveCheck :: "stored_check \<Rightarrow> stored_check \<Rightarrow> time \<Rightarrow> heartbeat_db \<Rightarrow> stored_check hb_tx" where
  "saveCheck check locked now db =
     (let hit = (\<lambda>c. hc_ID c = hc_ID check); f = saved_row check now;
          db1 = db\<lparr>hb_checks := update_where hit f (hb_checks db)\<rparr>
      in if list_ex (\<lambda>c. hit c \<and> \<not> checks_check (f c)) (hb_checks db)
         then (Inl (HeartbeatFailure ''save heartbeat check''), db)
         else case (case hc_Probe check of None \<Rightarrow> Inr db1
                    | Some p \<Rightarrow> writeProbeRow (hc_ID check) p (lockedNextProbeAt locked) None db1) of
           Inl e \<Rightarrow> (Inl e, db)
         | Inr db2 \<Rightarrow>
             (case queryCheckByID db2 (hc_ID check) of Inl e \<Rightarrow> (Inl e, db) | Inr reloaded \<Rightarrow> (Inr reloaded, db2)))"

definition mutate ::
    "time \<Rightarrow> (heartbeat_db \<Rightarrow> heartbeat_error + stored_check) \<Rightarrow> (stored_check \<Rightarrow> stored_check) \<Rightarrow> heartbeat_db
     \<Rightarrow> stored_check hb_tx" where
  "mutate now lock f db =
     (case lock db of Inl e \<Rightarrow> (Inl e, db) | Inr current \<Rightarrow> saveCheck (f current) current now db)"

section \<open>Pings, pause and resume\<close>

definition hb_Pause :: "int \<Rightarrow> time \<Rightarrow> heartbeat_db \<Rightarrow> stored_check hb_tx" where
  "hb_Pause i now db = mutate (storeTime now) (lockCheckByID i) ApplyPause db"

definition PauseOwnedBy :: "int \<Rightarrow> string \<Rightarrow> time \<Rightarrow> heartbeat_db \<Rightarrow> stored_check hb_tx" where
  "PauseOwnedBy i appID now db = mutate (storeTime now) (lockOwnedCheckByID i appID) ApplyPause db"

definition hb_Resume :: "int \<Rightarrow> time \<Rightarrow> heartbeat_db \<Rightarrow> stored_check hb_tx" where
  "hb_Resume i now db = mutate (storeTime now) (lockCheckByID i) (\<lambda>c. ApplyResume c (storeTime now)) db"

definition ResumeOwnedBy :: "int \<Rightarrow> string \<Rightarrow> time \<Rightarrow> heartbeat_db \<Rightarrow> stored_check hb_tx" where
  "ResumeOwnedBy i appID now db = mutate (storeTime now) (lockOwnedCheckByID i appID) (\<lambda>c. ApplyResume c (storeTime now)) db"

definition RecordPing :: "string \<Rightarrow> string \<Rightarrow> ping_kind \<Rightarrow> time \<Rightarrow> heartbeat_db \<Rightarrow> stored_check hb_tx" where
  "RecordPing appID name kind now db =
     (case ValidatePingKind kind of
        Inl e \<Rightarrow> (Inl e, db)
      | Inr _ \<Rightarrow>
          (case lockCheck db (\<lambda>c. hc_AppID c = appID \<and> hc_Name c = name) of
             Inl e \<Rightarrow> (Inl e, db)
           | Inr current \<Rightarrow>
               if hc_Probe current \<noteq> None then (Inl ErrProbeCheckPing, db)
               else saveCheck (fst (ApplyPing current kind (storeTime now))) current (storeTime now) db))"

section \<open>The checker\<close>

definition dueWhere :: "time \<Rightarrow> check_row \<Rightarrow> bool" where
  "dueWhere now c \<longleftrightarrow> hc_State c \<noteq> StateDown \<and> \<not> hc_Paused c
     \<and> hc_AnchorAt c + (hc_PeriodSeconds c + hc_GraceSeconds c) * Second < now"

fun advance_each :: "time \<Rightarrow> stored_check list \<Rightarrow> heartbeat_db \<Rightarrow> heartbeat_error + (int list \<times> heartbeat_db)" where
  "advance_each now [] db = Inr ([], db)"
| "advance_each now (current # rest) db =
     (case AdvanceTick current now of
        (next, changed) \<Rightarrow>
          if \<not> changed then advance_each now rest db
          else case saveCheck next current now db of
            (Inl e, _) \<Rightarrow> Inl e
          | (Inr _, db') \<Rightarrow>
              (case advance_each now rest db' of
                 Inl e \<Rightarrow> Inl e
               | Inr (ids, db'') \<Rightarrow> Inr (hc_ID next # ids, db'')))"

definition AdvanceDue :: "time \<Rightarrow> heartbeat_db \<Rightarrow> (stored_check list) hb_tx" where
  "AdvanceDue time db =
     (let now = storeTime time
      in case advance_each now (lockChecks db (dueWhere now)) db of
           Inl e \<Rightarrow> (Inl e, db)
         | Inr (ids, db') \<Rightarrow> (Inr (if ids = [] then [] else queryChecks db' (\<lambda>c. hc_ID c \<in> set ids)), db'))"

definition ClearPendingAlert :: "int \<Rightarrow> int \<Rightarrow> heartbeat_db \<Rightarrow> bool hb_tx" where
  "ClearPendingAlert i alertSeq db =
     (let hit = (\<lambda>c. hc_ID c = i \<and> hc_AlertSeq c = alertSeq \<and> hc_PendingAlert c \<noteq> None)
      in (Inr (list_ex hit (hb_checks db)),
          db\<lparr>hb_checks := update_where hit (\<lambda>c. c\<lparr>hc_PendingAlert := None\<rparr>) (hb_checks db)\<rparr>))"

section \<open>Probes\<close>

record probe_claim =
  cl_CheckID :: int
  cl_AppID :: string
  cl_Name :: string
  cl_ConfigVersion :: int
  cl_Config :: probe_config
  cl_SealedAccessToken :: "string option"

definition probe_due :: "heartbeat_db \<Rightarrow> time \<Rightarrow> probe_row \<Rightarrow> bool" where
  "probe_due db now p \<longleftrightarrow>
     pw_next_probe_at p \<le> now \<and> list_ex (\<lambda>c. hc_ID c = pw_check_id p \<and> \<not> hc_Paused c) (hb_checks db)"

definition claim_of :: "heartbeat_db \<Rightarrow> probe_row \<Rightarrow> probe_claim list" where
  "claim_of db p =
     map (\<lambda>c. \<lparr>cl_CheckID = pw_check_id p, cl_AppID = hc_AppID c, cl_Name = hc_Name c,
               cl_ConfigVersion = pw_config_version p, cl_Config = pw_config p, cl_SealedAccessToken = pw_sealed p\<rparr>)
       (filter (\<lambda>c. hc_ID c = pw_check_id p) (hb_checks db))"

text \<open>Rows with the same \<^verbatim>\<open>next_probe_at\<close> come in table order.\<close>

definition ClaimDueProbes :: "(int \<Rightarrow> bool) \<Rightarrow> time \<Rightarrow> int \<Rightarrow> heartbeat_db \<Rightarrow> (probe_claim list) hb_tx" where
  "ClaimDueProbes locked time limit db =
     (if limit < 1 then (hb_invalid ''invalid claim limit'', db)
      else
        (let now = storeTime time;
             chosen = order_limit pw_next_probe_at (nat limit)
               (filter (\<lambda>p. probe_due db now p \<and> \<not> locked (pw_check_id p)) (hb_probes db));
             ids = map pw_check_id chosen
         in (Inr (concat (map (claim_of db) chosen)),
             db\<lparr>hb_probes := update_where (\<lambda>p. pw_check_id p \<in> set ids)
                  (\<lambda>p. p\<lparr>pw_next_probe_at := now + pc_IntervalSeconds (pw_config p) * Second\<rparr>) (hb_probes db)\<rparr>)))"

definition RecordProbeResult ::
    "int \<Rightarrow> int \<Rightarrow> probe_result \<Rightarrow> time \<Rightarrow> time \<Rightarrow> heartbeat_db \<Rightarrow> (stored_check option) hb_tx" where
  "RecordProbeResult checkID configVersion result time holdOff db =
     (let now = storeTime time; holdOffUntil = storeTime holdOff
      in case lockCheckByID checkID db of
           Inl e \<Rightarrow> if e = ErrCheckNotFound then (Inr None, db) else (Inl e, db)
         | Inr current \<Rightarrow>
             (case hc_Probe current of
                None \<Rightarrow> (Inr None, db)
              | Some p \<Rightarrow>
                  if ps_ConfigVersion p \<noteq> configVersion then (Inr None, db)
                  else case ApplyProbeResult current result now holdOffUntil of
                    (next, accepted, _) \<Rightarrow>
                      if \<not> accepted then (Inr None, db)
                      else case saveCheck next current now db of
                        (Inl e, db') \<Rightarrow> (Inl e, db')
                      | (Inr reloaded, db') \<Rightarrow> (Inr (Some reloaded), db')))"

section \<open>Create, patch and delete\<close>

definition hb_resolveDestinationIDs :: "database \<Rightarrow> string list \<Rightarrow> string \<Rightarrow> heartbeat_error + int list" where
  "hb_resolveDestinationIDs db names appID =
     (let wanted = remdups names
      in if length wanted < 1 \<or> length wanted > 20 then hb_invalid ''invalid destinations''
         else
           (let rows = sort_key sd_ID (filter (\<lambda>d. sd_Name d \<in> set wanted
                         \<and> (sd_OwnerKind d = OwnerOperator \<or> sd_OwnerAppID d = Some appID)) (db_destinations db))
            in if list_ex (\<lambda>d. \<not> DestinationUsableBy (sd_OwnerKind d) (sd_OwnerAppID d) appID) rows
                  \<or> length rows \<noteq> length wanted
               then Inl (HeartbeatRegistry ErrUnknownDestination)
               else Inr (map sd_ID rows)))"

definition hb_linkDestinations :: "int \<Rightarrow> int list \<Rightarrow> heartbeat_db \<Rightarrow> heartbeat_db" where
  "hb_linkDestinations i ids db =
     db\<lparr>hb_main := (hb_main db)\<lparr>db_check_destinations :=
          db_check_destinations (hb_main db) @ map (\<lambda>d. (i, d)) ids\<rparr>\<rparr>"

definition unlink_check :: "int \<Rightarrow> heartbeat_db \<Rightarrow> heartbeat_db" where
  "unlink_check i db =
     db\<lparr>hb_main := (hb_main db)\<lparr>db_check_destinations :=
          filter (\<lambda>l. fst l \<noteq> i) (db_check_destinations (hb_main db))\<rparr>\<rparr>"

definition new_check_row :: "int \<Rightarrow> new_check \<Rightarrow> int \<Rightarrow> int \<Rightarrow> time \<Rightarrow> check_row" where
  "new_check_row i check period grace now =
     \<lparr>hc_ID = i, hc_AppID = nc_AppID check, hc_Name = nc_Name check, hc_PeriodSeconds = period,
      hc_GraceSeconds = grace, hc_State = StateNew, hc_Paused = False, hc_AnchorAt = now,
      hc_LastPingAt = None, hc_LastPingKind = None, hc_DownSince = None, hc_DownReason = None,
      hc_AlertSeq = 0, hc_PendingAlert = None, hc_OwnerKind = ownerKindOrOperator (nc_OwnerKind check),
      hc_OwnerAppID = nc_OwnerAppID check, hc_CreatedAt = now, hc_UpdatedAt = now\<rparr>"

definition hb_Create :: "probe_sealer option \<Rightarrow> new_check \<Rightarrow> time \<Rightarrow> heartbeat_db \<Rightarrow> stored_check hb_tx" where
  "hb_Create sealer check time db =
     (let now = storeTime time; i = hb_check_seq db
      in case hb_resolveDestinationIDs (hb_main db) (nc_DestinationNames check) (nc_AppID check) of
           Inl e \<Rightarrow> (Inl e, db)
         | Inr destinationIDs \<Rightarrow>
             if nc_Probe check = None \<and> nc_AccessToken check \<noteq> None then (hb_invalid messageProbeOnPush, db)
             else
               (let (period, grace) = (case nc_Probe check of
                      None \<Rightarrow> (nc_PeriodSeconds check, nc_GraceSeconds check)
                    | Some p \<Rightarrow> DerivedSchedule (pc_IntervalSeconds p));
                    row = new_check_row i check period grace now
                in if \<not> checks_check row then (Inl (HeartbeatRegistry ErrCheckViolation), db)
                   else if list_ex (\<lambda>c. hc_AppID c = nc_AppID check \<and> hc_Name c = nc_Name check) (hb_checks db)
                   then (Inl ErrCheckExists, db)
                   else
                     (let db1 = hb_linkDestinations i destinationIDs
                            (db\<lparr>hb_checks := hb_checks db @ [row], hb_check_seq := i + 1\<rparr>)
                      in case (case nc_Probe check of None \<Rightarrow> Inr db1
                               | Some p \<Rightarrow> insertProbeRow sealer i p (nc_AccessToken check) now db1) of
                           Inl e \<Rightarrow> (Inl e, db)
                         | Inr db2 \<Rightarrow>
                             (case queryCheckByID db2 i of Inl e \<Rightarrow> (Inl e, db) | Inr c \<Rightarrow> (Inr c, db2)))))"

definition replaceSchedule ::
    "string \<Rightarrow> int \<Rightarrow> check_update \<Rightarrow> time \<Rightarrow> time \<Rightarrow> heartbeat_db \<Rightarrow> heartbeat_error + heartbeat_db" where
  "replaceSchedule appID i update anchorAt now db =
     (case hb_resolveDestinationIDs (hb_main db) (cu_DestinationNames update) appID of
        Inl e \<Rightarrow> Inl e
      | Inr destinationIDs \<Rightarrow>
          (let hit = (\<lambda>c. hc_ID c = i);
               f = (\<lambda>c. c\<lparr>hc_PeriodSeconds := cu_PeriodSeconds update, hc_GraceSeconds := cu_GraceSeconds update,
                          hc_AnchorAt := anchorAt, hc_UpdatedAt := now\<rparr>)
           in if list_ex (\<lambda>c. hit c \<and> \<not> checks_check (f c)) (hb_checks db)
              then Inl (HeartbeatFailure ''update heartbeat check'')
              else Inr (hb_linkDestinations i destinationIDs
                     (unlink_check i (db\<lparr>hb_checks := update_where hit f (hb_checks db)\<rparr>)))))"

definition sealedAccessChangeFor ::
    "probe_sealer option \<Rightarrow> int \<Rightarrow> access_token_patch \<Rightarrow> heartbeat_error + sealed_access_change" where
  "sealedAccessChangeFor sealer checkID token =
     (case token of
        AccessTokenReplace t \<Rightarrow>
          (case sealProbeAccessToken sealer checkID t of Inl e \<Rightarrow> Inl e | Inr sealed \<Rightarrow> Inr (Some (Some sealed)))
      | AccessTokenClear \<Rightarrow> Inr (Some None)
      | _ \<Rightarrow> Inr None)"

text \<open>The merged probe configuration on the check, reset when something that matters changed.\<close>

definition patched_probe :: "stored_check \<Rightarrow> probe_state \<Rightarrow> probe_config \<Rightarrow> check_update \<Rightarrow> time \<Rightarrow> stored_check" where
  "patched_probe current p config update now =
     (let next = current\<lparr>hc_Probe := Some (p\<lparr>ps_Config := config\<rparr>),
                         hc_PeriodSeconds := cu_PeriodSeconds update, hc_GraceSeconds := cu_GraceSeconds update\<rparr>
      in if ProbeConfigChanged (ps_Config p) config (cu_AccessToken update) then ApplyProbeReset next now else next)"

definition patch_with ::
    "probe_lib \<Rightarrow> probe_sealer option \<Rightarrow> int \<Rightarrow> check_patch \<Rightarrow> time
     \<Rightarrow> (heartbeat_db \<Rightarrow> heartbeat_error + stored_check) \<Rightarrow> heartbeat_db \<Rightarrow> stored_check hb_tx" where
  "patch_with lib sealer i patch time lock db =
     (let now = storeTime time
      in case lock db of Inl e \<Rightarrow> (Inl e, db) | Inr locked \<Rightarrow>
         case ValidateCheckPatchForKind locked patch of Inl e \<Rightarrow> (Inl e, db) | Inr _ \<Rightarrow>
         case queryCheckByID db i of Inl e \<Rightarrow> (Inl e, db) | Inr current \<Rightarrow>
           (let update = ApplyPatch current patch
            in case ValidateCheckUpdate lib update of Inl e \<Rightarrow> (Inl e, db) | Inr _ \<Rightarrow>
               case (case (hc_Probe current, cu_Probe update) of
                       (Some p, Some config) \<Rightarrow>
                         (case sealedAccessChangeFor sealer i (cu_AccessToken update) of
                            Inl e \<Rightarrow> Inl e
                          | Inr access \<Rightarrow> Inr (patched_probe current p config update now, access))
                     | _ \<Rightarrow> Inr (current, None)) of
                 Inl e \<Rightarrow> (Inl e, db)
               | Inr (next, access) \<Rightarrow>
                   (case replaceSchedule (hc_AppID current) i update (hc_AnchorAt next) now db of
                      Inl e \<Rightarrow> (Inl e, db)
                    | Inr db1 \<Rightarrow>
                        (case (case hc_Probe next of None \<Rightarrow> Inr db1
                               | Some p \<Rightarrow> writeProbeRow i p (lockedNextProbeAt locked) access db1) of
                           Inl e \<Rightarrow> (Inl e, db)
                         | Inr db2 \<Rightarrow>
                             (case queryCheckByID db2 i of Inl e \<Rightarrow> (Inl e, db) | Inr c \<Rightarrow> (Inr c, db2))))))"

definition hb_Patch ::
    "probe_lib \<Rightarrow> probe_sealer option \<Rightarrow> int \<Rightarrow> check_patch \<Rightarrow> time \<Rightarrow> heartbeat_db \<Rightarrow> stored_check hb_tx" where
  "hb_Patch lib sealer i patch now db = patch_with lib sealer i patch now (lockCheckByID i) db"

definition PatchOwnedBy ::
    "probe_lib \<Rightarrow> probe_sealer option \<Rightarrow> int \<Rightarrow> string \<Rightarrow> check_patch \<Rightarrow> time \<Rightarrow> heartbeat_db \<Rightarrow> stored_check hb_tx" where
  "PatchOwnedBy lib sealer i appID patch now db = patch_with lib sealer i patch now (lockOwnedCheckByID i appID) db"

text \<open>A DELETE cascades to the probe row and the destination links.\<close>

definition delete_checks :: "(check_row \<Rightarrow> bool) \<Rightarrow> heartbeat_db \<Rightarrow> bool hb_tx" where
  "delete_checks where db =
     (let gone = hc_ID ` set (filter where (hb_checks db))
      in (Inr (list_ex where (hb_checks db)),
          db\<lparr>hb_checks := filter (\<lambda>c. \<not> where c) (hb_checks db),
             hb_probes := filter (\<lambda>p. pw_check_id p \<notin> gone) (hb_probes db),
             hb_main := (hb_main db)\<lparr>db_check_destinations :=
               filter (\<lambda>l. fst l \<notin> gone) (db_check_destinations (hb_main db))\<rparr>\<rparr>))"

definition hb_Delete :: "int \<Rightarrow> heartbeat_db \<Rightarrow> bool hb_tx" where
  "hb_Delete i db = delete_checks (\<lambda>c. hc_ID c = i) db"

definition DeleteOwnedBy :: "int \<Rightarrow> string \<Rightarrow> heartbeat_db \<Rightarrow> bool hb_tx" where
  "DeleteOwnedBy i appID db = delete_checks (\<lambda>c. hc_ID c = i \<and> owned_by appID c) db"

end
