(* ===== verification/Heartbeat_Invariant.thy ===== *)
theory Heartbeat_Invariant
  imports Heartbeat_Store
begin

text \<open>
  The invariant of a heartbeat check and of the heartbeat tables. \<open>machine_ok\<close> is stronger than the
  CHECK constraints: a reason exactly while the check is down, an unflushed alert always about the
  current state, and none on a paused check. Every transition of the state machine keeps it, and every
  store operation keeps the invariant of the tables.
\<close>

section \<open>One check\<close>

definition reason_fits :: "bool \<Rightarrow> down_reason \<Rightarrow> bool" where
  "reason_fits push r \<longleftrightarrow> r = ReasonMissed \<or> (if push then r = ReasonFail else IsProbeResultReason r)"

definition alert_fits :: "check_state \<Rightarrow> alert_kind \<Rightarrow> bool" where
  "alert_fits state kind \<longleftrightarrow> (kind = AlertDown \<and> state = StateDown) \<or> (kind = AlertRecovered \<and> state = StateUp)"

definition machine_ok :: "stored_check \<Rightarrow> bool" where
  "machine_ok c \<longleftrightarrow>
     hc_State c \<in> {StateNew, StateUp, StateDown}
     \<and> hc_LastPingKind c \<in> {None, Some PingSuccess, Some PingFail}
     \<and> (hc_LastPingAt c = None) = (hc_LastPingKind c = None)
     \<and> (hc_State c = StateDown) = (hc_DownReason c \<noteq> None)
     \<and> (hc_State c = StateDown \<longrightarrow> hc_DownSince c \<noteq> None)
     \<and> (\<forall>r \<in> set_option (hc_DownReason c). reason_fits (hc_Probe c = None) r)
     \<and> (\<forall>k \<in> set_option (hc_PendingAlert c). alert_fits (hc_State c) k \<and> 0 < hc_AlertSeq c)
     \<and> (hc_Paused c \<longrightarrow> hc_PendingAlert c = None)
     \<and> 0 \<le> hc_AlertSeq c"

lemmas machine_simps = machine_ok_def reason_fits_def alert_fits_def emitAlert_def

text \<open>The transitions as events, with whether each emitted an alert.\<close>

datatype machine_event =
    EvPing ping_kind time
  | EvTick time
  | EvPause
  | EvResume time
  | EvReset time
  | EvProbe probe_result time time

fun machine_step :: "machine_event \<Rightarrow> stored_check \<Rightarrow> stored_check \<times> bool" where
  "machine_step (EvPing kind now) c = ApplyPing c kind now"
| "machine_step (EvTick now) c = AdvanceTick c now"
| "machine_step EvPause c = (ApplyPause c, False)"
| "machine_step (EvResume now) c = (ApplyResume c now, False)"
| "machine_step (EvReset now) c = (ApplyProbeReset c now, False)"
| "machine_step (EvProbe result now holdOff) c =
     (case ApplyProbeResult c result now holdOff of (c', applied, emitted) \<Rightarrow> (c', emitted))"

text \<open>
  What a transition does to the alert: it is emitted exactly when an unpaused check enters or leaves
  the down state, and then it is about the new state; a paused check carries none.
\<close>

definition alert_rule :: "stored_check \<Rightarrow> stored_check \<Rightarrow> bool \<Rightarrow> bool" where
  "alert_rule c c' emitted \<longleftrightarrow>
     emitted = (\<not> hc_Paused c \<and> (hc_State c = StateDown) \<noteq> (hc_State c' = StateDown))
     \<and> hc_AlertSeq c' = hc_AlertSeq c + (if emitted then 1 else 0)
     \<and> (emitted \<longrightarrow> hc_PendingAlert c' = Some (if hc_State c' = StateDown then AlertDown else AlertRecovered))
     \<and> (\<not> emitted \<longrightarrow> hc_PendingAlert c' \<in> {None, hc_PendingAlert c})
     \<and> (hc_Probe c' = None) = (hc_Probe c = None)"

lemma ApplyPing_ok: "machine_ok c \<Longrightarrow> machine_ok (fst (ApplyPing c kind now)) \<and> alert_rule c (fst (ApplyPing c kind now)) (snd (ApplyPing c kind now))"
  by (cases kind; cases "hc_State c"; cases "hc_Paused c"; cases "hc_Probe c")
    (simp_all add: ApplyPing_def pinged_def Let_def machine_simps alert_rule_def)

lemma AdvanceTick_ok: "machine_ok c \<Longrightarrow> machine_ok (fst (AdvanceTick c now)) \<and> alert_rule c (fst (AdvanceTick c now)) (snd (AdvanceTick c now))"
  by (cases "hc_Probe c"; cases "hc_State c"; cases "hc_Paused c"; cases "now > Deadline c")
    (simp_all add: AdvanceTick_def Let_def machine_simps alert_rule_def)

lemma ApplyPause_ok: "machine_ok c \<Longrightarrow> machine_ok (ApplyPause c) \<and> alert_rule c (ApplyPause c) False"
  by (cases "hc_Probe c"; cases "hc_Paused c"; cases "hc_State c") (simp_all add: ApplyPause_def machine_simps alert_rule_def)

lemma ApplyProbeReset_ok: "machine_ok c \<Longrightarrow> machine_ok (ApplyProbeReset c now) \<and> alert_rule c (ApplyProbeReset c now) False"
  by (cases "hc_Probe c"; cases "hc_State c") (simp_all add: ApplyProbeReset_def machine_simps alert_rule_def)

lemma ApplyResume_ok: "machine_ok c \<Longrightarrow> machine_ok (ApplyResume c now) \<and> alert_rule c (ApplyResume c now) False"
  by (cases "hc_Probe c"; cases "hc_Paused c"; cases "hc_State c")
    (simp_all add: ApplyResume_def ApplyProbeReset_def Let_def machine_simps alert_rule_def)

lemma probe_failed_ok:
  assumes "machine_ok c" "hc_Probe c = Some p0" "\<not> hc_Paused c" "IsProbeResultReason reason"
    "r = probe_failed c (c\<lparr>hc_AnchorAt := now, hc_Probe := Some p\<rparr>) p reason detail now holdOff"
  shows "machine_ok (fst r) \<and> alert_rule c (fst r) (snd (snd r))"
proof (cases "hc_State c = StateDown")
  case True
  with assms(1-4) show ?thesis
    by (cases "hc_DownReason c = Some ReasonMissed") (simp_all add: assms(5) probe_failed_def machine_simps alert_rule_def)
next
  case False
  with assms(1-4) show ?thesis
    by (cases "ps_ConsecutiveFailures p < ProbeFailureThreshold \<or> now < holdOff")
      (simp_all add: assms(5) probe_failed_def machine_simps alert_rule_def)
qed

lemma ApplyProbeResult_ok:
  assumes "machine_ok c"
  shows "machine_ok (fst (ApplyProbeResult c result now holdOff))
    \<and> alert_rule c (fst (ApplyProbeResult c result now holdOff)) (snd (snd (ApplyProbeResult c result now holdOff)))"
proof (cases "hc_Probe c = None \<or> hc_Paused c \<or> (\<exists>r. pr_Reason result = Some r \<and> \<not> IsProbeResultReason r)")
  case True
  then have "ApplyProbeResult c result now holdOff = (c, False, False)"
    by (cases "hc_Probe c"; cases "pr_Reason result"; cases "hc_Paused c") (simp_all add: ApplyProbeResult_def)
  with assms show ?thesis by (simp add: alert_rule_def)
next
  case False
  then obtain p where p: "hc_Probe c = Some p" and up: "\<not> hc_Paused c" by auto
  have st: "hc_State c = StateNew \<or> hc_State c = StateUp \<or> hc_State c = StateDown"
    using assms unfolding machine_ok_def by blast
  show ?thesis
  proof (cases "pr_Reason result")
    case None
    from st show ?thesis using assms p up None
      by (elim disjE) (simp_all add: ApplyProbeResult_def Let_def machine_simps alert_rule_def)
  next
    case (Some r)
    with False have r: "IsProbeResultReason r" by simp
    from st show ?thesis using Some r p up
      by (elim disjE) (simp_all add: ApplyProbeResult_def Let_def probe_failed_ok [OF assms p up r refl])
  qed
qed

lemma machine_step_ok:
  assumes "machine_ok c"
  shows "machine_ok (fst (machine_step ev c)) \<and> alert_rule c (fst (machine_step ev c)) (snd (machine_step ev c))"
  using assms ApplyPing_ok AdvanceTick_ok ApplyPause_ok ApplyResume_ok ApplyProbeReset_ok ApplyProbeResult_ok
  by (cases ev) (auto simp: case_prod_beta)

section \<open>Runs\<close>

text \<open>The alerts a run of events emits, in order: the state each announced.\<close>

fun machine_run :: "machine_event list \<Rightarrow> stored_check \<Rightarrow> stored_check \<times> alert_kind list" where
  "machine_run [] c = (c, [])"
| "machine_run (ev # evs) c =
     (let (c', emitted) = machine_step ev c; (c'', alerts) = machine_run evs c'
      in (c'', (if emitted then [the (hc_PendingAlert c')] else []) @ alerts))"

lemma machine_run_ok: "machine_ok c \<Longrightarrow> machine_ok (fst (machine_run evs c))"
proof (induction evs arbitrary: c)
  case (Cons ev evs)
  then show ?case using machine_step_ok [OF Cons.prems, of ev] by (simp add: Let_def case_prod_beta)
qed simp

section \<open>The tables\<close>

definition hb_inv :: "heartbeat_db \<Rightarrow> bool" where
  "hb_inv db \<longleftrightarrow>
     distinct (map hc_ID (hb_checks db)) \<and> distinct (map (\<lambda>c. (hc_AppID c, hc_Name c)) (hb_checks db))
     \<and> (\<forall>c \<in> set (hb_checks db). hc_ID c < hb_check_seq db \<and> checks_check c \<and> machine_ok (locked_check db c))
     \<and> distinct (map pw_check_id (hb_probes db))
     \<and> (\<forall>p \<in> set (hb_probes db). probes_check p \<and> pw_check_id p \<in> hc_ID ` set (hb_checks db))
     \<and> fst ` set (db_check_destinations (hb_main db)) \<subseteq> hc_ID ` set (hb_checks db)"

lemma hb_invD:
  assumes "hb_inv db"
  shows "distinct (map hc_ID (hb_checks db))" "distinct (map (\<lambda>c. (hc_AppID c, hc_Name c)) (hb_checks db))"
    "\<And>c. c \<in> set (hb_checks db) \<Longrightarrow> hc_ID c < hb_check_seq db"
    "\<And>c. c \<in> set (hb_checks db) \<Longrightarrow> checks_check c"
    "\<And>c. c \<in> set (hb_checks db) \<Longrightarrow> machine_ok (locked_check db c)"
    "distinct (map pw_check_id (hb_probes db))"
    "\<And>p. p \<in> set (hb_probes db) \<Longrightarrow> probes_check p"
    "\<And>p. p \<in> set (hb_probes db) \<Longrightarrow> pw_check_id p \<in> hc_ID ` set (hb_checks db)"
    "fst ` set (db_check_destinations (hb_main db)) \<subseteq> hc_ID ` set (hb_checks db)"
  using assms by (simp_all add: hb_inv_def)

lemma hb_invI:
  assumes "distinct (map hc_ID (hb_checks db))" "distinct (map (\<lambda>c. (hc_AppID c, hc_Name c)) (hb_checks db))"
    "\<And>c. c \<in> set (hb_checks db) \<Longrightarrow> hc_ID c < hb_check_seq db \<and> checks_check c \<and> machine_ok (locked_check db c)"
    "distinct (map pw_check_id (hb_probes db))"
    "\<And>p. p \<in> set (hb_probes db) \<Longrightarrow> probes_check p \<and> pw_check_id p \<in> hc_ID ` set (hb_checks db)"
    "fst ` set (db_check_destinations (hb_main db)) \<subseteq> hc_ID ` set (hb_checks db)"
  shows "hb_inv db"
  using assms by (simp add: hb_inv_def)

lemma hb_inv_empty: "db_check_destinations db = [] \<Longrightarrow> hb_inv (empty_heartbeats db)"
  by (simp add: hb_inv_def empty_heartbeats_def)

lemma extend_simps [simp]:
  "hc_ID (check_row.extend c x) = hc_ID c" "hc_AppID (check_row.extend c x) = hc_AppID c"
  "hc_Name (check_row.extend c x) = hc_Name c" "hc_PeriodSeconds (check_row.extend c x) = hc_PeriodSeconds c"
  "hc_GraceSeconds (check_row.extend c x) = hc_GraceSeconds c" "hc_State (check_row.extend c x) = hc_State c"
  "hc_Paused (check_row.extend c x) = hc_Paused c" "hc_AnchorAt (check_row.extend c x) = hc_AnchorAt c"
  "hc_LastPingAt (check_row.extend c x) = hc_LastPingAt c" "hc_LastPingKind (check_row.extend c x) = hc_LastPingKind c"
  "hc_DownSince (check_row.extend c x) = hc_DownSince c" "hc_DownReason (check_row.extend c x) = hc_DownReason c"
  "hc_AlertSeq (check_row.extend c x) = hc_AlertSeq c" "hc_PendingAlert (check_row.extend c x) = hc_PendingAlert c"
  "hc_OwnerKind (check_row.extend c x) = hc_OwnerKind c" "hc_OwnerAppID (check_row.extend c x) = hc_OwnerAppID c"
  "hc_CreatedAt (check_row.extend c x) = hc_CreatedAt c" "hc_UpdatedAt (check_row.extend c x) = hc_UpdatedAt c"
  by (simp_all add: check_row.extend_def)

lemma extend_probe [simp]:
  "hc_Probe (check_row.extend c (stored_check.fields ds p)) = p"
  "hc_Destinations (check_row.extend c (stored_check.fields ds p)) = ds"
  by (simp_all add: check_row.extend_def stored_check.fields_def)

lemma locked_simps [simp]:
  "hc_Probe (locked_check db c) = lockProbeRows db (hc_ID c)" "hc_ID (locked_check db c) = hc_ID c"
  "hc_Probe (scanCheck db c) = lockProbeRows db (hc_ID c)" "hc_ID (scanCheck db c) = hc_ID c"
  by (simp_all add: locked_check_def scanCheck_def)

lemma lockProbeRows_None: "lockProbeRows db i = None \<longleftrightarrow> i \<notin> pw_check_id ` set (hb_probes db)"
  by (auto simp: lockProbeRows_def find_None_iff)

text \<open>The state-machine fields of a check, which \<open>machine_ok\<close> reads.\<close>

definition same_machine :: "('a) check_row_scheme \<Rightarrow> ('b) check_row_scheme \<Rightarrow> bool" where
  "same_machine a b \<longleftrightarrow>
     hc_State a = hc_State b \<and> hc_LastPingKind a = hc_LastPingKind b \<and> hc_LastPingAt a = hc_LastPingAt b
     \<and> hc_DownReason a = hc_DownReason b \<and> hc_DownSince a = hc_DownSince b
     \<and> hc_PendingAlert a = hc_PendingAlert b \<and> hc_AlertSeq a = hc_AlertSeq b \<and> hc_Paused a = hc_Paused b"

lemma machine_ok_cong:
  "same_machine a b \<Longrightarrow> (hc_Probe a = None) = (hc_Probe b = None) \<Longrightarrow> machine_ok a = machine_ok b"
  by (simp add: machine_ok_def same_machine_def)

lemma same_machine_locked [simp]: "same_machine (locked_check db c) c" "same_machine c (locked_check db c)" "same_machine c c"
  by (simp_all add: same_machine_def locked_check_def)

lemma hb_inv_update:
  assumes inv: "hb_inv db"
    and checks: "hb_checks db' = update_where hit f (hb_checks db)"
    and keeps: "\<And>c. hit c \<Longrightarrow> hc_ID (f c) = hc_ID c \<and> hc_AppID (f c) = hc_AppID c \<and> hc_Name (f c) = hc_Name c"
    and new: "\<And>c. c \<in> set (hb_checks db) \<Longrightarrow> hit c \<Longrightarrow> checks_check (f c) \<and> machine_ok (locked_check db (f c))"
    and probes: "map pw_check_id (hb_probes db') = map pw_check_id (hb_probes db)" "\<forall>p \<in> set (hb_probes db'). probes_check p"
    and links: "fst ` set (db_check_destinations (hb_main db')) \<subseteq> hc_ID ` set (hb_checks db)"
    and seq: "hb_check_seq db' = hb_check_seq db"
  shows "hb_inv db'"
proof -
  have ids: "map hc_ID (hb_checks db') = map hc_ID (hb_checks db)"
    "map (\<lambda>c. (hc_AppID c, hc_Name c)) (hb_checks db') = map (\<lambda>c. (hc_AppID c, hc_Name c)) (hb_checks db)"
    unfolding checks by (rule map_update_where, simp add: keeps)+
  have pids: "pw_check_id ` set (hb_probes db') = pw_check_id ` set (hb_probes db)"
    using probes(1) by (metis set_map)
  have idset: "hc_ID ` set (hb_checks db') = hc_ID ` set (hb_checks db)" using ids(1) by (metis set_map)
  have presence: "(lockProbeRows db' i = None) = (lockProbeRows db i = None)" for i
    by (simp add: lockProbeRows_None pids)
  have transfer: "machine_ok (locked_check db' c) = machine_ok (locked_check db c)" for c
    by (rule machine_ok_cong) (simp_all add: presence same_machine_def locked_check_def)
  show ?thesis
  proof (rule hb_invI)
    fix x assume "x \<in> set (hb_checks db')"
    then have "x \<in> set (update_where hit f (hb_checks db))" by (simp only: checks)
    then show "hc_ID x < hb_check_seq db' \<and> checks_check x \<and> machine_ok (locked_check db' x)"
    proof (cases rule: update_whereE)
      case (updated c)
      with new [OF updated(1,2)] keeps [OF updated(2)] hb_invD(3) [OF inv updated(1)] show ?thesis by (simp add: seq transfer)
    next
      case kept
      with hb_invD(3-5) [OF inv kept(1)] show ?thesis by (simp add: seq transfer)
    qed
  next
    fix p assume p: "p \<in> set (hb_probes db')"
    then have "pw_check_id p \<in> pw_check_id ` set (hb_probes db)" unfolding pids [symmetric] by (rule imageI)
    then obtain q where "q \<in> set (hb_probes db)" "pw_check_id p = pw_check_id q" by blast
    with p probes(2) hb_invD(8) [OF inv] show "probes_check p \<and> pw_check_id p \<in> hc_ID ` set (hb_checks db')"
      by (simp add: idset)
  next
    show "fst ` set (db_check_destinations (hb_main db')) \<subseteq> hc_ID ` set (hb_checks db')" using links by (simp add: idset)
  qed (simp_all add: ids probes(1) hb_invD [OF inv])
qed

section \<open>Every operation keeps it\<close>

lemma lockCheck_Inr:
  assumes "lockCheck db where = Inr c"
  obtains row where "row \<in> set (hb_checks db)" "where row" "c = locked_check db row"
  using assms by (auto simp: lockCheck_def split: option.splits dest: find_Some_in)

lemma lockCheck_ok: "hb_inv db \<Longrightarrow> lockCheck db where = Inr c \<Longrightarrow> machine_ok c"
  by (auto elim!: lockCheck_Inr simp: hb_invD)

lemma writeProbeRow_Inr:
  assumes "writeProbeRow i p baseline access db = Inr db'" "\<forall>q \<in> set (hb_probes db). probes_check q"
  shows "hb_checks db' = hb_checks db" "hb_main db' = hb_main db" "hb_check_seq db' = hb_check_seq db"
    "map pw_check_id (hb_probes db') = map pw_check_id (hb_probes db)" "\<forall>q \<in> set (hb_probes db'). probes_check q"
proof -
  let ?hit = "\<lambda>q. pw_check_id q = i" and ?f = "written_probe p baseline access"
  have g: "\<not> list_ex (\<lambda>q. ?hit q \<and> \<not> probes_check (?f q)) (hb_probes db)"
    and db': "db' = db\<lparr>hb_probes := update_where ?hit ?f (hb_probes db)\<rparr>"
    using assms(1) by (auto simp: writeProbeRow_def Let_def split: if_splits)
  show "hb_checks db' = hb_checks db" "hb_main db' = hb_main db" "hb_check_seq db' = hb_check_seq db"
    by (simp_all add: db')
  show "map pw_check_id (hb_probes db') = map pw_check_id (hb_probes db)"
    by (simp add: db' map_update_where written_probe_def)
  show "\<forall>q \<in> set (hb_probes db'). probes_check q"
    using g assms(2) by (auto simp: db' list_ex_iff elim!: update_whereE)
qed

lemma saved_row_keeps [simp]:
  "hc_ID (saved_row check now c) = hc_ID c" "hc_AppID (saved_row check now c) = hc_AppID c"
  "hc_Name (saved_row check now c) = hc_Name c" "hc_PeriodSeconds (saved_row check now c) = hc_PeriodSeconds c"
  "hc_GraceSeconds (saved_row check now c) = hc_GraceSeconds c"
  "hc_OwnerKind (saved_row check now c) = hc_OwnerKind c" "hc_OwnerAppID (saved_row check now c) = hc_OwnerAppID c"
  by (simp_all add: saved_row_def)

text \<open>What a save leaves as it was.\<close>

definition hb_frame :: "heartbeat_db \<Rightarrow> heartbeat_db \<Rightarrow> bool" where
  "hb_frame db db' \<longleftrightarrow>
     map hc_ID (hb_checks db') = map hc_ID (hb_checks db)
     \<and> map pw_check_id (hb_probes db') = map pw_check_id (hb_probes db)
     \<and> hb_main db' = hb_main db \<and> hb_check_seq db' = hb_check_seq db"

lemma hb_frame_refl [simp]: "hb_frame db db"
  by (simp add: hb_frame_def)

lemma hb_frame_trans: "hb_frame a b \<Longrightarrow> hb_frame b c \<Longrightarrow> hb_frame a c"
  by (simp add: hb_frame_def)

lemma hb_frame_presence: "hb_frame db db' \<Longrightarrow> (lockProbeRows db' i = None) = (lockProbeRows db i = None)"
  unfolding hb_frame_def lockProbeRows_None by (metis set_map)

lemma hb_frame_row: "hb_frame db db' \<Longrightarrow> c \<in> set (hb_checks db) \<Longrightarrow> \<exists>c' \<in> set (hb_checks db'). hc_ID c' = hc_ID c"
  unfolding hb_frame_def by (metis (no_types, lifting) imageE imageI list.set_map)

lemma saveCheck_shape:
  assumes "saveCheck check locked now db = (Inr c, db')"
  obtains db1 where
    "\<forall>x \<in> set (hb_checks db). hc_ID x = hc_ID check \<longrightarrow> checks_check (saved_row check now x)"
    "db1 = db\<lparr>hb_checks := update_where (\<lambda>x. hc_ID x = hc_ID check) (saved_row check now) (hb_checks db)\<rparr>"
    "(case hc_Probe check of None \<Rightarrow> Inr db1 | Some p \<Rightarrow> writeProbeRow (hc_ID check) p (lockedNextProbeAt locked) None db1) = Inr db'"
    "queryCheckByID db' (hc_ID check) = Inr c"
  using assms by (auto simp: saveCheck_def Let_def list_ex_iff split: if_splits sum.splits intro!: that)

lemma saveCheck_error: "saveCheck check locked now db = (Inl e, db') \<Longrightarrow> db' = db"
  by (auto simp: saveCheck_def Let_def split: if_splits sum.splits)

lemma saveCheck_frame: "hb_frame db (snd (saveCheck check locked now db))"
proof (cases "saveCheck check locked now db")
  case (Pair r db')
  show ?thesis
  proof (cases r)
    case (Inl e)
    with Pair saveCheck_error show ?thesis by fastforce
  next
    case (Inr c)
    let ?db1 = "db\<lparr>hb_checks := update_where (\<lambda>x. hc_ID x = hc_ID check) (saved_row check now) (hb_checks db)\<rparr>"
    have f1: "hb_frame db ?db1" by (simp add: hb_frame_def map_update_where)
    from Pair Inr have "(case hc_Probe check of None \<Rightarrow> Inr ?db1
        | Some p \<Rightarrow> writeProbeRow (hc_ID check) p (lockedNextProbeAt locked) None ?db1) = Inr db'"
      by (auto elim: saveCheck_shape)
    then have "hb_frame ?db1 db'"
      by (auto simp: hb_frame_def writeProbeRow_def Let_def map_update_where written_probe_def split: option.splits if_splits)
    with f1 Pair show ?thesis by (auto intro: hb_frame_trans)
  qed
qed

lemma saveCheck_inv:
  assumes inv: "hb_inv db" and ok: "machine_ok check" and row: "row \<in> set (hb_checks db)" "hc_ID check = hc_ID row"
    and presence: "(hc_Probe check = None) = (hc_Probe (locked_check db row) = None)"
  shows "hb_inv (snd (saveCheck check locked now db))"
proof (cases "saveCheck check locked now db")
  case (Pair r db')
  show ?thesis
  proof (cases r)
    case (Inl e)
    with Pair saveCheck_error have "db' = db" by blast
    with Pair inv show ?thesis by simp
  next
    case (Inr c)
    obtain db1 where chk: "\<forall>x \<in> set (hb_checks db). hc_ID x = hc_ID check \<longrightarrow> checks_check (saved_row check now x)"
      and db1: "db1 = db\<lparr>hb_checks := update_where (\<lambda>x. hc_ID x = hc_ID check) (saved_row check now) (hb_checks db)\<rparr>"
      and db': "(case hc_Probe check of None \<Rightarrow> Inr db1 | Some p \<Rightarrow> writeProbeRow (hc_ID check) p (lockedNextProbeAt locked) None db1) = Inr db'"
      and "queryCheckByID db' (hc_ID check) = Inr c"
      by (rule saveCheck_shape [OF Pair [unfolded Inr]])
    have p1: "\<forall>q \<in> set (hb_probes db1). probes_check q" using hb_invD(7) [OF inv] by (simp add: db1)
    have "hb_checks db' = hb_checks db1 \<and> hb_main db' = hb_main db1 \<and> hb_check_seq db' = hb_check_seq db1
      \<and> map pw_check_id (hb_probes db') = map pw_check_id (hb_probes db1) \<and> (\<forall>q \<in> set (hb_probes db'). probes_check q)"
    proof (cases "hc_Probe check")
      case None
      with db' p1 show ?thesis by simp
    next
      case (Some p)
      with db' have "writeProbeRow (hc_ID check) p (lockedNextProbeAt locked) None db1 = Inr db'" by simp
      from writeProbeRow_Inr [OF this p1] show ?thesis by blast
    qed
    then have same: "hb_checks db' = hb_checks db1" "hb_main db' = hb_main db" "hb_check_seq db' = hb_check_seq db"
      "map pw_check_id (hb_probes db') = map pw_check_id (hb_probes db)" "\<forall>q \<in> set (hb_probes db'). probes_check q"
      by (simp_all add: db1)
    have "machine_ok (locked_check db (saved_row check now x))" if "x \<in> set (hb_checks db)" "hc_ID x = hc_ID check" for x
    proof -
      have "same_machine (locked_check db (saved_row check now x)) check"
        by (simp add: same_machine_def locked_check_def saved_row_def)
      moreover have "hc_ID (saved_row check now x) = hc_ID row" using that row(2) by (simp add: saved_row_def)
      ultimately show ?thesis using ok presence machine_ok_cong [of "locked_check db (saved_row check now x)" check] by simp
    qed
    then have "hb_inv db'"
      by (intro hb_inv_update [OF inv, of _ "\<lambda>x. hc_ID x = hc_ID check" "saved_row check now"])
        (simp_all add: same db1 chk hb_invD [OF inv])
    with Pair show ?thesis by simp
  qed
qed

text \<open>Locking a row and saving what the machine makes of it.\<close>

lemma locked_save_inv:
  assumes "hb_inv db" "lockCheck db where = Inr c" "machine_ok c'" "hc_ID c' = hc_ID c" "(hc_Probe c' = None) = (hc_Probe c = None)"
  shows "hb_inv (snd (saveCheck c' locked now db))"
  using assms(2) by (rule lockCheck_Inr) (use assms in \<open>auto intro: saveCheck_inv\<close>)

lemma machine_ids [simp]:
  "hc_ID (fst (ApplyPing c kind now)) = hc_ID c" "hc_ID (fst (AdvanceTick c now)) = hc_ID c"
  "hc_ID (ApplyPause c) = hc_ID c" "hc_ID (ApplyResume c now) = hc_ID c"
  "hc_ID (fst (ApplyProbeResult c result now holdOff)) = hc_ID c"
  by (auto simp: ApplyPing_def pinged_def AdvanceTick_def ApplyPause_def ApplyResume_def ApplyProbeReset_def
      ApplyProbeResult_def probe_failed_def emitAlert_def Let_def split: option.splits ping_kind.splits check_state.splits)

lemma mutate_inv:
  assumes "hb_inv db" "\<And>c. lock db = Inr c \<Longrightarrow> \<exists>where. lockCheck db where = Inr c"
    and f: "\<And>c. machine_ok c \<Longrightarrow> machine_ok (f c) \<and> alert_rule c (f c) False" "\<And>c. hc_ID (f c) = hc_ID c"
  shows "hb_inv (snd (mutate now lock f db))"
proof (cases "lock db")
  case (Inr c)
  with assms(2) obtain wh where l: "lockCheck db wh = Inr c" by blast
  note ok = f(1) [OF lockCheck_ok [OF assms(1) l]]
  have "hb_inv (snd (saveCheck (f c) c now db))"
    by (rule locked_save_inv [OF assms(1) l]) (use ok f(2) in \<open>auto simp: alert_rule_def\<close>)
  with Inr show ?thesis by (simp add: mutate_def)
qed (simp add: mutate_def assms(1))

lemma pause_resume_inv:
  assumes "hb_inv db"
  shows "hb_inv (snd (hb_Pause i now db))" "hb_inv (snd (PauseOwnedBy i app now db))"
    "hb_inv (snd (hb_Resume i now db))" "hb_inv (snd (ResumeOwnedBy i app now db))"
  unfolding hb_Pause_def PauseOwnedBy_def hb_Resume_def ResumeOwnedBy_def lockCheckByID_def lockOwnedCheckByID_def
  by (rule mutate_inv [OF assms]; auto simp: ApplyPause_ok ApplyResume_ok)+

lemma RecordPing_inv:
  assumes "hb_inv db"
  shows "hb_inv (snd (RecordPing app name kind now db))"
proof (cases "ValidatePingKind kind")
  case (Inr u)
  show ?thesis
  proof (cases "lockCheck db (\<lambda>c. hc_AppID c = app \<and> hc_Name c = name)")
    case l: (Inr c)
    note ok = ApplyPing_ok [OF lockCheck_ok [OF assms l], of kind "storeTime now"]
    have "hb_inv (snd (saveCheck (fst (ApplyPing c kind (storeTime now))) c (storeTime now) db))"
      by (rule locked_save_inv [OF assms l]) (use ok in \<open>auto simp: alert_rule_def\<close>)
    with l Inr assms show ?thesis by (simp add: RecordPing_def)
  qed (simp add: RecordPing_def Inr assms)
qed (simp add: RecordPing_def assms)

lemma RecordProbeResult_inv:
  assumes "hb_inv db"
  shows "hb_inv (snd (RecordProbeResult i version result now holdOff db))"
proof (cases "lockCheckByID i db")
  case (Inr c)
  then have l: "lockCheck db (\<lambda>c. hc_ID c = i) = Inr c" by (simp add: lockCheckByID_def)
  let ?r = "ApplyProbeResult c result (storeTime now) (storeTime holdOff)"
  note ok = ApplyProbeResult_ok [OF lockCheck_ok [OF assms l], of result "storeTime now" "storeTime holdOff"]
  have "hb_inv (snd (saveCheck (fst ?r) c (storeTime now) db))"
    by (rule locked_save_inv [OF assms l]) (use ok in \<open>auto simp: alert_rule_def\<close>)
  with Inr assms show ?thesis
    by (auto simp: RecordProbeResult_def Let_def case_prod_beta split: option.splits sum.splits if_splits prod.splits)
qed (simp add: RecordProbeResult_def Let_def assms)

lemma advance_each_inv:
  assumes "hb_inv db"
    and "\<And>c. c \<in> set cs \<Longrightarrow> machine_ok c \<and> (\<exists>row \<in> set (hb_checks db). hc_ID row = hc_ID c \<and> (hc_Probe c = None) = (lockProbeRows db (hc_ID c) = None))"
    and "advance_each now cs db = Inr (ids, db')"
  shows "hb_inv db' \<and> hb_frame db db'"
  using assms
proof (induction cs arbitrary: db ids db')
  case (Cons c cs)
  obtain c' changed where tick: "AdvanceTick c now = (c', changed)" by (cases "AdvanceTick c now")
  show ?case
  proof (cases changed)
    case False
    with Cons tick show ?thesis by simp
  next
    case True
    obtain r db1 where s: "saveCheck c' c now db = (r, db1)" by (cases "saveCheck c' c now db")
    with Cons.prems(3) tick True obtain x where x: "r = Inr x" by (cases r) auto
    obtain ids' where rest: "advance_each now cs db1 = Inr (ids', db')"
      using Cons.prems(3) tick True s x by (auto split: sum.splits)
    obtain row where row: "machine_ok c" "row \<in> set (hb_checks db)" "hc_ID row = hc_ID c"
      "(hc_Probe c = None) = (lockProbeRows db (hc_ID c) = None)" using Cons.prems(2) [of c] by auto
    have ok: "machine_ok c'" "hc_ID c' = hc_ID c" "(hc_Probe c' = None) = (hc_Probe c = None)"
      using AdvanceTick_ok [OF row(1), of now] machine_ids(2) [of c now] tick by (auto simp: alert_rule_def)
    have inv1: "hb_inv db1"
      using saveCheck_inv [OF Cons.prems(1) ok(1) row(2), of c now] ok(2,3) row(3,4) s by simp
    have fr: "hb_frame db db1" using saveCheck_frame [of db c' c now] s by simp
    have "hb_inv db' \<and> hb_frame db1 db'"
    proof (rule Cons.IH [OF inv1 _ rest])
      fix d assume "d \<in> set cs"
      with Cons.prems(2) [of d] hb_frame_row [OF fr] hb_frame_presence [OF fr]
      show "machine_ok d \<and> (\<exists>row \<in> set (hb_checks db1). hc_ID row = hc_ID d \<and> (hc_Probe d = None) = (lockProbeRows db1 (hc_ID d) = None))"
        by fastforce
    qed
    with fr show ?thesis by (blast intro: hb_frame_trans)
  qed
qed simp

lemma AdvanceDue_inv:
  assumes "hb_inv db"
  shows "hb_inv (snd (AdvanceDue now db))"
proof (cases "advance_each (storeTime now) (lockChecks db (dueWhere (storeTime now))) db")
  case (Inr r)
  obtain ids db' where r: "r = (ids, db')" by (cases r)
  have "hb_inv db'"
    using advance_each_inv [OF assms _ Inr [unfolded r]] hb_invD(5) [OF assms]
    by (fastforce simp: lockChecks_def)
  with Inr r show ?thesis by (simp add: AdvanceDue_def Let_def)
qed (simp add: AdvanceDue_def Let_def assms)

lemma ClearPendingAlert_inv:
  assumes "hb_inv db"
  shows "hb_inv (snd (ClearPendingAlert i s db))"
proof -
  have ok: "checks_check (c\<lparr>hc_PendingAlert := None\<rparr>) \<and> machine_ok (locked_check db (c\<lparr>hc_PendingAlert := None\<rparr>))"
    if "c \<in> set (hb_checks db)" for c
    using hb_invD(4,5) [OF assms that]
    by (cases "hc_OwnerAppID c") (simp_all add: checks_check_def schedule_ok_def machine_ok_def locked_check_def)
  show ?thesis unfolding ClearPendingAlert_def Let_def snd_conv
    by (rule hb_inv_update [OF assms, where f = "\<lambda>c. c\<lparr>hc_PendingAlert := None\<rparr>"])
      (use ok hb_invD(7,9) [OF assms] in \<open>simp_all\<close>)
qed

lemma update_where_none_hit: "update_where (\<lambda>_. False) f rows = rows"
  by (simp add: update_where_def)

lemma ClaimDueProbes_inv:
  assumes "hb_inv db"
  shows "hb_inv (snd (ClaimDueProbes locked now limit db))"
proof (cases "limit < 1")
  case False
  have ok: "probes_check (p\<lparr>pw_next_probe_at := t\<rparr>)" if "p \<in> set (hb_probes db)" for p t
    using hb_invD(7) [OF assms that] by (simp add: probes_check_def)
  show ?thesis unfolding ClaimDueProbes_def Let_def using False
    by (simp, intro hb_inv_update [OF assms, where hit = "\<lambda>_. False" and f = id])
      (use ok hb_invD(7,9) [OF assms] in \<open>auto simp: update_where_none_hit map_update_where elim!: update_whereE\<close>)
qed (simp add: ClaimDueProbes_def assms)

lemma delete_checks_inv:
  assumes "hb_inv db"
  shows "hb_inv (snd (delete_checks where db))"
proof -
  let ?gone = "hc_ID ` set (filter where (hb_checks db))"
  let ?db' = "snd (delete_checks where db)"
  have checks: "hb_checks ?db' = filter (\<lambda>c. \<not> where c) (hb_checks db)"
    and probes: "hb_probes ?db' = filter (\<lambda>p. pw_check_id p \<notin> ?gone) (hb_probes db)"
    and links: "db_check_destinations (hb_main ?db') = filter (\<lambda>l. fst l \<notin> ?gone) (db_check_destinations (hb_main db))"
    and seq: "hb_check_seq ?db' = hb_check_seq db"
    by (simp_all add: delete_checks_def Let_def)
  have kept: "i \<in> hc_ID ` set (hb_checks ?db')" if "i \<in> hc_ID ` set (hb_checks db)" "i \<notin> ?gone" for i
    using that unfolding checks by auto
  show ?thesis
  proof (rule hb_invI)
    fix c assume c: "c \<in> set (hb_checks ?db')"
    then have in_db: "c \<in> set (hb_checks db)" and "\<not> where c" by (auto simp: checks)
    then have "hc_ID c \<notin> ?gone" using hb_invD(1) [OF assms] by (auto dest: distinct_map_inj)
    then have "(lockProbeRows ?db' (hc_ID c) = None) = (lockProbeRows db (hc_ID c) = None)"
      by (auto simp: lockProbeRows_None probes)
    then have "machine_ok (locked_check ?db' c) = machine_ok (locked_check db c)"
      by (intro machine_ok_cong) (simp_all add: same_machine_def locked_check_def)
    with hb_invD(3-5) [OF assms in_db] show "hc_ID c < hb_check_seq ?db' \<and> checks_check c \<and> machine_ok (locked_check ?db' c)"
      by (simp add: seq)
  next
    fix p assume "p \<in> set (hb_probes ?db')"
    then show "probes_check p \<and> pw_check_id p \<in> hc_ID ` set (hb_checks ?db')"
      using hb_invD(7,8) [OF assms] kept by (simp add: probes)
  next
    show "fst ` set (db_check_destinations (hb_main ?db')) \<subseteq> hc_ID ` set (hb_checks ?db')"
      using hb_invD(9) [OF assms] kept by (auto simp: links)
  qed (use hb_invD(1,2,6) [OF assms] in \<open>simp_all add: checks probes distinct_map_filter\<close>)
qed

lemma deletes_inv: "hb_inv db \<Longrightarrow> hb_inv (snd (hb_Delete i db))" "hb_inv db \<Longrightarrow> hb_inv (snd (DeleteOwnedBy i app db))"
  by (simp_all add: hb_Delete_def DeleteOwnedBy_def delete_checks_inv)

text \<open>A new row with its links, and its probe row where it has one.\<close>

lemma hb_inv_new_check:
  assumes inv: "hb_inv db" and row: "checks_check row" "hc_ID row = hb_check_seq db" "machine_ok (locked_check db' row)"
    and fresh: "(hc_AppID row, hc_Name row) \<notin> (\<lambda>c. (hc_AppID c, hc_Name c)) ` set (hb_checks db)"
    and db': "hb_checks db' = hb_checks db @ [row]" "hb_check_seq db' = hb_check_seq db + 1"
      "hb_probes db' = hb_probes db @ ps" "\<forall>p \<in> set ps. probes_check p \<and> pw_check_id p = hb_check_seq db" "length ps \<le> 1"
      "fst ` set (db_check_destinations (hb_main db')) \<subseteq> insert (hb_check_seq db) (fst ` set (db_check_destinations (hb_main db)))"
  shows "hb_inv db'"
proof (rule hb_invI)
  have newid: "hb_check_seq db \<notin> hc_ID ` set (hb_checks db)" using hb_invD(3) [OF inv] by force
  then have newp: "hb_check_seq db \<notin> pw_check_id ` set (hb_probes db)" using hb_invD(8) [OF inv] by force
  show "distinct (map hc_ID (hb_checks db'))" using hb_invD(1) [OF inv] newid row(2) by (simp add: db')
  show "distinct (map (\<lambda>c. (hc_AppID c, hc_Name c)) (hb_checks db'))" using hb_invD(2) [OF inv] fresh by (simp add: db')
  have "distinct (map pw_check_id ps)" using db'(5) by (cases ps) auto
  then show "distinct (map pw_check_id (hb_probes db'))" using hb_invD(6) [OF inv] newp db'(4)
    by (auto simp: db'(3)) (metis imageI)
  show "probes_check p \<and> pw_check_id p \<in> hc_ID ` set (hb_checks db')" if "p \<in> set (hb_probes db')" for p
    using that hb_invD(7,8) [OF inv] db'(4) row(2) by (auto simp: db'(1,3))
  show "fst ` set (db_check_destinations (hb_main db')) \<subseteq> hc_ID ` set (hb_checks db')"
    using db'(6) hb_invD(9) [OF inv] row(2) by (auto simp: db'(1))
  show "hc_ID c < hb_check_seq db' \<and> checks_check c \<and> machine_ok (locked_check db' c)" if c: "c \<in> set (hb_checks db')" for c
  proof (cases "c = row")
    case True
    with row db'(2) show ?thesis by simp
  next
    case False
    with c have old: "c \<in> set (hb_checks db)" by (simp add: db'(1))
    then have "hc_ID c \<noteq> hb_check_seq db" using newid by (metis imageI)
    then have "(lockProbeRows db' (hc_ID c) = None) = (lockProbeRows db (hc_ID c) = None)"
      using db'(4) by (auto simp: lockProbeRows_None db'(3))
    then have "machine_ok (locked_check db' c) = machine_ok (locked_check db c)"
      by (intro machine_ok_cong) (simp_all add: same_machine_def locked_check_def)
    with hb_invD(3-5) [OF inv old] show ?thesis by (simp add: db'(2))
  qed
qed

lemma insertProbeRow_shape:
  assumes "insertProbeRow sealer i config token now db = Inr db'"
  obtains p where "db' = db\<lparr>hb_probes := hb_probes db @ [p]\<rparr>" "probes_check p" "pw_check_id p = i"
  using assms by (auto simp: insertProbeRow_def Let_def split: sum.splits if_splits)

lemma hb_Create_shape:
  assumes "hb_Create sealer check now db = (Inr c, db')"
  obtains period grace ids db1 where
    "checks_check (new_check_row (hb_check_seq db) check period grace (storeTime now))"
    "(nc_AppID check, nc_Name check) \<notin> (\<lambda>c. (hc_AppID c, hc_Name c)) ` set (hb_checks db)"
    "db1 = hb_linkDestinations (hb_check_seq db) ids (db\<lparr>hb_checks := hb_checks db @
        [new_check_row (hb_check_seq db) check period grace (storeTime now)], hb_check_seq := hb_check_seq db + 1\<rparr>)"
    "(case nc_Probe check of None \<Rightarrow> Inr db1
      | Some p \<Rightarrow> insertProbeRow sealer (hb_check_seq db) p (nc_AccessToken check) (storeTime now) db1) = Inr db'"
    "hb_resolveDestinationIDs (hb_main db) (nc_DestinationNames check) (nc_AppID check) = Inr ids"
  using assms
  by (auto simp: hb_Create_def Let_def list_ex_iff case_prod_beta split: sum.splits if_splits prod.splits intro!: that)

lemma hb_Create_error: "hb_Create sealer check now db = (Inl e, db') \<Longrightarrow> db' = db"
  by (auto simp: hb_Create_def Let_def case_prod_beta split: sum.splits if_splits prod.splits)

lemma hb_Create_inv:
  assumes "hb_inv db"
  shows "hb_inv (snd (hb_Create sealer check now db))"
proof (cases "hb_Create sealer check now db")
  case (Pair r db')
  show ?thesis
  proof (cases r)
    case (Inl e)
    with Pair hb_Create_error assms show ?thesis by fastforce
  next
    case (Inr c)
    obtain period grace ids db1 where row: "checks_check (new_check_row (hb_check_seq db) check period grace (storeTime now))"
      and fresh: "(nc_AppID check, nc_Name check) \<notin> (\<lambda>c. (hc_AppID c, hc_Name c)) ` set (hb_checks db)"
      and db1: "db1 = hb_linkDestinations (hb_check_seq db) ids (db\<lparr>hb_checks := hb_checks db @
        [new_check_row (hb_check_seq db) check period grace (storeTime now)], hb_check_seq := hb_check_seq db + 1\<rparr>)"
      and db': "(case nc_Probe check of None \<Rightarrow> Inr db1
        | Some p \<Rightarrow> insertProbeRow sealer (hb_check_seq db) p (nc_AccessToken check) (storeTime now) db1) = Inr db'"
      and "hb_resolveDestinationIDs (hb_main db) (nc_DestinationNames check) (nc_AppID check) = Inr ids"
      by (rule hb_Create_shape [OF Pair [unfolded Inr]])
    have "\<exists>ps. db' = db1\<lparr>hb_probes := hb_probes db1 @ ps\<rparr> \<and> (\<forall>p \<in> set ps. probes_check p \<and> pw_check_id p = hb_check_seq db) \<and> length ps \<le> 1"
    proof (cases "nc_Probe check")
      case None
      with db' show ?thesis by (intro exI [of _ "[]"]) simp
    next
      case (Some p)
      with db' have "insertProbeRow sealer (hb_check_seq db) p (nc_AccessToken check) (storeTime now) db1 = Inr db'" by simp
      then obtain q where "db' = db1\<lparr>hb_probes := hb_probes db1 @ [q]\<rparr>" "probes_check q" "pw_check_id q = hb_check_seq db"
        by (rule insertProbeRow_shape)
      then show ?thesis by (intro exI [of _ "[q]"]) simp
    qed
    then obtain ps where ps: "db' = db1\<lparr>hb_probes := hb_probes db1 @ ps\<rparr>"
      "\<forall>p \<in> set ps. probes_check p \<and> pw_check_id p = hb_check_seq db" "length ps \<le> 1" by blast
    have "machine_ok (locked_check db' (new_check_row i check period grace t))" for i t
      by (simp add: machine_ok_def locked_check_def new_check_row_def)
    then have "hb_inv db'"
      by (intro hb_inv_new_check [OF assms row, where ps = ps])
        (use fresh ps in \<open>auto simp: db1 hb_linkDestinations_def new_check_row_def\<close>)
    with Pair show ?thesis by simp
  qed
qed

lemma replaceSchedule_inv:
  assumes inv: "hb_inv db" and i: "i \<in> hc_ID ` set (hb_checks db)" and r: "replaceSchedule app i update anchor now db = Inr db'"
  shows "hb_inv db'"
proof -
  let ?hit = "\<lambda>c. hc_ID c = i"
  let ?f = "\<lambda>c :: check_row. c\<lparr>hc_PeriodSeconds := cu_PeriodSeconds update, hc_GraceSeconds := cu_GraceSeconds update,
      hc_AnchorAt := anchor, hc_UpdatedAt := now\<rparr>"
  obtain ids where db': "db' = hb_linkDestinations i ids (unlink_check i (db\<lparr>hb_checks := update_where ?hit ?f (hb_checks db)\<rparr>))"
    and chk: "\<forall>c \<in> set (hb_checks db). hc_ID c = i \<longrightarrow> checks_check (?f c)"
    using r by (auto simp: replaceSchedule_def Let_def list_ex_iff split: sum.splits if_splits)
  have ok: "machine_ok (locked_check db (?f c))" if "c \<in> set (hb_checks db)" for c
    using hb_invD(5) [OF inv that] machine_ok_cong [of "locked_check db (?f c)" "locked_check db c"]
    by (simp add: same_machine_def locked_check_def)
  show ?thesis
    by (rule hb_inv_update [OF inv, where hit = ?hit and f = ?f])
      (use chk ok i hb_invD(7,9) [OF inv] in \<open>auto simp: db' hb_linkDestinations_def unlink_check_def\<close>)
qed

lemma writeProbeRow_inv:
  assumes inv: "hb_inv db" and w: "writeProbeRow i p baseline access db = Inr db'"
  shows "hb_inv db'"
proof -
  have "\<forall>q \<in> set (hb_probes db). probes_check q" using hb_invD(7) [OF inv] by blast
  note w' = writeProbeRow_Inr [OF w this]
  show ?thesis
    by (rule hb_inv_update [OF inv, where hit = "\<lambda>_. False" and f = id])
      (simp_all add: w' update_where_none_hit hb_invD [OF inv])
qed

lemma patch_with_error: "patch_with lib sealer i patch now lock db = (Inl e, db') \<Longrightarrow> db' = db"
  by (auto simp: patch_with_def Let_def split: sum.splits option.splits prod.splits if_splits)

lemma patch_with_shape:
  assumes "patch_with lib sealer i patch now lock db = (Inr c, db')"
  obtains current anchor db1 where "queryCheckByID db i = Inr current"
    "replaceSchedule (hc_AppID current) i (ApplyPatch current patch) anchor (storeTime now) db = Inr db1"
    "db' = db1 \<or> (\<exists>p b a. writeProbeRow i p b a db1 = Inr db')"
proof -
  have "\<exists>current anchor db1. queryCheckByID db i = Inr current
      \<and> replaceSchedule (hc_AppID current) i (ApplyPatch current patch) anchor (storeTime now) db = Inr db1
      \<and> (db' = db1 \<or> (\<exists>p b a. writeProbeRow i p b a db1 = Inr db'))"
    using assms by (auto simp: patch_with_def Let_def split: sum.splits option.splits prod.splits if_splits; blast)
  then show ?thesis using that by blast
qed

lemma patch_with_inv:
  assumes inv: "hb_inv db"
  shows "hb_inv (snd (patch_with lib sealer i patch now lock db))"
proof (cases "patch_with lib sealer i patch now lock db")
  case (Pair r db')
  show ?thesis
  proof (cases r)
    case (Inl e)
    with Pair patch_with_error inv show ?thesis by fastforce
  next
    case (Inr c)
    obtain current anchor db1 where q: "queryCheckByID db i = Inr current"
      and rs: "replaceSchedule (hc_AppID current) i (ApplyPatch current patch) anchor (storeTime now) db = Inr db1"
      and w: "db' = db1 \<or> (\<exists>p b a. writeProbeRow i p b a db1 = Inr db')"
      by (rule patch_with_shape [OF Pair [unfolded Inr]])
    from q have "i \<in> hc_ID ` set (hb_checks db)"
      by (auto simp: queryCheckByID_def split: option.splits dest: find_Some_in)
    then have "hb_inv db1" by (rule replaceSchedule_inv [OF inv _ rs])
    with w have "hb_inv db'" by (auto intro: writeProbeRow_inv)
    with Pair show ?thesis by simp
  qed
qed

lemma patches_inv:
  assumes "hb_inv db"
  shows "hb_inv (snd (hb_Patch lib sealer i patch now db))" "hb_inv (snd (PatchOwnedBy lib sealer i app patch now db))"
  using assms by (simp_all add: hb_Patch_def PatchOwnedBy_def patch_with_inv)

lemmas hb_ops_inv =
  hb_Create_inv patches_inv deletes_inv pause_resume_inv RecordPing_inv AdvanceDue_inv ClearPendingAlert_inv
  ClaimDueProbes_inv RecordProbeResult_inv

end
