(* ===== verification/Message_Store.thy ===== *)
theory Message_Store
  imports Database Utf8
begin

text \<open>
  The message store (\<^verbatim>\<open>delivery-api/internal/message/pgstore.go\<close>,
  \<^verbatim>\<open>pgstore_scheduled.go\<close>, \<^verbatim>\<open>pgstore_held.go\<close>). One definition per store operation; each is
  one transaction, so it takes the tables and returns its result with the tables it commits, and an
  error leaves the tables as they were (\<^verbatim>\<open>pgutil.WithTx\<close> rolls back). What the transaction
  reads from outside is an argument: Postgres's \<^verbatim>\<open>now()\<close> and \<^verbatim>\<open>gen_random_uuid()\<close>
  (\<open>tx_env\<close>), the rows other transactions hold locked (skipped by \<^verbatim>\<open>SKIP LOCKED\<close>), and
  what other transactions commit between an insert conflict and the re-select that follows it
  (\<open>tx_between\<close>).
\<close>

section \<open>Transactions\<close>

record tx_env =
  tx_now :: time
  tx_uuid :: string
  tx_between :: "nat \<Rightarrow> database \<Rightarrow> database"

type_synonym 'a tx = "(message_error + 'a) \<times> database"

record scheduled_caps =
  sc_PerApp :: int
  sc_Total :: int

record held_caps =
  hc_PerApp :: int
  hc_Total :: int

record delivery_schedule =
  sch_state :: delivery_state
  sch_nextAttemptAt :: "time option"
  sch_budgetStartedAt :: "time option"

definition pendingNow :: delivery_schedule where
  "pendingNow = \<lparr>sch_state = StatePending, sch_nextAttemptAt = None, sch_budgetStartedAt = None\<rparr>"

definition nullIfEmpty :: "string \<Rightarrow> string option" where
  "nullIfEmpty value = (if value = [] then None else Some value)"

definition coalesce :: "'a option \<Rightarrow> 'a \<Rightarrow> 'a" where
  "coalesce x d = (case x of None \<Rightarrow> d | Some v \<Rightarrow> v)"

section \<open>Reads\<close>

definition is_hex :: "char \<Rightarrow> bool" where
  "is_hex c \<longleftrightarrow> is_digit c \<or> (CHR ''a'' \<le> c \<and> c \<le> CHR ''f'') \<or> (CHR ''A'' \<le> c \<and> c \<le> CHR ''F'')"

definition canonicalUUIDPattern :: "string \<Rightarrow> bool" where
  "canonicalUUIDPattern s \<longleftrightarrow> length s = 36
     \<and> (\<forall>i \<in> set [0..<36]. if i \<in> {8, 13, 18, 23} then s ! i = CHR ''-'' else is_hex (s ! i))"

text \<open>A \<open>uuid\<close> column compares by value: the text form is read case-insensitively.\<close>

definition uuid_cast :: "string \<Rightarrow> string" where
  "uuid_cast = map to_lower"

definition scanMessage :: "message_row \<Rightarrow> stored_message" where
  "scanMessage m =
     \<lparr>sm_ID = m_id m,
      sm_Envelope =
        \<lparr>en_AppID = m_app_id m, en_Channel = m_channel m, en_IdempotencyKey = m_idempotency_key m,
         en_ToDestination = coalesce (m_to_destination m) [],
         en_ToRecipient = coalesce (m_to_recipient m) [],
         en_DeliverAt = m_deliver_at m, en_Critical = m_critical m, en_Payload = m_payload m,
         en_Display = m_display m, en_Hold = False\<rparr>,
      sm_CreatedAt = m_created_at m, sm_CancelledAt = m_cancelled_at m, sm_HeldAt = m_held_at m,
      sm_ReleasedAt = m_released_at m, sm_HeldCancelledAt = m_held_cancelled_at m,
      sm_ReleaseFailedAt = m_release_failed_at m,
      sm_ReleaseFailedReason = coalesce (m_release_failed_reason m) [],
      sm_Deliveries = []\<rparr>"

definition queryMessageHead :: "database \<Rightarrow> (message_row \<Rightarrow> bool) \<Rightarrow> message_error + stored_message" where
  "queryMessageHead db where =
     (case find where (db_messages db) of
        None \<Rightarrow> Inl ErrMessageNotFound
      | Some m \<Rightarrow> Inr (scanMessage m))"

definition delivery_order :: "delivery \<Rightarrow> string \<times> int" where
  "delivery_order d = (d_DestinationName d, d_ID d)"

definition queryMessage :: "database \<Rightarrow> (message_row \<Rightarrow> bool) \<Rightarrow> message_error + stored_message" where
  "queryMessage db where =
     (case queryMessageHead db where of
        Inl e \<Rightarrow> Inl e
      | Inr stored \<Rightarrow>
          Inr (stored\<lparr>sm_Deliveries := sort_key delivery_order (deliveries_of db (sm_ID stored))\<rparr>))"

definition by_key :: "string \<Rightarrow> string \<Rightarrow> message_row \<Rightarrow> bool" where
  "by_key appID key m \<longleftrightarrow> m_app_id m = appID \<and> m_idempotency_key m = key"

definition by_id :: "string \<Rightarrow> message_row \<Rightarrow> bool" where
  "by_id mid m \<longleftrightarrow> m_id m = uuid_cast mid"

definition GetMessage :: "database \<Rightarrow> string \<Rightarrow> message_error + stored_message" where
  "GetMessage db mid =
     (if \<not> canonicalUUIDPattern mid then Inl ErrMessageNotFound else queryMessage db (by_id mid))"

definition GetMessageByKey :: "database \<Rightarrow> string \<Rightarrow> string \<Rightarrow> message_error + stored_message" where
  "GetMessageByKey db appID key = queryMessage db (by_key appID key)"

section \<open>Inserts\<close>

definition new_delivery :: "tx_env \<Rightarrow> string \<Rightarrow> delivery_schedule \<Rightarrow> int \<Rightarrow> delivery_target \<Rightarrow> delivery" where
  "new_delivery env mid schedule did target =
     \<lparr>d_ID = did, d_MessageID = mid, d_DestinationID = dt_DestinationID target,
      d_DestinationName = dt_DestinationName target, d_DestinationType = dt_DestinationType target,
      d_State = sch_state schedule, d_DeadReason = None, d_AttemptCount = 0, d_BudgetAttempts = 0,
      d_BudgetStartedAt = coalesce (sch_budgetStartedAt schedule) (tx_now env),
      d_NextAttemptAt = coalesce (sch_nextAttemptAt schedule) (tx_now env),
      d_LastStatusCode = None, d_DeliveredAt = None, d_CreatedAt = tx_now env, d_UpdatedAt = tx_now env\<rparr>"

fun new_deliveries :: "tx_env \<Rightarrow> string \<Rightarrow> delivery_schedule \<Rightarrow> int \<Rightarrow> delivery_target list \<Rightarrow> delivery list" where
  "new_deliveries env mid schedule did [] = []"
| "new_deliveries env mid schedule did (t # ts) =
     new_delivery env mid schedule did t # new_deliveries env mid schedule (did + 1) ts"

text \<open>The unique index on (message, name), the destination foreign key and the row CHECKs.\<close>

definition insertable :: "database \<Rightarrow> delivery list \<Rightarrow> bool" where
  "insertable db rows \<longleftrightarrow>
     distinct (map (\<lambda>d. (d_MessageID d, d_DestinationName d)) (db_deliveries db @ rows))
     \<and> list_all deliveries_check rows
     \<and> list_all (\<lambda>d. case d_DestinationID d of None \<Rightarrow> True
                      | Some i \<Rightarrow> i \<in> sd_ID ` set (db_destinations db)) rows"

definition insertDeliveries ::
    "tx_env \<Rightarrow> database \<Rightarrow> string \<Rightarrow> delivery_target list \<Rightarrow> delivery_schedule \<Rightarrow> message_error + database" where
  "insertDeliveries env db mid targets schedule =
     (let rows = new_deliveries env mid schedule (db_delivery_seq db) targets
      in if insertable db rows
         then Inr (db\<lparr>db_deliveries := db_deliveries db @ rows,
                      db_delivery_seq := db_delivery_seq db + int (length targets)\<rparr>)
         else Inl (MessageFailure ''insert deliveries''))"

definition is_scheduled_message :: "database \<Rightarrow> message_row \<Rightarrow> bool" where
  "is_scheduled_message db m \<longleftrightarrow>
     list_ex (\<lambda>d. d_MessageID d = m_id m \<and> d_State d = StateScheduled) (db_deliveries db)"

definition countScheduledForApp :: "database \<Rightarrow> string \<Rightarrow> int" where
  "countScheduledForApp db appID =
     int (length (filter (\<lambda>m. m_app_id m = appID \<and> is_scheduled_message db m) (db_messages db)))"

definition countScheduledTotal :: "database \<Rightarrow> int" where
  "countScheduledTotal db =
     int (length (remdups (map d_MessageID (filter (\<lambda>d. d_State d = StateScheduled) (db_deliveries db)))))"

definition message_row_of :: "tx_env \<Rightarrow> envelope \<Rightarrow> time option \<Rightarrow> message_row" where
  "message_row_of env envelope heldAt =
     \<lparr>m_id = tx_uuid env, m_app_id = en_AppID envelope, m_channel = en_Channel envelope,
      m_idempotency_key = en_IdempotencyKey envelope,
      m_to_destination = nullIfEmpty (en_ToDestination envelope),
      m_to_recipient = nullIfEmpty (en_ToRecipient envelope),
      m_deliver_at = en_DeliverAt envelope, m_critical = en_Critical envelope,
      m_payload = en_Payload envelope, m_display = en_Display envelope, m_created_at = tx_now env,
      m_cancelled_at = None, m_held_at = heldAt, m_held_cancelled_at = None, m_released_at = None,
      m_release_failed_at = None, m_release_failed_reason = None\<rparr>"

text \<open>
  \<^verbatim>\<open>INSERT ... ON CONFLICT (app_id, idempotency_key) DO NOTHING RETURNING id\<close>: no row on a
  key conflict, an error on a primary-key or CHECK violation.
\<close>

datatype insert_result = Conflict | Rejected | Inserted database

definition insert_message_row :: "database \<Rightarrow> message_row \<Rightarrow> insert_result" where
  "insert_message_row db row =
     (if list_ex (by_key (m_app_id row) (m_idempotency_key row)) (db_messages db) then Conflict
      else if m_id row \<in> m_id ` set (db_messages db) \<or> \<not> messages_check row then Rejected
      else Inserted (db\<lparr>db_messages := db_messages db @ [row]\<rparr>))"

definition insertOnce ::
    "tx_env \<Rightarrow> nat \<Rightarrow> envelope \<Rightarrow> delivery_target list \<Rightarrow> delivery_schedule \<Rightarrow> scheduled_caps \<Rightarrow> database
     \<Rightarrow> (stored_message \<times> bool) tx" where
  "insertOnce env attempt envelope targets schedule caps db =
     (case insert_message_row db (message_row_of env envelope None) of
        Conflict \<Rightarrow>
          (let db' = tx_between env attempt db
           in case queryMessage db' (by_key (en_AppID envelope) (en_IdempotencyKey envelope)) of
                Inl e \<Rightarrow> (Inl e, db')
              | Inr existing \<Rightarrow> (Inr (existing, True), db'))
      | Rejected \<Rightarrow> (Inl (MessageFailure ''insert message''), db)
      | Inserted db1 \<Rightarrow>
          (case insertDeliveries env db1 (tx_uuid env) targets schedule of
             Inl e \<Rightarrow> (Inl e, db)
           | Inr db2 \<Rightarrow>
               if sc_PerApp caps > 0 \<and> countScheduledForApp db2 (en_AppID envelope) > sc_PerApp caps
               then (Inl ErrTooManyScheduled, db)
               else if sc_PerApp caps > 0 \<and> countScheduledTotal db2 > sc_Total caps
               then (Inl ErrScheduledCapacityReached, db)
               else case queryMessage db2 (\<lambda>m. m_id m = tx_uuid env) of
                      Inl e \<Rightarrow> (Inl e, db)
                    | Inr inserted \<Rightarrow> (Inr (inserted, False), db2)))"

definition maxInsertAttempts :: nat where "maxInsertAttempts = 2"

text \<open>The retry loop, with the attempts left and the number of the attempt.\<close>

fun insert_loop ::
    "string \<Rightarrow> (nat \<Rightarrow> database \<Rightarrow> (stored_message \<times> bool) tx) \<Rightarrow> nat \<Rightarrow> nat \<Rightarrow> database
     \<Rightarrow> (stored_message \<times> bool) tx" where
  "insert_loop gave_up once 0 attempt db = (Inl (MessageFailure gave_up), db)"
| "insert_loop gave_up once (Suc left) attempt db =
     (case once attempt db of
        (Inl ErrMessageNotFound, db') \<Rightarrow> insert_loop gave_up once left (Suc attempt) db'
      | r \<Rightarrow> r)"

definition insertWithRetry ::
    "tx_env \<Rightarrow> envelope \<Rightarrow> delivery_target list \<Rightarrow> delivery_schedule \<Rightarrow> scheduled_caps \<Rightarrow> database
     \<Rightarrow> (stored_message \<times> bool) tx" where
  "insertWithRetry env envelope targets schedule caps db =
     (if targets = [] then (Inl (MessageFailure ''insert message: no delivery targets''), db)
      else insert_loop ''insert message: conflicting message deleted during every attempt''
             (\<lambda>attempt. insertOnce env attempt envelope targets schedule caps) maxInsertAttempts 0 db)"

definition InsertMessage ::
    "tx_env \<Rightarrow> envelope \<Rightarrow> delivery_target list \<Rightarrow> database \<Rightarrow> (stored_message \<times> bool) tx" where
  "InsertMessage env envelope targets db =
     insertWithRetry env envelope targets pendingNow \<lparr>sc_PerApp = 0, sc_Total = 0\<rparr> db"

definition InsertScheduledMessage ::
    "tx_env \<Rightarrow> envelope \<Rightarrow> delivery_target list \<Rightarrow> scheduled_caps \<Rightarrow> database \<Rightarrow> (stored_message \<times> bool) tx" where
  "InsertScheduledMessage env envelope targets caps db =
     (if en_DeliverAt envelope = None
      then (Inl (MessageFailure ''insert scheduled message: deliver_at must be set''), db)
      else if sc_PerApp caps < 1
      then (Inl (MessageFailure ''insert scheduled message: max scheduled per app must be positive''), db)
      else if sc_Total caps < 1
      then (Inl (MessageFailure ''insert scheduled message: max scheduled total must be positive''), db)
      else insertWithRetry env envelope targets
             \<lparr>sch_state = StateScheduled, sch_nextAttemptAt = en_DeliverAt envelope,
              sch_budgetStartedAt = None\<rparr> caps db)"

definition countHeldForApp :: "database \<Rightarrow> string \<Rightarrow> int" where
  "countHeldForApp db appID =
     int (length (filter (\<lambda>m. m_app_id m = appID \<and> m_held_at m \<noteq> None) (db_messages db)))"

definition countHeldTotal :: "database \<Rightarrow> int" where
  "countHeldTotal db = int (length (filter (\<lambda>m. m_held_at m \<noteq> None) (db_messages db)))"

definition insertHeldOnce ::
    "tx_env \<Rightarrow> nat \<Rightarrow> envelope \<Rightarrow> held_caps \<Rightarrow> time \<Rightarrow> database \<Rightarrow> (stored_message \<times> bool) tx" where
  "insertHeldOnce env attempt envelope caps now db =
     (case insert_message_row db (message_row_of env envelope (Some now)) of
        Conflict \<Rightarrow>
          (let db' = tx_between env attempt db
           in case queryMessage db' (by_key (en_AppID envelope) (en_IdempotencyKey envelope)) of
                Inl e \<Rightarrow> (Inl e, db')
              | Inr existing \<Rightarrow> (Inr (existing, True), db'))
      | Rejected \<Rightarrow> (Inl (MessageFailure ''insert held message''), db)
      | Inserted db1 \<Rightarrow>
          if countHeldForApp db1 (en_AppID envelope) > hc_PerApp caps then (Inl ErrTooManyHeld, db)
          else if countHeldTotal db1 > hc_Total caps then (Inl ErrHeldCapacityReached, db)
          else case queryMessage db1 (\<lambda>m. m_id m = tx_uuid env) of
                 Inl e \<Rightarrow> (Inl e, db)
               | Inr inserted \<Rightarrow> (Inr (inserted, False), db1))"

definition InsertHeldMessage ::
    "tx_env \<Rightarrow> envelope \<Rightarrow> held_caps \<Rightarrow> time \<Rightarrow> database \<Rightarrow> (stored_message \<times> bool) tx" where
  "InsertHeldMessage env envelope caps now db =
     (if hc_PerApp caps < 1 then (Inl (MessageFailure ''insert held message: max held per app must be positive''), db)
      else if hc_Total caps < 1 then (Inl (MessageFailure ''insert held message: max held total must be positive''), db)
      else if IsZero now then (Inl (MessageFailure ''insert held message: now must be set''), db)
      else insert_loop ''insert held message: conflicting message deleted during every attempt''
             (\<lambda>attempt. insertHeldOnce env attempt envelope caps now) maxInsertAttempts 0 db)"

end
