(* ===== verification/Message_Queue.thy ===== *)
theory Message_Queue
  imports Message_Store
begin

text \<open>
  The queue side of the message store (\<^verbatim>\<open>pgstore.go\<close>): claiming a due delivery, recording an
  attempt, replay, the delivery log reads and the two retention deletes.
\<close>

section \<open>Claim\<close>

definition due :: "time \<Rightarrow> delivery \<Rightarrow> bool" where
  "due now d \<longleftrightarrow> d_State d = StatePending \<and> d_NextAttemptAt d \<le> now"

definition due_order :: "delivery \<Rightarrow> time \<times> int" where
  "due_order d = (d_NextAttemptAt d, d_ID d)"

text \<open>\<open>locked\<close> are the delivery rows another transaction holds, which \<^verbatim>\<open>SKIP LOCKED\<close> passes over.\<close>

definition ClaimDue ::
    "tx_env \<Rightarrow> (int \<Rightarrow> bool) \<Rightarrow> time \<Rightarrow> duration \<Rightarrow> database \<Rightarrow> (claim option) tx" where
  "ClaimDue env locked now lease db =
     (if lease \<le> 0 then (Inl (MessageFailure ''claim due: lease must be positive''), db)
      else case order_limit due_order 1 (filter (\<lambda>d. due now d \<and> \<not> locked (d_ID d)) (db_deliveries db)) of
        [] \<Rightarrow> (Inr None, db)
      | d # _ \<Rightarrow>
          (let leased = d\<lparr>d_NextAttemptAt := now + lease, d_UpdatedAt := tx_now env\<rparr>;
               db' = db\<lparr>db_deliveries := update_where (\<lambda>x. d_ID x = d_ID d)
                          (\<lambda>x. x\<lparr>d_NextAttemptAt := now + lease, d_UpdatedAt := tx_now env\<rparr>)
                          (db_deliveries db)\<rparr>
           in case queryMessageHead db' (\<lambda>m. m_id m = d_MessageID d) of
                Inl e \<Rightarrow> (Inl e, db)
              | Inr parent \<Rightarrow> (Inr (Some \<lparr>cl_Delivery = leased, cl_Message = parent\<rparr>), db')))"

section \<open>Record\<close>

definition validateAttemptResult :: "attempt_result \<Rightarrow> message_error + unit" where
  "validateAttemptResult result =
     (if (ar_Outcome (res_Record result) = OutcomeSuccess) \<noteq> (res_NextState result = StateDelivered)
      then Inl (MessageFailure
        ''record attempt: outcome success must pair with state delivered, and no other outcome may'')
      else case res_NextState result of
        StatePending \<Rightarrow>
          if IsZero (res_NextAttemptAt result)
          then Inl (MessageFailure ''record attempt: pending result needs next_attempt_at'')
          else if res_DeadReason result \<noteq> None
          then Inl (MessageFailure ''record attempt: dead_reason set on a non-dead result'')
          else Inr ()
      | StateDelivered \<Rightarrow>
          if res_DeadReason result \<noteq> None
          then Inl (MessageFailure ''record attempt: dead_reason set on a non-dead result'')
          else Inr ()
      | StateDead \<Rightarrow>
          if res_DeadReason result = None \<or> res_DeadReason result = Some (OtherReason [])
          then Inl (MessageFailure ''record attempt: dead result needs dead_reason'')
          else Inr ()
      | _ \<Rightarrow> Inl (MessageFailure ''record attempt: unknown next state''))"

definition maxAttemptErrorRunes :: int where "maxAttemptErrorRunes = 500"
definition maxResponseSnippetBytes :: int where "maxResponseSnippetBytes = 1024"

definition lockDelivery :: "database \<Rightarrow> int \<Rightarrow> message_error + delivery" where
  "lockDelivery db deliveryID =
     (case find (\<lambda>d. d_ID d = deliveryID) (db_deliveries db) of
        None \<Rightarrow> Inl ErrDeliveryNotFound
      | Some d \<Rightarrow> Inr d)"

definition attempt_row :: "database \<Rightarrow> delivery \<Rightarrow> attempt_record \<Rightarrow> attempt" where
  "attempt_row db current record =
     \<lparr>ar_DeliveryID = d_ID current, ar_Outcome = ar_Outcome record, ar_StatusCode = ar_StatusCode record,
      ar_LatencyMS = ar_LatencyMS record,
      ar_Error = cleanOptionalText (ar_Error record) maxAttemptErrorRunes truncateRunes,
      ar_ResponseSnippet =
        cleanOptionalText (ar_ResponseSnippet record) maxResponseSnippetBytes truncateBytes,
      ar_StartedAt = ar_StartedAt record,
      at_ID = db_attempt_seq db, at_AttemptNumber = d_AttemptCount current + 1\<rparr>"

text \<open>The CHECKs and the unique index (delivery, attempt number) of \<^verbatim>\<open>delivery_attempts\<close>.\<close>

definition attempt_insertable :: "database \<Rightarrow> attempt \<Rightarrow> bool" where
  "attempt_insertable db a \<longleftrightarrow>
     0 \<le> ar_LatencyMS a
     \<and> (case ar_Outcome a of OtherOutcome _ \<Rightarrow> False | _ \<Rightarrow> True)
     \<and> (case ar_Error a of None \<Rightarrow> True | Some e \<Rightarrow> int (rune_count e) \<le> maxAttemptErrorRunes)
     \<and> (case ar_ResponseSnippet a of None \<Rightarrow> True | Some e \<Rightarrow> int (length e) \<le> maxResponseSnippetBytes)
     \<and> (ar_DeliveryID a, at_AttemptNumber a) \<notin>
         (\<lambda>x. (ar_DeliveryID x, at_AttemptNumber x)) ` set (db_attempts db)"

definition apply_result :: "tx_env \<Rightarrow> attempt_result \<Rightarrow> delivery \<Rightarrow> delivery" where
  "apply_result env result d =
     d\<lparr>d_State := res_NextState result, d_DeadReason := res_DeadReason result,
       d_AttemptCount := d_AttemptCount d + 1, d_BudgetAttempts := d_BudgetAttempts d + 1,
       d_NextAttemptAt := (if res_NextState result = StatePending then res_NextAttemptAt result
                           else d_NextAttemptAt d),
       d_LastStatusCode := ar_StatusCode (res_Record result),
       d_DeliveredAt := (if res_NextState result = StateDelivered then Some (tx_now env) else d_DeliveredAt d),
       d_UpdatedAt := tx_now env\<rparr>"

definition RecordAttempt :: "tx_env \<Rightarrow> attempt_result \<Rightarrow> database \<Rightarrow> delivery tx" where
  "RecordAttempt env result db =
     (case validateAttemptResult result of
        Inl e \<Rightarrow> (Inl e, db)
      | Inr _ \<Rightarrow>
          (case lockDelivery db (ar_DeliveryID (res_Record result)) of
             Inl e \<Rightarrow> (Inl e, db)
           | Inr current \<Rightarrow>
               if d_State current \<noteq> StatePending then (Inr current, db)
               else
                 (let row = attempt_row db current (res_Record result);
                      updated = apply_result env result current
                  in if \<not> attempt_insertable db row then (Inl (MessageFailure ''insert attempt''), db)
                     else if \<not> deliveries_check updated then (Inl (MessageFailure ''update delivery''), db)
                     else (Inr updated,
                           db\<lparr>db_attempts := db_attempts db @ [row],
                              db_attempt_seq := db_attempt_seq db + 1,
                              db_deliveries := update_where (\<lambda>d. d_ID d = d_ID current)
                                (apply_result env result) (db_deliveries db)\<rparr>))))"

section \<open>The delivery log\<close>

definition admin_delivery_of :: "delivery \<Rightarrow> message_row \<Rightarrow> admin_delivery" where
  "admin_delivery_of d m = delivery.extend d \<lparr>ad_AppID = m_app_id m, ad_Channel = m_channel m\<rparr>"

text \<open>The join of \<^verbatim>\<open>message_deliveries d JOIN messages m ON m.id = d.message_id\<close>.\<close>

definition join_message :: "database \<Rightarrow> delivery \<Rightarrow> admin_delivery list" where
  "join_message db d =
     map (admin_delivery_of d) (filter (\<lambda>m. m_id m = d_MessageID d) (db_messages db))"

definition isDeliveryState :: "delivery_state \<Rightarrow> bool" where
  "isDeliveryState state \<longleftrightarrow> state = StatePending \<or> state = StateDelivered \<or> state = StateDead"

definition ListDeliveries :: "database \<Rightarrow> delivery_state \<Rightarrow> int \<Rightarrow> message_error + admin_delivery list" where
  "ListDeliveries db state limit =
     (if \<not> isDeliveryState state then Inl (MessageValidation ''invalid state'')
      else if limit < 1 then Inl (MessageValidation ''invalid limit'')
      else Inr (order_limit (\<lambda>d. (- d_UpdatedAt d, - d_ID d)) (nat limit)
                 (concat (map (join_message db) (filter (\<lambda>d. d_State d = state) (db_deliveries db))))))"

definition ListAttempts :: "database \<Rightarrow> int \<Rightarrow> message_error + attempt list" where
  "ListAttempts db deliveryID =
     (if deliveryID \<notin> d_ID ` set (db_deliveries db) then Inl ErrDeliveryNotFound
      else Inr (sort_key at_AttemptNumber (attempts_of db deliveryID)))"

definition replayed :: "tx_env \<Rightarrow> time \<Rightarrow> delivery \<Rightarrow> delivery" where
  "replayed env now d =
     d\<lparr>d_State := StatePending, d_DeadReason := None, d_BudgetAttempts := 0,
       d_BudgetStartedAt := now, d_NextAttemptAt := now, d_UpdatedAt := tx_now env\<rparr>"

definition Replay :: "tx_env \<Rightarrow> int \<Rightarrow> time \<Rightarrow> database \<Rightarrow> admin_delivery tx" where
  "Replay env deliveryID now db =
     (if IsZero now then (Inl (MessageFailure ''replay delivery: now must be set''), db)
      else case lockDelivery db deliveryID of
        Inl e \<Rightarrow> (Inl e, db)
      | Inr current \<Rightarrow>
          if d_State current \<noteq> StateDead then (Inl ErrDeliveryNotDead, db)
          else
            (let db' = db\<lparr>db_deliveries := update_where (\<lambda>d. d_ID d = d_ID current)
                              (replayed env now) (db_deliveries db)\<rparr>
             in case join_message db' (replayed env now current) of
                  [] \<Rightarrow> (Inl (MessageFailure ''replay delivery''), db)
                | d # _ \<Rightarrow> (Inr d, db')))"

section \<open>Retention\<close>

definition DeleteExpiredBatchSize :: int where "DeleteExpiredBatchSize = 500"
definition DeleteExpiredMaxBatches :: nat where "DeleteExpiredMaxBatches = 200"

definition message_age :: "message_row \<Rightarrow> time" where
  "message_age m =
     max (m_created_at m) (max (coalesce (m_deliver_at m) (m_created_at m))
       (max (coalesce (m_released_at m) (m_created_at m)) (coalesce (m_release_failed_at m) (m_created_at m))))"

definition expired :: "database \<Rightarrow> time \<Rightarrow> message_row \<Rightarrow> bool" where
  "expired db cutoff m \<longleftrightarrow>
     m_created_at m < cutoff
     \<and> (case m_cancelled_at m of None \<Rightarrow> message_age m < cutoff | Some t \<Rightarrow> t < cutoff)
     \<and> m_held_at m = None
     \<and> \<not> list_ex (\<lambda>d. d_MessageID d = m_id m \<and> (d_State d = StatePending \<or> d_State d = StateScheduled))
          (db_deliveries db)"

definition deleteExpiredSQL :: "time \<Rightarrow> int \<Rightarrow> database \<Rightarrow> nat \<times> database" where
  "deleteExpiredSQL cutoff batchSize db =
     (let chosen = order_limit (\<lambda>m. (m_created_at m, m_id m)) (nat batchSize)
                     (filter (expired db cutoff) (db_messages db))
      in (length chosen, delete_messages (m_id ` set chosen) db))"

definition deleteExpiredHeldSQL :: "(string \<Rightarrow> bool) \<Rightarrow> time \<Rightarrow> int \<Rightarrow> database \<Rightarrow> nat \<times> database" where
  "deleteExpiredHeldSQL locked heldCutoff batchSize db =
     (let held = (\<lambda>m. case m_held_at m of None \<Rightarrow> False | Some t \<Rightarrow> t < heldCutoff);
          chosen = order_limit (\<lambda>m. (coalesce (m_held_at m) 0, m_id m)) (nat batchSize)
                     (filter (\<lambda>m. held m \<and> \<not> locked (m_id m)) (db_messages db))
      in (length chosen, delete_messages (m_id ` set chosen) db))"

text \<open>
  The batch loop the two deletes share: it stops on a done context, on a short batch, and after the
  batches it was given. \<open>done b\<close> says that the context is done before batch \<open>b\<close>.
\<close>

fun delete_batches ::
    "(nat \<Rightarrow> bool) \<Rightarrow> (database \<Rightarrow> nat \<times> database) \<Rightarrow> int \<Rightarrow> nat \<Rightarrow> nat \<Rightarrow> int \<Rightarrow> database
     \<Rightarrow> (int \<times> message_error option) \<times> database" where
  "delete_batches ctx_done stmt batchSize 0 b sofar db = ((sofar, None), db)"
| "delete_batches ctx_done stmt batchSize (Suc left) b sofar db =
     (if ctx_done b then ((sofar, Some (MessageFailure ''context done'')), db)
      else case stmt db of
        (deleted, db') \<Rightarrow>
          if int deleted < batchSize then ((sofar + int deleted, None), db')
          else delete_batches ctx_done stmt batchSize left (Suc b) (sofar + int deleted) db')"

definition DeleteExpiredInBatches ::
    "(nat \<Rightarrow> bool) \<Rightarrow> time \<Rightarrow> int \<Rightarrow> database \<Rightarrow> (int \<times> message_error option) \<times> database" where
  "DeleteExpiredInBatches ctx_done cutoff batchSize db =
     (if batchSize < 1
      then ((0, Some (MessageFailure ''delete expired messages: batch size must be positive'')), db)
      else delete_batches ctx_done (deleteExpiredSQL cutoff batchSize) batchSize DeleteExpiredMaxBatches 0 0 db)"

definition DeleteExpired ::
    "(nat \<Rightarrow> bool) \<Rightarrow> time \<Rightarrow> database \<Rightarrow> (int \<times> message_error option) \<times> database" where
  "DeleteExpired ctx_done cutoff db = DeleteExpiredInBatches ctx_done cutoff DeleteExpiredBatchSize db"

definition DeleteExpiredHeldInBatches ::
    "(nat \<Rightarrow> bool) \<Rightarrow> (string \<Rightarrow> bool) \<Rightarrow> time \<Rightarrow> int \<Rightarrow> database \<Rightarrow> (int \<times> message_error option) \<times> database" where
  "DeleteExpiredHeldInBatches ctx_done locked heldCutoff batchSize db =
     (if batchSize < 1
      then ((0, Some (MessageFailure ''delete expired held messages: batch size must be positive'')), db)
      else delete_batches ctx_done (deleteExpiredHeldSQL locked heldCutoff batchSize) batchSize
             DeleteExpiredMaxBatches 0 0 db)"

definition DeleteExpiredHeld ::
    "(nat \<Rightarrow> bool) \<Rightarrow> (string \<Rightarrow> bool) \<Rightarrow> time \<Rightarrow> database \<Rightarrow> (int \<times> message_error option) \<times> database" where
  "DeleteExpiredHeld ctx_done locked heldCutoff db =
     DeleteExpiredHeldInBatches ctx_done locked heldCutoff DeleteExpiredBatchSize db"

end
