(* ===== verification/Message_Schedule.thy ===== *)
theory Message_Schedule
  imports Message_Queue
begin

text \<open>
  The scheduled-message side of the message store (\<^verbatim>\<open>pgstore_scheduled.go\<close>): replacing,
  cancelling, releasing and listing scheduled messages.
\<close>

section \<open>Replace\<close>

definition release_now :: "envelope \<Rightarrow> time \<Rightarrow> bool" where
  "release_now envelope now = (case en_DeliverAt envelope of None \<Rightarrow> True | Some t \<Rightarrow> \<not> t > now)"

definition replace_schedule :: "envelope \<Rightarrow> time \<Rightarrow> delivery_schedule" where
  "replace_schedule envelope now =
     (if release_now envelope now
      then \<lparr>sch_state = StatePending, sch_nextAttemptAt = Some now, sch_budgetStartedAt = Some now\<rparr>
      else \<lparr>sch_state = StateScheduled, sch_nextAttemptAt = en_DeliverAt envelope, sch_budgetStartedAt = None\<rparr>)"

definition replaced_row :: "envelope \<Rightarrow> time \<Rightarrow> message_row \<Rightarrow> message_row" where
  "replaced_row envelope now row =
     row\<lparr>m_channel := en_Channel envelope,
         m_to_destination := nullIfEmpty (en_ToDestination envelope),
         m_to_recipient := nullIfEmpty (en_ToRecipient envelope),
         m_deliver_at := (if release_now envelope now then Some now else en_DeliverAt envelope),
         m_critical := en_Critical envelope,
         m_payload := en_Payload envelope, m_display := en_Display envelope\<rparr>"

text \<open>The statements that rewrite the message row and its deliveries, before the final re-read.\<close>

definition replace_rows ::
    "tx_env \<Rightarrow> envelope \<Rightarrow> delivery_target list \<Rightarrow> time \<Rightarrow> message_row \<Rightarrow> database \<Rightarrow> message_error + database" where
  "replace_rows env envelope targets now row db =
     (if \<not> messages_check (replaced_row envelope now row) then Inl (MessageFailure ''replace message'')
      else insertDeliveries env
             (delete_deliveries_of (m_id row)
                (db\<lparr>db_messages := update_where (\<lambda>m. m_id m = m_id row) (\<lambda>_. replaced_row envelope now row)
                                     (db_messages db)\<rparr>))
             (m_id row) targets (replace_schedule envelope now))"

definition ReplaceScheduledMessage ::
    "tx_env \<Rightarrow> envelope \<Rightarrow> delivery_target list \<Rightarrow> time \<Rightarrow> database \<Rightarrow> (stored_message \<times> bool) tx" where
  "ReplaceScheduledMessage env envelope targets now db =
     (if targets = [] then (Inl (MessageFailure ''replace scheduled message: no delivery targets''), db)
      else if IsZero now then (Inl (MessageFailure ''replace scheduled message: now must be set''), db)
      else case find (by_key (en_AppID envelope) (en_IdempotencyKey envelope)) (db_messages db) of
        None \<Rightarrow> (Inl ErrMessageNotFound, db)
      | Some row \<Rightarrow>
          (case queryMessage db (\<lambda>m. m_id m = m_id row) of
             Inl e \<Rightarrow> (Inl e, db)
           | Inr current \<Rightarrow>
               if DeriveStatus (sm_Deliveries current) (State current) \<noteq> StatusScheduled
               then (Inr (current, False), db)
               else case replace_rows env envelope targets now row db of
                 Inl e \<Rightarrow> (Inl e, db)
               | Inr db2 \<Rightarrow>
                   (case queryMessage db2 (\<lambda>m. m_id m = m_id row) of
                      Inl e \<Rightarrow> (Inl e, db)
                    | Inr replaced \<Rightarrow> (Inr (replaced, True), db2))))"

section \<open>Cancel\<close>

definition no_cancel_outcome :: cancel_outcome where
  "no_cancel_outcome = \<lparr>co_MessageID = [], co_Status = None, co_Cancelled = False,
                        co_Transitioned = False, co_Found = False\<rparr>"

definition row_state :: "message_row \<Rightarrow> message_state" where
  "row_state m = \<lparr>ms_HeldAt = m_held_at m, ms_CancelledAt = m_cancelled_at m,
                  ms_ReleaseFailedAt = m_release_failed_at m\<rparr>"

definition cancelled_outcome :: "message_row \<Rightarrow> bool \<Rightarrow> cancel_outcome" where
  "cancelled_outcome m transitioned =
     \<lparr>co_MessageID = m_id m, co_Status = Some StatusCancelled, co_Cancelled = True,
      co_Transitioned = transitioned, co_Found = True\<rparr>"

text \<open>The transaction of \<open>cancel\<close> on the row its \<open>where\<close> clause found.\<close>

definition cancel_row :: "message_row \<Rightarrow> time \<Rightarrow> database \<Rightarrow> cancel_outcome tx" where
  "cancel_row m now db =
     (if m_cancelled_at m \<noteq> None then (Inr (cancelled_outcome m False), db)
      else if m_release_failed_at m \<noteq> None then
        (Inr \<lparr>co_MessageID = m_id m, co_Status = Some StatusReleaseFailed, co_Cancelled = False,
              co_Transitioned = False, co_Found = True\<rparr>, db)
      else if m_held_at m \<noteq> None then
        (Inr (cancelled_outcome m True),
         db\<lparr>db_messages := update_where (\<lambda>x. m_id x = m_id m)
              (\<lambda>x. x\<lparr>m_cancelled_at := Some now, m_held_cancelled_at := Some now, m_held_at := None\<rparr>)
              (db_messages db)\<rparr>)
      else
        (let status = DeriveStatus (deliveries_of db (m_id m)) (row_state m)
         in if status \<noteq> StatusScheduled then
              (Inr \<lparr>co_MessageID = m_id m, co_Status = Some status,
                    co_Cancelled = (status = StatusCancelled), co_Transitioned = False, co_Found = True\<rparr>, db)
            else if \<not> messages_check (m\<lparr>m_cancelled_at := Some now\<rparr>)
            then (Inl (MessageFailure ''cancel message''), db)
            else
              (Inr (cancelled_outcome m True),
               db\<lparr>db_deliveries := update_where
                     (\<lambda>d. d_MessageID d = m_id m \<and> d_State d = StateScheduled)
                     (\<lambda>d. d\<lparr>d_State := StateCancelled, d_UpdatedAt := now\<rparr>) (db_deliveries db),
                  db_messages := update_where (\<lambda>x. m_id x = m_id m)
                     (\<lambda>x. x\<lparr>m_cancelled_at := Some now\<rparr>) (db_messages db)\<rparr>)))"

definition cancel :: "(message_row \<Rightarrow> bool) \<Rightarrow> time \<Rightarrow> database \<Rightarrow> cancel_outcome tx" where
  "cancel where now db =
     (if IsZero now then (Inl (MessageFailure ''cancel message: now must be set''), db)
      else case find where (db_messages db) of
        None \<Rightarrow> (Inr no_cancel_outcome, db)
      | Some m \<Rightarrow> cancel_row m now db)"

definition CancelMessage :: "string \<Rightarrow> string \<Rightarrow> time \<Rightarrow> database \<Rightarrow> cancel_outcome tx" where
  "CancelMessage mid appID now db =
     (if \<not> canonicalUUIDPattern mid \<or> appID = [] then (Inr no_cancel_outcome, db)
      else cancel (\<lambda>m. by_id mid m \<and> m_app_id m = appID) now db)"

definition AdminCancelMessage :: "string \<Rightarrow> time \<Rightarrow> database \<Rightarrow> cancel_outcome tx" where
  "AdminCancelMessage mid now db =
     (if \<not> canonicalUUIDPattern mid then (Inr no_cancel_outcome, db) else cancel (by_id mid) now db)"

definition CancelMessageByKey :: "string \<Rightarrow> string \<Rightarrow> time \<Rightarrow> database \<Rightarrow> cancel_outcome tx" where
  "CancelMessageByKey appID key now db = cancel (by_key appID key) now db"

section \<open>Release\<close>

definition release_due :: "time \<Rightarrow> delivery \<Rightarrow> bool" where
  "release_due now d \<longleftrightarrow> d_State d = StateScheduled \<and> d_NextAttemptAt d \<le> now"

text \<open>
  \<open>releaseProbeSQL\<close>: the messages with a due scheduled delivery, grouped, ordered by their
  earliest due time and then by id.
\<close>

definition group_min :: "delivery list \<Rightarrow> string \<Rightarrow> time" where
  "group_min rows mid = Min (d_NextAttemptAt ` set (filter (\<lambda>d. d_MessageID d = mid) rows))"

definition releaseProbeSQL :: "time \<Rightarrow> int \<Rightarrow> database \<Rightarrow> string list" where
  "releaseProbeSQL now limit db =
     (let rows = filter (release_due now) (db_deliveries db)
      in order_limit (\<lambda>mid. (group_min rows mid, mid)) (nat limit) (remdups (map d_MessageID rows)))"

definition released :: "time \<Rightarrow> delivery \<Rightarrow> delivery" where
  "released now d = d\<lparr>d_State := StatePending, d_NextAttemptAt := now, d_BudgetStartedAt := now,
                      d_UpdatedAt := now\<rparr>"

definition ReleaseDue :: "(string \<Rightarrow> bool) \<Rightarrow> time \<Rightarrow> int \<Rightarrow> database \<Rightarrow> int tx" where
  "ReleaseDue locked now limit db =
     (if IsZero now then (Inl (MessageFailure ''release due: now must be set''), db)
      else if limit < 1 then (Inl (MessageFailure ''release due: limit must be positive''), db)
      else
        (let candidates = releaseProbeSQL now limit db;
             lockedIDs = sort (filter (\<lambda>mid. \<not> locked mid)
                 (map m_id (filter (\<lambda>m. m_id m \<in> set candidates) (db_messages db))));
             hit = (\<lambda>d. d_MessageID d \<in> set lockedIDs \<and> release_due now d)
         in (Inr (int (length (remdups (map d_MessageID (filter hit (db_deliveries db)))))),
             db\<lparr>db_deliveries := update_where hit (released now) (db_deliveries db)\<rparr>)))"

section \<open>List\<close>

definition scheduled_of_row :: "message_row \<Rightarrow> time \<Rightarrow> scheduled_message" where
  "scheduled_of_row m deliverAt =
     \<lparr>sc_MessageID = m_id m, sc_AppID = m_app_id m, sc_Channel = m_channel m,
      sc_IdempotencyKey = m_idempotency_key m, sc_DeliverAt = deliverAt, sc_CreatedAt = m_created_at m,
      sc_Recipient = (m_to_recipient m \<noteq> None), sc_Destinations = []\<rparr>"

definition attachScheduledDestinations :: "database \<Rightarrow> scheduled_message \<Rightarrow> scheduled_message" where
  "attachScheduledDestinations db s =
     (if sc_Recipient s then s
      else s\<lparr>sc_Destinations :=
        map (\<lambda>d. \<lparr>sdn_Name = d_DestinationName d, sdn_Type = d_DestinationType d\<rparr>)
          (sort_key d_DestinationName
            (filter (\<lambda>d. d_MessageID d = sc_MessageID s \<and> d_State d = StateScheduled) (db_deliveries db)))\<rparr>)"

fun scan_scheduled :: "message_row list \<Rightarrow> message_error + scheduled_message list" where
  "scan_scheduled [] = Inr []"
| "scan_scheduled (m # ms) =
     (case m_deliver_at m of
        None \<Rightarrow> Inl (MessageFailure (''list scheduled messages: message '' @ m_id m
                                      @ '' is scheduled without a deliver_at''))
      | Some t \<Rightarrow> (case scan_scheduled ms of
                     Inl e \<Rightarrow> Inl e
                   | Inr rest \<Rightarrow> Inr (scheduled_of_row m t # rest)))"

definition ListScheduled :: "database \<Rightarrow> int \<Rightarrow> message_error + (scheduled_message list \<times> int)" where
  "ListScheduled db limit =
     (if limit < 1 then Inl (MessageFailure ''list scheduled messages: limit must be positive'')
      else case scan_scheduled
                  (order_limit (\<lambda>m. (m_deliver_at m = None, coalesce (m_deliver_at m) 0, m_id m)) (nat limit)
                     (filter (is_scheduled_message db) (db_messages db))) of
             Inl e \<Rightarrow> Inl e
           | Inr listed \<Rightarrow> Inr (map (attachScheduledDestinations db) listed, countScheduledTotal db))"

end
