(* ===== verification/Message_Service.thy ===== *)
theory Message_Service
  imports Message_Validate Message_Schedule
begin

text \<open>
  The message service (\<^verbatim>\<open>delivery-api/internal/message/service.go\<close>): submit with its
  idempotency, replace, schedule and hold branches, the app-scoped reads, cancel, replay and the
  bounded lists. Its store is a record of the operations it calls, on an arbitrary state \<open>'s\<close>;
  \<open>between k\<close> is what other callers commit before the \<open>k\<close>-th store call of one request. An
  operation also returns whether it woke the worker. \<open>Await\<close> is a poll of \<open>Get\<close> bounded by a
  timer; its stop condition \<open>attempted\<close> and its result on a sequence of reads are modelled.
\<close>

section \<open>The service\<close>

record 's message_store =
  st_GetMessage :: "string \<Rightarrow> 's \<Rightarrow> message_error + stored_message"
  st_GetMessageByKey :: "string \<Rightarrow> string \<Rightarrow> 's \<Rightarrow> message_error + stored_message"
  st_InsertMessage :: "envelope \<Rightarrow> delivery_target list \<Rightarrow> 's \<Rightarrow> (message_error + stored_message \<times> bool) \<times> 's"
  st_InsertScheduledMessage ::
    "envelope \<Rightarrow> delivery_target list \<Rightarrow> scheduled_caps \<Rightarrow> 's \<Rightarrow> (message_error + stored_message \<times> bool) \<times> 's"
  st_InsertHeldMessage :: "envelope \<Rightarrow> held_caps \<Rightarrow> time \<Rightarrow> 's \<Rightarrow> (message_error + stored_message \<times> bool) \<times> 's"
  st_ReplaceScheduledMessage ::
    "envelope \<Rightarrow> delivery_target list \<Rightarrow> time \<Rightarrow> 's \<Rightarrow> (message_error + stored_message \<times> bool) \<times> 's"
  st_CancelMessage :: "string \<Rightarrow> string \<Rightarrow> time \<Rightarrow> 's \<Rightarrow> (message_error + cancel_outcome) \<times> 's"
  st_AdminCancelMessage :: "string \<Rightarrow> time \<Rightarrow> 's \<Rightarrow> (message_error + cancel_outcome) \<times> 's"
  st_CancelMessageByKey :: "string \<Rightarrow> string \<Rightarrow> time \<Rightarrow> 's \<Rightarrow> (message_error + cancel_outcome) \<times> 's"
  st_ListDeliveries :: "delivery_state \<Rightarrow> int \<Rightarrow> 's \<Rightarrow> message_error + admin_delivery list"
  st_ListAttempts :: "int \<Rightarrow> 's \<Rightarrow> message_error + attempt list"
  st_Replay :: "int \<Rightarrow> time \<Rightarrow> 's \<Rightarrow> (message_error + admin_delivery) \<times> 's"
  st_ListScheduled :: "int \<Rightarrow> 's \<Rightarrow> message_error + (scheduled_message list \<times> int)"

record 's message_service =
  sv_lib :: text_lib
  sv_store :: "'s message_store"
  sv_resolve :: "string \<Rightarrow> string \<Rightarrow> string \<Rightarrow> 's \<Rightarrow> registry_error + resolved_destination list"
  sv_publishers :: "(string \<Rightarrow> 's \<Rightarrow> registry_error + bool) option"
  sv_supportedTypes :: "dest_type \<Rightarrow> bool"
  sv_maxScheduled :: int
  sv_maxTotal :: int
  sv_holdUnrouted :: bool
  sv_heldCaps :: held_caps

definition DefaultMaxScheduledPerApp :: int where "DefaultMaxScheduledPerApp = 1000"
definition DefaultMaxScheduledTotal :: int where "DefaultMaxScheduledTotal = 100000"
definition DefaultMaxHeldPerApp :: int where "DefaultMaxHeldPerApp = 1000"
definition DefaultMaxHeldTotal :: int where "DefaultMaxHeldTotal = 100000"
definition MaxListLimit :: int where "MaxListLimit = 200"

lemmas service_consts =
  DefaultMaxScheduledPerApp_def DefaultMaxScheduledTotal_def DefaultMaxHeldPerApp_def DefaultMaxHeldTotal_def
  MaxListLimit_def

definition positive_or :: "int \<Rightarrow> int \<Rightarrow> int" where
  "positive_or value default' = (if value \<le> 0 then default' else value)"

definition NewService :: "'s message_service \<Rightarrow> 's message_service" where
  "NewService config =
     config\<lparr>sv_maxScheduled := positive_or (sv_maxScheduled config) DefaultMaxScheduledPerApp,
            sv_maxTotal := positive_or (sv_maxTotal config) DefaultMaxScheduledTotal,
            sv_heldCaps := \<lparr>hc_PerApp = positive_or (hc_PerApp (sv_heldCaps config)) DefaultMaxHeldPerApp,
                            hc_Total = positive_or (hc_Total (sv_heldCaps config)) DefaultMaxHeldTotal\<rparr>\<rparr>"

section \<open>Settings\<close>

definition HoldUnroutedFromEnv :: "(string \<Rightarrow> string) \<Rightarrow> string + bool" where
  "HoldUnroutedFromEnv getenv =
     (let v = getenv ''DELIVERY_HOLD_UNROUTED''
      in if v \<in> {[], ''0'', ''false''} then Inr False
         else if v \<in> {''1'', ''true''} then Inr True
         else Inl ''invalid DELIVERY_HOLD_UNROUTED'')"

definition MaxHeldPerAppFromEnv :: "(string \<Rightarrow> string) \<Rightarrow> string + int" where
  "MaxHeldPerAppFromEnv getenv = Bounded getenv ''DELIVERY_MAX_HELD_PER_APP'' DefaultMaxHeldPerApp 100000"

definition MaxHeldTotalFromEnv :: "(string \<Rightarrow> string) \<Rightarrow> string + int" where
  "MaxHeldTotalFromEnv getenv = Bounded getenv ''DELIVERY_MAX_HELD_TOTAL'' DefaultMaxHeldTotal 10000000"

definition MaxScheduledFromEnv :: "(string \<Rightarrow> string) \<Rightarrow> string + int" where
  "MaxScheduledFromEnv getenv = Bounded getenv ''DELIVERY_MAX_SCHEDULED_PER_APP'' DefaultMaxScheduledPerApp 100000"

definition MaxScheduledTotalFromEnv :: "(string \<Rightarrow> string) \<Rightarrow> string + int" where
  "MaxScheduledTotalFromEnv getenv = Bounded getenv ''DELIVERY_MAX_SCHEDULED_TOTAL'' DefaultMaxScheduledTotal 10000000"

section \<open>Targets\<close>

definition errMsgDisplayRequired :: string where
  "errMsgDisplayRequired = ''display.title or display.body is required for ntfy and discord destinations''"

fun targets_of ::
    "(dest_type \<Rightarrow> bool) \<Rightarrow> envelope \<Rightarrow> resolved_destination list \<Rightarrow> message_error + delivery_target list" where
  "targets_of supported envelope [] = Inr []"
| "targets_of supported envelope (d # ds) =
     (if \<not> supported (rd_Type d) then Inl ErrUnsupportedDestinationType
      else if (rd_Type d = TypeNtfy \<or> rd_Type d = TypeDiscord) \<and> \<not> HasRenderableText (en_Display envelope)
      then msg_invalid errMsgDisplayRequired
      else case targets_of supported envelope ds of
             Inl e \<Rightarrow> Inl e
           | Inr ts \<Rightarrow> Inr (\<lparr>dt_DestinationID = Some (rd_ID d), dt_DestinationName = rd_Name d,
                             dt_DestinationType = rd_Type d\<rparr> # ts))"

definition resolveRecipientTarget ::
    "'s message_service \<Rightarrow> envelope \<Rightarrow> 's \<Rightarrow> message_error + delivery_target list" where
  "resolveRecipientTarget svc envelope s =
     (if \<not> sv_supportedTypes svc TypeNtfy then Inl ErrUnsupportedDestinationType
      else if length (PersonChannelTopic (en_AppID envelope) (en_ToRecipient envelope) (en_Channel envelope)) > 64
      then msg_invalid ''app_id and channel are too long for a recipient topic''
      else if \<not> HasRenderableText (en_Display envelope) then msg_invalid errMsgDisplayRequired
      else case sv_publishers svc of
        None \<Rightarrow> Inl (RegistryError ErrNoPublisher)
      | Some has \<Rightarrow>
          (case has (en_AppID envelope) s of
             Inl e \<Rightarrow> Inl (RegistryError e)
           | Inr present \<Rightarrow>
               if present
               then Inr [\<lparr>dt_DestinationID = None, dt_DestinationName = RecipientDestinationName,
                          dt_DestinationType = TypeNtfy\<rparr>]
               else Inl (RegistryError ErrNoPublisher)))"

definition resolveTargets ::
    "'s message_service \<Rightarrow> envelope \<Rightarrow> 's \<Rightarrow> message_error + delivery_target list" where
  "resolveTargets svc envelope s =
     (if en_ToRecipient envelope \<noteq> [] then resolveRecipientTarget svc envelope s
      else case sv_resolve svc (en_AppID envelope) (en_ToDestination envelope) (en_Channel envelope) s of
        Inl e \<Rightarrow> Inl (RegistryError e)
      | Inr resolved \<Rightarrow>
          if resolved = [] then Inl ErrNoDestinationMatched
          else targets_of (sv_supportedTypes svc) envelope resolved)"

section \<open>Submit\<close>

type_synonym submit_result = "message_error + (stored_message \<times> submit_outcome)"

definition isFuture :: "time option \<Rightarrow> time \<Rightarrow> bool" where
  "isFuture deliverAt now = (case deliverAt of None \<Rightarrow> False | Some t \<Rightarrow> t > now)"

definition newSubmitOutcome :: "stored_message \<Rightarrow> bool \<Rightarrow> bool \<Rightarrow> submit_outcome" where
  "newSubmitOutcome stored duplicate replaced =
     \<lparr>so_Duplicate = duplicate, so_Replaced = replaced,
      so_Scheduled = (DeriveStatus (sm_Deliveries stored) (State stored) = StatusScheduled), so_Held = False\<rparr>"

definition holdMessage :: "'s message_service \<Rightarrow> envelope \<Rightarrow> time \<Rightarrow> 's \<Rightarrow> submit_result \<times> 's" where
  "holdMessage svc envelope now s =
     (case st_InsertHeldMessage (sv_store svc) envelope (sv_heldCaps svc) now s of
        (Inl e, s') \<Rightarrow> (Inl e, s')
      | (Inr (stored, duplicate), s') \<Rightarrow>
          (Inr (stored, \<lparr>so_Duplicate = duplicate, so_Replaced = False, so_Scheduled = False,
                         so_Held = (\<not> duplicate)\<rparr>), s'))"

text \<open>
  \<open>submitExisting\<close> returns \<open>None\<close> when the request is not settled (the message vanished), and
  otherwise its result with whether the worker was woken.
\<close>

definition submitExisting ::
    "'s message_service \<Rightarrow> (nat \<Rightarrow> 's \<Rightarrow> 's) \<Rightarrow> envelope \<Rightarrow> stored_message \<Rightarrow> time \<Rightarrow> 's
     \<Rightarrow> (submit_result \<times> bool) option \<times> 's" where
  "submitExisting svc between envelope existing now s =
     (if DeriveStatus (sm_Deliveries existing) (State existing) \<noteq> StatusScheduled
         \<or> sameContent (sv_lib svc) (sm_Envelope existing) envelope
      then (Some (Inr (existing, newSubmitOutcome existing True False), False), s)
      else case resolveTargets svc envelope s of
        Inl e \<Rightarrow> (Some (Inl e, False), s)
      | Inr targets \<Rightarrow>
          (case st_ReplaceScheduledMessage (sv_store svc) envelope targets now (between 1 s) of
             (Inl e, s') \<Rightarrow>
               if e = ErrMessageNotFound then
                 (let s'' = between 2 s'
                  in case st_GetMessageByKey (sv_store svc) (en_AppID envelope) (en_IdempotencyKey envelope) s'' of
                       Inr current \<Rightarrow> (Some (Inr (current, newSubmitOutcome current True False), False), s'')
                     | Inl e' \<Rightarrow> if e' = ErrMessageNotFound then (None, s'') else (Some (Inl e', False), s''))
               else (Some (Inl e, False), s')
           | (Inr (stored, replaced), s') \<Rightarrow>
               (let outcome = newSubmitOutcome stored (\<not> replaced) replaced
                in (Some (Inr (stored, outcome), replaced \<and> \<not> so_Scheduled outcome), s'))))"

text \<open>A message for the future is inserted scheduled, under the caps; any other at once.\<close>

definition insert_call ::
    "'s message_service \<Rightarrow> envelope \<Rightarrow> delivery_target list \<Rightarrow> time \<Rightarrow> 's
     \<Rightarrow> (message_error + stored_message \<times> bool) \<times> 's" where
  "insert_call svc envelope targets now s =
     (if isFuture (en_DeliverAt envelope) now
      then st_InsertScheduledMessage (sv_store svc) envelope targets
             \<lparr>sc_PerApp = sv_maxScheduled svc, sc_Total = sv_maxTotal svc\<rparr> s
      else st_InsertMessage (sv_store svc) envelope targets s)"

definition submitNew ::
    "'s message_service \<Rightarrow> (nat \<Rightarrow> 's \<Rightarrow> 's) \<Rightarrow> envelope \<Rightarrow> time \<Rightarrow> 's \<Rightarrow> (submit_result \<times> bool) \<times> 's" where
  "submitNew svc between envelope now s =
     (case resolveTargets svc envelope s of
        Inl e \<Rightarrow>
          if e = ErrNoDestinationMatched \<and> en_Hold envelope \<and> sv_holdUnrouted svc
             \<and> en_ToRecipient envelope = [] \<and> en_ToDestination envelope = []
          then (case holdMessage svc envelope now (between 3 s) of (r, s') \<Rightarrow> ((r, False), s'))
          else ((Inl e, False), s)
      | Inr targets \<Rightarrow>
          (case insert_call svc envelope targets now (between 3 s) of
             (Inl e, s') \<Rightarrow> ((Inl e, False), s')
           | (Inr (stored, duplicate), s') \<Rightarrow>
               (let outcome = newSubmitOutcome stored duplicate False
                in ((Inr (stored, outcome), \<not> duplicate \<and> \<not> so_Scheduled outcome), s'))))"

definition hashed :: "text_lib \<Rightarrow> envelope \<Rightarrow> envelope" where
  "hashed lib envelope =
     (if en_ToRecipient envelope \<noteq> [] \<and> \<not> IsHash (en_ToRecipient envelope)
      then envelope\<lparr>en_ToRecipient := Hash lib (en_ToRecipient envelope)\<rparr> else envelope)"

definition Submit ::
    "'s message_service \<Rightarrow> (nat \<Rightarrow> 's \<Rightarrow> 's) \<Rightarrow> time \<Rightarrow> envelope \<Rightarrow> 's \<Rightarrow> (submit_result \<times> bool) \<times> 's" where
  "Submit svc between now submitted s =
     (case ValidateEnvelope (sv_lib svc) submitted of
        Inl e \<Rightarrow> ((Inl e, False), s)
      | Inr _ \<Rightarrow>
          (let envelope = hashed (sv_lib svc) submitted; s = between 0 s
           in case st_GetMessageByKey (sv_store svc) (en_AppID envelope) (en_IdempotencyKey envelope) s of
                Inr existing \<Rightarrow>
                  (case submitExisting svc between envelope existing now s of
                     (Some r, s') \<Rightarrow> (r, s')
                   | (None, s') \<Rightarrow> submitNew svc between envelope now s')
              | Inl e \<Rightarrow>
                  if e = ErrMessageNotFound then submitNew svc between envelope now s
                  else ((Inl e, False), s)))"

section \<open>Reads\<close>

definition Get :: "'s message_service \<Rightarrow> string \<Rightarrow> string \<Rightarrow> 's \<Rightarrow> message_error + stored_message" where
  "Get svc appID mid s =
     (case ValidateAppID appID of Inl e \<Rightarrow> Inl e | Inr _ \<Rightarrow>
      case st_GetMessage (sv_store svc) mid s of Inl e \<Rightarrow> Inl e | Inr stored \<Rightarrow>
      if en_AppID (sm_Envelope stored) \<noteq> appID then Inl ErrMessageNotFound else Inr stored)"

definition GetByKey :: "'s message_service \<Rightarrow> string \<Rightarrow> string \<Rightarrow> 's \<Rightarrow> message_error + stored_message" where
  "GetByKey svc appID key s =
     (case ValidateAppID appID of Inl e \<Rightarrow> Inl e | Inr _ \<Rightarrow>
      case ValidateIdempotencyKey key of Inl e \<Rightarrow> Inl e | Inr _ \<Rightarrow>
      st_GetMessageByKey (sv_store svc) appID key s)"

definition attempted :: "stored_message \<Rightarrow> bool" where
  "attempted stored \<longleftrightarrow>
     list_all (\<lambda>d. \<not> (d_State d = StatePending \<and> d_AttemptCount d < 1)) (sm_Deliveries stored)"

text \<open>
  The loop of \<open>Await\<close> on what happens to it: a tick that reads the state \<open>s\<close>, the deadline with
  its last read, or a done context. A run that gets no event keeps waiting (\<open>None\<close>).
\<close>

datatype 's await_event = AwaitTick 's | AwaitDeadline 's | ContextDone

fun await_loop ::
    "'s message_service \<Rightarrow> string \<Rightarrow> string \<Rightarrow> stored_message \<Rightarrow> 's await_event list
     \<Rightarrow> (stored_message \<times> message_error option) option" where
  "await_loop svc appID mid latest [] = None"
| "await_loop svc appID mid latest (ContextDone # _) = Some (latest, Some (MessageFailure ''context done''))"
| "await_loop svc appID mid latest (AwaitDeadline s # _) =
     (case Get svc appID mid s of Inl e \<Rightarrow> Some (latest, Some e) | Inr final \<Rightarrow> Some (final, None))"
| "await_loop svc appID mid latest (AwaitTick s # events) =
     (case Get svc appID mid s of
        Inl e \<Rightarrow> Some (latest, Some e)
      | Inr next \<Rightarrow> if attempted next then Some (next, None) else await_loop svc appID mid next events)"

definition Await ::
    "'s message_service \<Rightarrow> string \<Rightarrow> string \<Rightarrow> duration \<Rightarrow> bool \<Rightarrow> 's \<Rightarrow> 's await_event list
     \<Rightarrow> (message_error + stored_message \<times> message_error option) option" where
  "Await svc appID mid timeout slot_free s events =
     (case Get svc appID mid s of
        Inl e \<Rightarrow> Some (Inl e)
      | Inr latest \<Rightarrow>
          if timeout \<le> 0 \<or> attempted latest \<or> \<not> slot_free then Some (Inr (latest, None))
          else map_option Inr (await_loop svc appID mid latest events))"

definition service_ListDeliveries ::
    "'s message_service \<Rightarrow> delivery_state \<Rightarrow> int \<Rightarrow> 's \<Rightarrow> message_error + admin_delivery list" where
  "service_ListDeliveries svc state limit s =
     (if \<not> isDeliveryState state then msg_invalid ''invalid state''
      else if limit < 1 \<or> limit > MaxListLimit then msg_invalid ''invalid limit''
      else st_ListDeliveries (sv_store svc) state limit s)"

definition service_ListAttempts :: "'s message_service \<Rightarrow> int \<Rightarrow> 's \<Rightarrow> message_error + attempt list" where
  "service_ListAttempts svc deliveryID s = st_ListAttempts (sv_store svc) deliveryID s"

definition service_ListScheduled ::
    "'s message_service \<Rightarrow> int \<Rightarrow> 's \<Rightarrow> message_error + (scheduled_message list \<times> int)" where
  "service_ListScheduled svc limit s =
     (if limit < 1 \<or> limit > MaxListLimit then msg_invalid ''invalid limit''
      else st_ListScheduled (sv_store svc) limit s)"

section \<open>Cancel and replay\<close>

definition notFoundOutcome :: "string \<Rightarrow> cancel_outcome" where
  "notFoundOutcome requestedID =
     \<lparr>co_MessageID = requestedID, co_Status = Some StatusNotFound, co_Cancelled = False,
      co_Transitioned = False, co_Found = False\<rparr>"

definition finishCancel ::
    "(message_error + cancel_outcome) \<times> 's \<Rightarrow> string \<Rightarrow> (message_error + cancel_outcome) \<times> 's" where
  "finishCancel r requestedID =
     (case r of
        (Inl e, s) \<Rightarrow> (Inl e, s)
      | (Inr outcome, s) \<Rightarrow> (Inr (if co_Found outcome then outcome else notFoundOutcome requestedID), s))"

definition Cancel ::
    "'s message_service \<Rightarrow> time \<Rightarrow> string \<Rightarrow> string \<Rightarrow> 's \<Rightarrow> (message_error + cancel_outcome) \<times> 's" where
  "Cancel svc now appID mid s =
     (case ValidateAppID appID of Inl e \<Rightarrow> (Inl e, s) | Inr _ \<Rightarrow>
      if \<not> canonicalUUIDPattern mid then (Inr (notFoundOutcome mid), s)
      else finishCancel (st_CancelMessage (sv_store svc) mid appID now s) mid)"

definition CancelByKey ::
    "'s message_service \<Rightarrow> time \<Rightarrow> string \<Rightarrow> string \<Rightarrow> 's \<Rightarrow> (message_error + cancel_outcome) \<times> 's" where
  "CancelByKey svc now appID key s =
     (case ValidateAppID appID of Inl e \<Rightarrow> (Inl e, s) | Inr _ \<Rightarrow>
      case ValidateIdempotencyKey key of Inl e \<Rightarrow> (Inl e, s) | Inr _ \<Rightarrow>
      finishCancel (st_CancelMessageByKey (sv_store svc) appID key now s) [])"

definition AdminCancel ::
    "'s message_service \<Rightarrow> time \<Rightarrow> string \<Rightarrow> 's \<Rightarrow> (message_error + cancel_outcome) \<times> 's" where
  "AdminCancel svc now mid s =
     (if \<not> canonicalUUIDPattern mid then (Inr (notFoundOutcome mid), s)
      else finishCancel (st_AdminCancelMessage (sv_store svc) mid now s) mid)"

text \<open>A successful replay wakes the worker.\<close>

definition service_Replay ::
    "'s message_service \<Rightarrow> time \<Rightarrow> int \<Rightarrow> 's \<Rightarrow> ((message_error + admin_delivery) \<times> bool) \<times> 's" where
  "service_Replay svc now deliveryID s =
     (case st_Replay (sv_store svc) deliveryID now s of
        (Inl e, s') \<Rightarrow> ((Inl e, False), s')
      | (Inr row, s') \<Rightarrow> ((Inr row, True), s'))"

section \<open>The service over any store\<close>

text \<open>The content of a stored envelope is the content submitted (the hold flag is not stored).\<close>

definition same_envelope :: "envelope \<Rightarrow> envelope \<Rightarrow> bool" where
  "same_envelope a b \<longleftrightarrow>
     en_Channel b = en_Channel a \<and> en_ToDestination b = en_ToDestination a \<and> en_ToRecipient b = en_ToRecipient a
     \<and> en_Critical b = en_Critical a \<and> en_DeliverAt b = en_DeliverAt a \<and> en_Payload b = en_Payload a
     \<and> en_Display b = en_Display a"

abbreviation status_of :: "stored_message \<Rightarrow> message_status" where
  "status_of m \<equiv> DeriveStatus (sm_Deliveries m) (State m)"

text \<open>
  What a submission relies on to keep an invariant of the store: the writes it makes keep it, for
  every envelope that satisfies \<open>ok\<close>.
\<close>

locale message_store_invariant =
  fixes inv :: "'s \<Rightarrow> bool" and st :: "'s message_store" and ok :: "envelope \<Rightarrow> bool"
  assumes insert_inv: "inv s \<Longrightarrow> ok e \<Longrightarrow> inv (snd (st_InsertMessage st e ts s))"
    and insert_scheduled_inv: "inv s \<Longrightarrow> ok e \<Longrightarrow> inv (snd (st_InsertScheduledMessage st e ts caps s))"
    and insert_held_inv: "inv s \<Longrightarrow> ok e \<Longrightarrow> inv (snd (st_InsertHeldMessage st e hcaps now s))"
    and replace_inv: "inv s \<Longrightarrow> ok e \<Longrightarrow> inv (snd (st_ReplaceScheduledMessage st e ts now s))"
begin

text \<open>No request breaks the invariant, whatever other callers do between its store calls.\<close>

definition calm :: "(nat \<Rightarrow> 's \<Rightarrow> 's) \<Rightarrow> bool" where
  "calm between \<longleftrightarrow> (\<forall>k s. inv s \<longrightarrow> inv (between k s))"

lemma hold_inv: "sv_store svc = st \<Longrightarrow> inv s \<Longrightarrow> ok e \<Longrightarrow> inv (snd (holdMessage svc e now s))"
  using insert_held_inv [of s e "sv_heldCaps svc" now]
  by (auto simp: holdMessage_def split: prod.split sum.split)

lemma submitNew_inv:
  assumes "sv_store svc = st" "inv s" "calm between" "ok e"
  shows "inv (snd (submitNew svc between e now s))"
proof -
  have s3: "inv (between 3 s)" using assms(2,3) by (simp add: calm_def)
  note ins = insert_inv [OF s3 assms(4)] insert_scheduled_inv [OF s3 assms(4)] hold_inv [OF assms(1) s3 assms(4)]
  show ?thesis
  proof (cases "resolveTargets svc e s")
    case (Inl x)
    then show ?thesis using assms(2) ins(3) [of now] by (simp add: submitNew_def case_prod_beta)
  next
    case (Inr ts)
    have "inv (snd (insert_call svc e ts now (between 3 s)))" using ins(1,2) by (simp add: insert_call_def assms(1))
    then show ?thesis by (auto simp: submitNew_def Inr Let_def split: prod.split sum.split)
  qed
qed

lemma submitExisting_inv:
  assumes "sv_store svc = st" "inv s" "calm between" "ok e"
  shows "inv (snd (submitExisting svc between e m now s))"
proof -
  have "inv (snd (st_ReplaceScheduledMessage st e ts now (between 1 s)))" for ts
    using assms(2-4) by (simp add: calm_def replace_inv)
  moreover from this have "inv (between 2 (snd (st_ReplaceScheduledMessage st e ts now (between 1 s))))" for ts
    using assms(3) by (simp add: calm_def)
  ultimately show ?thesis
    using assms(1,2) by (auto simp: submitExisting_def Let_def case_prod_beta split: sum.split prod.split)
qed

lemma Submit_inv:
  assumes "sv_store svc = st" "inv s" "calm between"
    and ok: "ValidateEnvelope (sv_lib svc) e = Inr () \<Longrightarrow> ok (hashed (sv_lib svc) e)"
  shows "inv (snd (Submit svc between now e s))"
proof (cases "ValidateEnvelope (sv_lib svc) e")
  case (Inl x)
  with assms(2) show ?thesis by (simp add: Submit_def)
next
  case (Inr u)
  define e' s0 where "e' = hashed (sv_lib svc) e" and "s0 = between 0 s"
  have e': "ok e'" using ok Inr by (simp add: e'_def)
  have s0: "inv s0" using assms(2,3) by (simp add: s0_def calm_def)
  have new: "inv (snd (submitNew svc between e' now x))" if "inv x" for x
    using submitNew_inv [OF assms(1) that assms(3) e'] .
  show ?thesis
  proof (cases "st_GetMessageByKey st (en_AppID e') (en_IdempotencyKey e') s0")
    case (Inl y)
    then show ?thesis using Inr s0 new [OF s0] by (simp add: Submit_def Let_def assms(1) e'_def [symmetric] s0_def [symmetric])
  next
    case (Inr m)
    obtain r s1 where r: "submitExisting svc between e' m now s0 = (r, s1)"
      by (cases "submitExisting svc between e' m now s0")
    then have "inv s1" using submitExisting_inv [OF assms(1) s0 assms(3) e', of m now] by simp
    then show ?thesis
      using Inr \<open>ValidateEnvelope (sv_lib svc) e = Inr u\<close> new r
      by (cases r) (simp_all add: Submit_def Let_def assms(1) e'_def [symmetric] s0_def [symmetric])
  qed
qed

end

text \<open>
  The full contract: the other writes keep the invariant too; a lookup by key finds the app's own
  message; an insert under a free key stores exactly the submitted message under it; a replace of a
  scheduled message stores the submitted content under the same key.
\<close>

locale message_store_laws = message_store_invariant inv st "\<lambda>_. True"
  for inv :: "'s \<Rightarrow> bool" and st :: "'s message_store" +
  assumes cancel_inv: "inv s \<Longrightarrow> inv (snd (st_CancelMessage st mid app now s))"
    and admin_cancel_inv: "inv s \<Longrightarrow> inv (snd (st_AdminCancelMessage st mid now s))"
    and cancel_key_inv: "inv s \<Longrightarrow> inv (snd (st_CancelMessageByKey st app key now s))"
    and replay_inv: "inv s \<Longrightarrow> inv (snd (st_Replay st i now s))"
    and insert_new: "inv s \<Longrightarrow> st_GetMessageByKey st (en_AppID e) (en_IdempotencyKey e) s = Inl ErrMessageNotFound \<Longrightarrow>
      st_InsertMessage st e ts s = (Inr (m, dup), s') \<Longrightarrow>
      \<not> dup \<and> st_GetMessageByKey st (en_AppID e) (en_IdempotencyKey e) s' = Inr m \<and> same_envelope e (sm_Envelope m)"
    and insert_scheduled_new: "inv s \<Longrightarrow>
      st_GetMessageByKey st (en_AppID e) (en_IdempotencyKey e) s = Inl ErrMessageNotFound \<Longrightarrow>
      st_InsertScheduledMessage st e ts caps s = (Inr (m, dup), s') \<Longrightarrow>
      \<not> dup \<and> st_GetMessageByKey st (en_AppID e) (en_IdempotencyKey e) s' = Inr m \<and> same_envelope e (sm_Envelope m)"
    and insert_held_new: "inv s \<Longrightarrow>
      st_GetMessageByKey st (en_AppID e) (en_IdempotencyKey e) s = Inl ErrMessageNotFound \<Longrightarrow>
      st_InsertHeldMessage st e hcaps now s = (Inr (m, dup), s') \<Longrightarrow>
      \<not> dup \<and> st_GetMessageByKey st (en_AppID e) (en_IdempotencyKey e) s' = Inr m \<and> same_envelope e (sm_Envelope m)"
    and replace_existing: "inv s \<Longrightarrow>
      st_GetMessageByKey st (en_AppID e) (en_IdempotencyKey e) s = Inr m0 \<Longrightarrow> status_of m0 = StatusScheduled \<Longrightarrow>
      st_ReplaceScheduledMessage st e ts now s = (r, s') \<Longrightarrow>
      r \<noteq> Inl ErrMessageNotFound
      \<and> (\<forall>m d. r = Inr (m, d) \<longrightarrow> d \<and> sm_ID m = sm_ID m0 \<and> st_GetMessageByKey st (en_AppID e) (en_IdempotencyKey e) s' = Inr m
           \<and> (status_of m = StatusScheduled \<longrightarrow> same_envelope e (sm_Envelope m)))"
    and get_by_key: "inv s \<Longrightarrow> st_GetMessageByKey st app key s = Inr m \<Longrightarrow>
      en_AppID (sm_Envelope m) = app \<and> en_IdempotencyKey (sm_Envelope m) = key"
begin

text \<open>
  With nobody else writing, the message \<open>Submit\<close> returns is the one stored under the key, and a
  repeat of the request changes nothing and returns it again as a duplicate.
\<close>

definition stays :: "'s message_service \<Rightarrow> envelope \<Rightarrow> stored_message \<Rightarrow> 's \<Rightarrow> bool" where
  "stays svc e m s \<longleftrightarrow> st_GetMessageByKey st (en_AppID e) (en_IdempotencyKey e) s = Inr m
     \<and> (status_of m \<noteq> StatusScheduled \<or> same_envelope e (sm_Envelope m) \<or> sameContent (sv_lib svc) (sm_Envelope m) e)"

lemma submitNew_stays:
  assumes st: "sv_store svc = st" and inv: "inv s"
    and none: "st_GetMessageByKey st (en_AppID e) (en_IdempotencyKey e) s = Inl ErrMessageNotFound"
    and sub: "submitNew svc (\<lambda>_ s. s) e now s = ((Inr (m, o'), w), s')"
  shows "stays svc e m s'"
proof -
  consider ts dup where "insert_call svc e ts now s = (Inr (m, dup), s')"
    | dup where "st_InsertHeldMessage st e (sv_heldCaps svc) now s = (Inr (m, dup), s')"
    using sub st
    by (auto simp: submitNew_def holdMessage_def Let_def split: sum.splits prod.splits if_splits)
  then have "st_GetMessageByKey st (en_AppID e) (en_IdempotencyKey e) s' = Inr m \<and> same_envelope e (sm_Envelope m)"
  proof cases
    case (1 ts dup)
    then show ?thesis
      using insert_new [OF inv none] insert_scheduled_new [OF inv none]
      by (auto simp: insert_call_def st split: if_splits)
  next
    case (2 dup)
    then show ?thesis using insert_held_new [OF inv none] by blast
  qed
  then show ?thesis by (simp add: stays_def)
qed

lemma submitExisting_stays:
  assumes st: "sv_store svc = st" and inv: "inv s"
    and some: "st_GetMessageByKey st (en_AppID e) (en_IdempotencyKey e) s = Inr m0"
  shows "\<exists>r w s'. submitExisting svc (\<lambda>_ s. s) e m0 now s = (Some (r, w), s')
    \<and> (\<forall>m o'. r = Inr (m, o') \<longrightarrow> stays svc e m s')"
proof (cases "status_of m0 \<noteq> StatusScheduled \<or> sameContent (sv_lib svc) (sm_Envelope m0) e")
  case True
  then show ?thesis using some by (auto simp: submitExisting_def stays_def)
next
  case False
  then have sch: "status_of m0 = StatusScheduled" by simp
  show ?thesis
  proof (cases "resolveTargets svc e s")
    case (Inl x)
    with False show ?thesis by (auto simp: submitExisting_def)
  next
    case (Inr ts)
    obtain r s1 where r: "st_ReplaceScheduledMessage st e ts now s = (r, s1)"
      by (cases "st_ReplaceScheduledMessage st e ts now s")
    note law = replace_existing [OF inv some sch r]
    show ?thesis
    proof (cases r)
      case (Inl x)
      with law False Inr r st show ?thesis by (auto simp: submitExisting_def)
    next
      case (Inr p)
      obtain m d where p: "p = (m, d)" by (cases p)
      with law Inr have "stays svc e m s1" by (simp add: stays_def)
      with False \<open>resolveTargets svc e s = Inr ts\<close> r st Inr p show ?thesis
        by (auto simp: submitExisting_def Let_def)
    qed
  qed
qed

lemma Submit_stays:
  assumes st: "sv_store svc = st" and inv: "inv s"
    and sub: "Submit svc (\<lambda>_ s. s) now e s = ((Inr (m, o'), w), s')"
  shows "stays svc (hashed (sv_lib svc) e) m s'"
proof -
  let ?e = "hashed (sv_lib svc) e"
  from sub obtain u where u: "ValidateEnvelope (sv_lib svc) e = Inr u"
    by (cases "ValidateEnvelope (sv_lib svc) e") (auto simp: Submit_def)
  show ?thesis
  proof (cases "st_GetMessageByKey st (en_AppID ?e) (en_IdempotencyKey ?e) s")
    case (Inl x)
    with sub u have "x = ErrMessageNotFound" "submitNew svc (\<lambda>_ s. s) ?e now s = ((Inr (m, o'), w), s')"
      by (auto simp: Submit_def Let_def st split: if_splits)
    with submitNew_stays [OF st inv] Inl show ?thesis by blast
  next
    case (Inr m0)
    from submitExisting_stays [OF st inv Inr, of now] obtain r w' s1 where
      r: "submitExisting svc (\<lambda>_ s. s) ?e m0 now s = (Some (r, w'), s1)" "\<forall>m o'. r = Inr (m, o') \<longrightarrow> stays svc ?e m s1"
      by blast
    with sub u Inr show ?thesis by (simp add: Submit_def Let_def st)
  qed
qed

text \<open>What a submission returned is what the key now finds.\<close>

lemma Submit_stored:
  assumes "sv_store svc = st" "inv s" "Submit svc (\<lambda>_ s. s) now e s = ((Inr (m, o'), w), s')"
  shows "st_GetMessageByKey st (en_AppID e) (en_IdempotencyKey e) s' = Inr m"
  using Submit_stays [OF assms] by (auto simp: stays_def hashed_def split: if_splits)

lemma stays_same_content:
  assumes "stays svc e m s" "tl_json_decode (sv_lib svc) (en_Payload e) = Some j" "json_wf j"
  shows "status_of m \<noteq> StatusScheduled \<or> sameContent (sv_lib svc) (sm_Envelope m) e"
proof -
  have "sameContent (sv_lib svc) (sm_Envelope m) e" if "same_envelope e (sm_Envelope m)"
    using that assms(2,3) by (intro sameContent_refl [of "sv_lib svc" "sm_Envelope m" j]) (simp_all add: same_envelope_def)
  with assms(1) show ?thesis by (auto simp: stays_def)
qed

lemma Submit_again:
  assumes st: "sv_store svc = st" and stays: "stays svc (hashed (sv_lib svc) e) m s"
    and valid: "ValidateEnvelope (sv_lib svc) e = Inr ()"
    and j: "tl_json_decode (sv_lib svc) (en_Payload e) = Some j" "json_wf j"
  shows "Submit svc (\<lambda>_ s. s) now e s = ((Inr (m, newSubmitOutcome m True False), False), s)"
proof -
  have "en_Payload (hashed (sv_lib svc) e) = en_Payload e" by (simp add: hashed_def)
  from stays_same_content [OF stays, unfolded this, OF j] stays valid st show ?thesis
    by (auto simp: Submit_def Let_def stays_def submitExisting_def)
qed

lemma Submit_idempotent:
  assumes st: "sv_store svc = st" and inv: "inv s"
    and sub: "Submit svc (\<lambda>_ s. s) now e s = ((Inr (m, o'), w), s')"
    and j: "tl_json_decode (sv_lib svc) (en_Payload e) = Some j" "json_wf j"
  shows "Submit svc (\<lambda>_ s. s) now' e s' = ((Inr (m, newSubmitOutcome m True False), False), s')"
proof (rule Submit_again [OF st Submit_stays [OF st inv sub] _ j])
  show "ValidateEnvelope (sv_lib svc) e = Inr ()"
    using sub by (cases "ValidateEnvelope (sv_lib svc) e") (auto simp: Submit_def)
qed

end

end
