(* ===== verification/Heartbeat_Service.thy ===== *)
theory Heartbeat_Service
  imports Heartbeat_Invariant Message_Service
begin

text \<open>
  \<^verbatim>\<open>internal/heartbeat/service.go\<close>, \<^verbatim>\<open>app_service.go\<close>, \<^verbatim>\<open>checker.go\<close>, \<^verbatim>\<open>prober.go\<close> and
  \<^verbatim>\<open>probe_eval.go\<close>: the use cases over the store, the alert a check announces, the tick that turns the
  outbox into messages, and the probe run. RFC 3339 formatting, the HTTP client and the request
  constructor are parameters; \<open>between\<close> is what other transactions commit between two calls.
\<close>

section \<open>The alert text\<close>

fun reason_text :: "down_reason \<Rightarrow> string" where
  "reason_text ReasonMissed = ''missed''"
| "reason_text ReasonFail = ''fail''"
| "reason_text ReasonHTTPStatus = ''http_status''"
| "reason_text ReasonTimeout = ''timeout''"
| "reason_text ReasonBodyMismatch = ''body_mismatch''"
| "reason_text ReasonBlocked = ''blocked''"
| "reason_text ReasonTLS = ''tls''"
| "reason_text ReasonScheme = ''scheme''"
| "reason_text ReasonNetwork = ''network''"
| "reason_text ReasonConfig = ''config''"
| "reason_text (OtherDownReason s) = s"

fun probeReasonLabels :: "down_reason \<Rightarrow> string option" where
  "probeReasonLabels ReasonHTTPStatus = Some ''unexpected HTTP status''"
| "probeReasonLabels ReasonTimeout = Some ''timed out''"
| "probeReasonLabels ReasonBodyMismatch = Some ''body did not match''"
| "probeReasonLabels ReasonBlocked = Some ''blocked address''"
| "probeReasonLabels ReasonTLS = Some ''TLS error''"
| "probeReasonLabels ReasonScheme = Some ''non-HTTPS URL''"
| "probeReasonLabels ReasonNetwork = Some ''network error''"
| "probeReasonLabels ReasonConfig = Some ''access credential error''"
| "probeReasonLabels _ = None"

definition bodyUnrecognisedReason :: string where
  "bodyUnrecognisedReason = ''Check is down; reason unrecognised.''"

definition valueOr :: "string option \<Rightarrow> string \<Rightarrow> string" where
  "valueOr value fallback = (case value of None \<Rightarrow> fallback | Some v \<Rightarrow> v)"

definition formatTime :: "(time \<Rightarrow> string) \<Rightarrow> time option \<Rightarrow> string option" where
  "formatTime format value = map_option format value"

text \<open>\<open>Duration.String\<close> on a whole number of seconds.\<close>

definition duration_text :: "int \<Rightarrow> string" where
  "duration_text n =
     (let m = \<bar>n\<bar>; sign = (if n < 0 then ''-'' else [])
      in sign @ (if m < 60 then dec_int m @ ''s''
                 else if m < 3600 then dec_int (m div 60) @ ''m'' @ dec_int (m mod 60) @ ''s''
                 else dec_int (m div 3600) @ ''h'' @ dec_int (m mod 3600 div 60) @ ''m'' @ dec_int (m mod 60) @ ''s''))"

definition probeDownBody :: "(time \<Rightarrow> string) \<Rightarrow> stored_check \<Rightarrow> down_reason \<Rightarrow> string" where
  "probeDownBody format check reason =
     (if reason = ReasonMissed
      then ''Check went down at '' @ valueOr (formatTime format (hc_DownSince check)) ''unknown''
           @ ''; no probe result was recorded (the prober may be stalled).''
      else case probeReasonLabels reason of
        None \<Rightarrow> bodyUnrecognisedReason
      | Some label \<Rightarrow>
          (let detail = (case hc_Probe check of None \<Rightarrow> []
                         | Some p \<Rightarrow> (case ps_DownDetail p of None \<Rightarrow> [] | Some d \<Rightarrow> SanitizeProbeDetail d))
           in if detail = [] then ''Probe failed ('' @ label @ '').''
              else ''Probe failed ('' @ label @ ''): '' @ detail @ ''.''))"

definition downBody :: "(time \<Rightarrow> string) \<Rightarrow> stored_check \<Rightarrow> string option \<Rightarrow> string" where
  "downBody format check lastPing =
     (case hc_DownReason check of
        None \<Rightarrow> bodyUnrecognisedReason
      | Some reason \<Rightarrow>
          if Kind check = KindProbe then probeDownBody format check reason
          else case reason of
            ReasonFail \<Rightarrow> ''Failure reported at '' @ valueOr lastPing ''unknown'' @ ''.''
          | ReasonMissed \<Rightarrow>
              ''No ping since '' @ valueOr lastPing ''creation'' @ '' (period '' @ duration_text (hc_PeriodSeconds check)
              @ '', grace '' @ duration_text (hc_GraceSeconds check) @ '').''
          | _ \<Rightarrow> bodyUnrecognisedReason)"

definition recoveredBody :: "stored_check \<Rightarrow> string option \<Rightarrow> string option \<Rightarrow> string" where
  "recoveredBody check lastPing downSince =
     (if Kind check = KindProbe then ''Probe succeeded'' else ''Ping received'')
     @ '' at '' @ valueOr lastPing ''unknown'' @ ''; down since '' @ valueOr downSince ''unknown'' @ ''.''"

section \<open>The alert payload\<close>

text \<open>
  \<^verbatim>\<open>encoding/json\<close> on a string: quotes, backslashes, controls, the HTML characters and the two line
  separators are escaped, and a byte that is not UTF-8 becomes the escaped replacement character.
\<close>

definition hex_digit :: "nat \<Rightarrow> char" where
  "hex_digit n = (if n < 10 then char_of (48 + n) else char_of (87 + n))"

definition json_ascii :: "char \<Rightarrow> string" where
  "json_ascii c =
     (let b = byte c in
      if b = 34 \<or> b = 92 then [char_of (92 :: nat), c]
      else if b = 8 then [char_of (92 :: nat), CHR ''b'']
      else if b = 12 then [char_of (92 :: nat), CHR ''f'']
      else if b = 10 then [char_of (92 :: nat), CHR ''n'']
      else if b = 13 then [char_of (92 :: nat), CHR ''r'']
      else if b = 9 then [char_of (92 :: nat), CHR ''t'']
      else if b < 32 \<or> b = 60 \<or> b = 62 \<or> b = 38
      then [char_of (92 :: nat), CHR ''u'', CHR ''0'', CHR ''0'', hex_digit (b div 16), hex_digit (b mod 16)]
      else [c])"

function json_body :: "string \<Rightarrow> string" where
  "json_body s =
     (case s of
        [] \<Rightarrow> []
      | c # cs \<Rightarrow>
          if byte c < 128 then json_ascii c @ json_body cs
          else case decode_width s of
            None \<Rightarrow> char_of (92 :: nat) # ''ufffd'' @ json_body cs
          | Some w \<Rightarrow>
              (if map byte (take 3 s) = [226, 128, 168] then char_of (92 :: nat) # ''u2028''
               else if map byte (take 3 s) = [226, 128, 169] then char_of (92 :: nat) # ''u2029''
               else take w s) @ json_body (drop w s))"
  by pat_completeness auto
termination
  by (relation "measure length") (auto dest!: decode_width_range)

declare json_body.simps [simp del]

definition json_string :: "string \<Rightarrow> string" where
  "json_string s = [CHR 0x22] @ json_body s @ [CHR 0x22]"

definition json_nullable :: "string option \<Rightarrow> string" where
  "json_nullable s = (case s of None \<Rightarrow> ''null'' | Some x \<Rightarrow> json_string x)"

definition json_field :: "string \<Rightarrow> string \<Rightarrow> string" where
  "json_field name value = json_string name @ '':'' @ value"

record alert_payload =
  ap_Type :: string
  ap_AppID :: string
  ap_Check :: string
  ap_Reason :: "string option"
  ap_LastPingAt :: "string option"
  ap_DownSince :: "string option"
  ap_PeriodSeconds :: int
  ap_GraceSeconds :: int

definition marshal_payload :: "alert_payload \<Rightarrow> string" where
  "marshal_payload p =
     ''{'' @ json_field ''type'' (json_string (ap_Type p)) @ '','' @ json_field ''app_id'' (json_string (ap_AppID p))
     @ '','' @ json_field ''check'' (json_string (ap_Check p)) @ '','' @ json_field ''reason'' (json_nullable (ap_Reason p))
     @ '','' @ json_field ''last_ping_at'' (json_nullable (ap_LastPingAt p))
     @ '','' @ json_field ''down_since'' (json_nullable (ap_DownSince p))
     @ '','' @ json_field ''period_seconds'' (dec_int (ap_PeriodSeconds p))
     @ '','' @ json_field ''grace_seconds'' (dec_int (ap_GraceSeconds p)) @ ''}''"

definition alert_key :: "int \<Rightarrow> int \<Rightarrow> string \<Rightarrow> string" where
  "alert_key i alertSeq destination = ''hb:'' @ dec_int i @ '':'' @ dec_int alertSeq @ '':'' @ destination"

definition alert_envelope ::
    "stored_check \<Rightarrow> alert_payload \<Rightarrow> display \<Rightarrow> bool \<Rightarrow> string \<Rightarrow> envelope" where
  "alert_envelope check payload display critical destination =
     \<lparr>en_AppID = hc_AppID check, en_Channel = ''heartbeat'',
      en_IdempotencyKey = alert_key (hc_ID check) (hc_AlertSeq check) destination,
      en_ToDestination = destination, en_ToRecipient = [], en_DeliverAt = None, en_Critical = critical,
      en_Payload = marshal_payload payload, en_Display = Some display, en_Hold = False\<rparr>"

definition buildAlertEnvelope ::
    "(time \<Rightarrow> string) \<Rightarrow> stored_check \<Rightarrow> alert_kind \<Rightarrow> string \<Rightarrow> envelope option" where
  "buildAlertEnvelope format check kind destination =
     (let lastPing = formatTime format (hc_LastPingAt check); downSince = formatTime format (hc_DownSince check);
          subject = hc_AppID check @ ''/'' @ hc_Name check;
          payload = \<lparr>ap_Type = [], ap_AppID = hc_AppID check, ap_Check = hc_Name check, ap_Reason = None,
                     ap_LastPingAt = lastPing, ap_DownSince = downSince,
                     ap_PeriodSeconds = hc_PeriodSeconds check, ap_GraceSeconds = hc_GraceSeconds check\<rparr>
      in case kind of
           AlertDown \<Rightarrow>
             Some (alert_envelope check
               (payload\<lparr>ap_Type := ''heartbeat.down'', ap_Reason := map_option reason_text (hc_DownReason check)\<rparr>)
               \<lparr>dp_Title = ''Heartbeat down: '' @ subject, dp_Body = downBody format check lastPing, dp_URL = [],
                dp_Priority = ''high''\<rparr> True destination)
         | AlertRecovered \<Rightarrow>
             Some (alert_envelope check (payload\<lparr>ap_Type := ''heartbeat.recovered''\<rparr>)
               \<lparr>dp_Title = ''Heartbeat recovered: '' @ subject, dp_Body = recoveredBody check lastPing downSince,
                dp_URL = [], dp_Priority = ''default''\<rparr> False destination)
         | OtherAlert _ \<Rightarrow> None)"

section \<open>The tick\<close>

text \<open>The part of the store, and the message service, that a tick calls.\<close>

record 's alert_outbox =
  ob_AdvanceDue :: "time \<Rightarrow> 's \<Rightarrow> (heartbeat_error + stored_check list) \<times> 's"
  ob_ListPendingAlerts :: "'s \<Rightarrow> heartbeat_error + stored_check list"
  ob_ClearPendingAlert :: "int \<Rightarrow> int \<Rightarrow> 's \<Rightarrow> (heartbeat_error + bool) \<times> 's"
  ob_Submit :: "envelope \<Rightarrow> 's \<Rightarrow> (message_error + unit) \<times> 's"

datatype flush_error =
    UnknownAlertKind | BuildFailed string | SubmitFailed string message_error | ClearFailed heartbeat_error

text \<open>A destination that is gone, disabled or without a sink is skipped, not retried.\<close>

definition skipped :: "message_error \<Rightarrow> bool" where
  "skipped e \<longleftrightarrow> e = RegistryError ErrUnknownDestination \<or> e = RegistryError ErrDestinationDisabled
     \<or> e = ErrUnsupportedDestinationType"

fun flush_each ::
    "'s alert_outbox \<Rightarrow> (time \<Rightarrow> string) \<Rightarrow> stored_check \<Rightarrow> alert_kind \<Rightarrow> destination_ref list \<Rightarrow> 's \<Rightarrow> flush_error list \<times> 's" where
  "flush_each ob format check kind [] s = ([], s)"
| "flush_each ob format check kind (d # ds) s =
     (if \<not> dr_Enabled d then flush_each ob format check kind ds s
      else case buildAlertEnvelope format check kind (dr_Name d) of
        None \<Rightarrow> (case flush_each ob format check kind ds s of (es, s') \<Rightarrow> (BuildFailed (dr_Name d) # es, s'))
      | Some envelope \<Rightarrow>
          (case ob_Submit ob envelope s of
             (Inr _, s') \<Rightarrow> flush_each ob format check kind ds s'
           | (Inl e, s') \<Rightarrow>
               if skipped e then flush_each ob format check kind ds s'
               else (case flush_each ob format check kind ds s' of (es, s'') \<Rightarrow> (SubmitFailed (dr_Name d) e # es, s''))))"

definition flush ::
    "'s alert_outbox \<Rightarrow> (time \<Rightarrow> string) \<Rightarrow> ('s \<Rightarrow> 's) \<Rightarrow> stored_check \<Rightarrow> 's \<Rightarrow> flush_error list \<times> 's" where
  "flush ob format between check s =
     (case hc_PendingAlert check of
        None \<Rightarrow> ([], s)
      | Some kind \<Rightarrow>
          if kind \<noteq> AlertDown \<and> kind \<noteq> AlertRecovered then ([UnknownAlertKind], s)
          else case flush_each ob format check kind (hc_Destinations check) s of
            (e # es, s') \<Rightarrow> (e # es, s')
          | ([], s') \<Rightarrow>
              (case ob_ClearPendingAlert ob (hc_ID check) (hc_AlertSeq check) (between s') of
                 (Inl e, s'') \<Rightarrow> ([ClearFailed e], s'')
               | (Inr _, s'') \<Rightarrow> ([], s'')))"

fun flush_all ::
    "'s alert_outbox \<Rightarrow> (time \<Rightarrow> string) \<Rightarrow> ('s \<Rightarrow> 's) \<Rightarrow> stored_check list \<Rightarrow> 's \<Rightarrow> flush_error list \<times> 's" where
  "flush_all ob format between [] s = ([], s)"
| "flush_all ob format between (check # checks) s =
     (case flush ob format between check s of (es, s') \<Rightarrow>
      case flush_all ob format between checks (between s') of (es', s'') \<Rightarrow> (es @ es', s''))"

definition StartupHoldOff :: duration where "StartupHoldOff = 60 * Second"

definition hold_off_until :: "time \<Rightarrow> time" where
  "hold_off_until started = started + StartupHoldOff"

definition Tick ::
    "'s alert_outbox \<Rightarrow> (time \<Rightarrow> string) \<Rightarrow> ('s \<Rightarrow> 's) \<Rightarrow> time \<Rightarrow> time \<Rightarrow> 's \<Rightarrow> (heartbeat_error + flush_error list) \<times> 's" where
  "Tick ob format between holdOffUntil now s =
     (case (if now < holdOffUntil then (Inr [], s) else ob_AdvanceDue ob now s) of
        (Inl e, s') \<Rightarrow> (Inl e, s')
      | (Inr _, s') \<Rightarrow>
          (case ob_ListPendingAlerts ob (between s') of
             Inl e \<Rightarrow> (Inl e, between s')
           | Inr pending \<Rightarrow>
               (case flush_all ob format between pending (between s') of (es, s'') \<Rightarrow> (Inr es, s''))))"

section \<open>The checker\<close>

definition CheckerStaleAfter :: duration where "CheckerStaleAfter = 90 * Second"

definition Status :: "time option \<Rightarrow> time \<Rightarrow> time option \<times> bool" where
  "Status lastTick now =
     (case lastTick of None \<Rightarrow> (None, True) | Some t \<Rightarrow> (Some t, time_sub now t > CheckerStaleAfter))"

text \<open>A pass of \<open>RunChecker\<close>: freshness moves only after a tick without an error.\<close>

definition checker_run ::
    "('s \<Rightarrow> (heartbeat_error + flush_error list) \<times> 's) \<Rightarrow> time \<Rightarrow> time option \<Rightarrow> 's \<Rightarrow> time option \<times> 's" where
  "checker_run tick now lastTick s =
     (case tick s of
        (Inr [], s') \<Rightarrow> (Some now, s')
      | (_, s') \<Rightarrow> (lastTick, s'))"

section \<open>Use cases\<close>

definition hbs_Create :: "probe_lib \<Rightarrow> probe_sealer option \<Rightarrow> time \<Rightarrow> new_check \<Rightarrow> heartbeat_db \<Rightarrow> stored_check hb_tx" where
  "hbs_Create lib sealer now check db =
     (case ValidateNewCheck lib check of Inl e \<Rightarrow> (Inl e, db) | Inr _ \<Rightarrow> hb_Create sealer check now db)"

definition hbs_Patch ::
    "probe_lib \<Rightarrow> probe_sealer option \<Rightarrow> time \<Rightarrow> int \<Rightarrow> check_patch \<Rightarrow> heartbeat_db \<Rightarrow> stored_check hb_tx" where
  "hbs_Patch lib sealer now i patch db =
     (if IsEmpty patch then (hb_Get i db, db) else hb_Patch lib sealer i patch now db)"

definition recordPing :: "time \<Rightarrow> string \<Rightarrow> string \<Rightarrow> ping_kind \<Rightarrow> heartbeat_db \<Rightarrow> stored_check hb_tx" where
  "recordPing now appID name kind db =
     (case hb_ValidateAppID appID of Inl e \<Rightarrow> (Inl e, db) | Inr _ \<Rightarrow>
      case ValidateName name of Inl e \<Rightarrow> (Inl e, db) | Inr _ \<Rightarrow> RecordPing appID name kind now db)"

definition Ping :: "time \<Rightarrow> string \<Rightarrow> string \<Rightarrow> heartbeat_db \<Rightarrow> stored_check hb_tx" where
  "Ping now appID name db = recordPing now appID name PingSuccess db"

definition Fail :: "time \<Rightarrow> string \<Rightarrow> string \<Rightarrow> heartbeat_db \<Rightarrow> stored_check hb_tx" where
  "Fail now appID name db = recordPing now appID name PingFail db"

record app_check_input =
  ai_Name :: string
  ai_PeriodSeconds :: int
  ai_GraceSeconds :: int
  ai_DestinationNames :: "string list"

definition app_check :: "string \<Rightarrow> app_check_input \<Rightarrow> new_check" where
  "app_check appID input =
     \<lparr>nc_AppID = appID, nc_Name = ai_Name input, nc_PeriodSeconds = ai_PeriodSeconds input,
      nc_GraceSeconds = ai_GraceSeconds input, nc_DestinationNames = ai_DestinationNames input,
      nc_OwnerKind = OwnerApp, nc_OwnerAppID = Some appID, nc_Probe = None, nc_AccessToken = None,
      nc_ScheduleSupplied = False\<rparr>"

definition CreateForApp ::
    "probe_lib \<Rightarrow> probe_sealer option \<Rightarrow> time \<Rightarrow> string \<Rightarrow> app_check_input \<Rightarrow> heartbeat_db \<Rightarrow> stored_check hb_tx" where
  "CreateForApp lib sealer now appID input db =
     (case ValidateNewCheck lib (app_check appID input) of
        Inl e \<Rightarrow> (Inl e, db)
      | Inr _ \<Rightarrow> hb_Create sealer (app_check appID input) now db)"

definition hb_ownedByApp :: "stored_check \<Rightarrow> string \<Rightarrow> bool" where
  "hb_ownedByApp check appID \<longleftrightarrow> appID \<noteq> [] \<and> hc_OwnerKind check = OwnerApp \<and> hc_OwnerAppID check = Some appID"

definition ListForApp :: "string \<Rightarrow> heartbeat_db \<Rightarrow> heartbeat_error + stored_check list" where
  "ListForApp appID db =
     (case hb_ValidateAppID appID of
        Inl e \<Rightarrow> Inl e
      | Inr _ \<Rightarrow> Inr (filter (\<lambda>c. hb_ownedByApp c appID) (ListByOwner appID db)))"

definition GetForApp :: "string \<Rightarrow> int \<Rightarrow> heartbeat_db \<Rightarrow> heartbeat_error + stored_check" where
  "GetForApp appID i db =
     (case hb_ValidateAppID appID of Inl e \<Rightarrow> Inl e | Inr _ \<Rightarrow>
      case hb_Get i db of Inl e \<Rightarrow> Inl e | Inr stored \<Rightarrow>
      if hb_ownedByApp stored appID then Inr stored else Inl ErrCheckNotFound)"

definition PatchForApp ::
    "probe_lib \<Rightarrow> probe_sealer option \<Rightarrow> time \<Rightarrow> string \<Rightarrow> int \<Rightarrow> check_patch \<Rightarrow> heartbeat_db \<Rightarrow> stored_check hb_tx" where
  "PatchForApp lib sealer now appID i patch db =
     (case hb_ValidateAppID appID of Inl e \<Rightarrow> (Inl e, db) | Inr _ \<Rightarrow>
      if IsEmpty patch then (GetForApp appID i db, db) else PatchOwnedBy lib sealer i appID patch now db)"

definition DeleteForApp :: "string \<Rightarrow> int \<Rightarrow> heartbeat_db \<Rightarrow> unit hb_tx" where
  "DeleteForApp appID i db =
     (case hb_ValidateAppID appID of Inl e \<Rightarrow> (Inl e, db) | Inr _ \<Rightarrow>
      case DeleteOwnedBy i appID db of
        (Inl e, db') \<Rightarrow> (Inl e, db')
      | (Inr deleted, db') \<Rightarrow> (if deleted then Inr () else Inl ErrCheckNotFound, db'))"

definition PauseForApp :: "time \<Rightarrow> string \<Rightarrow> int \<Rightarrow> heartbeat_db \<Rightarrow> stored_check hb_tx" where
  "PauseForApp now appID i db =
     (case hb_ValidateAppID appID of Inl e \<Rightarrow> (Inl e, db) | Inr _ \<Rightarrow> PauseOwnedBy i appID now db)"

definition ResumeForApp :: "time \<Rightarrow> string \<Rightarrow> int \<Rightarrow> heartbeat_db \<Rightarrow> stored_check hb_tx" where
  "ResumeForApp now appID i db =
     (case hb_ValidateAppID appID of Inl e \<Rightarrow> (Inl e, db) | Inr _ \<Rightarrow> ResumeOwnedBy i appID now db)"

section \<open>Probes\<close>

record probe_error =
  pe_NotHTTPS :: bool
  pe_Blocked :: bool
  pe_TLS :: bool
  pe_Timeout :: bool
  pe_DNS :: bool

record probe_request =
  pq_URL :: string
  pq_Token :: "access_token option"

text \<open>A body read either fails, by a timeout or not, or gives the body.\<close>

record probe_response =
  ps_StatusCode :: int
  ps_Body :: "bool + string"

record probe_client =
  pk_Build :: "string \<Rightarrow> bool"
  pk_Do :: "probe_request \<Rightarrow> probe_error + probe_response"

definition failedProbe :: "down_reason \<Rightarrow> int option \<Rightarrow> string \<Rightarrow> probe_result" where
  "failedProbe reason status detail = \<lparr>pr_Status = status, pr_Reason = Some reason, pr_Detail = detail\<rparr>"

definition timeoutDetail :: "int \<Rightarrow> string" where
  "timeoutDetail s = ''timed out after '' @ dec_int s @ ''s''"

definition classifyProbeError :: "probe_error \<Rightarrow> int \<Rightarrow> probe_result" where
  "classifyProbeError e timeoutSeconds =
     (if pe_NotHTTPS e then failedProbe ReasonScheme None ''URL is not HTTPS''
      else if pe_Blocked e then failedProbe ReasonBlocked None ''destination address is not allowed''
      else if pe_TLS e then failedProbe ReasonTLS None ''TLS handshake or certificate verification failed''
      else if pe_Timeout e then failedProbe ReasonTimeout None (timeoutDetail timeoutSeconds)
      else if pe_DNS e then failedProbe ReasonNetwork None ''DNS lookup failed''
      else failedProbe ReasonNetwork None ''connection failed'')"

definition ProbeBodyLimitBytes :: nat where "ProbeBodyLimitBytes = 65536"

definition contains_text :: "string \<Rightarrow> string \<Rightarrow> bool" where
  "contains_text needle body \<longleftrightarrow> list_ex (\<lambda>i. take (length needle) (drop i body) = needle) [0..<Suc (length body)]"

definition judge_response :: "probe_config \<Rightarrow> probe_response \<Rightarrow> probe_result" where
  "judge_response config response =
     (let status = ps_StatusCode response; success = \<lparr>pr_Status = Some status, pr_Reason = None, pr_Detail = []\<rparr>
      in if status \<notin> set (pc_ExpectedStatuses config)
         then failedProbe ReasonHTTPStatus (Some status) (''HTTP '' @ dec_int status)
         else case pc_BodyMatch config of
           None \<Rightarrow> success
         | Some needle \<Rightarrow>
             (case ps_Body response of
                Inl timedOut \<Rightarrow>
                  if timedOut then failedProbe ReasonTimeout (Some status) (timeoutDetail (pc_TimeoutSeconds config))
                  else failedProbe ReasonNetwork (Some status) ''response body could not be read''
              | Inr body \<Rightarrow>
                  if contains_text needle (take ProbeBodyLimitBytes body) then success
                  else failedProbe ReasonBodyMismatch (Some status) ''response body did not contain the expected text''))"

definition runProbe :: "probe_client \<Rightarrow> probe_sealer option \<Rightarrow> probe_claim \<Rightarrow> probe_result" where
  "runProbe client sealer claim =
     (let config = cl_Config claim;
          send = (\<lambda>token.
            if \<not> pk_Build client (pc_URL config) then failedProbe ReasonNetwork None ''request could not be built''
            else case pk_Do client \<lparr>pq_URL = pc_URL config, pq_Token = token\<rparr> of
              Inl e \<Rightarrow> classifyProbeError e (pc_TimeoutSeconds config)
            | Inr response \<Rightarrow> judge_response config response)
      in case cl_SealedAccessToken claim of
           None \<Rightarrow> send None
         | Some sealed \<Rightarrow>
             (case OpenProbeAccessToken sealer (cl_CheckID claim) sealed of
                None \<Rightarrow> failedProbe ReasonConfig None ''access credential could not be opened''
              | Some token \<Rightarrow>
                  (case ValidateAccessToken token of
                     Inl _ \<Rightarrow> failedProbe ReasonConfig None ''access credential is invalid''
                   | Inr _ \<Rightarrow> send (Some token))))"

text \<open>\<open>runClaim\<close>: the probe, then the record under the version the claim was handed out with.\<close>

definition runClaim ::
    "probe_client \<Rightarrow> probe_sealer option \<Rightarrow> time \<Rightarrow> time \<Rightarrow> probe_claim \<Rightarrow> heartbeat_db \<Rightarrow> (stored_check option) hb_tx" where
  "runClaim client sealer now holdOffUntil claim db =
     RecordProbeResult (cl_CheckID claim) (cl_ConfigVersion claim) (runProbe client sealer claim) now holdOffUntil db"

text \<open>\<open>Scan\<close>: claim at most the free slots; freshness moves unless the claim failed.\<close>

definition Scan ::
    "(int \<Rightarrow> bool) \<Rightarrow> int \<Rightarrow> int \<Rightarrow> time \<Rightarrow> time option \<Rightarrow> heartbeat_db
     \<Rightarrow> (heartbeat_error + probe_claim list) \<times> time option \<times> heartbeat_db" where
  "Scan locked concurrency inFlight now lastScan db =
     (if concurrency - inFlight > 0 then
        (case ClaimDueProbes locked now (concurrency - inFlight) db of
           (Inl e, db') \<Rightarrow> (Inl e, lastScan, db')
         | (Inr claims, db') \<Rightarrow> (Inr claims, Some now, db'))
      else (Inr [], Some now, db))"

section \<open>The tick over any outbox\<close>

text \<open>
  What a tick relies on. \<open>alert_of s i\<close> is the unflushed alert of check \<open>i\<close> with its sequence number, and
  \<open>accepted s app key\<close> says a message of the app is stored under the key: a submission leaves the
  outbox alone and stores what it accepts, and a clear removes exactly the alert of that sequence
  number.
\<close>

locale alert_outbox_laws =
  fixes inv :: "'s \<Rightarrow> bool" and ob :: "'s alert_outbox"
    and alert_of :: "'s \<Rightarrow> int \<Rightarrow> (int \<times> alert_kind) option" and accepted :: "'s \<Rightarrow> string \<Rightarrow> string \<Rightarrow> bool"
  assumes advance_inv: "inv s \<Longrightarrow> inv (snd (ob_AdvanceDue ob now s))"
    and submit_inv: "inv s \<Longrightarrow> inv (snd (ob_Submit ob e s))"
    and clear_inv: "inv s \<Longrightarrow> inv (snd (ob_ClearPendingAlert ob i n s))"
    and submit_alerts: "alert_of (snd (ob_Submit ob e s)) = alert_of s"
    and submit_stores: "inv s \<Longrightarrow> ob_Submit ob e s = (Inr u, s') \<Longrightarrow> accepted s' (en_AppID e) (en_IdempotencyKey e)"
    and submit_keeps: "inv s \<Longrightarrow> accepted s app key \<Longrightarrow> accepted (snd (ob_Submit ob e s)) app key"
    and clear_alerts: "inv s \<Longrightarrow> ob_ClearPendingAlert ob i n s = (r, s') \<Longrightarrow>
      alert_of s' = (if isl r then alert_of s else (\<lambda>j. if j = i \<and> map_option fst (alert_of s i) = Some n then None else alert_of s j))"
    and clear_keeps: "accepted (snd (ob_ClearPendingAlert ob i n s)) = accepted s"
begin

text \<open>A destination the service refused as unknown, disabled or without a sink, at some state of the run.\<close>

definition refused :: "(time \<Rightarrow> string) \<Rightarrow> stored_check \<Rightarrow> alert_kind \<Rightarrow> destination_ref \<Rightarrow> bool" where
  "refused format check kind d \<longleftrightarrow> (\<exists>s e x. inv s \<and> buildAlertEnvelope format check kind (dr_Name d) = Some e
     \<and> fst (ob_Submit ob e s) = Inl x \<and> skipped x)"

lemma flush_each_frame:
  assumes "inv s" "flush_each ob format check kind ds s = (es, s')"
  shows "inv s' \<and> alert_of s' = alert_of s \<and> (accepted s app key \<longrightarrow> accepted s' app key)"
  using assms
proof (induction ds arbitrary: s es)
  case (Cons d ds)
  show ?case
  proof (cases "dr_Enabled d")
    case False
    with Cons show ?thesis by simp
  next
    case enabled: True
    show ?thesis
    proof (cases "buildAlertEnvelope format check kind (dr_Name d)")
      case None
      with enabled Cons show ?thesis by (auto split: prod.splits)
    next
      case (Some e)
      obtain r s1 where r: "ob_Submit ob e s = (r, s1)" by (cases "ob_Submit ob e s")
      have s1: "inv s1" "alert_of s1 = alert_of s" "accepted s app key \<longrightarrow> accepted s1 app key"
        using submit_inv [OF Cons.prems(1), of e] submit_alerts [of e s] submit_keeps [OF Cons.prems(1), of app key e] r
        by simp_all
      obtain es' where "flush_each ob format check kind ds s1 = (es', s')"
        using Cons.prems(2) enabled Some r by (auto split: sum.splits if_splits prod.splits)
      with Cons.IH [OF s1(1)] s1 show ?thesis by fastforce
    qed
  qed
qed simp

lemma flush_each_all:
  assumes "inv s" "flush_each ob format check kind ds s = ([], s')" "d \<in> set ds" "dr_Enabled d"
  shows "accepted s' (hc_AppID check) (alert_key (hc_ID check) (hc_AlertSeq check) (dr_Name d)) \<or> refused format check kind d"
  using assms
proof (induction ds arbitrary: s)
  case (Cons x xs)
  show ?case
  proof (cases "dr_Enabled x")
    case False
    with Cons show ?thesis by auto
  next
    case enabled: True
    from Cons.prems(2) enabled obtain e where e: "buildAlertEnvelope format check kind (dr_Name x) = Some e"
      by (auto split: option.splits prod.splits)
    obtain r s1 where r: "ob_Submit ob e s = (r, s1)" by (cases "ob_Submit ob e s")
    have s1: "inv s1" using submit_inv [OF Cons.prems(1), of e] r by simp
    from Cons.prems(2) enabled e r have rest: "flush_each ob format check kind xs s1 = ([], s')"
      and ok: "isl r \<Longrightarrow> skipped (projl r)"
      by (auto split: sum.splits if_splits prod.splits)
    have key: "en_AppID e = hc_AppID check" "en_IdempotencyKey e = alert_key (hc_ID check) (hc_AlertSeq check) (dr_Name x)"
      using e by (auto simp: buildAlertEnvelope_def Let_def alert_envelope_def split: alert_kind.splits)
    show ?thesis
    proof (cases "d = x")
      case True
      show ?thesis
      proof (cases r)
        case (Inl y)
        with ok r e Cons.prems(1) True have "refused format check kind d" by (auto simp: refused_def)
        then show ?thesis ..
      next
        case (Inr u)
        with submit_stores [OF Cons.prems(1)] r key have "accepted s1 (hc_AppID check) (alert_key (hc_ID check) (hc_AlertSeq check) (dr_Name x))"
          by metis
        with flush_each_frame [OF s1 rest] True show ?thesis by blast
      qed
    next
      case False
      with Cons.prems Cons.IH [OF s1 rest] show ?thesis by simp
    qed
  qed
qed simp

lemma flush_inv:
  assumes "inv s" "\<forall>x. inv x \<longrightarrow> inv (between x)"
  shows "inv (snd (flush ob format between check s))"
proof (cases "hc_PendingAlert check")
  case (Some kind)
  obtain es s1 where e: "flush_each ob format check kind (hc_Destinations check) s = (es, s1)"
    by (cases "flush_each ob format check kind (hc_Destinations check) s")
  have s1: "inv s1" using flush_each_frame [OF assms(1) e] by blast
  with assms(2) have "inv (snd (ob_ClearPendingAlert ob (hc_ID check) (hc_AlertSeq check) (between s1)))"
    by (blast intro: clear_inv)
  with assms(1) s1 Some e show ?thesis
    by (cases es) (simp_all add: flush_def case_prod_beta split: sum.split)
qed (simp add: flush_def assms(1))

text \<open>An error of any destination keeps the alert for the next tick.\<close>

lemma flush_failed:
  assumes "inv s" "flush ob format (\<lambda>x. x) check s = (e # es, s')"
  shows "alert_of s' = alert_of s"
proof -
  from assms(2) obtain kind where k: "hc_PendingAlert check = Some kind"
    by (auto simp: flush_def split: option.splits)
  obtain fs s1 where f: "flush_each ob format check kind (hc_Destinations check) s = (fs, s1)"
    by (cases "flush_each ob format check kind (hc_Destinations check) s")
  note s1 = flush_each_frame [OF assms(1) f]
  obtain r s2 where c: "ob_ClearPendingAlert ob (hc_ID check) (hc_AlertSeq check) s1 = (r, s2)"
    by (cases "ob_ClearPendingAlert ob (hc_ID check) (hc_AlertSeq check) s1")
  from s1 have "alert_of s2 = alert_of s" if "isl r"
    using clear_alerts [OF _ c] that by simp
  with assms(2) k f s1 c show ?thesis
    by (auto simp: flush_def split: list.splits sum.splits if_splits)
qed

text \<open>A flush without an error announced the alert everywhere it could and cleared exactly that alert.\<close>

lemma flush_done:
  assumes "inv s" "\<forall>x. inv x \<longrightarrow> inv (between x)"
    and "hc_PendingAlert check = Some kind" "flush ob format between check s = ([], s')"
  obtains s1 where "inv s1" "alert_of s1 = alert_of s"
    "\<forall>d \<in> set (hc_Destinations check). dr_Enabled d \<longrightarrow>
       accepted s1 (hc_AppID check) (alert_key (hc_ID check) (hc_AlertSeq check) (dr_Name d)) \<or> refused format check kind d"
    "alert_of s' = (\<lambda>j. if j = hc_ID check \<and> map_option fst (alert_of (between s1) j) = Some (hc_AlertSeq check)
       then None else alert_of (between s1) j)"
    "accepted s' = accepted (between s1)"
proof -
  from assms(3,4) obtain s1 r where f: "flush_each ob format check kind (hc_Destinations check) s = ([], s1)"
    and c: "ob_ClearPendingAlert ob (hc_ID check) (hc_AlertSeq check) (between s1) = (Inr r, s')"
    by (auto simp: flush_def split: if_splits prod.splits list.splits sum.splits)
  note s1 = flush_each_frame [OF assms(1) f]
  have inv1: "inv s1" "inv (between s1)" using s1 assms(2) by blast+
  have "alert_of s' = (\<lambda>j. if j = hc_ID check \<and> map_option fst (alert_of (between s1) j) = Some (hc_AlertSeq check)
       then None else alert_of (between s1) j)"
    using clear_alerts [OF inv1(2) c] by (auto simp: fun_eq_iff)
  moreover have "accepted s' = accepted (between s1)"
    using clear_keeps [of "hc_ID check" "hc_AlertSeq check" "between s1"] c by simp
  ultimately show ?thesis using that [of s1] inv1(1) s1 flush_each_all [OF assms(1) f] by blast
qed

lemma flush_all_inv:
  assumes "inv s" "\<forall>x. inv x \<longrightarrow> inv (between x)"
  shows "inv (snd (flush_all ob format between checks s))"
  using assms(1)
proof (induction checks arbitrary: s)
  case (Cons c cs)
  obtain es s1 where e: "flush ob format between c s = (es, s1)" by (cases "flush ob format between c s")
  have "inv (between s1)"
    using flush_inv [OF Cons.prems assms(2), where format = format and check = c] e assms(2) by simp
  with Cons.IH [of "between s1"] e show ?case by (simp add: case_prod_beta)
qed simp

lemma Tick_inv:
  assumes "inv s" "\<forall>x. inv x \<longrightarrow> inv (between x)"
  shows "inv (snd (Tick ob format between holdOff now s))"
proof -
  define a where "a = (if now < holdOff then (Inr [], s) else ob_AdvanceDue ob now s)"
  have "inv (snd a)" using assms(1) advance_inv by (simp add: a_def)
  then have "inv (between (snd a))" using assms(2) by blast
  with \<open>inv (snd a)\<close> flush_all_inv [OF _ assms(2)] show ?thesis
    unfolding Tick_def a_def [symmetric] by (auto simp: case_prod_beta split: sum.split prod.split)
qed

end

end
