(* ===== verification/Message_Invariant.thy ===== *)
theory Message_Invariant
  imports Message_Schedule
begin

text \<open>
  The invariant of the message tables and that every store operation keeps it. Beside what the
  schema enforces (keys, references, CHECKs) it says what only the code maintains: attempt numbers
  are 1, 2, \<dots> without gaps; the deliveries of a message are scheduled all together or not at
  all, all due at the message's \<open>deliver_at\<close>; a held message has no deliveries; a message is
  cancelled exactly when its deliveries are.
\<close>

named_theorems store_inv_intros \<open>preservation of the store invariant, one fact per operation\<close>

definition keys_ok :: "database \<Rightarrow> bool" where
  "keys_ok db \<longleftrightarrow>
     distinct (map m_id (db_messages db))
     \<and> distinct (map (\<lambda>m. (m_app_id m, m_idempotency_key m)) (db_messages db))
     \<and> distinct (map d_ID (db_deliveries db))
     \<and> distinct (map (\<lambda>d. (d_MessageID d, d_DestinationName d)) (db_deliveries db))
     \<and> (\<forall>d \<in> set (db_deliveries db). d_ID d < db_delivery_seq db)"

definition refs_ok :: "database \<Rightarrow> bool" where
  "refs_ok db \<longleftrightarrow>
     (\<forall>d \<in> set (db_deliveries db). d_MessageID d \<in> m_id ` set (db_messages db))
     \<and> (\<forall>a \<in> set (db_attempts db). ar_DeliveryID a \<in> d_ID ` set (db_deliveries db))"

definition rows_ok :: "database \<Rightarrow> bool" where
  "rows_ok db \<longleftrightarrow>
     (\<forall>m \<in> set (db_messages db). messages_check m) \<and> (\<forall>d \<in> set (db_deliveries db). deliveries_check d)"

definition numbers_ok :: "database \<Rightarrow> delivery \<Rightarrow> bool" where
  "numbers_ok db d \<longleftrightarrow>
     map at_AttemptNumber (attempts_of db (d_ID d)) = [1..d_AttemptCount d]
     \<and> d_BudgetAttempts d \<le> d_AttemptCount d"

definition log_ok :: "database \<Rightarrow> bool" where
  "log_ok db \<longleftrightarrow> (\<forall>d \<in> set (db_deliveries db). numbers_ok db d)"

definition message_phase :: "message_row \<Rightarrow> delivery list \<Rightarrow> bool" where
  "message_phase m ds \<longleftrightarrow>
     (m_held_at m \<noteq> None \<longrightarrow> ds = [] \<and> m_cancelled_at m = None)
     \<and> (ds = [] \<longrightarrow> m_held_at m \<noteq> None \<or> m_held_cancelled_at m \<noteq> None)
     \<and> (\<forall>d \<in> set ds. d_State d = StateScheduled \<longrightarrow>
          (\<forall>d' \<in> set ds. d_State d' = StateScheduled)
          \<and> m_deliver_at m = Some (d_NextAttemptAt d) \<and> d_AttemptCount d = 0)
     \<and> (m_cancelled_at m \<noteq> None \<longrightarrow> (\<forall>d \<in> set ds. d_State d = StateCancelled))
     \<and> (\<forall>d \<in> set ds. d_State d = StateCancelled \<longrightarrow> m_cancelled_at m \<noteq> None \<and> d_AttemptCount d = 0)"

definition phase_ok :: "database \<Rightarrow> bool" where
  "phase_ok db \<longleftrightarrow> (\<forall>m \<in> set (db_messages db). message_phase m (deliveries_of db (m_id m)))"

definition store_inv :: "database \<Rightarrow> bool" where
  "store_inv db \<longleftrightarrow> keys_ok db \<and> refs_ok db \<and> rows_ok db \<and> log_ok db \<and> phase_ok db"

lemma store_invD:
  assumes "store_inv db"
  shows "keys_ok db" "refs_ok db" "rows_ok db" "log_ok db" "phase_ok db"
  using assms by (simp_all add: store_inv_def)

lemma store_invI [intro?]:
  "keys_ok db \<Longrightarrow> refs_ok db \<Longrightarrow> rows_ok db \<Longrightarrow> log_ok db \<Longrightarrow> phase_ok db \<Longrightarrow> store_inv db"
  by (simp add: store_inv_def)

lemma store_inv_empty: "store_inv empty_db"
  by (simp add: store_inv_def empty_db_def keys_ok_def refs_ok_def rows_ok_def log_ok_def phase_ok_def)

section \<open>Deliveries that change in place\<close>

definition active :: "delivery \<Rightarrow> bool" where
  "active d \<longleftrightarrow> d_State d \<in> {StatePending, StateDelivered, StateDead}"

definition same_ids :: "delivery \<Rightarrow> delivery \<Rightarrow> bool" where
  "same_ids d d' \<longleftrightarrow> d_ID d' = d_ID d \<and> d_MessageID d' = d_MessageID d
     \<and> d_DestinationName d' = d_DestinationName d"

lemma message_phaseD:
  assumes "message_phase m ds"
  shows "m_held_at m \<noteq> None \<Longrightarrow> ds = []"
    and "m_held_at m \<noteq> None \<Longrightarrow> m_cancelled_at m = None"
    and "ds = [] \<Longrightarrow> m_held_at m \<noteq> None \<or> m_held_cancelled_at m \<noteq> None"
    and "d \<in> set ds \<Longrightarrow> d_State d = StateScheduled \<Longrightarrow> d' \<in> set ds \<Longrightarrow> d_State d' = StateScheduled"
    and "d \<in> set ds \<Longrightarrow> d_State d = StateScheduled \<Longrightarrow> m_deliver_at m = Some (d_NextAttemptAt d)"
    and "d \<in> set ds \<Longrightarrow> d_State d = StateScheduled \<Longrightarrow> d_AttemptCount d = 0"
    and "m_cancelled_at m \<noteq> None \<Longrightarrow> d \<in> set ds \<Longrightarrow> d_State d = StateCancelled"
    and "d \<in> set ds \<Longrightarrow> d_State d = StateCancelled \<Longrightarrow> m_cancelled_at m \<noteq> None"
    and "d \<in> set ds \<Longrightarrow> d_State d = StateCancelled \<Longrightarrow> d_AttemptCount d = 0"
  using assms unfolding message_phase_def by blast+

lemma message_phase_active:
  assumes "message_phase m ds" "d \<in> set ds" "active d"
  shows "m_held_at m = None" "m_cancelled_at m = None"
    and "x \<in> set ds \<Longrightarrow> d_State x \<noteq> StateScheduled" "x \<in> set ds \<Longrightarrow> d_State x \<noteq> StateCancelled"
proof -
  have d: "d_State d \<noteq> StateScheduled" "d_State d \<noteq> StateCancelled"
    using assms(3) by (auto simp: active_def)
  show "m_held_at m = None" using message_phaseD(1) [OF assms(1)] assms(2) by fastforce
  show c: "m_cancelled_at m = None" using message_phaseD(7) [OF assms(1) _ assms(2)] d(2) by blast
  show "d_State x \<noteq> StateScheduled" if "x \<in> set ds"
    using message_phaseD(4) [OF assms(1) that _ assms(2)] d(1) by blast
  show "d_State x \<noteq> StateCancelled" if "x \<in> set ds"
    using message_phaseD(8) [OF assms(1) that] c by blast
qed

text \<open>A message none of whose deliveries is scheduled or cancelled is in order once it is neither held nor cancelled.\<close>

lemma message_phase_plain:
  assumes "m_held_at m = None" "m_cancelled_at m = None" "ds \<noteq> []"
    and "\<And>x. x \<in> set ds \<Longrightarrow> d_State x \<noteq> StateScheduled \<and> d_State x \<noteq> StateCancelled"
  shows "message_phase m ds"
  using assms unfolding message_phase_def by blast

lemma message_phase_update:
  assumes "message_phase m ds" and "\<And>d. d \<in> set ds \<Longrightarrow> P d \<Longrightarrow> active d \<and> active (f d)"
  shows "message_phase m (update_where P f ds)"
proof (cases "\<exists>d \<in> set ds. P d")
  case True
  then obtain d where d: "d \<in> set ds" "active d" using assms(2) by blast
  note facts = message_phase_active [OF assms(1) d]
  show ?thesis
  proof (rule message_phase_plain [OF facts(1,2)])
    show "update_where P f ds \<noteq> []" using d(1) by (auto simp: update_where_def)
    fix y assume "y \<in> set (update_where P f ds)"
    then show "d_State y \<noteq> StateScheduled \<and> d_State y \<noteq> StateCancelled"
    proof (cases rule: update_whereE)
      case (updated r)
      then have "active y" using assms(2) by blast
      then show ?thesis by (auto simp: active_def)
    next
      case kept
      then show ?thesis using facts(3,4) by blast
    qed
  qed
next
  case False
  then have "update_where P f ds = ds" by (simp add: update_where_def map_idI)
  with assms(1) show ?thesis by simp
qed

lemma deliveries_of_update:
  assumes "\<And>d. P d \<Longrightarrow> d_MessageID (f d) = d_MessageID d"
  shows "filter (\<lambda>d. d_MessageID d = mid) (update_where P f ds)
       = update_where P f (filter (\<lambda>d. d_MessageID d = mid) ds)"
  using assms by (intro filter_update_where) simp

text \<open>Changing active deliveries in place keeps keys, references and phases.\<close>

lemma update_deliveries_frame:
  assumes inv: "store_inv db"
    and ids: "\<And>d. same_ids d (f d)"
    and act: "\<And>d. d \<in> set (db_deliveries db) \<Longrightarrow> P d \<Longrightarrow> active d \<and> active (f d) \<and> deliveries_check (f d)"
    and db': "db_messages db' = db_messages db" "db_deliveries db' = update_where P f (db_deliveries db)"
      "db_delivery_seq db' = db_delivery_seq db"
  shows "keys_ok db'" "rows_ok db'" "phase_ok db'"
proof -
  have maps: "map d_ID (db_deliveries db') = map d_ID (db_deliveries db)"
    "map (\<lambda>d. (d_MessageID d, d_DestinationName d)) (db_deliveries db')
      = map (\<lambda>d. (d_MessageID d, d_DestinationName d)) (db_deliveries db)"
    using ids by (simp_all add: db'(2) map_update_where same_ids_def)
  have "\<forall>d \<in> set (db_deliveries db'). d_ID d < db_delivery_seq db"
    using store_invD(1) [OF inv] ids
    by (auto simp: keys_ok_def db'(2) in_update_where same_ids_def)
  then show "keys_ok db'"
    using store_invD(1) [OF inv] by (simp add: keys_ok_def maps db'(1,3))
  show "rows_ok db'"
    using store_invD(3) [OF inv] act by (auto simp: rows_ok_def db'(1,2) in_update_where)
  have "deliveries_of db' mid = update_where P f (deliveries_of db mid)" for mid
    unfolding deliveries_of_def db'(2)
    using ids by (intro deliveries_of_update) (simp add: same_ids_def)
  then show "phase_ok db'"
    using store_invD(5) [OF inv] act
    by (auto simp: phase_ok_def db'(1) in_deliveries_of intro!: message_phase_update)
qed

lemma refs_ok_update:
  assumes "refs_ok db" and "\<And>d. same_ids d (f d)"
    and "db_messages db' = db_messages db" "db_deliveries db' = update_where P f (db_deliveries db)"
    and "ar_DeliveryID ` set (db_attempts db') \<subseteq> d_ID ` set (db_deliveries db)"
  shows "refs_ok db'"
proof -
  have "map d_ID (db_deliveries db') = map d_ID (db_deliveries db)"
    using assms(2) by (simp add: assms(4) map_update_where same_ids_def)
  then have "d_ID ` set (db_deliveries db') = d_ID ` set (db_deliveries db)"
    by (metis list.set_map)
  then show ?thesis
    using assms by (auto simp: refs_ok_def in_update_where same_ids_def)
qed

lemma refs_ok_attempts: "refs_ok db \<Longrightarrow> ar_DeliveryID ` set (db_attempts db) \<subseteq> d_ID ` set (db_deliveries db)"
  unfolding refs_ok_def by blast

lemma store_inv_update_deliveries:
  assumes inv: "store_inv db"
    and ids: "\<And>d. same_ids d (f d)"
    and act: "\<And>d. d \<in> set (db_deliveries db) \<Longrightarrow> P d \<Longrightarrow> active d \<and> active (f d) \<and> deliveries_check (f d)"
    and num: "\<And>d. d_AttemptCount (f d) = d_AttemptCount d"
    and bud: "\<And>d. d \<in> set (db_deliveries db) \<Longrightarrow> P d \<Longrightarrow> d_BudgetAttempts (f d) \<le> d_AttemptCount d"
  shows "store_inv (db\<lparr>db_deliveries := update_where P f (db_deliveries db)\<rparr>)" (is "store_inv ?db'")
proof
  show "keys_ok ?db'" "rows_ok ?db'" "phase_ok ?db'"
    by (rule update_deliveries_frame [where P = P and f = f and db = db, OF inv ids act]; simp)+
  show "refs_ok ?db'"
    by (rule refs_ok_update [where P = P and f = f, OF store_invD(2) [OF inv] ids];
        simp add: refs_ok_attempts [OF store_invD(2) [OF inv]])
  show "log_ok ?db'"
    unfolding log_ok_def
  proof
    fix d assume "d \<in> set (db_deliveries ?db')"
    then obtain x where x: "x \<in> set (db_deliveries db)" "d = (if P x then f x else x)"
      by (auto simp: in_update_where)
    then have "numbers_ok db x" using store_invD(4) [OF inv] by (simp add: log_ok_def)
    then show "numbers_ok ?db' d"
      using x(2) ids [of x] num [of x] bud [OF x(1)]
      by (cases "P x") (simp_all add: numbers_ok_def attempts_of_def same_ids_def)
  qed
qed

section \<open>Claim, record and replay\<close>

lemma ClaimDue_chosen:
  assumes "order_limit due_order 1 (filter p ds) = d # rest"
  shows "d \<in> set ds" "p d"
  using assms set_order_limit [of due_order 1 "filter p ds"] by auto

lemma deliveries_check_lease:
  "deliveries_check d \<Longrightarrow> deliveries_check (d\<lparr>d_NextAttemptAt := t, d_UpdatedAt := u\<rparr>)"
  by (auto simp: deliveries_check_def)

theorem ClaimDue_inv [store_inv_intros]:
  assumes inv: "store_inv db"
  shows "store_inv (snd (ClaimDue env locked now lease db))"
proof (cases "lease \<le> 0 \<or> order_limit due_order 1
    (filter (\<lambda>d. due now d \<and> \<not> locked (d_ID d)) (db_deliveries db)) = []")
  case True
  then show ?thesis using inv by (auto simp: ClaimDue_def)
next
  case False
  then obtain d rest where chosen: "order_limit due_order 1
      (filter (\<lambda>d. due now d \<and> \<not> locked (d_ID d)) (db_deliveries db)) = d # rest"
    by (meson neq_Nil_conv)
  note d = ClaimDue_chosen [OF chosen]
  have only: "x = d" if "x \<in> set (db_deliveries db)" "d_ID x = d_ID d" for x
    using store_invD(1) [OF inv] d(1) that by (auto simp: keys_ok_def intro: distinct_map_inj)
  have "store_inv (db\<lparr>db_deliveries := update_where (\<lambda>x. d_ID x = d_ID d)
      (\<lambda>x. x\<lparr>d_NextAttemptAt := now + lease, d_UpdatedAt := tx_now env\<rparr>) (db_deliveries db)\<rparr>)"
  proof (rule store_inv_update_deliveries [OF inv])
    fix x assume x: "x \<in> set (db_deliveries db)" "d_ID x = d_ID d"
    then have "x = d" by (rule only)
    then show "active x \<and> active (x\<lparr>d_NextAttemptAt := now + lease, d_UpdatedAt := tx_now env\<rparr>)
        \<and> deliveries_check (x\<lparr>d_NextAttemptAt := now + lease, d_UpdatedAt := tx_now env\<rparr>)"
      using d store_invD(3) [OF inv]
      by (auto simp: due_def active_def rows_ok_def deliveries_check_lease)
    show "d_BudgetAttempts (x\<lparr>d_NextAttemptAt := now + lease, d_UpdatedAt := tx_now env\<rparr>) \<le> d_AttemptCount x"
      using store_invD(4) [OF inv] x by (simp add: log_ok_def numbers_ok_def)
  qed (simp_all add: same_ids_def)
  with False chosen inv show ?thesis by (simp add: ClaimDue_def Let_def split: sum.splits)
qed

lemma lockDelivery_InrD:
  "lockDelivery db i = Inr d \<Longrightarrow> d \<in> set (db_deliveries db) \<and> d_ID d = i"
  by (auto simp: lockDelivery_def split: option.splits dest: find_Some_in)

lemma same_id_same_row:
  "keys_ok db \<Longrightarrow> d \<in> set (db_deliveries db) \<Longrightarrow> x \<in> set (db_deliveries db) \<Longrightarrow> d_ID x = d_ID d \<Longrightarrow> x = d"
  by (auto simp: keys_ok_def intro: distinct_map_inj)

lemma apply_result_fields [simp]:
  "d_ID (apply_result env r d) = d_ID d" "d_MessageID (apply_result env r d) = d_MessageID d"
  "d_DestinationName (apply_result env r d) = d_DestinationName d"
  "d_State (apply_result env r d) = res_NextState r"
  "d_AttemptCount (apply_result env r d) = d_AttemptCount d + 1"
  "d_BudgetAttempts (apply_result env r d) = d_BudgetAttempts d + 1"
  by (simp_all add: apply_result_def)

lemma validateAttemptResult_state:
  "validateAttemptResult r = Inr u \<Longrightarrow> res_NextState r \<in> {StatePending, StateDelivered, StateDead}"
  by (auto simp: validateAttemptResult_def split: delivery_state.splits if_splits)

text \<open>The committing branch of \<open>RecordAttempt\<close>.\<close>

definition recorded :: "tx_env \<Rightarrow> attempt_result \<Rightarrow> delivery \<Rightarrow> database \<Rightarrow> database" where
  "recorded env result current db =
     db\<lparr>db_attempts := db_attempts db @ [attempt_row db current (res_Record result)],
        db_attempt_seq := db_attempt_seq db + 1,
        db_deliveries := update_where (\<lambda>d. d_ID d = d_ID current) (apply_result env result) (db_deliveries db)\<rparr>"

lemma RecordAttempt_cases:
  obtains (same) "snd (RecordAttempt env result db) = db"
  | (committed) current where
      "validateAttemptResult result = Inr ()" "current \<in> set (db_deliveries db)"
      "d_ID current = ar_DeliveryID (res_Record result)" "d_State current = StatePending"
      "deliveries_check (apply_result env result current)"
      "RecordAttempt env result db = (Inr (apply_result env result current), recorded env result current db)"
proof (cases "\<exists>current. validateAttemptResult result = Inr ()
    \<and> lockDelivery db (ar_DeliveryID (res_Record result)) = Inr current \<and> d_State current = StatePending
    \<and> attempt_insertable db (attempt_row db current (res_Record result))
    \<and> deliveries_check (apply_result env result current)")
  case True
  then obtain current where c: "validateAttemptResult result = Inr ()"
    "lockDelivery db (ar_DeliveryID (res_Record result)) = Inr current" "d_State current = StatePending"
    "attempt_insertable db (attempt_row db current (res_Record result))"
    "deliveries_check (apply_result env result current)" by blast
  then show ?thesis
    using lockDelivery_InrD [OF c(2)] by (intro committed) (auto simp: RecordAttempt_def recorded_def Let_def)
next
  case False
  then have "snd (RecordAttempt env result db) = db"
    by (auto simp: RecordAttempt_def Let_def split: sum.splits)
  then show ?thesis by (rule same)
qed

lemma attempt_row_delivery [simp]: "ar_DeliveryID (attempt_row db c r) = d_ID c"
  "at_AttemptNumber (attempt_row db c r) = d_AttemptCount c + 1"
  by (simp_all add: attempt_row_def)

lemma attempts_of_recorded:
  "attempts_of (recorded env result c db) i =
     attempts_of db i @ (if i = d_ID c then [attempt_row db c (res_Record result)] else [])"
  by (simp add: recorded_def attempts_of_def)

lemma upto_snoc: "0 \<le> n \<Longrightarrow> [1..n + 1] = [1..n] @ [n + 1 :: int]"
  by (simp add: upto_rec2)

lemma recorded_log_ok:
  assumes inv: "store_inv db" and c: "c \<in> set (db_deliveries db)"
  shows "log_ok (recorded env result c db)"
  unfolding log_ok_def
proof
  let ?db = "recorded env result c db"
  fix d assume "d \<in> set (db_deliveries ?db)"
  then obtain x where x: "x \<in> set (db_deliveries db)"
    and d: "d = (if d_ID x = d_ID c then apply_result env result x else x)"
    by (auto simp: recorded_def in_update_where)
  have nx: "numbers_ok db x" using store_invD(4) [OF inv] x by (simp add: log_ok_def)
  show "numbers_ok ?db d"
  proof (cases "d_ID x = d_ID c")
    case True
    then have "x = c" using store_invD(1) [OF inv] c x by (metis same_id_same_row)
    moreover have "0 \<le> d_AttemptCount c"
      using store_invD(3) [OF inv] c by (simp add: rows_ok_def deliveries_check_def)
    ultimately show ?thesis
      using nx True d by (simp add: numbers_ok_def attempts_of_recorded upto_snoc)
  next
    case False
    with nx d show ?thesis by (simp add: numbers_ok_def attempts_of_recorded)
  qed
qed

theorem RecordAttempt_inv [store_inv_intros]:
  assumes inv: "store_inv db"
  shows "store_inv (snd (RecordAttempt env result db))"
proof (cases rule: RecordAttempt_cases [of env result db])
  case same
  with inv show ?thesis by simp
next
  case (committed c)
  let ?db = "recorded env result c db"
  have ids: "same_ids x (apply_result env result x)" for x by (simp add: same_ids_def)
  have act: "active x \<and> active (apply_result env result x) \<and> deliveries_check (apply_result env result x)"
    if "x \<in> set (db_deliveries db)" "d_ID x = d_ID c" for x
    using same_id_same_row [OF store_invD(1) [OF inv] committed(2) that]
      committed(4,5) validateAttemptResult_state [OF committed(1)]
    by (auto simp: active_def)
  have "store_inv ?db"
  proof
    show "keys_ok ?db" "rows_ok ?db" "phase_ok ?db"
      by (rule update_deliveries_frame [where P = "\<lambda>d. d_ID d = d_ID c" and f = "apply_result env result"
            and db = db, OF inv ids act]; simp add: recorded_def)+
    show "refs_ok ?db"
      by (rule refs_ok_update [where P = "\<lambda>d. d_ID d = d_ID c" and f = "apply_result env result"
            and db = db, OF store_invD(2) [OF inv] ids];
          simp add: recorded_def committed(2) refs_ok_attempts [OF store_invD(2) [OF inv]])
    show "log_ok ?db" using inv committed(2) by (rule recorded_log_ok)
  qed
  with committed show ?thesis by simp
qed

theorem Replay_inv [store_inv_intros]:
  assumes inv: "store_inv db"
  shows "store_inv (snd (Replay env i now db))"
proof (cases "\<exists>c. \<not> IsZero now \<and> lockDelivery db i = Inr c \<and> d_State c = StateDead")
  case True
  then obtain c where c: "\<not> IsZero now" "lockDelivery db i = Inr c" "d_State c = StateDead" by blast
  have in_db: "c \<in> set (db_deliveries db)" using lockDelivery_InrD [OF c(2)] by simp
  have "store_inv (db\<lparr>db_deliveries := update_where (\<lambda>d. d_ID d = d_ID c) (replayed env now) (db_deliveries db)\<rparr>)"
  proof (rule store_inv_update_deliveries [OF inv])
    fix x assume x: "x \<in> set (db_deliveries db)" "d_ID x = d_ID c"
    then have "x = c" using same_id_same_row [OF store_invD(1) [OF inv] in_db] by simp
    then show "active x \<and> active (replayed env now x) \<and> deliveries_check (replayed env now x)"
      using c(3) store_invD(3) [OF inv] x(1)
      by (simp add: active_def replayed_def rows_ok_def deliveries_check_def)
    show "d_BudgetAttempts (replayed env now x) \<le> d_AttemptCount x"
      using store_invD(3) [OF inv] x(1) by (simp add: replayed_def rows_ok_def deliveries_check_def)
  qed (simp_all add: same_ids_def replayed_def)
  with c inv show ?thesis by (simp add: Replay_def Let_def split: list.splits)
next
  case False
  with inv show ?thesis by (auto simp: Replay_def split: sum.splits)
qed

end
