(* ===== verification/Message_Preserve.thy ===== *)
theory Message_Preserve
  imports Message_Invariant
begin

text \<open>
  Preservation of the store invariant by the operations that add, replace, cancel, release and
  delete messages, and the two capacity bounds those operations enforce.
\<close>

section \<open>Adding the deliveries of one message\<close>

lemma new_deliveries_fields:
  assumes "d \<in> set (new_deliveries env mid schedule did ts)"
  shows "d_MessageID d = mid" "d_State d = sch_state schedule" "d_AttemptCount d = 0"
    "d_BudgetAttempts d = 0" "d_NextAttemptAt d = coalesce (sch_nextAttemptAt schedule) (tx_now env)"
    "did \<le> d_ID d" "d_ID d < did + int (length ts)"
    "d_BudgetStartedAt d = coalesce (sch_budgetStartedAt schedule) (tx_now env)"
  using assms by (induction ts arbitrary: did; fastforce simp: new_delivery_def)+

lemma new_deliveries_ids: "distinct (map d_ID (new_deliveries env mid schedule did ts))"
proof (induction ts arbitrary: did)
  case (Cons t ts)
  have "did \<notin> d_ID ` set (new_deliveries env mid schedule (did + 1) ts)"
    using new_deliveries_fields(6) by fastforce
  with Cons show ?case by (simp add: new_delivery_def)
qed simp

lemma new_deliveries_empty [simp]: "new_deliveries env mid schedule did ts = [] \<longleftrightarrow> ts = []"
  by (cases ts) simp_all

lemma new_deliveries_names:
  "map d_DestinationName (new_deliveries env mid schedule did ts) = map dt_DestinationName ts"
  by (induction ts arbitrary: did) (simp_all add: new_delivery_def)

text \<open>The tables with the deliveries of message \<open>mid\<close> still to be written.\<close>

definition core_ok :: "database \<Rightarrow> bool" where
  "core_ok db \<longleftrightarrow> keys_ok db \<and> refs_ok db \<and> rows_ok db \<and> log_ok db"

lemma core_okD: "core_ok db \<Longrightarrow> keys_ok db" "core_ok db \<Longrightarrow> refs_ok db" "core_ok db \<Longrightarrow> rows_ok db"
    "core_ok db \<Longrightarrow> log_ok db"
  by (simp_all add: core_ok_def)

lemma store_inv_core: "store_inv db \<longleftrightarrow> core_ok db \<and> phase_ok db"
  by (auto simp: store_inv_def core_ok_def)

definition open_for :: "string \<Rightarrow> database \<Rightarrow> bool" where
  "open_for mid db \<longleftrightarrow> core_ok db
     \<and> mid \<in> m_id ` set (db_messages db) \<and> deliveries_of db mid = []
     \<and> (\<forall>m \<in> set (db_messages db). m_id m \<noteq> mid \<longrightarrow> message_phase m (deliveries_of db (m_id m)))"

lemma no_attempts_yet:
  assumes "keys_ok db" "refs_ok db" "db_delivery_seq db \<le> i"
  shows "attempts_of db i = []"
proof -
  have "ar_DeliveryID a \<noteq> i" if "a \<in> set (db_attempts db)" for a
    using assms that unfolding keys_ok_def refs_ok_def by fastforce
  then show ?thesis by (simp add: attempts_of_def filter_empty_conv)
qed

lemma insertDeliveries_Inr:
  assumes "insertDeliveries env db mid targets schedule = Inr db'"
  obtains rows where "rows = new_deliveries env mid schedule (db_delivery_seq db) targets"
    "distinct (map (\<lambda>d. (d_MessageID d, d_DestinationName d)) (db_deliveries db @ rows))"
    "list_all deliveries_check rows"
    "db' = db\<lparr>db_deliveries := db_deliveries db @ rows,
              db_delivery_seq := db_delivery_seq db + int (length targets)\<rparr>"
  using assms by (auto simp: insertDeliveries_def insertable_def Let_def split: if_splits)

lemma insertDeliveries_inv:
  assumes op: "open_for mid db" and ins: "insertDeliveries env db mid targets schedule = Inr db'"
    and phase: "\<And>m. m \<in> set (db_messages db) \<Longrightarrow> m_id m = mid \<Longrightarrow>
      message_phase m (new_deliveries env mid schedule (db_delivery_seq db) targets)"
  shows "store_inv db'"
proof -
  from op have ok: "keys_ok db" "refs_ok db" "rows_ok db" "log_ok db" "mid \<in> m_id ` set (db_messages db)"
    "deliveries_of db mid = []"
    "\<And>m. m \<in> set (db_messages db) \<Longrightarrow> m_id m \<noteq> mid \<Longrightarrow> message_phase m (deliveries_of db (m_id m))"
    by (simp_all add: open_for_def core_ok_def)
  from ins obtain rows where rows: "rows = new_deliveries env mid schedule (db_delivery_seq db) targets"
    "distinct (map (\<lambda>d. (d_MessageID d, d_DestinationName d)) (db_deliveries db @ rows))"
    "list_all deliveries_check rows"
    and db': "db' = db\<lparr>db_deliveries := db_deliveries db @ rows,
              db_delivery_seq := db_delivery_seq db + int (length targets)\<rparr>"
    by (rule insertDeliveries_Inr)
  note new = new_deliveries_fields [of _ env mid schedule "db_delivery_seq db" targets, folded rows(1)]
  have old: "d_ID d < db_delivery_seq db" if "d \<in> set (db_deliveries db)" for d
    using ok(1) that by (simp add: keys_ok_def)
  show ?thesis
  proof
    have "d_ID ` set (db_deliveries db) \<inter> d_ID ` set rows = {}"
      using old new(6) by fastforce
    moreover have "distinct (map d_ID rows)" by (simp add: rows(1) new_deliveries_ids)
    moreover have "d_ID d < db_delivery_seq db + int (length targets)" if "d \<in> set (db_deliveries db)" for d
      using old [OF that] by simp
    ultimately show "keys_ok db'"
      using ok(1) rows(2) new(7) by (auto simp: keys_ok_def db')
    show "refs_ok db'"
      using ok(2,5) new(1) by (auto simp: refs_ok_def db')
    show "rows_ok db'"
      using ok(3) rows(3) by (auto simp: rows_ok_def db' list_all_iff)
    have attempts: "attempts_of db' = attempts_of db" by (simp add: fun_eq_iff attempts_of_def db')
    have "numbers_ok db' d" if "d \<in> set rows" for d
      using no_attempts_yet [OF ok(1,2) new(6) [OF that]] new(3,4) [OF that]
      by (simp add: numbers_ok_def attempts)
    moreover have "numbers_ok db' d" if "d \<in> set (db_deliveries db)" for d
      using ok(4) that by (simp add: log_ok_def numbers_ok_def attempts)
    ultimately show "log_ok db'" by (auto simp: log_ok_def db')
    have of_other: "deliveries_of db' i = deliveries_of db i" if "i \<noteq> mid" for i
      using new(1) that by (auto simp: deliveries_of_def db' filter_empty_conv)
    have of_mid: "deliveries_of db' mid = rows"
      using ok(6) new(1) by (simp add: deliveries_of_def db')
    show "phase_ok db'"
      unfolding phase_ok_def
    proof
      fix m assume "m \<in> set (db_messages db')"
      then have m: "m \<in> set (db_messages db)" by (simp add: db')
      show "message_phase m (deliveries_of db' (m_id m))"
        using ok(7) [OF m] phase [OF m] of_mid of_other by (cases "m_id m = mid") (simp_all add: rows(1))
    qed
  qed
qed

section \<open>Inserts\<close>

lemma insert_message_row_Inserted:
  assumes "insert_message_row db row = Inserted db1"
  shows "db1 = db\<lparr>db_messages := db_messages db @ [row]\<rparr>" "m_id row \<notin> m_id ` set (db_messages db)"
    "messages_check row"
    "\<And>m. m \<in> set (db_messages db) \<Longrightarrow> (m_app_id m, m_idempotency_key m) \<noteq> (m_app_id row, m_idempotency_key row)"
  using assms by (auto simp: insert_message_row_def by_key_def list_ex_iff split: if_splits)

lemma insert_message_row_open:
  assumes inv: "store_inv db" and ins: "insert_message_row db row = Inserted db1"
  shows "open_for (m_id row) db1"
proof -
  note new = insert_message_row_Inserted [OF ins]
  note ok = store_invD [OF inv]
  have none: "deliveries_of db (m_id row) = []"
    using ok(2) new(2) unfolding deliveries_of_def filter_empty_conv refs_ok_def by metis
  have eq: "deliveries_of db1 = deliveries_of db" "attempts_of db1 = attempts_of db"
    by (simp_all add: fun_eq_iff deliveries_of_def attempts_of_def new(1))
  have "keys_ok db1" using ok(1) new(2,4) by (fastforce simp: keys_ok_def new(1))
  moreover have "refs_ok db1" using ok(2) by (auto simp: refs_ok_def new(1))
  moreover have "rows_ok db1" using ok(3) new(3) by (simp add: rows_ok_def new(1))
  moreover have "log_ok db1" using ok(4) by (simp add: log_ok_def numbers_ok_def eq(2)) (simp add: new(1))
  moreover have "\<forall>m \<in> set (db_messages db1). m_id m \<noteq> m_id row \<longrightarrow> message_phase m (deliveries_of db1 (m_id m))"
    using ok(5) by (simp add: phase_ok_def eq(1)) (simp add: new(1))
  moreover have "m_id row \<in> m_id ` set (db_messages db1)" by (simp add: new(1))
  ultimately show ?thesis using none by (simp add: open_for_def core_ok_def eq(1))
qed

text \<open>The schedules the inserts use: pending at once, or scheduled for the message's \<open>deliver_at\<close>.\<close>

definition insert_schedule :: "envelope \<Rightarrow> delivery_schedule \<Rightarrow> bool" where
  "insert_schedule e schedule \<longleftrightarrow> sch_state schedule = StatePending
     \<or> (sch_state schedule = StateScheduled \<and> sch_nextAttemptAt schedule = en_DeliverAt e \<and> en_DeliverAt e \<noteq> None)"

lemma message_phase_new:
  assumes "targets \<noteq> []" "m_held_at m = None" "m_cancelled_at m = None"
    and "sch_state schedule = StatePending \<or> sch_state schedule = StateScheduled
      \<and> sch_nextAttemptAt schedule = m_deliver_at m \<and> m_deliver_at m \<noteq> None"
  shows "message_phase m (new_deliveries env mid schedule did targets)"
  using assms unfolding message_phase_def
  by (auto simp: new_deliveries_fields coalesce_def dest: new_deliveries_fields(2,3,5))

definition quiet :: "tx_env \<Rightarrow> bool" where
  "quiet env \<longleftrightarrow> (\<forall>k db. store_inv db \<longrightarrow> store_inv (tx_between env k db))"

lemma insertOnce_inv:
  assumes inv: "store_inv db" and q: "quiet env" and ts: "targets \<noteq> []" and sch: "insert_schedule e schedule"
  shows "store_inv (snd (insertOnce env k e targets schedule caps db))"
proof (cases "insert_message_row db (message_row_of env e None)")
  case Conflict
  then show ?thesis using inv q by (simp add: insertOnce_def quiet_def Let_def split: sum.split)
next
  case Rejected
  then show ?thesis using inv by (simp add: insertOnce_def)
next
  case (Inserted db1)
  note new = insert_message_row_Inserted [OF Inserted]
  have "store_inv db2" if "insertDeliveries env db1 (tx_uuid env) targets schedule = Inr db2" for db2
  proof (rule insertDeliveries_inv [OF _ that])
    show "open_for (tx_uuid env) db1"
      using insert_message_row_open [OF inv Inserted] by (simp add: message_row_of_def)
    fix m assume "m \<in> set (db_messages db1)" "m_id m = tx_uuid env"
    then have m: "m = message_row_of env e None"
      using new(1,2) by (force simp: message_row_of_def)
    show "message_phase m (new_deliveries env (tx_uuid env) schedule (db_delivery_seq db1) targets)"
      using ts sch by (intro message_phase_new) (auto simp: m message_row_of_def insert_schedule_def)
  qed
  with Inserted inv show ?thesis by (simp add: insertOnce_def split: sum.split)
qed

lemma insert_loop_preserves:
  assumes "\<And>k db. P db \<Longrightarrow> P (snd (once k db))" and "P db"
  shows "P (snd (insert_loop msg once n k db))"
  using assms(2)
proof (induction n arbitrary: k db)
  case (Suc n)
  obtain r db' where r: "once k db = (r, db')" by (cases "once k db")
  then have "P db'" using assms(1) [OF Suc.prems, of k] by simp
  then show ?case using Suc.IH by (auto simp: r split: sum.split message_error.split)
qed simp

lemma insertWithRetry_inv:
  assumes "store_inv db" "quiet env" "insert_schedule e schedule"
  shows "store_inv (snd (insertWithRetry env e targets schedule caps db))"
proof (cases "targets = []")
  case True
  with assms(1) show ?thesis by (simp add: insertWithRetry_def)
next
  case False
  have "store_inv (snd (insert_loop msg (\<lambda>k. insertOnce env k e targets schedule caps) n k db))" for msg n k
    by (rule insert_loop_preserves [where P = store_inv, OF insertOnce_inv])
      (use assms False in auto)
  with False show ?thesis by (simp add: insertWithRetry_def)
qed

lemma InsertMessage_inv [store_inv_intros]:
  "store_inv db \<Longrightarrow> quiet env \<Longrightarrow> store_inv (snd (InsertMessage env e targets db))"
  by (simp add: InsertMessage_def insertWithRetry_inv insert_schedule_def pendingNow_def)

lemma InsertScheduledMessage_inv [store_inv_intros]:
  "store_inv db \<Longrightarrow> quiet env \<Longrightarrow> store_inv (snd (InsertScheduledMessage env e targets caps db))"
  by (auto simp: InsertScheduledMessage_def insert_schedule_def intro!: insertWithRetry_inv)

lemma insertHeldOnce_inv:
  assumes inv: "store_inv db" and q: "quiet env"
  shows "store_inv (snd (insertHeldOnce env k e caps now db))"
proof (cases "insert_message_row db (message_row_of env e (Some now))")
  case Conflict
  then show ?thesis using inv q by (simp add: insertHeldOnce_def quiet_def Let_def split: sum.split)
next
  case Rejected
  then show ?thesis using inv by (simp add: insertHeldOnce_def)
next
  case (Inserted db1)
  note new = insert_message_row_Inserted [OF Inserted]
  have op: "open_for (tx_uuid env) db1"
    using insert_message_row_open [OF inv Inserted] by (simp add: message_row_of_def)
  have "store_inv db1"
  proof
    show "keys_ok db1" "refs_ok db1" "rows_ok db1" "log_ok db1" using op by (simp_all add: open_for_def core_ok_def)
    show "phase_ok db1"
      unfolding phase_ok_def
    proof
      fix m assume m: "m \<in> set (db_messages db1)"
      show "message_phase m (deliveries_of db1 (m_id m))"
      proof (cases "m_id m = tx_uuid env")
        case True
        then have "m = message_row_of env e (Some now)"
          using m new(1,2) by (force simp: message_row_of_def)
        with True op show ?thesis by (simp add: open_for_def message_phase_def message_row_of_def)
      next
        case False
        with op m show ?thesis by (simp add: open_for_def)
      qed
    qed
  qed
  with Inserted inv show ?thesis by (simp add: insertHeldOnce_def split: sum.split)
qed

lemma InsertHeldMessage_inv [store_inv_intros]:
  assumes "store_inv db" "quiet env"
  shows "store_inv (snd (InsertHeldMessage env e caps now db))"
proof -
  have "store_inv (snd (insert_loop msg (\<lambda>k. insertHeldOnce env k e caps now) n k db))" for msg n k
    by (rule insert_loop_preserves [where P = store_inv, OF insertHeldOnce_inv]) (use assms in auto)
  with assms(1) show ?thesis by (simp add: InsertHeldMessage_def)
qed

section \<open>Changing one message row\<close>

lemma same_message_row:
  "keys_ok db \<Longrightarrow> m \<in> set (db_messages db) \<Longrightarrow> x \<in> set (db_messages db) \<Longrightarrow> m_id x = m_id m \<Longrightarrow> x = m"
  by (auto simp: keys_ok_def intro: distinct_map_inj)

lemma update_message_maps:
  assumes "m_id row' = m_id row" "m_app_id row' = m_app_id row" "m_idempotency_key row' = m_idempotency_key row"
    and "keys_ok db" "row \<in> set (db_messages db)"
  shows "map m_id (update_where (\<lambda>m. m_id m = m_id row) (\<lambda>_. row') (db_messages db)) = map m_id (db_messages db)"
    and "map (\<lambda>m. (m_app_id m, m_idempotency_key m)) (update_where (\<lambda>m. m_id m = m_id row) (\<lambda>_. row') (db_messages db))
      = map (\<lambda>m. (m_app_id m, m_idempotency_key m)) (db_messages db)"
proof -
  show "map m_id (update_where (\<lambda>m. m_id m = m_id row) (\<lambda>_. row') (db_messages db)) = map m_id (db_messages db)"
    by (rule map_update_where) (simp add: assms(1))
  show "map (\<lambda>m. (m_app_id m, m_idempotency_key m)) (update_where (\<lambda>m. m_id m = m_id row) (\<lambda>_. row') (db_messages db))
      = map (\<lambda>m. (m_app_id m, m_idempotency_key m)) (db_messages db)"
    unfolding update_where_def map_map
  proof (rule map_cong [OF refl])
    fix x assume "x \<in> set (db_messages db)"
    then have "x = row" if "m_id x = m_id row" using same_message_row [OF assms(4,5)] that by simp
    then show "((\<lambda>m. (m_app_id m, m_idempotency_key m)) \<circ> (\<lambda>r. if m_id r = m_id row then row' else r)) x
        = (m_app_id x, m_idempotency_key x)"
      using assms(2,3) by auto
  qed
qed

lemma update_message_frame:
  assumes core: "core_ok db" and row: "row \<in> set (db_messages db)"
    and same: "m_id row' = m_id row" "m_app_id row' = m_app_id row" "m_idempotency_key row' = m_idempotency_key row"
    and check: "messages_check row'"
    and db': "db' = db\<lparr>db_messages := update_where (\<lambda>m. m_id m = m_id row) (\<lambda>_. row') (db_messages db)\<rparr>"
  shows "core_ok db'"
proof -
  note ok = core_okD [OF core]
  note maps = update_message_maps [OF same ok(1) row]
  have "keys_ok db'" using ok(1) by (simp add: keys_ok_def db' maps)
  moreover have "m_id ` set (db_messages db') = m_id ` set (db_messages db)"
    using maps(1) by (simp add: db') (metis list.set_map)
  then have "refs_ok db'" using ok(2) by (simp add: refs_ok_def) (simp add: db')
  moreover have "rows_ok db'" using ok(3) check by (auto simp: rows_ok_def db' in_update_where)
  moreover have "log_ok db'" using ok(4) by (simp add: log_ok_def numbers_ok_def attempts_of_def db')
  ultimately show ?thesis by (simp add: core_ok_def)
qed

lemma store_inv_update_message:
  assumes inv: "store_inv db" and row: "row \<in> set (db_messages db)"
    and same: "m_id row' = m_id row" "m_app_id row' = m_app_id row" "m_idempotency_key row' = m_idempotency_key row"
    and check: "messages_check row'" and phase: "message_phase row' (deliveries_of db (m_id row))"
  shows "store_inv (db\<lparr>db_messages := update_where (\<lambda>m. m_id m = m_id row) (\<lambda>_. row') (db_messages db)\<rparr>)"
    (is "store_inv ?db")
proof -
  have "core_ok ?db" using inv by (intro update_message_frame [OF _ row same check refl]) (simp add: store_inv_core)
  moreover have "deliveries_of ?db = deliveries_of db" by (simp add: fun_eq_iff deliveries_of_def)
  then have "phase_ok ?db"
    using store_invD(5) [OF inv] phase same(1) by (auto simp: phase_ok_def in_update_where)
  ultimately show ?thesis by (simp add: store_inv_core)
qed

section \<open>Deletes\<close>

lemma delete_frame:
  assumes core: "core_ok db"
    and db': "db_deliveries db' = filter keep (db_deliveries db)"
      "db_attempts db' = filter (\<lambda>a. ar_DeliveryID a \<notin> d_ID ` set (filter (\<lambda>d. \<not> keep d) (db_deliveries db))) (db_attempts db)"
      "db_delivery_seq db' = db_delivery_seq db"
    and msgs: "db_messages db' = filter keep_m (db_messages db)"
      "\<And>d. d \<in> set (db_deliveries db) \<Longrightarrow> keep d \<Longrightarrow> d_MessageID d \<in> m_id ` set (filter keep_m (db_messages db))"
  shows "core_ok db'"
proof -
  note ok = core_okD [OF core]
  have "keys_ok db'" using ok(1) by (simp add: keys_ok_def db' msgs(1) distinct_map_filter_sub)
  moreover have "rows_ok db'" using ok(3) by (auto simp: rows_ok_def db' msgs(1))
  moreover have "ar_DeliveryID a \<in> d_ID ` set (db_deliveries db')" if "a \<in> set (db_attempts db')" for a
    using ok(2) that unfolding refs_ok_def db' by fastforce
  then have "refs_ok db'" using msgs by (auto simp: refs_ok_def db'(1))
  moreover have "attempts_of db' (d_ID d) = attempts_of db (d_ID d)" if "d \<in> set (db_deliveries db)" "keep d" for d
  proof -
    have "d_ID d \<notin> d_ID ` set (filter (\<lambda>d. \<not> keep d) (db_deliveries db))"
    proof
      assume "d_ID d \<in> d_ID ` set (filter (\<lambda>d. \<not> keep d) (db_deliveries db))"
      then obtain x where "x \<in> set (db_deliveries db)" "\<not> keep x" "d_ID x = d_ID d" by auto
      with that same_id_same_row [OF ok(1) that(1)] show False by auto
    qed
    then show ?thesis
      unfolding attempts_of_def db'(2) filter_filter by (intro filter_cong refl) metis
  qed
  then have "log_ok db'" using ok(4) by (auto simp: log_ok_def numbers_ok_def db'(1))
  ultimately show ?thesis by (simp add: core_ok_def)
qed

lemma delete_messages_inv:
  assumes inv: "store_inv db"
  shows "store_inv (delete_messages ids db)" (is "store_inv ?db")
proof -
  have msg: "d_MessageID d \<in> m_id ` set (filter (\<lambda>m. m_id m \<notin> ids) (db_messages db))"
    if "d \<in> set (db_deliveries db)" "d_MessageID d \<notin> ids" for d
    using store_invD(2) [OF inv] that unfolding refs_ok_def by fastforce
  have "core_ok ?db"
    by (rule delete_frame [OF _ _ _ _ _ msg, where keep = "\<lambda>d. d_MessageID d \<notin> ids"];
        use inv in \<open>simp add: delete_messages_def Let_def store_inv_core\<close>)
  moreover have "phase_ok ?db"
    unfolding phase_ok_def
  proof
    fix m assume "m \<in> set (db_messages ?db)"
    then have m: "m \<in> set (db_messages db)" "m_id m \<notin> ids" by (auto simp: delete_messages_def Let_def)
    then have "deliveries_of ?db (m_id m) = deliveries_of db (m_id m)"
      by (auto simp: deliveries_of_def delete_messages_def Let_def intro: filter_cong)
    with m(1) store_invD(5) [OF inv] show "message_phase m (deliveries_of ?db (m_id m))"
      by (simp add: phase_ok_def)
  qed
  ultimately show ?thesis by (simp add: store_inv_core)
qed

lemma delete_batches_preserves:
  assumes "\<And>db. P db \<Longrightarrow> P (snd (stmt db))" "P db"
  shows "P (snd (delete_batches ctx_done stmt bsize n b k db))"
  using assms(2)
proof (induction n arbitrary: b k db)
  case (Suc n)
  obtain r db' where r: "stmt db = (r, db')" by (cases "stmt db")
  then have "P db'" using assms(1) [OF Suc.prems] by simp
  then show ?case using Suc by (simp add: r)
qed simp

lemma DeleteExpired_inv [store_inv_intros]:
  assumes "store_inv db"
  shows "store_inv (snd (DeleteExpiredInBatches ctx_done cutoff bsize db))"
proof -
  have "store_inv (snd (delete_batches ctx_done (deleteExpiredSQL cutoff bsize) bsize n b k db))" for n b k
    by (rule delete_batches_preserves [where P = store_inv, OF _ assms])
      (simp add: deleteExpiredSQL_def Let_def delete_messages_inv)
  with assms show ?thesis by (simp add: DeleteExpiredInBatches_def)
qed

lemma DeleteExpiredHeld_inv [store_inv_intros]:
  assumes "store_inv db"
  shows "store_inv (snd (DeleteExpiredHeldInBatches ctx_done locked cutoff bsize db))"
proof -
  have "store_inv (snd (delete_batches ctx_done (deleteExpiredHeldSQL locked cutoff bsize) bsize n b k db))" for n b k
    by (rule delete_batches_preserves [where P = store_inv, OF _ assms])
      (simp add: deleteExpiredHeldSQL_def Let_def delete_messages_inv)
  with assms show ?thesis by (simp add: DeleteExpiredHeldInBatches_def)
qed

section \<open>Replace\<close>

lemma delete_deliveries_open:
  assumes core: "core_ok db" and mid: "mid \<in> m_id ` set (db_messages db)"
    and others: "\<And>m. m \<in> set (db_messages db) \<Longrightarrow> m_id m \<noteq> mid \<Longrightarrow> message_phase m (deliveries_of db (m_id m))"
  shows "open_for mid (delete_deliveries_of mid db)" (is "open_for mid ?db")
proof -
  have msg: "d_MessageID d \<in> m_id ` set (filter (\<lambda>m. True) (db_messages db))"
    if "d \<in> set (db_deliveries db)" "d_MessageID d \<noteq> mid" for d
    using core_okD(2) [OF core] that unfolding refs_ok_def by simp
  have "core_ok ?db"
    by (rule delete_frame [OF core _ _ _ _ msg, where keep = "\<lambda>d. d_MessageID d \<noteq> mid"])
      (simp_all add: delete_deliveries_of_def Let_def)
  moreover have "deliveries_of ?db i = (if i = mid then [] else deliveries_of db i)" for i
    by (auto simp: deliveries_of_def delete_deliveries_of_def Let_def filter_empty_conv intro: filter_cong)
  ultimately show ?thesis
    using mid others by (simp add: open_for_def) (simp add: delete_deliveries_of_def Let_def)
qed

lemma queryMessage_InrD:
  assumes "queryMessage db p = Inr stored"
  obtains m where "m \<in> set (db_messages db)" "p m" "sm_ID stored = m_id m" "State stored = row_state m"
    "sm_Deliveries stored = sort_key delivery_order (deliveries_of db (m_id m))"
    "sm_Envelope stored = sm_Envelope (scanMessage m)"
proof (cases "find p (db_messages db)")
  case None
  with assms show ?thesis by (simp add: queryMessage_def queryMessageHead_def)
next
  case (Some m)
  with assms have "stored = (scanMessage m)\<lparr>sm_Deliveries := sort_key delivery_order (deliveries_of db (m_id m))\<rparr>"
    by (simp add: queryMessage_def queryMessageHead_def scanMessage_def)
  with find_Some_in [OF Some] show ?thesis
    by (intro that [of m]) (simp_all add: scanMessage_def State_def row_state_def)
qed

lemma scheduled_row:
  assumes "DeriveStatus ds (row_state m) = StatusScheduled"
  shows "m_held_at m = None" "m_cancelled_at m = None" "m_release_failed_at m = None" "ds \<noteq> []"
    "d \<in> set ds \<Longrightarrow> d_State d = StateScheduled"
  using assms [unfolded DeriveStatus_scheduled_iff] by (auto simp: plain_state_def row_state_def)

lemma replaced_row_fields [simp]:
  "m_id (replaced_row e now row) = m_id row" "m_app_id (replaced_row e now row) = m_app_id row"
  "m_idempotency_key (replaced_row e now row) = m_idempotency_key row"
  "m_held_at (replaced_row e now row) = m_held_at row"
  "m_cancelled_at (replaced_row e now row) = m_cancelled_at row"
  by (simp_all add: replaced_row_def)

lemma replace_schedule_phase:
  assumes "targets \<noteq> []" "m_held_at row = None" "m_cancelled_at row = None"
  shows "message_phase (replaced_row e now row) (new_deliveries env mid (replace_schedule e now) did targets)"
  using assms by (intro message_phase_new)
    (auto simp: replace_schedule_def replaced_row_def release_now_def split: option.split)

lemma replace_rows_inv:
  assumes inv: "store_inv db" and row: "row \<in> set (db_messages db)"
    and plain: "m_held_at row = None" "m_cancelled_at row = None" and ts: "targets \<noteq> []"
    and rep: "replace_rows env e targets now row db = Inr db2"
  shows "store_inv db2"
proof -
  define db1 where "db1 = db\<lparr>db_messages :=
      update_where (\<lambda>m. m_id m = m_id row) (\<lambda>_. replaced_row e now row) (db_messages db)\<rparr>"
  have check: "messages_check (replaced_row e now row)"
    and ins: "insertDeliveries env (delete_deliveries_of (m_id row) db1) (m_id row) targets
      (replace_schedule e now) = Inr db2"
    using rep by (auto simp: replace_rows_def db1_def split: if_splits)
  have core: "core_ok db1"
    using inv check by (intro update_message_frame [OF _ row _ _ _ _ db1_def]) (simp_all add: store_inv_core)
  have in1: "m = replaced_row e now row" if "m \<in> set (db_messages db1)" "m_id m = m_id row" for m
    using that by (auto simp: db1_def in_update_where split: if_splits)
  have "replaced_row e now row \<in> set (db_messages db1)" using row by (auto simp: db1_def in_update_where)
  then have mid: "m_id row \<in> m_id ` set (db_messages db1)" by (metis image_eqI replaced_row_fields(1))
  have "message_phase m (deliveries_of db1 (m_id m))" if "m \<in> set (db_messages db1)" "m_id m \<noteq> m_id row" for m
    using that store_invD(5) [OF inv]
    by (auto simp: phase_ok_def db1_def in_update_where deliveries_of_def split: if_splits)
  then have op: "open_for (m_id row) (delete_deliveries_of (m_id row) db1)"
    by (rule delete_deliveries_open [OF core mid])
  show ?thesis
  proof (rule insertDeliveries_inv [OF op ins])
    fix m assume "m \<in> set (db_messages (delete_deliveries_of (m_id row) db1))" "m_id m = m_id row"
    then have "m = replaced_row e now row" by (auto simp: delete_deliveries_of_def Let_def intro: in1)
    then show "message_phase m (new_deliveries env (m_id row) (replace_schedule e now)
        (db_delivery_seq (delete_deliveries_of (m_id row) db1)) targets)"
      using replace_schedule_phase [OF ts plain] by simp
  qed
qed

lemma ReplaceScheduledMessage_cases:
  assumes "keys_ok db"
  obtains (same) "snd (ReplaceScheduledMessage env e targets now db) = db"
      "\<And>stored. fst (ReplaceScheduledMessage env e targets now db) \<noteq> Inr (stored, True)"
  | (replaced) row db2 stored where
      "row \<in> set (db_messages db)" "by_key (en_AppID e) (en_IdempotencyKey e) row"
      "DeriveStatus (sort_key delivery_order (deliveries_of db (m_id row))) (row_state row) = StatusScheduled"
      "targets \<noteq> []" "\<not> IsZero now" "replace_rows env e targets now row db = Inr db2"
      "queryMessage db2 (\<lambda>m. m_id m = m_id row) = Inr stored"
      "ReplaceScheduledMessage env e targets now db = (Inr (stored, True), db2)"
proof (cases "targets = [] \<or> IsZero now")
  case True
  then show ?thesis by (intro same) (auto simp: ReplaceScheduledMessage_def)
next
  case no: False
  show ?thesis
  proof (cases "find (by_key (en_AppID e) (en_IdempotencyKey e)) (db_messages db)")
    case None
    with no show ?thesis by (intro same) (simp_all add: ReplaceScheduledMessage_def)
  next
    case (Some row)
    note row = find_Some_in [OF Some]
    have hit: "find (\<lambda>m. m_id m = m_id row) (db_messages db) = Some row"
      using assms row by (intro find_unique) (simp_all add: keys_ok_def)
    define cur where "cur = (scanMessage row)\<lparr>sm_Deliveries := sort_key delivery_order (deliveries_of db (m_id row))\<rparr>"
    have cur: "queryMessage db (\<lambda>m. m_id m = m_id row) = Inr cur" "State cur = row_state row"
      "sm_Deliveries cur = sort_key delivery_order (deliveries_of db (m_id row))"
      using hit by (simp_all add: queryMessage_def queryMessageHead_def cur_def scanMessage_def State_def row_state_def)
    note def = ReplaceScheduledMessage_def [of env e targets now db]
    show ?thesis
    proof (cases "\<exists>db2 stored. DeriveStatus (sm_Deliveries cur) (State cur) = StatusScheduled
        \<and> replace_rows env e targets now row db = Inr db2
        \<and> queryMessage db2 (\<lambda>m. m_id m = m_id row) = Inr stored")
      case True
      then obtain db2 stored where c: "DeriveStatus (sm_Deliveries cur) (State cur) = StatusScheduled"
        "replace_rows env e targets now row db = Inr db2"
        "queryMessage db2 (\<lambda>m. m_id m = m_id row) = Inr stored" by blast
      show ?thesis
        by (rule replaced [of row db2 stored])
          (use no row cur c Some in \<open>simp_all add: def\<close>)
    next
      case False
      show ?thesis
        by (rule same) (use no Some cur(1) False in \<open>auto simp: def split: sum.splits\<close>)
    qed
  qed
qed

lemma ReplaceScheduledMessage_inv [store_inv_intros]:
  assumes inv: "store_inv db"
  shows "store_inv (snd (ReplaceScheduledMessage env e targets now db))"
  using store_invD(1) [OF inv]
proof (cases rule: ReplaceScheduledMessage_cases [of db env e targets now])
  case same
  with inv show ?thesis by simp
next
  case (replaced row db2 stored)
  have "store_inv db2"
    by (rule replace_rows_inv [OF inv replaced(1) scheduled_row(1,2) [OF replaced(3)] replaced(4,6)])
  with replaced(8) show ?thesis by simp
qed

section \<open>Cancel and release\<close>

lemma update_deliveries_core:
  assumes core: "core_ok db" and ids: "\<And>d. same_ids d (f d)"
    and row: "\<And>d. d \<in> set (db_deliveries db) \<Longrightarrow> P d \<Longrightarrow> deliveries_check (f d)"
    and num: "\<And>d. d_AttemptCount (f d) = d_AttemptCount d" "\<And>d. d_BudgetAttempts (f d) = d_BudgetAttempts d"
  shows "core_ok (db\<lparr>db_deliveries := update_where P f (db_deliveries db)\<rparr>)" (is "core_ok ?db'")
proof -
  note ok = core_okD [OF core]
  have maps: "map d_ID (db_deliveries ?db') = map d_ID (db_deliveries db)"
    "map (\<lambda>d. (d_MessageID d, d_DestinationName d)) (db_deliveries ?db')
      = map (\<lambda>d. (d_MessageID d, d_DestinationName d)) (db_deliveries db)"
    using ids by (simp_all add: map_update_where same_ids_def)
  have "\<forall>d \<in> set (db_deliveries ?db'). d_ID d < db_delivery_seq db"
    using ok(1) ids by (auto simp: keys_ok_def in_update_where same_ids_def)
  then have "keys_ok ?db'" using ok(1) maps by (simp add: keys_ok_def)
  moreover have "refs_ok ?db'"
    by (rule refs_ok_update [where P = P and f = f, OF ok(2) ids]; simp add: refs_ok_attempts [OF ok(2)])
  moreover have "rows_ok ?db'" using ok(3) row by (auto simp: rows_ok_def in_update_where)
  moreover have "numbers_ok ?db' (if P x then f x else x)" if "x \<in> set (db_deliveries db)" for x
    using ok(4) that ids [of x] num [of x]
    by (cases "P x") (simp_all add: log_ok_def numbers_ok_def attempts_of_def same_ids_def)
  then have "log_ok ?db'" by (auto simp: log_ok_def in_update_where)
  ultimately show ?thesis by (simp add: core_ok_def)
qed

lemma update_where_all: "(\<And>r. r \<in> set rows \<Longrightarrow> p r) \<Longrightarrow> update_where p f rows = map f rows"
  by (simp add: update_where_def)

lemma update_where_none: "(\<And>r. r \<in> set rows \<Longrightarrow> \<not> p r) \<Longrightarrow> update_where p f rows = rows"
  by (simp add: update_where_def map_idI)

lemma update_where_cong:
  "(\<And>r. r \<in> set rows \<Longrightarrow> p r = q r) \<Longrightarrow> (\<And>r. r \<in> set rows \<Longrightarrow> q r \<Longrightarrow> f r = g r)
    \<Longrightarrow> update_where p f rows = update_where q g rows"
  by (simp add: update_where_def)

definition cancelled_delivery :: "time \<Rightarrow> delivery \<Rightarrow> delivery" where
  "cancelled_delivery now d = d\<lparr>d_State := StateCancelled, d_UpdatedAt := now\<rparr>"

lemma cancel_scheduled_inv:
  assumes inv: "store_inv db" and m: "m \<in> set (db_messages db)"
    and status: "DeriveStatus (deliveries_of db (m_id m)) (row_state m) = StatusScheduled"
    and check: "messages_check (m\<lparr>m_cancelled_at := Some now\<rparr>)"
  shows "store_inv (db\<lparr>db_deliveries := update_where (\<lambda>d. d_MessageID d = m_id m \<and> d_State d = StateScheduled)
             (cancelled_delivery now) (db_deliveries db),
           db_messages := update_where (\<lambda>x. m_id x = m_id m) (\<lambda>_. m\<lparr>m_cancelled_at := Some now\<rparr>) (db_messages db)\<rparr>)"
    (is "store_inv ?db2")
proof -
  let ?P = "\<lambda>d. d_MessageID d = m_id m \<and> d_State d = StateScheduled"
  define db1 where "db1 = db\<lparr>db_deliveries := update_where ?P (cancelled_delivery now) (db_deliveries db)\<rparr>"
  note st = scheduled_row [OF status]
  have sch: "d_State d = StateScheduled" if "d \<in> set (db_deliveries db)" "d_MessageID d = m_id m" for d
    using st(5) that by (simp add: in_deliveries_of)
  have core1: "core_ok db1"
    unfolding db1_def
  proof (rule update_deliveries_core)
    show "core_ok db" using inv by (simp add: store_inv_core)
    fix d assume d: "d \<in> set (db_deliveries db)" "?P d"
    then have "deliveries_check d" using store_invD(3) [OF inv] by (simp add: rows_ok_def)
    with d(2) show "deliveries_check (cancelled_delivery now d)"
      by (auto simp: deliveries_check_def cancelled_delivery_def)
  qed (simp_all add: same_ids_def cancelled_delivery_def)
  have "core_ok ?db2"
    by (rule update_message_frame [where row = m and db = db1 and row' = "m\<lparr>m_cancelled_at := Some now\<rparr>", OF core1])
      (use m check in \<open>simp_all add: db1_def\<close>)
  moreover have "phase_ok ?db2"
    unfolding phase_ok_def
  proof
    fix x assume x: "x \<in> set (db_messages ?db2)"
    have of_x: "deliveries_of ?db2 i = update_where ?P (cancelled_delivery now) (deliveries_of db i)" for i
      by (simp add: deliveries_of_def filter_update_where cancelled_delivery_def)
    show "message_phase x (deliveries_of ?db2 (m_id x))"
    proof (cases "m_id x = m_id m")
      case True
      then have xm: "x = m\<lparr>m_cancelled_at := Some now\<rparr>" using x by (auto simp: in_update_where)
      have "deliveries_of ?db2 (m_id x) = map (cancelled_delivery now) (deliveries_of db (m_id m))"
        unfolding True of_x using sch by (intro update_where_all) (auto simp: in_deliveries_of)
      moreover have "d_AttemptCount d = 0" if "d \<in> set (deliveries_of db (m_id m))" for d
        using store_invD(5) [OF inv] m that st(5) message_phaseD(6) by (auto simp: phase_ok_def)
      ultimately show ?thesis
        using st(1,4) by (simp add: message_phase_def xm cancelled_delivery_def)
    next
      case False
      then have "x \<in> set (db_messages db)" using x by (auto simp: in_update_where split: if_splits)
      moreover have "deliveries_of ?db2 (m_id x) = deliveries_of db (m_id x)"
        unfolding of_x using False by (intro update_where_none) (auto simp: in_deliveries_of)
      ultimately show ?thesis using store_invD(5) [OF inv] by (simp add: phase_ok_def)
    qed
  qed
  ultimately show ?thesis by (simp add: store_inv_core)
qed

lemma cancel_row_inv:
  assumes inv: "store_inv db" and m: "m \<in> set (db_messages db)"
  shows "store_inv (snd (cancel_row m now db))"
proof -
  have same: "update_where (\<lambda>x. m_id x = m_id m) g (db_messages db)
      = update_where (\<lambda>x. m_id x = m_id m) (\<lambda>_. g m) (db_messages db)" for g
    using same_message_row [OF store_invD(1) [OF inv] m] by (intro update_where_cong) auto
  have held: "store_inv (db\<lparr>db_messages := update_where (\<lambda>x. m_id x = m_id m)
      (\<lambda>_. m\<lparr>m_cancelled_at := Some now, m_held_cancelled_at := Some now, m_held_at := None\<rparr>) (db_messages db)\<rparr>)"
    if "m_held_at m \<noteq> None"
  proof (rule store_inv_update_message [OF inv m])
    have "deliveries_of db (m_id m) = []"
      using store_invD(5) [OF inv] m that message_phaseD(1) by (auto simp: phase_ok_def)
    then show "message_phase (m\<lparr>m_cancelled_at := Some now, m_held_cancelled_at := Some now, m_held_at := None\<rparr>)
        (deliveries_of db (m_id m))" by (simp add: message_phase_def)
    show "messages_check (m\<lparr>m_cancelled_at := Some now, m_held_cancelled_at := Some now, m_held_at := None\<rparr>)"
      using store_invD(3) [OF inv] m by (simp add: rows_ok_def messages_check_def)
  qed simp_all
  have scheduled: "store_inv (db\<lparr>db_deliveries :=
        update_where (\<lambda>d. d_MessageID d = m_id m \<and> d_State d = StateScheduled)
          (\<lambda>d. d\<lparr>d_State := StateCancelled, d_UpdatedAt := now\<rparr>) (db_deliveries db),
      db_messages := update_where (\<lambda>x. m_id x = m_id m) (\<lambda>_. m\<lparr>m_cancelled_at := Some now\<rparr>) (db_messages db)\<rparr>)"
    if "DeriveStatus (deliveries_of db (m_id m)) (row_state m) = StatusScheduled"
      "messages_check (m\<lparr>m_cancelled_at := Some now\<rparr>)"
    using cancel_scheduled_inv [OF inv m that] by (simp only: cancelled_delivery_def [abs_def])
  show ?thesis
    using inv held scheduled
    by (simp add: cancel_row_def Let_def same [of "\<lambda>x. x\<lparr>m_cancelled_at := Some now\<rparr>"]
        same [of "\<lambda>x. x\<lparr>m_cancelled_at := Some now, m_held_cancelled_at := Some now, m_held_at := None\<rparr>"])
qed

lemma cancel_inv [store_inv_intros]: "store_inv db \<Longrightarrow> store_inv (snd (cancel p now db))"
  by (auto simp: cancel_def cancel_row_inv dest: find_Some_in split: option.split)

lemma CancelMessage_inv [store_inv_intros]: "store_inv db \<Longrightarrow> store_inv (snd (CancelMessage mid app now db))"
  by (simp add: CancelMessage_def cancel_inv)

lemma AdminCancelMessage_inv [store_inv_intros]: "store_inv db \<Longrightarrow> store_inv (snd (AdminCancelMessage mid now db))"
  by (simp add: AdminCancelMessage_def cancel_inv)

lemma CancelMessageByKey_inv [store_inv_intros]: "store_inv db \<Longrightarrow> store_inv (snd (CancelMessageByKey app key now db))"
  by (simp add: CancelMessageByKey_def cancel_inv)

text \<open>
  Releasing all the due deliveries of a set of messages. Deliveries of one message are scheduled
  together and due together, so a message is released as a whole.
\<close>

lemma release_inv:
  assumes inv: "store_inv db"
  shows "store_inv (db\<lparr>db_deliveries := update_where (\<lambda>d. d_MessageID d \<in> ids \<and> release_due now d)
           (released now) (db_deliveries db)\<rparr>)" (is "store_inv ?db")
proof -
  let ?P = "\<lambda>d. d_MessageID d \<in> ids \<and> release_due now d"
  have "core_ok ?db"
  proof (rule update_deliveries_core)
    show "core_ok db" using inv by (simp add: store_inv_core)
    fix d assume "d \<in> set (db_deliveries db)" "?P d"
    then show "deliveries_check (released now d)"
      using store_invD(3) [OF inv] by (auto simp: rows_ok_def deliveries_check_def released_def release_due_def)
  qed (simp_all add: same_ids_def released_def)
  moreover have "phase_ok ?db"
    unfolding phase_ok_def
  proof
    fix m assume "m \<in> set (db_messages ?db)"
    then have m: "message_phase m (deliveries_of db (m_id m))"
      using store_invD(5) [OF inv] by (simp add: phase_ok_def)
    have of_m: "deliveries_of ?db (m_id m) = update_where ?P (released now) (deliveries_of db (m_id m))"
      by (simp add: deliveries_of_def filter_update_where released_def)
    show "message_phase m (deliveries_of ?db (m_id m))"
    proof (cases "\<exists>d \<in> set (deliveries_of db (m_id m)). ?P d")
      case True
      then obtain d where d: "d \<in> set (deliveries_of db (m_id m))" "?P d" by blast
      have sch: "d_State d = StateScheduled" "d_NextAttemptAt d \<le> now" using d(2) by (auto simp: release_due_def)
      have all: "?P x" if "x \<in> set (deliveries_of db (m_id m))" for x
      proof -
        have "d_State x = StateScheduled" by (rule message_phaseD(4) [OF m d(1) sch(1) that])
        moreover from this have "d_NextAttemptAt x = d_NextAttemptAt d"
          using message_phaseD(5) [OF m d(1) sch(1)] message_phaseD(5) [OF m that] by simp
        moreover have "d_MessageID x \<in> ids" using d that by (simp add: in_deliveries_of)
        ultimately show ?thesis using sch(2) by (simp add: release_due_def)
      qed
      have mapped: "deliveries_of ?db (m_id m) = map (released now) (deliveries_of db (m_id m))"
        unfolding of_m by (rule update_where_all) (rule all)
      show ?thesis
        unfolding mapped
      proof (rule message_phase_plain)
        show "m_held_at m = None" using message_phaseD(1) [OF m] d(1) by fastforce
        show "m_cancelled_at m = None" using message_phaseD(7) [OF m _ d(1)] sch(1) by fastforce
      qed (use d(1) in \<open>auto simp: released_def\<close>)
    next
      case False
      then show ?thesis unfolding of_m using m by (subst update_where_none) auto
    qed
  qed
  ultimately show ?thesis by (simp add: store_inv_core)
qed

lemma ReleaseDue_inv [store_inv_intros]: "store_inv db \<Longrightarrow> store_inv (snd (ReleaseDue locked now limit db))"
  unfolding ReleaseDue_def Let_def
  by (simp only: split: if_split) (simp only: snd_conv release_inv simp_thms)

end
