(* ===== verification/Registry_Service.thy ===== *)
theory Registry_Service
  imports Registry_Store
begin

text \<open>
  The registry service (\<^verbatim>\<open>delivery-api/internal/registry/service.go\<close>, \<^verbatim>\<open>app_service.go\<close>,
  \<^verbatim>\<open>app_service_routes.go\<close>, \<^verbatim>\<open>mask.go\<close>) over its Postgres store: destination and route
  administration by the operator and by an app for its own objects, and \<open>Resolve\<close>, which turns an
  envelope's target into the destinations it fires. The sealer, the JSON codec of the secrets, the URL
  parser, the timestamp codec and the registration-time URL checker are the fields of
  \<open>registry_service\<close>; logging is left out.
\<close>

section \<open>The service and its inputs\<close>

record registry_service =
  rs_seal :: "string \<Rightarrow> string \<Rightarrow> string option" \<comment> \<open>plaintext, associated data\<close>
  rs_open :: "string \<Rightarrow> string \<Rightarrow> string option" \<comment> \<open>sealed blob, associated data\<close>
  rs_json_encode :: "fields \<Rightarrow> string"
  rs_json_decode :: "string \<Rightarrow> fields option"
  rs_url_parse :: "string \<Rightarrow> parsed_url option"
  rs_parse_rfc3339 :: "string \<Rightarrow> time option"
  rs_format_rfc3339 :: "time \<Rightarrow> string"
  rs_url_checker :: "(dest_type \<Rightarrow> fields \<Rightarrow> unit checked) option"

record destination_input =
  di_Name :: string
  di_Type :: dest_type
  di_Enabled :: "bool option"
  di_Config :: fields
  di_Secrets :: fields

record destination_patch =
  dpt_Enabled :: "bool option"
  dpt_Config :: "fields option"
  dpt_Secrets :: "fields option"

record route_input =
  ri_AppPattern :: string
  ri_ChannelPattern :: string
  ri_Destinations :: "string list"
  ri_Enabled :: "bool option"

record route_patch =
  rp_AppPattern :: "string option"
  rp_ChannelPattern :: "string option"
  rp_Destinations :: "string list option"
  rp_Enabled :: "bool option"

record destination_view =
  dv_Name :: string
  dv_Type :: dest_type
  dv_Enabled :: bool
  dv_DisabledReason :: "string option"
  dv_Config :: fields
  dv_Secrets :: fields
  dv_OwnerKind :: owner_kind
  dv_OwnerAppID :: "string option"
  dv_CreatedAt :: time
  dv_UpdatedAt :: time

record route_view =
  rv_ID :: int
  rv_AppPattern :: string
  rv_ChannelPattern :: string
  rv_Destinations :: "string list"
  rv_Enabled :: bool
  rv_OwnerKind :: owner_kind
  rv_OwnerAppID :: "string option"
  rv_CreatedAt :: time
  rv_UpdatedAt :: time

abbreviation validate_fields :: "registry_service \<Rightarrow> dest_type \<Rightarrow> fields \<Rightarrow> fields \<Rightarrow> unit checked" where
  "validate_fields svc \<equiv> ValidateDestinationFields (rs_url_parse svc) (rs_parse_rfc3339 svc)"

text \<open>\<^verbatim>\<open>maps.Copy(dst, src)\<close>.\<close>

definition maps_copy :: "fields \<Rightarrow> fields \<Rightarrow> fields" where
  "maps_copy dst src = fold (\<lambda>(k, v). AList.update k v) src dst"

definition default_true :: "bool option \<Rightarrow> bool" where
  "default_true b = (case b of None \<Rightarrow> True | Some x \<Rightarrow> x)"

section \<open>Secrets\<close>

definition DestinationSecretsAAD :: "string \<Rightarrow> string" where
  "DestinationSecretsAAD name = ''delivery-api/destination/v1:'' @ name"

definition sealSecrets :: "registry_service \<Rightarrow> string \<Rightarrow> fields \<Rightarrow> string checked" where
  "sealSecrets svc name secrets =
     (case rs_seal svc (rs_json_encode svc secrets) (DestinationSecretsAAD name) of
        None \<Rightarrow> Inl (RegistryFailure ''seal secrets'')
      | Some sealed \<Rightarrow> Inr sealed)"

definition openSecrets :: "registry_service \<Rightarrow> string \<Rightarrow> string \<Rightarrow> fields checked" where
  "openSecrets svc name sealed =
     (case rs_open svc sealed (DestinationSecretsAAD name) of
        None \<Rightarrow> Inl (RegistryFailure ''open secrets'')
      | Some plaintext \<Rightarrow>
          (case rs_json_decode svc plaintext of
             None \<Rightarrow> Inl (RegistryFailure ''sealed secrets are not a JSON object of strings'')
           | Some secrets \<Rightarrow> Inr secrets))"

definition maskedValue :: string where "maskedValue = ''****''"

definition maskURL :: "(string \<Rightarrow> parsed_url option) \<Rightarrow> string \<Rightarrow> string" where
  "maskURL url_parse rawURL =
     (case url_parse rawURL of
        None \<Rightarrow> maskedValue
      | Some parsed \<Rightarrow>
          if pu_Host parsed = [] then maskedValue else ''https://'' @ pu_Host parsed @ ''/****'')"

definition MaskSecrets :: "(string \<Rightarrow> parsed_url option) \<Rightarrow> fields \<Rightarrow> fields" where
  "MaskSecrets url_parse secrets =
     map (\<lambda>(key, v). (key, if key = ''webhook_url'' \<or> key = ''url'' then maskURL url_parse v else maskedValue)) secrets"

definition destinationView :: "registry_service \<Rightarrow> stored_destination \<Rightarrow> destination_view" where
  "destinationView svc stored =
     \<lparr>dv_Name = sd_Name stored, dv_Type = sd_Type stored, dv_Enabled = sd_Enabled stored,
      dv_DisabledReason = sd_DisabledReason stored, dv_Config = sd_Config stored,
      dv_Secrets = (case openSecrets svc (sd_Name stored) (sd_SealedSecrets stored) of
                      Inl _ \<Rightarrow> [(''error'', maskedValue)]
                    | Inr secrets \<Rightarrow> MaskSecrets (rs_url_parse svc) secrets),
      dv_OwnerKind = sd_OwnerKind stored, dv_OwnerAppID = sd_OwnerAppID stored,
      dv_CreatedAt = sd_CreatedAt stored, dv_UpdatedAt = sd_UpdatedAt stored\<rparr>"

definition routeView :: "stored_route \<Rightarrow> route_view" where
  "routeView stored =
     \<lparr>rv_ID = sr_ID stored, rv_AppPattern = sr_AppPattern stored, rv_ChannelPattern = sr_ChannelPattern stored,
      rv_Destinations = sr_DestinationNames stored, rv_Enabled = sr_Enabled stored,
      rv_OwnerKind = sr_OwnerKind stored, rv_OwnerAppID = sr_OwnerAppID stored,
      rv_CreatedAt = sr_CreatedAt stored, rv_UpdatedAt = sr_UpdatedAt stored\<rparr>"

text \<open>The view of what a store write returned.\<close>

definition viewed :: "('a \<Rightarrow> 'b) \<Rightarrow> 'a reg_tx \<Rightarrow> 'b reg_tx" where
  "viewed f r = (case r of (Inl e, db) \<Rightarrow> (Inl e, db) | (Inr x, db) \<Rightarrow> (Inr (f x), db))"

section \<open>Operator destinations\<close>

definition new_destination ::
    "destination_input \<Rightarrow> string \<Rightarrow> owner_kind \<Rightarrow> string option \<Rightarrow> stored_destination" where
  "new_destination input sealed kind app =
     \<lparr>sd_ID = 0, sd_Name = di_Name input, sd_Type = di_Type input, sd_Config = di_Config input,
      sd_SealedSecrets = sealed, sd_Enabled = default_true (di_Enabled input), sd_DisabledReason = None,
      sd_OwnerKind = kind, sd_OwnerAppID = app, sd_CreatedAt = 0, sd_UpdatedAt = 0\<rparr>"

definition CreateDestination ::
    "registry_service \<Rightarrow> time \<Rightarrow> destination_input \<Rightarrow> database \<Rightarrow> destination_view reg_tx" where
  "CreateDestination svc now input db =
     (case ValidateDestinationName (di_Name input) of Inl e \<Rightarrow> (Inl e, db) | Inr _ \<Rightarrow>
      case ValidateDestinationType (di_Type input) of Inl e \<Rightarrow> (Inl e, db) | Inr _ \<Rightarrow>
      case validate_fields svc (di_Type input) (di_Config input) (di_Secrets input) of Inl e \<Rightarrow> (Inl e, db) | Inr _ \<Rightarrow>
      case sealSecrets svc (di_Name input) (di_Secrets input) of Inl e \<Rightarrow> (Inl e, db) | Inr sealed \<Rightarrow>
      viewed (destinationView svc) (InsertDestination now (new_destination input sealed OwnerOperator None) db))"

definition service_ListDestinations :: "registry_service \<Rightarrow> database \<Rightarrow> destination_view list" where
  "service_ListDestinations svc db = map (destinationView svc) (ListDestinations db)"

definition service_GetDestination :: "registry_service \<Rightarrow> database \<Rightarrow> string \<Rightarrow> registry_error + destination_view" where
  "service_GetDestination svc db name =
     (case GetDestination db name of Inl e \<Rightarrow> Inl e | Inr stored \<Rightarrow> Inr (destinationView svc stored))"

definition applyDestinationPatch ::
    "registry_service \<Rightarrow> destination_patch \<Rightarrow> stored_destination \<Rightarrow> registry_error + stored_destination" where
  "applyDestinationPatch svc patch current =
     (let current = (case dpt_Enabled patch of
                       None \<Rightarrow> current
                     | Some e \<Rightarrow> if e then current\<lparr>sd_Enabled := e, sd_DisabledReason := None\<rparr>
                                 else current\<lparr>sd_Enabled := e\<rparr>)
      in if dpt_Config patch = None \<and> dpt_Secrets patch = None then Inr current
         else case openSecrets svc (sd_Name current) (sd_SealedSecrets current) of
           Inl e \<Rightarrow> Inl e
         | Inr opened \<Rightarrow>
             (let patched = (case dpt_Secrets patch of None \<Rightarrow> [] | Some s \<Rightarrow> s);
                  config = maps_copy (sd_Config current) (case dpt_Config patch of None \<Rightarrow> [] | Some c \<Rightarrow> c);
                  secrets = maps_copy opened patched
              in case validate_fields svc (sd_Type current) config secrets of
                   Inl e \<Rightarrow> Inl e
                 | Inr _ \<Rightarrow>
                     if patched = [] then Inr (current\<lparr>sd_Config := config\<rparr>)
                     else case sealSecrets svc (sd_Name current) secrets of
                            Inl e \<Rightarrow> Inl e
                          | Inr sealed \<Rightarrow> Inr (current\<lparr>sd_Config := config, sd_SealedSecrets := sealed\<rparr>)))"

definition service_UpdateDestination ::
    "registry_service \<Rightarrow> time \<Rightarrow> string \<Rightarrow> destination_patch \<Rightarrow> database \<Rightarrow> destination_view reg_tx" where
  "service_UpdateDestination svc now name patch db =
     viewed (destinationView svc) (UpdateDestination now name (applyDestinationPatch svc patch) db)"

text \<open>
  \<open>rotateSecret\<close>: \<open>generated\<close> is what \<open>generateSigningSecret\<close> returned, \<open>clock\<close>
  the service's clock.
\<close>

definition rotateSecret ::
    "registry_service \<Rightarrow> string option \<Rightarrow> time \<Rightarrow> int \<Rightarrow> stored_destination \<Rightarrow> registry_error + stored_destination" where
  "rotateSecret svc generated clock overlapHours current =
     (if sd_Type current \<noteq> TypeWebhook then Inl ErrRotationUnsupported
      else case openSecrets svc (sd_Name current) (sd_SealedSecrets current) of
        Inl e \<Rightarrow> Inl e
      | Inr opened \<Rightarrow>
          (case generated of
             None \<Rightarrow> Inl (RegistryFailure ''generate signing secret'')
           | Some newSecret \<Rightarrow>
               (let secrets = AList.update ''signing_secret'' newSecret
                      (AList.update ''signing_secret_previous'' (field opened ''signing_secret'') opened);
                    config = AList.update ''previous_secret_expires_at''
                      (rs_format_rfc3339 svc (clock + wrap64 (overlapHours * Hour))) (sd_Config current)
                in case validate_fields svc (sd_Type current) config secrets of
                     Inl e \<Rightarrow> Inl e
                   | Inr _ \<Rightarrow>
                       (case sealSecrets svc (sd_Name current) secrets of
                          Inl e \<Rightarrow> Inl e
                        | Inr sealed \<Rightarrow> Inr (current\<lparr>sd_Config := config, sd_SealedSecrets := sealed\<rparr>)))))"

definition with_secret :: "string option \<Rightarrow> destination_view \<Rightarrow> destination_view \<times> string" where
  "with_secret generated view = (view, case generated of None \<Rightarrow> [] | Some s \<Rightarrow> s)"

definition RotateWebhookSecret ::
    "registry_service \<Rightarrow> time \<Rightarrow> string option \<Rightarrow> time \<Rightarrow> string \<Rightarrow> int \<Rightarrow> database
     \<Rightarrow> (destination_view \<times> string) reg_tx" where
  "RotateWebhookSecret svc now generated clock name overlapHours db =
     viewed (with_secret generated \<circ> destinationView svc)
       (UpdateDestination now name (rotateSecret svc generated clock overlapHours) db)"

definition disable_mutation ::
    "int \<Rightarrow> string \<Rightarrow> stored_destination \<Rightarrow> registry_error + stored_destination" where
  "disable_mutation destinationID reason current =
     (if sd_ID current \<noteq> destinationID then Inl ErrDestinationNotFound
      else Inr (current\<lparr>sd_Enabled := False, sd_DisabledReason := Some reason\<rparr>))"

definition DisableDestination :: "time \<Rightarrow> string \<Rightarrow> int \<Rightarrow> string \<Rightarrow> database \<Rightarrow> unit reg_tx" where
  "DisableDestination now name destinationID reason db =
     viewed (\<lambda>_. ()) (UpdateDestination now name (disable_mutation destinationID reason) db)"

section \<open>Operator routes\<close>

definition new_route :: "route_input \<Rightarrow> string \<Rightarrow> owner_kind \<Rightarrow> string option \<Rightarrow> stored_route" where
  "new_route input appPattern kind app =
     \<lparr>sr_ID = 0, sr_AppPattern = appPattern, sr_ChannelPattern = ri_ChannelPattern input,
      sr_DestinationIDs = [], sr_DestinationNames = ri_Destinations input,
      sr_Enabled = default_true (ri_Enabled input), sr_OwnerKind = kind, sr_OwnerAppID = app,
      sr_CreatedAt = 0, sr_UpdatedAt = 0\<rparr>"

definition CreateRoute :: "time \<Rightarrow> route_input \<Rightarrow> database \<Rightarrow> route_view reg_tx" where
  "CreateRoute now input db =
     (case ValidateAppPattern (ri_AppPattern input) of Inl e \<Rightarrow> (Inl e, db) | Inr _ \<Rightarrow>
      case ValidateChannelPattern (ri_ChannelPattern input) of Inl e \<Rightarrow> (Inl e, db) | Inr _ \<Rightarrow>
      case ValidateRouteDestinations (ri_Destinations input) of Inl e \<Rightarrow> (Inl e, db) | Inr _ \<Rightarrow>
      viewed routeView (InsertRoute now (new_route input (ri_AppPattern input) OwnerOperator None) db))"

definition service_ListRoutes :: "database \<Rightarrow> route_view list" where
  "service_ListRoutes db = map routeView (ListRoutes db)"

definition service_GetRoute :: "database \<Rightarrow> int \<Rightarrow> registry_error + route_view" where
  "service_GetRoute db id' = (case queryRoute db id' of Inl e \<Rightarrow> Inl e | Inr r \<Rightarrow> Inr (routeView r))"

definition validateRoutePatch :: "route_patch \<Rightarrow> unit checked" where
  "validateRoutePatch patch =
     (case (case rp_AppPattern patch of None \<Rightarrow> Inr () | Some p \<Rightarrow> ValidateAppPattern p) of Inl e \<Rightarrow> Inl e | Inr _ \<Rightarrow>
      case (case rp_ChannelPattern patch of None \<Rightarrow> Inr () | Some p \<Rightarrow> ValidateChannelPattern p) of
        Inl e \<Rightarrow> Inl e | Inr _ \<Rightarrow>
      case rp_Destinations patch of None \<Rightarrow> Inr () | Some names \<Rightarrow> ValidateRouteDestinations names)"

definition applyRoutePatch :: "route_patch \<Rightarrow> stored_route \<Rightarrow> stored_route" where
  "applyRoutePatch patch current =
     current\<lparr>sr_AppPattern := (case rp_AppPattern patch of None \<Rightarrow> sr_AppPattern current | Some p \<Rightarrow> p),
             sr_ChannelPattern := (case rp_ChannelPattern patch of None \<Rightarrow> sr_ChannelPattern current | Some p \<Rightarrow> p),
             sr_DestinationNames := (case rp_Destinations patch of None \<Rightarrow> sr_DestinationNames current | Some n \<Rightarrow> n),
             sr_Enabled := (case rp_Enabled patch of None \<Rightarrow> sr_Enabled current | Some e \<Rightarrow> e)\<rparr>"

definition service_UpdateRoute :: "time \<Rightarrow> int \<Rightarrow> route_patch \<Rightarrow> database \<Rightarrow> route_view reg_tx" where
  "service_UpdateRoute now id' patch db =
     (case validateRoutePatch patch of Inl e \<Rightarrow> (Inl e, db) | Inr _ \<Rightarrow>
      viewed routeView (UpdateRoute now id' (\<lambda>current. Inr (applyRoutePatch patch current)) db))"

section \<open>App-owned destinations and routes\<close>

definition validateOwnerAppID :: "string \<Rightarrow> unit checked" where
  "validateOwnerAppID appID = (if app_id_valid appID then Inr () else invalid ''invalid app_id'')"

definition ownedByApp :: "stored_destination \<Rightarrow> string \<Rightarrow> bool" where
  "ownedByApp destination appID \<longleftrightarrow>
     appID \<noteq> [] \<and> sd_OwnerKind destination = OwnerApp \<and> sd_OwnerAppID destination = Some appID"

definition sameOwnedRow :: "stored_destination \<Rightarrow> stored_destination \<Rightarrow> string \<Rightarrow> bool" where
  "sameOwnedRow locked current appID \<longleftrightarrow>
     ownedByApp locked appID \<and> sd_ID locked = sd_ID current \<and> sd_Type locked = sd_Type current"

definition validateAppDestinationName :: "string \<Rightarrow> string \<Rightarrow> unit checked" where
  "validateAppDestinationName appID name =
     (if \<not> prefix (appID @ ''_'') name \<or> length name = length (appID @ ''_'')
      then invalid (''name must start with '' @ appID @ ''_'') else Inr ())"

definition validateAppTopic :: "string \<Rightarrow> dest_type \<Rightarrow> fields \<Rightarrow> unit checked" where
  "validateAppTopic appID destinationType config =
     (if destinationType \<noteq> TypeNtfy then Inr ()
      else let topic = field config ''topic''
           in if \<not> prefix (appID @ ''-'') topic \<or> length topic = length (appID @ ''-'')
              then invalid (''config.topic must start with '' @ appID @ ''-'') else Inr ())"

fun destinationURLSecretKey :: "dest_type \<Rightarrow> string" where
  "destinationURLSecretKey TypeWebhook = ''url''"
| "destinationURLSecretKey TypeDiscord = ''webhook_url''"
| "destinationURLSecretKey _ = []"

definition checkAppDestinationURL :: "registry_service \<Rightarrow> dest_type \<Rightarrow> fields \<Rightarrow> unit checked" where
  "checkAppDestinationURL svc destinationType secrets =
     (if destinationURLSecretKey destinationType = [] then Inr ()
      else case rs_url_checker svc of
             None \<Rightarrow> Inl ErrURLCheckUnavailable
           | Some check \<Rightarrow> check destinationType secrets)"

definition getOwnedDestination :: "string \<Rightarrow> string \<Rightarrow> database \<Rightarrow> registry_error + stored_destination" where
  "getOwnedDestination appID name db =
     (case validateOwnerAppID appID of Inl e \<Rightarrow> Inl e | Inr _ \<Rightarrow>
      case GetDestination db name of Inl e \<Rightarrow> Inl e | Inr stored \<Rightarrow>
      if ownedByApp stored appID then Inr stored else Inl ErrDestinationNotFound)"

definition CreateAppDestination ::
    "registry_service \<Rightarrow> time \<Rightarrow> string \<Rightarrow> destination_input \<Rightarrow> database \<Rightarrow> destination_view reg_tx" where
  "CreateAppDestination svc now appID input db =
     (case validateOwnerAppID appID of Inl e \<Rightarrow> (Inl e, db) | Inr _ \<Rightarrow>
      case ValidateDestinationName (di_Name input) of Inl e \<Rightarrow> (Inl e, db) | Inr _ \<Rightarrow>
      case ValidateDestinationType (di_Type input) of Inl e \<Rightarrow> (Inl e, db) | Inr _ \<Rightarrow>
      case validateAppDestinationName appID (di_Name input) of Inl e \<Rightarrow> (Inl e, db) | Inr _ \<Rightarrow>
      case validate_fields svc (di_Type input) (di_Config input) (di_Secrets input) of Inl e \<Rightarrow> (Inl e, db) | Inr _ \<Rightarrow>
      case validateAppTopic appID (di_Type input) (di_Config input) of Inl e \<Rightarrow> (Inl e, db) | Inr _ \<Rightarrow>
      case checkAppDestinationURL svc (di_Type input) (di_Secrets input) of Inl e \<Rightarrow> (Inl e, db) | Inr _ \<Rightarrow>
      case sealSecrets svc (di_Name input) (di_Secrets input) of Inl e \<Rightarrow> (Inl e, db) | Inr sealed \<Rightarrow>
      viewed (destinationView svc) (InsertDestination now (new_destination input sealed OwnerApp (Some appID)) db))"

definition ListAppDestinations :: "registry_service \<Rightarrow> database \<Rightarrow> string \<Rightarrow> registry_error + destination_view list" where
  "ListAppDestinations svc db appID =
     (case validateOwnerAppID appID of Inl e \<Rightarrow> Inl e | Inr _ \<Rightarrow>
      Inr (map (destinationView svc) (filter (\<lambda>d. ownedByApp d appID) (ListDestinationsByOwner db appID))))"

definition GetAppDestination ::
    "registry_service \<Rightarrow> database \<Rightarrow> string \<Rightarrow> string \<Rightarrow> registry_error + destination_view" where
  "GetAppDestination svc db appID name =
     (case getOwnedDestination appID name db of Inl e \<Rightarrow> Inl e | Inr stored \<Rightarrow> Inr (destinationView svc stored))"

definition checkPatchedURL ::
    "registry_service \<Rightarrow> stored_destination \<Rightarrow> destination_patch \<Rightarrow> unit checked" where
  "checkPatchedURL svc current patch =
     (let urlKey = destinationURLSecretKey (sd_Type current);
          patched = (case dpt_Secrets patch of None \<Rightarrow> [] | Some s \<Rightarrow> s)
      in if urlKey = [] then Inr ()
         else case map_of patched urlKey of
           None \<Rightarrow> Inr ()
         | Some newURL \<Rightarrow>
             (case openSecrets svc (sd_Name current) (sd_SealedSecrets current) of
                Inl e \<Rightarrow> Inl e
              | Inr opened \<Rightarrow>
                  if field opened urlKey = newURL then Inr ()
                  else
                    (let config = maps_copy (sd_Config current) (case dpt_Config patch of None \<Rightarrow> [] | Some c \<Rightarrow> c);
                         secrets = maps_copy opened patched
                     in case validate_fields svc (sd_Type current) config secrets of
                          Inl e \<Rightarrow> Inl e
                        | Inr _ \<Rightarrow> checkAppDestinationURL svc (sd_Type current) secrets)))"

definition app_patch_mutation ::
    "registry_service \<Rightarrow> string \<Rightarrow> stored_destination \<Rightarrow> destination_patch \<Rightarrow> stored_destination
     \<Rightarrow> registry_error + stored_destination" where
  "app_patch_mutation svc appID current patch locked =
     (if \<not> sameOwnedRow locked current appID then Inl ErrDestinationNotFound
      else
        (let config = (case dpt_Config patch of None \<Rightarrow> [] | Some c \<Rightarrow> c)
         in case (if map_of config ''topic'' \<noteq> None then validateAppTopic appID (sd_Type locked) config else Inr ()) of
              Inl e \<Rightarrow> Inl e
            | Inr _ \<Rightarrow> applyDestinationPatch svc patch locked))"

text \<open>
  The check runs before the row lock is taken: \<open>between\<close> is what other transactions commit in
  the meantime.
\<close>

definition UpdateAppDestination ::
    "registry_service \<Rightarrow> time \<Rightarrow> (database \<Rightarrow> database) \<Rightarrow> string \<Rightarrow> string \<Rightarrow> destination_patch \<Rightarrow> database
     \<Rightarrow> destination_view reg_tx" where
  "UpdateAppDestination svc now between appID name patch db =
     (case getOwnedDestination appID name db of Inl e \<Rightarrow> (Inl e, db) | Inr current \<Rightarrow>
      case checkPatchedURL svc current patch of Inl e \<Rightarrow> (Inl e, db) | Inr _ \<Rightarrow>
      viewed (destinationView svc)
        (UpdateDestination now name (app_patch_mutation svc appID current patch) (between db)))"

definition DeleteAppDestination :: "string \<Rightarrow> string \<Rightarrow> database \<Rightarrow> unit reg_tx" where
  "DeleteAppDestination appID name db =
     (case validateOwnerAppID appID of Inl e \<Rightarrow> (Inl e, db) | Inr _ \<Rightarrow>
      case DeleteDestinationOwnedBy name appID db of
        (Inl e, db') \<Rightarrow> (Inl e, db')
      | (Inr deleted, db') \<Rightarrow> (if deleted then Inr () else Inl ErrDestinationNotFound, db'))"

definition RotateAppWebhookSecret ::
    "registry_service \<Rightarrow> time \<Rightarrow> (database \<Rightarrow> database) \<Rightarrow> string option \<Rightarrow> time \<Rightarrow> string \<Rightarrow> string \<Rightarrow> int \<Rightarrow> database
     \<Rightarrow> (destination_view \<times> string) reg_tx" where
  "RotateAppWebhookSecret svc now between generated clock appID name overlapHours db =
     (case getOwnedDestination appID name db of Inl e \<Rightarrow> (Inl e, db) | Inr current \<Rightarrow>
      case (if sd_Type current = TypeWebhook
            then (case openSecrets svc (sd_Name current) (sd_SealedSecrets current) of
                    Inl e \<Rightarrow> Inl e
                  | Inr secrets \<Rightarrow> checkAppDestinationURL svc (sd_Type current) secrets)
            else Inr ()) of
        Inl e \<Rightarrow> (Inl e, db)
      | Inr _ \<Rightarrow>
          viewed (with_secret generated \<circ> destinationView svc)
            (UpdateDestination now name
               (\<lambda>locked. if \<not> sameOwnedRow locked current appID then Inl ErrDestinationNotFound
                         else rotateSecret svc generated clock overlapHours locked)
               (between db)))"

definition routeOwnedByApp :: "stored_route \<Rightarrow> string \<Rightarrow> bool" where
  "routeOwnedByApp route appID \<longleftrightarrow>
     appID \<noteq> [] \<and> sr_OwnerKind route = OwnerApp \<and> sr_OwnerAppID route = Some appID"

definition CreateAppRoute :: "time \<Rightarrow> string \<Rightarrow> route_input \<Rightarrow> database \<Rightarrow> route_view reg_tx" where
  "CreateAppRoute now appID input db =
     (case validateOwnerAppID appID of Inl e \<Rightarrow> (Inl e, db) | Inr _ \<Rightarrow>
      if ri_AppPattern input \<noteq> [] \<and> ri_AppPattern input \<noteq> appID
      then (invalid (''app_pattern must be the app'' @ [CHR 0x27] @ ''s own id''), db)
      else
      case ValidateAppPattern appID of Inl e \<Rightarrow> (Inl e, db) | Inr _ \<Rightarrow>
      case ValidateChannelPattern (ri_ChannelPattern input) of Inl e \<Rightarrow> (Inl e, db) | Inr _ \<Rightarrow>
      case ValidateRouteDestinations (ri_Destinations input) of Inl e \<Rightarrow> (Inl e, db) | Inr _ \<Rightarrow>
      viewed routeView (InsertRoute now (new_route input appID OwnerApp (Some appID)) db))"

definition ListAppRoutes :: "database \<Rightarrow> string \<Rightarrow> registry_error + route_view list" where
  "ListAppRoutes db appID =
     (case validateOwnerAppID appID of Inl e \<Rightarrow> Inl e | Inr _ \<Rightarrow>
      Inr (map routeView (filter (\<lambda>r. routeOwnedByApp r appID) (ListRoutesByOwner db appID))))"

definition GetAppRoute :: "database \<Rightarrow> string \<Rightarrow> int \<Rightarrow> registry_error + route_view" where
  "GetAppRoute db appID id' =
     (case validateOwnerAppID appID of Inl e \<Rightarrow> Inl e | Inr _ \<Rightarrow>
      case queryRoute db id' of Inl e \<Rightarrow> Inl e | Inr stored \<Rightarrow>
      if routeOwnedByApp stored appID then Inr (routeView stored) else Inl ErrRouteNotFound)"

definition UpdateAppRoute :: "time \<Rightarrow> string \<Rightarrow> int \<Rightarrow> route_patch \<Rightarrow> database \<Rightarrow> route_view reg_tx" where
  "UpdateAppRoute now appID id' patch db =
     (case validateOwnerAppID appID of Inl e \<Rightarrow> (Inl e, db) | Inr _ \<Rightarrow>
      if (case rp_AppPattern patch of None \<Rightarrow> False | Some p \<Rightarrow> p \<noteq> appID)
      then (invalid (''app_pattern must be the app'' @ [CHR 0x27] @ ''s own id''), db)
      else
      case validateRoutePatch patch of Inl e \<Rightarrow> (Inl e, db) | Inr _ \<Rightarrow>
      viewed routeView
        (UpdateRoute now id'
           (\<lambda>locked. if routeOwnedByApp locked appID then Inr (applyRoutePatch patch locked)
                     else Inl ErrRouteNotFound) db))"

definition DeleteAppRoute :: "string \<Rightarrow> int \<Rightarrow> database \<Rightarrow> unit reg_tx" where
  "DeleteAppRoute appID id' db =
     (case validateOwnerAppID appID of Inl e \<Rightarrow> (Inl e, db) | Inr _ \<Rightarrow>
      case DeleteRouteOwnedBy id' appID db of
        (deleted, db') \<Rightarrow> (if deleted then Inr () else Inl ErrRouteNotFound, db'))"

section \<open>Resolve\<close>

definition unseal :: "registry_service \<Rightarrow> stored_destination \<Rightarrow> resolved_destination checked" where
  "unseal svc stored =
     (case openSecrets svc (sd_Name stored) (sd_SealedSecrets stored) of
        Inl e \<Rightarrow> Inl e
      | Inr secrets \<Rightarrow>
          Inr \<lparr>rd_ID = sd_ID stored, rd_Name = sd_Name stored, rd_Type = sd_Type stored,
               rd_Config = sd_Config stored, rd_Secrets = secrets\<rparr>)"

definition resolveNamed ::
    "registry_service \<Rightarrow> string \<Rightarrow> string \<Rightarrow> database \<Rightarrow> resolved_destination list checked" where
  "resolveNamed svc appID name db =
     (case GetDestination db name of
        Inl e \<Rightarrow> Inl (if e = ErrDestinationNotFound then ErrUnknownDestination else e)
      | Inr stored \<Rightarrow>
          if \<not> UsableBy stored appID then Inl ErrUnknownDestination
          else if \<not> sd_Enabled stored then Inl ErrDestinationDisabled
          else case unseal svc stored of Inl e \<Rightarrow> Inl e | Inr resolved \<Rightarrow> Inr [resolved])"

fun resolve_each ::
    "registry_service \<Rightarrow> string \<Rightarrow> stored_destination list \<Rightarrow> resolved_destination list checked" where
  "resolve_each svc appID [] = Inr []"
| "resolve_each svc appID (d # ds) =
     (if \<not> UsableBy d appID \<or> \<not> sd_Enabled d then resolve_each svc appID ds
      else case unseal svc d of
             Inl e \<Rightarrow> Inl e
           | Inr r \<Rightarrow> (case resolve_each svc appID ds of Inl e \<Rightarrow> Inl e | Inr rs \<Rightarrow> Inr (r # rs)))"

definition Resolve ::
    "registry_service \<Rightarrow> string \<Rightarrow> string \<Rightarrow> string \<Rightarrow> database \<Rightarrow> resolved_destination list checked" where
  "Resolve svc appID destinationName channel db =
     (if destinationName \<noteq> [] then resolveNamed svc appID destinationName db
      else
        (let matches = MatchRoutes (ListEnabledRoutes db) appID channel
         in if matches = [] then Inr []
            else resolve_each svc appID
                   (sort_key sd_Name (GetDestinationsByID db (map dm_DestinationID matches)))))"

end
