(* ===== verification/Registry_Invariant.thy ===== *)
theory Registry_Invariant
  imports Registry_Service
begin

text \<open>
  The invariant of the registry tables and its preservation by every registry write. Its core is
  ownership: a route links only destinations that every app its \<open>app_pattern\<close> matches may use,
  which is what makes the run-time ownership filter of \<open>Resolve\<close> a second line of defence.
\<close>

named_theorems reg_inv_intros \<open>preservation of the registry invariant, one fact per operation\<close>

section \<open>The invariant\<close>

definition dest_ok :: "database \<Rightarrow> bool" where
  "dest_ok db \<longleftrightarrow>
     distinct (map sd_ID (db_destinations db)) \<and> distinct (map sd_Name (db_destinations db))
     \<and> (\<forall>d \<in> set (db_destinations db). destinations_check d \<and> sd_ID d < db_destination_seq db)"

definition routes_ok :: "database \<Rightarrow> bool" where
  "routes_ok db \<longleftrightarrow>
     distinct (map r_id (db_routes db))
     \<and> distinct (map (\<lambda>r. (r_app_pattern r, r_channel_pattern r)) (db_routes db))
     \<and> (\<forall>r \<in> set (db_routes db). routes_check r \<and> r_id r < db_route_seq db)"

definition link_ok :: "database \<Rightarrow> int \<times> int \<Rightarrow> bool" where
  "link_ok db l \<longleftrightarrow>
     (\<exists>r \<in> set (db_routes db). \<exists>d \<in> set (db_destinations db).
        l = (r_id r, sd_ID d) \<and> UsableBy d (r_app_pattern r))"

definition links_ok :: "database \<Rightarrow> bool" where
  "links_ok db \<longleftrightarrow> (\<forall>l \<in> set (db_route_destinations db). link_ok db l)"

definition delivery_refs_ok :: "database \<Rightarrow> bool" where
  "delivery_refs_ok db \<longleftrightarrow>
     (\<forall>x \<in> set (db_deliveries db). \<forall>i. d_DestinationID x = Some i \<longrightarrow> i \<in> sd_ID ` set (db_destinations db))"

definition reg_inv :: "database \<Rightarrow> bool" where
  "reg_inv db \<longleftrightarrow> dest_ok db \<and> routes_ok db \<and> links_ok db \<and> delivery_refs_ok db"

lemma reg_invD:
  assumes "reg_inv db"
  shows "dest_ok db" "routes_ok db" "links_ok db" "delivery_refs_ok db"
  using assms by (simp_all add: reg_inv_def)

lemma reg_inv_empty: "reg_inv empty_db"
  by (simp add: reg_inv_def empty_db_def dest_ok_def routes_ok_def links_ok_def delivery_refs_ok_def)

lemma link_ok_mono:
  "link_ok db l \<Longrightarrow> set (db_routes db) \<subseteq> set (db_routes db') \<Longrightarrow>
   set (db_destinations db) \<subseteq> set (db_destinations db') \<Longrightarrow> link_ok db' l"
  unfolding link_ok_def by blast

lemma same_destination:
  "dest_ok db \<Longrightarrow> d \<in> set (db_destinations db) \<Longrightarrow> x \<in> set (db_destinations db) \<Longrightarrow> sd_ID x = sd_ID d \<Longrightarrow> x = d"
  by (auto simp: dest_ok_def intro: distinct_map_inj)

lemma same_route:
  "routes_ok db \<Longrightarrow> r \<in> set (db_routes db) \<Longrightarrow> x \<in> set (db_routes db) \<Longrightarrow> r_id x = r_id r \<Longrightarrow> x = r"
  by (auto simp: routes_ok_def intro: distinct_map_inj)

lemma viewed_snd [simp]: "snd (viewed f r) = snd r"
  by (cases r; cases "fst r") (simp_all add: viewed_def)

section \<open>Destination writes\<close>

lemma InsertDestination_inv [reg_inv_intros]:
  assumes inv: "reg_inv db"
  shows "reg_inv (snd (InsertDestination now d db))"
proof -
  note ok = reg_invD [OF inv]
  have new: "i \<notin> sd_ID ` set (db_destinations db)" if "i = db_destination_seq db" for i
    using ok(1) that by (fastforce simp: dest_ok_def)
  have "reg_inv (db\<lparr>db_destinations := db_destinations db @ [row], db_destination_seq := db_destination_seq db + 1\<rparr>)"
    (is "reg_inv ?db")
    if row: "sd_ID row = db_destination_seq db" "destinations_check row"
      "sd_Name row \<notin> sd_Name ` set (db_destinations db)" for row
  proof -
    have "dest_ok ?db" using ok(1) row new [OF row(1)] by (auto simp: dest_ok_def)
    moreover have "routes_ok ?db" using ok(2) by (simp add: routes_ok_def)
    moreover have "links_ok ?db" using ok(3) by (auto simp: links_ok_def intro: link_ok_mono [of db])
    moreover have "delivery_refs_ok ?db" using ok(4) by (auto simp: delivery_refs_ok_def)
    ultimately show ?thesis by (simp add: reg_inv_def)
  qed
  with inv show ?thesis by (simp add: InsertDestination_def Let_def)
qed

lemma UpdateDestination_cases:
  obtains (same) e where "UpdateDestination now name mutate db = (Inl e, db)"
  | (updated) current mutated row where
      "current \<in> set (db_destinations db)" "sd_Name current = name" "mutate current = Inr mutated"
      "row = current\<lparr>sd_Config := sd_Config mutated, sd_SealedSecrets := sd_SealedSecrets mutated,
          sd_Enabled := sd_Enabled mutated, sd_DisabledReason := sd_DisabledReason mutated, sd_UpdatedAt := now\<rparr>"
      "UpdateDestination now name mutate db = (Inr row, db\<lparr>db_destinations :=
         update_where (\<lambda>d. sd_ID d = sd_ID current) (\<lambda>_. row) (db_destinations db)\<rparr>)"
proof (cases "find (\<lambda>d. sd_Name d = name) (db_destinations db)")
  case None
  then show ?thesis by (intro same) (simp add: UpdateDestination_def)
next
  case (Some current)
  note c = find_Some_in [OF Some]
  show ?thesis
  proof (cases "mutate current")
    case (Inl e)
    with Some show ?thesis by (intro same) (simp add: UpdateDestination_def)
  next
    case (Inr mutated)
    with Some c show ?thesis by (intro updated) (auto simp: UpdateDestination_def Let_def)
  qed
qed

text \<open>An update in place that keeps the id, name, type and owner of the row keeps the invariant.\<close>

definition same_identity :: "stored_destination \<Rightarrow> stored_destination \<Rightarrow> bool" where
  "same_identity d d' \<longleftrightarrow> sd_ID d' = sd_ID d \<and> sd_Name d' = sd_Name d \<and> sd_Type d' = sd_Type d
     \<and> sd_OwnerKind d' = sd_OwnerKind d \<and> sd_OwnerAppID d' = sd_OwnerAppID d"

lemma destinations_check_identity: "same_identity d d' \<Longrightarrow> destinations_check d \<Longrightarrow> destinations_check d'"
  by (cases "sd_OwnerAppID d") (simp_all add: destinations_check_def same_identity_def)

lemma reg_inv_update_destination:
  assumes inv: "reg_inv db" and c: "current \<in> set (db_destinations db)" and row: "same_identity current row"
  shows "reg_inv (db\<lparr>db_destinations := update_where (\<lambda>d. sd_ID d = sd_ID current) (\<lambda>_. row) (db_destinations db)\<rparr>)"
    (is "reg_inv ?db")
proof -
  note ok = reg_invD [OF inv]
  define g where "g = (\<lambda>d. if sd_ID d = sd_ID current then row else d)"
  have ds: "db_destinations ?db = map g (db_destinations db)" by (simp add: update_where_def g_def)
  have g: "same_identity d (g d)" if "d \<in> set (db_destinations db)" for d
    using same_destination [OF ok(1) c that] row by (auto simp: g_def same_identity_def)
  have maps: "map sd_ID (map g (db_destinations db)) = map sd_ID (db_destinations db)"
    "map sd_Name (map g (db_destinations db)) = map sd_Name (db_destinations db)"
    using g by (simp_all add: same_identity_def)
  have chk: "destinations_check (g d) \<and> sd_ID (g d) = sd_ID d" if "d \<in> set (db_destinations db)" for d
    using ok(1) g [OF that] that destinations_check_identity [OF g [OF that]]
    by (simp add: dest_ok_def same_identity_def)
  have "dest_ok ?db"
    using ok(1) chk unfolding dest_ok_def ds maps by auto
  moreover have "routes_ok ?db" using ok(2) by (simp add: routes_ok_def)
  moreover have "link_ok ?db l" if "link_ok db l" for l
  proof -
    from that obtain r d where "r \<in> set (db_routes db)" "d \<in> set (db_destinations db)" "l = (r_id r, sd_ID d)"
      "UsableBy d (r_app_pattern r)" by (auto simp: link_ok_def)
    with g [of d] show ?thesis
      unfolding link_ok_def ds by (auto simp: UsableBy_def same_identity_def intro!: bexI [of _ r] bexI [of _ d])
  qed
  then have "links_ok ?db" using ok(3) by (simp add: links_ok_def)
  moreover have "sd_ID ` set (db_destinations ?db) = sd_ID ` set (db_destinations db)"
    using maps(1) unfolding ds by (metis list.set_map)
  then have "delivery_refs_ok ?db" using ok(4) by (simp add: delivery_refs_ok_def)
  ultimately show ?thesis by (simp add: reg_inv_def)
qed

lemma UpdateDestination_inv [reg_inv_intros]:
  assumes inv: "reg_inv db"
  shows "reg_inv (snd (UpdateDestination now name mutate db))"
proof (cases rule: UpdateDestination_cases [of now name mutate db])
  case (same e)
  with inv show ?thesis by simp
next
  case (updated current mutated row)
  have "same_identity current row" by (simp add: same_identity_def updated(4))
  from reg_inv_update_destination [OF inv updated(1) this] updated(5) show ?thesis by simp
qed

lemma delete_destinations_inv:
  assumes inv: "reg_inv db"
  shows "reg_inv (snd (delete_destinations p db))"
proof (cases "list_ex (referenced db) (map sd_ID (filter p (db_destinations db)))")
  case True
  with inv show ?thesis by (simp add: delete_destinations_def Let_def)
next
  case False
  note ok = reg_invD [OF inv]
  let ?db = "snd (delete_destinations p db)"
  have db': "db_destinations ?db = filter (\<lambda>d. \<not> p d) (db_destinations db)" "db_routes ?db = db_routes db"
    "db_route_destinations ?db = db_route_destinations db" "db_destination_seq ?db = db_destination_seq db"
    "db_route_seq ?db = db_route_seq db"
    using False by (simp_all add: delete_destinations_def Let_def)
  have free: "\<not> referenced db (sd_ID d)" if "d \<in> set (db_destinations db)" "p d" for d
    using False that by (auto simp: list_ex_iff)
  have "dest_ok ?db" using ok(1) by (auto simp: dest_ok_def db' distinct_map_filter_sub)
  moreover have "routes_ok ?db" using ok(2) by (simp add: routes_ok_def db')
  moreover have "link_ok ?db l" if l: "l \<in> set (db_route_destinations db)" for l
  proof -
    from ok(3) l obtain r d where rd: "r \<in> set (db_routes db)" "d \<in> set (db_destinations db)"
      "l = (r_id r, sd_ID d)" "UsableBy d (r_app_pattern r)"
      by (auto simp: links_ok_def link_ok_def)
    then have "referenced db (sd_ID d)" using l by (force simp: referenced_def)
    with free rd(2) have "\<not> p d" by blast
    with rd show ?thesis by (auto simp: link_ok_def db')
  qed
  then have "links_ok ?db" by (simp add: links_ok_def db')
  moreover have "delivery_refs_ok ?db"
    unfolding delivery_refs_ok_def
  proof (intro ballI allI impI)
    fix x i assume x: "x \<in> set (db_deliveries ?db)" "d_DestinationID x = Some i"
    from x(1) have "x \<in> set (update_where (\<lambda>x. case d_DestinationID x of None \<Rightarrow> False
          | Some i \<Rightarrow> i \<in> set (map sd_ID (filter p (db_destinations db))))
        (\<lambda>x. x\<lparr>d_DestinationID := None\<rparr>) (db_deliveries db))"
      using False by (simp add: delete_destinations_def Let_def)
    then have "x \<in> set (db_deliveries db) \<and> i \<notin> sd_ID ` set (filter p (db_destinations db))"
      by (cases rule: update_whereE) (use x(2) in \<open>auto split: option.splits\<close>)
    with ok(4) x(2) show "i \<in> sd_ID ` set (db_destinations ?db)"
      by (fastforce simp: delivery_refs_ok_def db')
  qed
  ultimately show ?thesis by (simp add: reg_inv_def)
qed

lemma DeleteDestination_inv [reg_inv_intros]: "reg_inv db \<Longrightarrow> reg_inv (snd (DeleteDestination name db))"
  by (simp add: DeleteDestination_def delete_destinations_inv)

lemma DeleteDestinationOwnedBy_inv [reg_inv_intros]:
  "reg_inv db \<Longrightarrow> reg_inv (snd (DeleteDestinationOwnedBy name app db))"
  by (simp add: DeleteDestinationOwnedBy_def delete_destinations_inv)

section \<open>Route writes\<close>

lemma resolveDestinationIDs_Inr:
  assumes "resolveDestinationIDs db names app = Inr ids" "i \<in> set ids"
  obtains d where "d \<in> set (db_destinations db)" "sd_ID d = i" "sd_Name d \<in> set names" "UsableBy d app"
proof -
  define rows where "rows = filter (\<lambda>d. sd_Name d \<in> set (remdups names)
      \<and> (sd_OwnerKind d = OwnerOperator \<or> sd_OwnerAppID d = Some app)) (db_destinations db)"
  have "ids = map sd_ID rows" "\<not> list_ex (\<lambda>d. \<not> DestinationUsableBy (sd_OwnerKind d) (sd_OwnerAppID d) app) rows"
    using assms(1) unfolding resolveDestinationIDs_def Let_def rows_def by (simp_all split: if_splits)
  with assms(2) obtain d where "d \<in> set rows" "sd_ID d = i" "UsableBy d app"
    by (auto simp: list_ex_iff UsableBy_def)
  then show ?thesis by (intro that [of d]) (simp_all add: rows_def)
qed

lemma link_ok_new:
  assumes "resolveDestinationIDs db names app = Inr ids" "l \<in> set (map (\<lambda>i. (rid, i)) ids)"
    and "r \<in> set (db_routes db')" "r_id r = rid" "r_app_pattern r = app"
    and "db_destinations db' = db_destinations db"
  shows "link_ok db' l"
  using assms by (auto simp: link_ok_def elim!: resolveDestinationIDs_Inr)

lemma linkDestinations_simps [simp]:
  "db_routes (linkDestinations rid ids db) = db_routes db"
  "db_destinations (linkDestinations rid ids db) = db_destinations db"
  "db_deliveries (linkDestinations rid ids db) = db_deliveries db"
  "db_route_seq (linkDestinations rid ids db) = db_route_seq db"
  "db_destination_seq (linkDestinations rid ids db) = db_destination_seq db"
  "db_route_destinations (linkDestinations rid ids db) = db_route_destinations db @ map (\<lambda>i. (rid, i)) ids"
  by (simp_all add: linkDestinations_def)

lemma pattern_free:
  "\<not> pattern_taken db self app channel \<Longrightarrow> r \<in> set (db_routes db) \<Longrightarrow> r_id r \<noteq> self \<Longrightarrow>
   (r_app_pattern r, r_channel_pattern r) \<noteq> (app, channel)"
  by (auto simp: pattern_taken_def list_ex_iff)

lemma InsertRoute_cases:
  obtains (same) e where "InsertRoute now route db = (Inl e, db)"
  | (inserted) ids row loaded where
      "resolveDestinationIDs db (sr_DestinationNames route) (sr_AppPattern route) = Inr ids"
      "r_id row = db_route_seq db" "r_app_pattern row = sr_AppPattern route"
      "r_channel_pattern row = sr_ChannelPattern route" "routes_check row"
      "r_owner_kind row = ownerKindOrOperator (sr_OwnerKind route)" "r_owner_app_id row = sr_OwnerAppID route"
      "\<not> pattern_taken db (db_route_seq db) (sr_AppPattern route) (sr_ChannelPattern route)"
      "InsertRoute now route db = (Inr loaded, linkDestinations (db_route_seq db) ids
         (db\<lparr>db_routes := db_routes db @ [row], db_route_seq := db_route_seq db + 1\<rparr>))"
proof (cases "\<exists>e. InsertRoute now route db = (Inl e, db)")
  case True
  then show ?thesis using same by blast
next
  case False
  define row where "row = \<lparr>r_id = db_route_seq db, r_app_pattern = sr_AppPattern route,
      r_channel_pattern = sr_ChannelPattern route, r_enabled = sr_Enabled route,
      r_owner_kind = ownerKindOrOperator (sr_OwnerKind route), r_owner_app_id = sr_OwnerAppID route,
      r_created_at = now, r_updated_at = now\<rparr>"
  note def = InsertRoute_def [of now route db, folded row_def, unfolded Let_def, folded row_def]
  from False obtain ids where ids: "resolveDestinationIDs db (sr_DestinationNames route) (sr_AppPattern route) = Inr ids"
    by (cases "resolveDestinationIDs db (sr_DestinationNames route) (sr_AppPattern route)") (auto simp: def)
  with False have chk: "routes_check row"
    "\<not> pattern_taken db (db_route_seq db) (sr_AppPattern route) (sr_ChannelPattern route)"
    by (auto simp: def split: if_splits)
  with False ids obtain loaded where "InsertRoute now route db = (Inr loaded, linkDestinations (db_route_seq db) ids
         (db\<lparr>db_routes := db_routes db @ [row], db_route_seq := db_route_seq db + 1\<rparr>))"
    by (auto simp: def split: sum.splits)
  with ids chk show ?thesis by (intro inserted [of ids row loaded]) (simp_all add: row_def)
qed

lemma InsertRoute_inv [reg_inv_intros]:
  assumes inv: "reg_inv db"
  shows "reg_inv (snd (InsertRoute now route db))"
proof (cases rule: InsertRoute_cases [of now route db])
  case (same e)
  with inv show ?thesis by simp
next
  case (inserted ids row loaded)
  note ok = reg_invD [OF inv]
  let ?db = "snd (InsertRoute now route db)"
  have db': "db_routes ?db = db_routes db @ [row]" "db_destinations ?db = db_destinations db"
    "db_deliveries ?db = db_deliveries db" "db_route_seq ?db = db_route_seq db + 1"
    "db_destination_seq ?db = db_destination_seq db"
    "db_route_destinations ?db = db_route_destinations db @ map (\<lambda>i. (db_route_seq db, i)) ids"
    by (simp_all add: inserted(9))
  have fresh: "r_id r < db_route_seq db" if "r \<in> set (db_routes db)" for r
    using ok(2) that by (simp add: routes_ok_def)
  have "(r_app_pattern row, r_channel_pattern row) \<notin> (\<lambda>r. (r_app_pattern r, r_channel_pattern r)) ` set (db_routes db)"
    using pattern_free [OF inserted(8)] fresh inserted(3,4) by fastforce
  moreover have "r_id row \<notin> r_id ` set (db_routes db)" using fresh inserted(2) by fastforce
  moreover have "r_id r < db_route_seq db + 1" if "r \<in> set (db_routes db)" for r using fresh [OF that] by simp
  ultimately have "routes_ok ?db" using ok(2) inserted(2,5) by (auto simp: routes_ok_def db')
  moreover have "dest_ok ?db" using ok(1) by (simp add: dest_ok_def db')
  moreover have "links_ok ?db"
    unfolding links_ok_def
  proof
    fix l assume "l \<in> set (db_route_destinations ?db)"
    then consider "l \<in> set (db_route_destinations db)" | "l \<in> set (map (\<lambda>i. (db_route_seq db, i)) ids)"
      by (auto simp: db')
    then show "link_ok ?db l"
    proof cases
      case 1
      then have "link_ok db l" using ok(3) by (simp add: links_ok_def)
      then show ?thesis by (rule link_ok_mono) (auto simp: db')
    next
      case 2
      show ?thesis by (rule link_ok_new [OF inserted(1) 2, of row]) (simp_all add: db' inserted(2,3))
    qed
  qed
  moreover have "delivery_refs_ok ?db" using ok(4) by (simp add: delivery_refs_ok_def db')
  ultimately show ?thesis by (simp add: reg_inv_def)
qed

lemma UpdateRoute_cases:
  obtains (same) e where "UpdateRoute now i mutate db = (Inl e, db)"
  | (updated) row mutated ids row' reloaded where
      "row \<in> set (db_routes db)" "r_id row = i" "mutate (scanRoute db row) = Inr mutated"
      "resolveDestinationIDs db (sr_DestinationNames mutated) (sr_AppPattern mutated) = Inr ids"
      "row' = row\<lparr>r_app_pattern := sr_AppPattern mutated, r_channel_pattern := sr_ChannelPattern mutated,
          r_enabled := sr_Enabled mutated, r_updated_at := now\<rparr>" "routes_check row'"
      "\<not> pattern_taken db i (sr_AppPattern mutated) (sr_ChannelPattern mutated)"
      "UpdateRoute now i mutate db = (Inr reloaded, linkDestinations i ids
         (db\<lparr>db_routes := update_where (\<lambda>r. r_id r = i) (\<lambda>_. row') (db_routes db),
             db_route_destinations := filter (\<lambda>(r, _). r \<noteq> i) (db_route_destinations db)\<rparr>))"
proof (cases "\<exists>e. UpdateRoute now i mutate db = (Inl e, db)")
  case True
  then show ?thesis using same by blast
next
  case False
  then obtain row where row: "find (\<lambda>r. r_id r = i) (db_routes db) = Some row"
    by (cases "find (\<lambda>r. r_id r = i) (db_routes db)") (auto simp: UpdateRoute_def)
  with False obtain mutated where mut: "mutate (scanRoute db row) = Inr mutated"
    by (cases "mutate (scanRoute db row)") (auto simp: UpdateRoute_def)
  with False row obtain ids where ids: "resolveDestinationIDs db (sr_DestinationNames mutated) (sr_AppPattern mutated) = Inr ids"
    by (cases "resolveDestinationIDs db (sr_DestinationNames mutated) (sr_AppPattern mutated)") (auto simp: UpdateRoute_def)
  define row' where "row' = row\<lparr>r_app_pattern := sr_AppPattern mutated, r_channel_pattern := sr_ChannelPattern mutated,
      r_enabled := sr_Enabled mutated, r_updated_at := now\<rparr>"
  note def = UpdateRoute_def [of now i mutate db, unfolded Let_def]
  have chk: "routes_check row'" "\<not> pattern_taken db i (sr_AppPattern mutated) (sr_ChannelPattern mutated)"
    using False by (auto simp: def row mut ids row'_def split: if_splits)
  with False obtain reloaded where "UpdateRoute now i mutate db = (Inr reloaded, linkDestinations i ids
         (db\<lparr>db_routes := update_where (\<lambda>r. r_id r = i) (\<lambda>_. row') (db_routes db),
             db_route_destinations := filter (\<lambda>(r, _). r \<noteq> i) (db_route_destinations db)\<rparr>))"
    by (auto simp: def row mut ids row'_def split: sum.splits)
  with find_Some_in [OF row] mut ids chk show ?thesis
    by (intro updated [of row mutated ids row' reloaded]) (simp_all add: row'_def)
qed

lemma update_route_rows:
  assumes ok: "routes_ok db" and row: "row \<in> set (db_routes db)"
    and row': "r_id row' = r_id row" "routes_check row'"
    and free: "\<not> pattern_taken db (r_id row) (r_app_pattern row') (r_channel_pattern row')"
    and db': "db_routes db' = update_where (\<lambda>r. r_id r = r_id row) (\<lambda>_. row') (db_routes db)"
      "db_route_seq db' = db_route_seq db"
  shows "routes_ok db'"
proof -
  define g where "g = (\<lambda>r. if r_id r = r_id row then row' else r)"
  let ?pat = "\<lambda>r. (r_app_pattern r, r_channel_pattern r)"
  have rs: "db_routes db' = map g (db_routes db)" by (simp add: db' update_where_def g_def)
  have ids: "map r_id (map g (db_routes db)) = map r_id (db_routes db)" by (simp add: g_def row'(1))
  have "inj_on (\<lambda>r. ?pat (g r)) (set (db_routes db))"
  proof (rule inj_onI)
    fix x y assume xy: "x \<in> set (db_routes db)" "y \<in> set (db_routes db)" "?pat (g x) = ?pat (g y)"
    have "x = y" if "?pat x = ?pat y" using ok xy(1,2) that by (auto simp: routes_ok_def intro: distinct_map_inj)
    then show "x = y"
      using xy same_route [OF ok, of row] row pattern_free [OF free]
      by (cases "r_id x = r_id row"; cases "r_id y = r_id row") (auto simp: g_def)
  qed
  then have "distinct (map ?pat (map g (db_routes db)))"
    using ok by (auto simp: routes_ok_def distinct_map comp_def)
  moreover have "routes_check (g r) \<and> r_id (g r) = r_id r" if "r \<in> set (db_routes db)" for r
    using ok row' that by (simp add: routes_ok_def g_def)
  ultimately show ?thesis
    using ok unfolding routes_ok_def rs db'(2) ids by auto
qed

lemma UpdateRoute_inv [reg_inv_intros]:
  assumes inv: "reg_inv db"
  shows "reg_inv (snd (UpdateRoute now i mutate db))"
proof (cases rule: UpdateRoute_cases [of now i mutate db])
  case (same e)
  with inv show ?thesis by simp
next
  case (updated row mutated ids row' reloaded)
  note ok = reg_invD [OF inv]
  let ?db = "snd (UpdateRoute now i mutate db)"
  have db': "db_routes ?db = update_where (\<lambda>r. r_id r = i) (\<lambda>_. row') (db_routes db)"
    "db_destinations ?db = db_destinations db" "db_deliveries ?db = db_deliveries db"
    "db_route_seq ?db = db_route_seq db" "db_destination_seq ?db = db_destination_seq db"
    "db_route_destinations ?db = filter (\<lambda>(r, _). r \<noteq> i) (db_route_destinations db) @ map (\<lambda>j. (i, j)) ids"
    by (simp_all add: updated(8))
  have row': "r_id row' = i" "r_app_pattern row' = sr_AppPattern mutated"
    "r_channel_pattern row' = sr_ChannelPattern mutated" using updated(2,5) by simp_all
  have "routes_ok ?db"
    by (rule update_route_rows [OF ok(2) updated(1)]) (use updated(2,6,7) row' db' in simp_all)
  moreover have "dest_ok ?db" using ok(1) by (simp add: dest_ok_def db')
  moreover have "links_ok ?db"
    unfolding links_ok_def
  proof
    fix l assume "l \<in> set (db_route_destinations ?db)"
    then consider "l \<in> set (db_route_destinations db)" "fst l \<noteq> i" | "l \<in> set (map (\<lambda>j. (i, j)) ids)"
      by (auto simp: db')
    then show "link_ok ?db l"
    proof cases
      case 1
      then obtain r d where rd: "r \<in> set (db_routes db)" "d \<in> set (db_destinations db)" "l = (r_id r, sd_ID d)"
        "UsableBy d (r_app_pattern r)" using ok(3) by (auto simp: links_ok_def link_ok_def)
      with 1(2) have "r \<in> set (db_routes ?db)" by (auto simp: db' in_update_where)
      with rd show ?thesis by (auto simp: link_ok_def db')
    next
      case 2
      have "row' \<in> set (db_routes ?db)" using updated(1,2) by (auto simp: db' in_update_where)
      then show ?thesis by (rule link_ok_new [OF updated(4) 2]) (simp_all add: row' db')
    qed
  qed
  moreover have "delivery_refs_ok ?db" using ok(4) by (simp add: delivery_refs_ok_def db')
  ultimately show ?thesis by (simp add: reg_inv_def)
qed

lemma delete_routes_inv:
  assumes inv: "reg_inv db"
  shows "reg_inv (snd (delete_routes p db))" (is "reg_inv ?db")
proof -
  note ok = reg_invD [OF inv]
  have db': "db_routes ?db = filter (\<lambda>r. \<not> p r) (db_routes db)" "db_destinations ?db = db_destinations db"
    "db_deliveries ?db = db_deliveries db" "db_route_seq ?db = db_route_seq db"
    "db_destination_seq ?db = db_destination_seq db"
    "db_route_destinations ?db =
       filter (\<lambda>(r, _). r \<notin> set (map r_id (filter p (db_routes db)))) (db_route_destinations db)"
    by (simp_all add: delete_routes_def Let_def)
  have "routes_ok ?db" using ok(2) by (auto simp: routes_ok_def db' distinct_map_filter_sub)
  moreover have "dest_ok ?db" using ok(1) by (simp add: dest_ok_def db')
  moreover have "link_ok ?db l" if l: "l \<in> set (db_route_destinations ?db)" for l
  proof -
    from l obtain r d where rd: "r \<in> set (db_routes db)" "d \<in> set (db_destinations db)" "l = (r_id r, sd_ID d)"
      "UsableBy d (r_app_pattern r)" using ok(3) by (auto simp: links_ok_def link_ok_def db')
    with l have "\<not> p r" by (auto simp: db')
    with rd show ?thesis by (auto simp: link_ok_def db')
  qed
  then have "links_ok ?db" by (simp add: links_ok_def)
  moreover have "delivery_refs_ok ?db" using ok(4) by (simp add: delivery_refs_ok_def db')
  ultimately show ?thesis by (simp add: reg_inv_def)
qed

lemma DeleteRoute_inv [reg_inv_intros]: "reg_inv db \<Longrightarrow> reg_inv (snd (DeleteRoute i db))"
  by (simp add: DeleteRoute_def delete_routes_inv)

lemma DeleteRouteOwnedBy_inv [reg_inv_intros]: "reg_inv db \<Longrightarrow> reg_inv (snd (DeleteRouteOwnedBy i app db))"
  by (simp add: DeleteRouteOwnedBy_def delete_routes_inv)

section \<open>Service writes\<close>

lemma service_writes_inv [reg_inv_intros]:
  assumes "reg_inv db"
  shows "reg_inv (snd (CreateDestination svc now input db))"
    and "reg_inv (snd (service_UpdateDestination svc now name patch db))"
    and "reg_inv (snd (RotateWebhookSecret svc now gen clock name hours db))"
    and "reg_inv (snd (DisableDestination now name i reason db))"
    and "reg_inv (snd (CreateRoute now rinput db))"
    and "reg_inv (snd (service_UpdateRoute now j rpatch db))"
    and "reg_inv (snd (CreateAppDestination svc now app input db))"
    and "reg_inv (snd (DeleteAppDestination app name db))"
    and "reg_inv (snd (CreateAppRoute now app rinput db))"
    and "reg_inv (snd (UpdateAppRoute now app j rpatch db))"
    and "reg_inv (snd (DeleteAppRoute app j db))"
proof -
  note inv = assms InsertDestination_inv [OF assms] UpdateDestination_inv [OF assms]
    DeleteDestinationOwnedBy_inv [OF assms] InsertRoute_inv [OF assms] UpdateRoute_inv [OF assms]
    DeleteRouteOwnedBy_inv [OF assms]
  show "reg_inv (snd (CreateDestination svc now input db))"
    by (simp add: CreateDestination_def inv split: sum.split)
  show "reg_inv (snd (service_UpdateDestination svc now name patch db))"
    by (simp add: service_UpdateDestination_def inv)
  show "reg_inv (snd (RotateWebhookSecret svc now gen clock name hours db))"
    by (simp add: RotateWebhookSecret_def inv)
  show "reg_inv (snd (DisableDestination now name i reason db))"
    by (simp add: DisableDestination_def inv)
  show "reg_inv (snd (CreateRoute now rinput db))"
    by (simp add: CreateRoute_def inv split: sum.split)
  show "reg_inv (snd (service_UpdateRoute now j rpatch db))"
    by (simp add: service_UpdateRoute_def inv split: sum.split)
  show "reg_inv (snd (CreateAppDestination svc now app input db))"
    by (simp add: CreateAppDestination_def inv split: sum.split)
  show "reg_inv (snd (DeleteAppDestination app name db))"
    using inv(4) [of name app] by (auto simp: DeleteAppDestination_def assms split: sum.split prod.split)
  show "reg_inv (snd (CreateAppRoute now app rinput db))"
    by (simp add: CreateAppRoute_def inv split: sum.split)
  show "reg_inv (snd (UpdateAppRoute now app j rpatch db))"
    by (simp add: UpdateAppRoute_def inv split: sum.split)
  show "reg_inv (snd (DeleteAppRoute app j db))"
    using inv(7) [of j app] by (auto simp: DeleteAppRoute_def assms split: sum.split prod.split)
qed

lemma racing_writes_inv [reg_inv_intros]:
  assumes "reg_inv db" "\<And>x. reg_inv x \<Longrightarrow> reg_inv (between x)"
  shows "reg_inv (snd (UpdateAppDestination svc now between app name patch db))"
    and "reg_inv (snd (RotateAppWebhookSecret svc now between gen clock app name hours db))"
  using assms(1) UpdateDestination_inv [OF assms(2) [OF assms(1)]]
  by (simp_all add: UpdateAppDestination_def RotateAppWebhookSecret_def split: sum.split)

section \<open>What Resolve returns\<close>

text \<open>The destinations \<open>resolve_each\<close> keeps, when every secret of them opens.\<close>

lemma resolve_each_Inr:
  assumes "resolve_each svc app ds = Inr rs"
  shows "map rd_ID rs = map sd_ID (filter (\<lambda>d. UsableBy d app \<and> sd_Enabled d) ds)"
    and "map rd_Name rs = map sd_Name (filter (\<lambda>d. UsableBy d app \<and> sd_Enabled d) ds)"
    and "map rd_Type rs = map sd_Type (filter (\<lambda>d. UsableBy d app \<and> sd_Enabled d) ds)"
  using assms by (induction ds arbitrary: rs) (auto simp: unseal_def split: if_splits sum.splits)

lemma scanRoute_ids: "j \<in> set (sr_DestinationIDs (scanRoute db r)) \<longleftrightarrow>
    (r_id r, j) \<in> set (db_route_destinations db) \<and> j \<in> sd_ID ` set (db_destinations db)"
  by (auto simp: scanRoute_def linked_def)

lemma enabled_routes:
  "x \<in> set (ListEnabledRoutes db) \<longleftrightarrow> (\<exists>r \<in> set (db_routes db). r_enabled r \<and> x = scanRoute db r)"
  by (auto simp: ListEnabledRoutes_def queryRoutes_def)

lemma enabled_routes_distinct: "routes_ok db \<Longrightarrow> distinct (map sr_ID (ListEnabledRoutes db))"
proof -
  assume ok: "routes_ok db"
  have "map sr_ID (ListEnabledRoutes db) = map r_id (sort_key r_id (filter r_enabled (db_routes db)))"
    by (simp add: ListEnabledRoutes_def queryRoutes_def scanRoute_def)
  moreover have "mset (map r_id (sort_key r_id (filter r_enabled (db_routes db)))) = mset (map r_id (filter r_enabled (db_routes db)))"
    by simp
  moreover have "distinct (map r_id (filter r_enabled (db_routes db)))"
    using ok by (simp add: routes_ok_def distinct_map_filter_sub)
  ultimately show ?thesis by (metis mset_eq_imp_distinct_iff)
qed

text \<open>The route links that fire for a message of \<open>app\<close> on \<open>channel\<close>.\<close>

definition fires_for :: "database \<Rightarrow> string \<Rightarrow> string \<Rightarrow> stored_destination \<Rightarrow> bool" where
  "fires_for db app channel d \<longleftrightarrow>
     (\<exists>r \<in> set (db_routes db). r_enabled r \<and> MatchPattern (r_app_pattern r) app
        \<and> MatchPattern (r_channel_pattern r) channel \<and> (r_id r, sd_ID d) \<in> set (db_route_destinations db))"

lemma matched_iff:
  assumes "reg_inv db" "d \<in> set (db_destinations db)"
  shows "sd_ID d \<in> dm_DestinationID ` set (MatchRoutes (ListEnabledRoutes db) app channel) \<longleftrightarrow> fires_for db app channel d"
proof -
  have "distinct (map sr_ID (ListEnabledRoutes db))"
    using assms(1) by (simp add: enabled_routes_distinct reg_invD(2))
  note ids = MatchRoutes_ids [OF this, of app channel]
  have f: "route_fires app channel (scanRoute db r) \<longleftrightarrow> r_enabled r \<and> MatchPattern (r_app_pattern r) app
      \<and> MatchPattern (r_channel_pattern r) channel" for r
    by (simp add: route_fires_def scanRoute_def)
  have ex: "(\<exists>x \<in> set (ListEnabledRoutes db). P x) \<longleftrightarrow> (\<exists>r \<in> set (db_routes db). r_enabled r \<and> P (scanRoute db r))" for P
    by (simp only: Bex_def enabled_routes) blast
  have "sd_ID d \<in> sd_ID ` set (db_destinations db)" using assms(2) by simp
  then show ?thesis
    unfolding ids mem_Collect_eq ex f scanRoute_ids fires_for_def by blast
qed

text \<open>A route that matches an app is for every app or for exactly that app.\<close>

lemma matching_pattern:
  assumes "routes_check r" "MatchPattern (r_app_pattern r) app"
  shows "r_app_pattern r = ''*'' \<or> r_app_pattern r = app"
  using assms MatchPattern_exact by (auto simp: routes_check_def)

lemma usable_by_pattern:
  assumes "destinations_check d" "UsableBy d ''*''"
  shows "UsableBy d app"
  using assms
  by (cases "sd_OwnerKind d") (auto simp: UsableBy_def destinations_check_def owner_check_def go_str split: option.splits)

lemma fires_usable:
  assumes inv: "reg_inv db" and d: "d \<in> set (db_destinations db)" and fires: "fires_for db app channel d"
  shows "UsableBy d app"
proof -
  from fires obtain r where r: "r \<in> set (db_routes db)" "MatchPattern (r_app_pattern r) app"
    "(r_id r, sd_ID d) \<in> set (db_route_destinations db)" by (auto simp: fires_for_def)
  note ok = reg_invD [OF inv]
  from ok(3) r(3) obtain r' d' where "r' \<in> set (db_routes db)" "d' \<in> set (db_destinations db)"
    "r_id r' = r_id r" "sd_ID d' = sd_ID d" "UsableBy d' (r_app_pattern r')"
    by (fastforce simp: links_ok_def link_ok_def)
  with same_route [OF ok(2) r(1)] same_destination [OF ok(1) d] have u: "UsableBy d (r_app_pattern r)" by metis
  have "r_app_pattern r = ''*'' \<or> r_app_pattern r = app"
    using matching_pattern [OF _ r(2)] ok(2) r(1) by (simp add: routes_ok_def)
  with u usable_by_pattern [of d app] ok(1) d show ?thesis by (auto simp: dest_ok_def)
qed


lemma resolved_rows:
  "set (sort_key sd_Name (GetDestinationsByID db ids)) = {d \<in> set (db_destinations db). sd_ID d \<in> set ids}"
  by (auto simp: GetDestinationsByID_def)

text \<open>Fan-out: exactly the enabled destinations of the routes that fire, in name order, each once.\<close>

lemma Resolve_fanout:
  assumes inv: "reg_inv db" and res: "Resolve svc app [] channel db = Inr rs"
  shows "set (map rd_ID rs) = {sd_ID d | d. d \<in> set (db_destinations db) \<and> sd_Enabled d \<and> fires_for db app channel d}"
    and "sorted (map rd_Name rs)" and "distinct (map rd_Name rs)"
proof -
  define matches where "matches = MatchRoutes (ListEnabledRoutes db) app channel"
  define rows where "rows = sort_key sd_Name (GetDestinationsByID db (map dm_DestinationID matches))"
  have in_rows: "d \<in> set rows \<longleftrightarrow> d \<in> set (db_destinations db) \<and> fires_for db app channel d" for d
    unfolding rows_def resolved_rows using matched_iff [OF inv] by (auto simp: matches_def)
  have sorted_rows: "sorted (map sd_Name rows)" by (simp add: rows_def)
  have distinct_rows: "distinct (map sd_Name rows)"
  proof -
    have "mset (map sd_Name rows) = mset (map sd_Name (filter (\<lambda>d. sd_ID d \<in> set (map dm_DestinationID matches)) (db_destinations db)))"
      by (simp add: rows_def GetDestinationsByID_def)
    moreover have "distinct (map sd_Name (filter (\<lambda>d. sd_ID d \<in> set (map dm_DestinationID matches)) (db_destinations db)))"
      using reg_invD(1) [OF inv] by (simp add: dest_ok_def distinct_map_filter_sub)
    ultimately show ?thesis by (metis mset_eq_imp_distinct_iff)
  qed
  let ?keep = "\<lambda>d. UsableBy d app \<and> sd_Enabled d"
  have each: "resolve_each svc app rows = Inr rs"
  proof (cases "matches = []")
    case True
    then have "rows = []" by (simp add: rows_def GetDestinationsByID_def)
    with True res show ?thesis by (simp add: Resolve_def Let_def matches_def)
  next
    case False
    with res show ?thesis by (simp add: Resolve_def Let_def matches_def rows_def)
  qed
  note kept = resolve_each_Inr [OF each]
  have "set (map rd_ID rs) = sd_ID ` set (filter ?keep rows)" unfolding kept(1) by simp
  also have "\<dots> = {sd_ID d | d. d \<in> set (db_destinations db) \<and> sd_Enabled d \<and> fires_for db app channel d}"
    using fires_usable [OF inv] by (auto simp: in_rows)
  finally show "set (map rd_ID rs) = \<dots>" .
  show "sorted (map rd_Name rs)" unfolding kept(2) using sorted_rows by (simp add: sorted_filter)
  show "distinct (map rd_Name rs)" unfolding kept(2) using distinct_rows by (simp add: distinct_map_filter_sub)
qed

text \<open>A named target: the one enabled destination of that name, if the app may use it.\<close>

lemma resolveNamed_Inr:
  assumes "resolveNamed svc app name db = Inr rs"
  obtains d r where "d \<in> set (db_destinations db)" "sd_Name d = name" "UsableBy d app" "sd_Enabled d"
    "rs = [r]" "rd_ID r = sd_ID d" "rd_Name r = name" "rd_Type r = sd_Type d" "rd_Config r = sd_Config d"
    "openSecrets svc name (sd_SealedSecrets d) = Inr (rd_Secrets r)"
  using assms
  by (auto simp: resolveNamed_def GetDestination_def unseal_def dest!: find_Some_in
      split: option.splits sum.splits if_splits)

lemma resolveNamed_foreign:
  assumes "dest_ok db" "d \<in> set (db_destinations db)" "\<not> UsableBy d app"
  shows "resolveNamed svc app (sd_Name d) db = Inl ErrUnknownDestination"
proof -
  have "find (\<lambda>x. sd_Name x = sd_Name d) (db_destinations db) = Some d"
    using assms(1,2) by (intro find_unique) (simp_all add: dest_ok_def)
  with assms(3) show ?thesis by (simp add: resolveNamed_def GetDestination_def)
qed

end
