(* ===== verification/Dispatch_Policy.thy ===== *)
theory Dispatch_Policy
  imports Message_Types
begin

text \<open>
  The retry policy (\<^verbatim>\<open>delivery-api/internal/dispatch/policy.go\<close>): from a sink outcome to the next
  delivery state. The clock and the jitter source are arguments, as in the source. A sink error is
  its text with the sentinels \<^verbatim>\<open>errors.Is\<close> finds in its chain; \<open>UrlError\<close> is a
  \<^verbatim>\<open>*url.Error\<close> around another error.
\<close>

section \<open>Sink outcomes\<close>

datatype sink_sentinel = ErrBlockedAddress | ErrNotHTTPS | ErrInvalidDelivery

datatype sink_error = SinkError string "sink_sentinel list" | UrlError string sink_error

fun err_text :: "sink_error \<Rightarrow> string" where
  "err_text (SinkError text _) = text"
| "err_text (UrlError text _) = text"

fun err_is :: "sink_error \<Rightarrow> sink_sentinel \<Rightarrow> bool" where
  "err_is (SinkError _ chain) s = (s \<in> set chain)"
| "err_is (UrlError _ inner) s = err_is inner s"

record outcome =
  oc_StatusCode :: int
  oc_RetryAfter :: "duration option"
  oc_ResponseSnippet :: string
  oc_Err :: "sink_error option"
  oc_Gone :: bool

definition IsBlocked :: "sink_error \<Rightarrow> bool" where
  "IsBlocked err \<longleftrightarrow> err_is err ErrBlockedAddress \<or> err_is err ErrNotHTTPS"

section \<open>Budget and back-off parameters\<close>

definition MaxBudgetAttempts :: int where "MaxBudgetAttempts = 12"
definition MaxBudgetAge :: duration where "MaxBudgetAge = 24 * Hour"
definition BaseBackoff :: duration where "BaseBackoff = 30 * Second"
definition MaxBackoff :: duration where "MaxBackoff = Hour"
definition MaxRetryAfter :: duration where "MaxRetryAfter = Hour"

lemmas policy_consts =
  MaxBudgetAttempts_def MaxBudgetAge_def BaseBackoff_def MaxBackoff_def MaxRetryAfter_def

section \<open>Operations\<close>

definition Classify :: "outcome \<Rightarrow> attempt_outcome" where
  "Classify o' =
     (case oc_Err o' of
        Some err \<Rightarrow>
          if IsBlocked err then OutcomeBlocked
          else if err_is err ErrInvalidDelivery then OutcomeTerminal
          else OutcomeRetryable
      | None \<Rightarrow>
          let code = oc_StatusCode o'
          in if 200 \<le> code \<and> code \<le> 299 then OutcomeSuccess
             else if code = 410 \<or> oc_Gone o' then OutcomeGone
             else if code = 408 \<or> code = 429 \<or> (500 \<le> code \<and> code \<le> 599) then OutcomeRetryable
             else OutcomeTerminal)"

function ceiling_loop :: "int \<Rightarrow> int \<Rightarrow> duration \<Rightarrow> duration" where
  "ceiling_loop attempt budgetAttempts ceil =
     (if attempt < budgetAttempts \<and> ceil < MaxBackoff
      then ceiling_loop (attempt + 1) budgetAttempts (wrap64 (ceil * 2))
      else ceil)"
  by pat_completeness auto
termination
  by (relation "measure (\<lambda>(attempt, budgetAttempts, ceil). nat (budgetAttempts - attempt))") auto

declare ceiling_loop.simps [simp del]

definition jitterFraction :: "float64 option \<Rightarrow> rat" where
  "jitterFraction random =
     (case random of
        None \<Rightarrow> 0
      | Some NaN \<Rightarrow> 0
      | Some NegInf \<Rightarrow> 0
      | Some PosInf \<Rightarrow> 1
      | Some (Fin fraction) \<Rightarrow> if fraction < 0 then 0 else min fraction 1)"

definition Backoff :: "int \<Rightarrow> duration option \<Rightarrow> float64 option \<Rightarrow> duration" where
  "Backoff budgetAttempts retryAfter random =
     (let ceil = min (ceiling_loop 1 budgetAttempts BaseBackoff) MaxBackoff;
          half = ceil div 2;
          backoff = half + \<lfloor>round53 (jitterFraction random * of_int half)\<rfloor>
      in case retryAfter of
           None \<Rightarrow> backoff
         | Some ra \<Rightarrow> if ra > 0 then max backoff (min ra MaxRetryAfter) else backoff)"

definition buildRecord :: "delivery \<Rightarrow> outcome \<Rightarrow> attempt_outcome \<Rightarrow> time \<Rightarrow> attempt_record" where
  "buildRecord delivery o' class now =
     \<lparr>ar_DeliveryID = d_ID delivery,
      ar_Outcome = class,
      ar_StatusCode = (if oc_StatusCode o' > 0 then Some (oc_StatusCode o') else None),
      ar_LatencyMS = 0,
      ar_Error = (case oc_Err o' of
                    Some err \<Rightarrow> Some (err_text err)
                  | None \<Rightarrow> if class \<noteq> OutcomeSuccess then Some (''HTTP '' @ dec_int (oc_StatusCode o'))
                            else None),
      ar_ResponseSnippet = (if oc_ResponseSnippet o' \<noteq> [] then Some (oc_ResponseSnippet o') else None),
      ar_StartedAt = now\<rparr>"

definition deadResult :: "attempt_result \<Rightarrow> dead_reason \<Rightarrow> attempt_result" where
  "deadResult result reason = result\<lparr>res_NextState := StateDead, res_DeadReason := Some reason\<rparr>"

definition Decide :: "delivery \<Rightarrow> outcome \<Rightarrow> time \<Rightarrow> float64 option \<Rightarrow> attempt_result" where
  "Decide delivery o' now random =
     (let class = Classify o';
          result = \<lparr>res_Record = buildRecord delivery o' class now, res_NextState = OtherState [],
                    res_DeadReason = None, res_NextAttemptAt = 0\<rparr>
      in case class of
           OutcomeSuccess \<Rightarrow> result\<lparr>res_NextState := StateDelivered\<rparr>
         | OutcomeGone \<Rightarrow> deadResult result DeadReasonGone
         | OutcomeBlocked \<Rightarrow> deadResult result DeadReasonBlockedAddress
         | OutcomeRetryable \<Rightarrow>
             if d_BudgetAttempts delivery \<ge> MaxBudgetAttempts - 1
                \<or> time_sub now (d_BudgetStartedAt delivery) \<ge> MaxBudgetAge
             then deadResult result DeadReasonBudgetExhausted
             else result\<lparr>res_NextState := StatePending,
                         res_NextAttemptAt :=
                           now + Backoff (d_BudgetAttempts delivery + 1) (oc_RetryAfter o') random\<rparr>
         | _ \<Rightarrow> deadResult result DeadReasonTerminalStatus)"

section \<open>The back-off ceiling\<close>

text \<open>The doubling loop never overflows: it stops once it passes an hour.\<close>

lemma ceiling_loop_bounds:
  assumes "0 < c" and "c < 2 * MaxBackoff"
  shows "c \<le> ceiling_loop a n c \<and> ceiling_loop a n c < 2 * MaxBackoff"
  using assms
proof (induction a n c rule: ceiling_loop.induct)
  case (1 a n c)
  show ?case
  proof (cases "a < n \<and> c < MaxBackoff")
    case True
    then have w: "wrap64 (c * 2) = c * 2"
      using 1(2) by (intro wrap64_id) (auto simp: policy_consts)
    have "c * 2 \<le> ceiling_loop (a + 1) n (c * 2) \<and> ceiling_loop (a + 1) n (c * 2) < 2 * MaxBackoff"
      using 1(1) [OF True] 1(2) True by (simp add: w)
    then show ?thesis using True 1(2) by (simp add: ceiling_loop.simps [of a n c] w)
  next
    case False
    then have "ceiling_loop a n c = c" by (subst ceiling_loop.simps) (simp only: if_False)
    with 1(2,3) show ?thesis by simp
  qed
qed

text \<open>Closed form: the base back-off doubled once per earlier failure, saturating at an hour.\<close>

lemma ceiling_loop_closed:
  assumes "0 < c" and "c < 2 * MaxBackoff"
  shows "min (ceiling_loop a n c) MaxBackoff = min (c * 2 ^ nat (n - a)) MaxBackoff"
  using assms
proof (induction a n c rule: ceiling_loop.induct)
  case (1 a n c)
  show ?case
  proof (cases "a < n \<and> c < MaxBackoff")
    case True
    then have w: "wrap64 (c * 2) = c * 2"
      using 1(2) by (intro wrap64_id) (auto simp: policy_consts)
    have "nat (n - a) = Suc (nat (n - (a + 1)))" using True by auto
    then have "c * 2 ^ nat (n - a) = c * 2 * 2 ^ nat (n - (a + 1))" by simp
    then show ?thesis
      using 1(1) [OF True] 1(2) True by (simp add: ceiling_loop.simps [of a n c] w)
  next
    case False
    show ?thesis
    proof (cases "a < n")
      case True
      with False have "MaxBackoff \<le> c" by simp
      moreover have "c \<le> c * 2 ^ nat (n - a)" using 1(2) by simp
      ultimately show ?thesis using False by (simp add: ceiling_loop.simps [of a n c])
    next
      case outer: False
      then show ?thesis by (simp add: ceiling_loop.simps [of a n c])
    qed
  qed
qed

text \<open>The ceiling the documentation names: \<open>BaseBackoff\<close> doubled per attempt, at most \<open>MaxBackoff\<close>.\<close>

definition backoff_ceiling :: "int \<Rightarrow> duration" where
  "backoff_ceiling n = min (BaseBackoff * 2 ^ nat (n - 1)) MaxBackoff"

lemma backoff_ceiling_bounds: "BaseBackoff \<le> backoff_ceiling n" "backoff_ceiling n \<le> MaxBackoff"
proof -
  have "(1::int) \<le> 2 ^ nat (n - 1)" by simp
  then show "BaseBackoff \<le> backoff_ceiling n"
    by (auto simp: backoff_ceiling_def policy_consts)
qed (simp add: backoff_ceiling_def)

lemma jitterFraction_range: "0 \<le> jitterFraction r \<and> jitterFraction r \<le> 1"
  by (auto simp: jitterFraction_def split: option.splits float64.splits)

lemma Backoff_eq:
  "Backoff n ra r =
     (let half = backoff_ceiling n div 2; b = half + \<lfloor>round53 (jitterFraction r * of_int half)\<rfloor>
      in case ra of None \<Rightarrow> b | Some x \<Rightarrow> if x > 0 then max b (min x MaxRetryAfter) else b)"
proof -
  have "min (ceiling_loop 1 n BaseBackoff) MaxBackoff = backoff_ceiling n"
    unfolding backoff_ceiling_def by (rule ceiling_loop_closed) (simp_all add: policy_consts)
  then show ?thesis by (simp add: Backoff_def)
qed

lemma jitter_bounds:
  assumes "0 \<le> half"
  shows "0 \<le> \<lfloor>round53 (jitterFraction r * of_int half)\<rfloor>"
    and "\<lfloor>round53 (jitterFraction r * of_int half)\<rfloor> \<le> half"
proof -
  have j: "0 \<le> jitterFraction r" "jitterFraction r \<le> 1" using jitterFraction_range by auto
  have h: "(0::rat) \<le> of_int half" using assms by simp
  from j(1) h have "0 \<le> jitterFraction r * of_int half" by (rule mult_nonneg_nonneg)
  from round53_nonneg [OF this] show "0 \<le> \<lfloor>round53 (jitterFraction r * of_int half)\<rfloor>" by simp
  have "jitterFraction r * of_int half \<le> 1 * of_int half"
    using j(2) h by (rule mult_right_mono)
  then have "round53 (jitterFraction r * of_int half) \<le> of_int half"
    by (intro round53_le_int) simp
  then show "\<lfloor>round53 (jitterFraction r * of_int half)\<rfloor> \<le> half" by linarith
qed

lemma Backoff_range:
  "backoff_ceiling n div 2 \<le> Backoff n ra r \<and> Backoff n ra r \<le> MaxBackoff"
proof -
  let ?half = "backoff_ceiling n div 2"
  have c: "0 < backoff_ceiling n" "backoff_ceiling n \<le> MaxBackoff"
    using backoff_ceiling_bounds [of n] by (auto simp: policy_consts)
  then have "0 \<le> ?half" "2 * ?half \<le> backoff_ceiling n" by auto
  moreover note jitter_bounds [OF \<open>0 \<le> ?half\<close>, of r]
  ultimately have "?half \<le> ?half + \<lfloor>round53 (jitterFraction r * of_int ?half)\<rfloor>"
    "?half + \<lfloor>round53 (jitterFraction r * of_int ?half)\<rfloor> \<le> MaxBackoff"
    using c by auto
  moreover have "MaxRetryAfter = MaxBackoff" by (simp add: policy_consts)
  ultimately show ?thesis
    unfolding Backoff_eq Let_def by (cases ra) (simp_all add: max.coboundedI1)
qed

lemma Backoff_positive: "15 * Second \<le> Backoff n ra r"
proof -
  have "30 * Second div 2 \<le> backoff_ceiling n div 2"
    using backoff_ceiling_bounds(1) [of n] by (intro zdiv_mono1) (simp_all add: policy_consts)
  then show ?thesis using Backoff_range [of n ra r] by simp
qed

section \<open>Decisions\<close>

lemma Classify_known: "Classify o' \<noteq> OtherOutcome s"
  by (auto simp: Classify_def Let_def split: option.splits)

lemma Decide_record: "res_Record (Decide d o' now r) = buildRecord d o' (Classify o') now"
  by (simp add: Decide_def deadResult_def Let_def split: attempt_outcome.splits)

lemma Decide_state:
  "res_NextState (Decide d o' now r) =
     (case Classify o' of
        OutcomeSuccess \<Rightarrow> StateDelivered
      | OutcomeRetryable \<Rightarrow>
          if d_BudgetAttempts d < MaxBudgetAttempts - 1 \<and> now - d_BudgetStartedAt d < MaxBudgetAge
          then StatePending else StateDead
      | _ \<Rightarrow> StateDead)"
proof -
  have "MaxBudgetAge \<le> time_sub a b \<longleftrightarrow> MaxBudgetAge \<le> a - b" for a b
    by (rule time_sub_ge_iff) (simp_all add: policy_consts)
  then show ?thesis
    by (auto simp: Decide_def deadResult_def Let_def split: attempt_outcome.splits)
qed

lemma Decide_pending_next:
  "res_NextState (Decide d o' now r) = StatePending \<Longrightarrow>
   res_NextAttemptAt (Decide d o' now r) = now + Backoff (d_BudgetAttempts d + 1) (oc_RetryAfter o') r"
  by (auto simp: Decide_def deadResult_def Let_def split: attempt_outcome.splits if_splits)

lemma Decide_dead_iff_reason:
  "res_NextState (Decide d o' now r) = StateDead \<longleftrightarrow> res_DeadReason (Decide d o' now r) \<noteq> None"
  by (auto simp: Decide_def deadResult_def Let_def split: attempt_outcome.splits if_splits)

end
