(* ===== verification/Dispatch_Worker.thy ===== *)
theory Dispatch_Worker
  imports Dispatch_Policy Env_Int
begin

text \<open>
  The delivery worker (\<^verbatim>\<open>delivery-api/internal/dispatch/worker.go\<close>) and the two background
  jobs, the releaser (\<^verbatim>\<open>release.go\<close>) and the sweeper (\<^verbatim>\<open>sweeper.go\<close>). Go's interfaces
  (\<open>Queue\<close>, \<open>Resolver\<close>, \<open>RecipientResolver\<close>, \<open>Sink\<close>, \<open>DueReleaser\<close>,
  \<open>Expirer\<close>) are records of operations on an arbitrary store state \<open>'s\<close>, so the code is
  modelled before and independently of the store that implements them. An operation takes the number
  of the call, which stands for what differs between two calls (time passing, a transient failure).
  A sink that panics returns \<open>None\<close>. Logging, contexts and timers are left out: a context only
  shows as the instant at which it is done.
\<close>

section \<open>Interfaces\<close>

record 's queue =
  q_ClaimDue :: "nat \<Rightarrow> time \<Rightarrow> duration \<Rightarrow> 's \<Rightarrow> (message_error + claim option) \<times> 's"
  q_RecordAttempt :: "nat \<Rightarrow> attempt_result \<Rightarrow> 's \<Rightarrow> (message_error + delivery) \<times> 's"

record 's resolver =
  rv_Resolve :: "string \<Rightarrow> string \<Rightarrow> string \<Rightarrow> 's \<Rightarrow> registry_error + resolved_destination list"
  rv_DisableDestination :: "string \<Rightarrow> int \<Rightarrow> string \<Rightarrow> 's \<Rightarrow> (registry_error + unit) \<times> 's"

type_synonym 's recipient_resolver = "string \<Rightarrow> string \<Rightarrow> string \<Rightarrow> 's \<Rightarrow> registry_error + resolved_destination"

record sink_request =
  rq_MessageID :: string
  rq_CreatedAt :: time
  rq_Envelope :: envelope

type_synonym sink = "resolved_destination \<Rightarrow> sink_request \<Rightarrow> outcome option"

section \<open>Configuration\<close>

definition DefaultConcurrency :: int where "DefaultConcurrency = 4"
definition DefaultPollInterval :: duration where "DefaultPollInterval = Second"
definition DefaultLease :: duration where "DefaultLease = 2 * Minute"
definition DefaultAttemptTimeout :: duration where "DefaultAttemptTimeout = 9 * Second"
definition DefaultRecordRetryDelay :: duration where "DefaultRecordRetryDelay = 250 * Millisecond"
definition recordAttempts :: nat where "recordAttempts = 3"
definition recordTimeout :: duration where "recordTimeout = 5 * Second"
definition disableTimeout :: duration where "disableTimeout = 2 * Second"
definition leaseMargin :: duration where "leaseMargin = 30 * Second"
definition maxClaimBackoff :: duration where "maxClaimBackoff = 30 * Second"
definition maxClaimBackoffShift :: int where "maxClaimBackoffShift = 5"

definition MaxInFlightShutdown :: duration where
  "MaxInFlightShutdown = DefaultAttemptTimeout + recordTimeout + disableTimeout"

lemmas worker_consts =
  DefaultConcurrency_def DefaultPollInterval_def DefaultLease_def DefaultAttemptTimeout_def
  DefaultRecordRetryDelay_def recordAttempts_def recordTimeout_def disableTimeout_def leaseMargin_def
  maxClaimBackoff_def maxClaimBackoffShift_def MaxInFlightShutdown_def

definition disableReason :: string where "disableReason = ''destination reported gone (410 or equivalent)''"

record 's worker_config =
  wc_Queue :: "'s queue"
  wc_Resolver :: "'s resolver"
  wc_Recipients :: "'s recipient_resolver option"
  wc_Sinks :: "dest_type \<Rightarrow> sink option"
  wc_Concurrency :: int
  wc_PollInterval :: duration
  wc_Lease :: duration
  wc_AttemptTimeout :: duration
  wc_RecordRetryDelay :: duration

definition NewWorker :: "'s worker_config \<Rightarrow> 's worker_config" where
  "NewWorker config =
     (let config = (if wc_Concurrency config < 1 then config\<lparr>wc_Concurrency := DefaultConcurrency\<rparr> else config);
          config = (if wc_PollInterval config \<le> 0 then config\<lparr>wc_PollInterval := DefaultPollInterval\<rparr> else config);
          config = (if wc_Lease config \<le> 0 then config\<lparr>wc_Lease := DefaultLease\<rparr> else config);
          config = (if wc_AttemptTimeout config \<le> 0 then config\<lparr>wc_AttemptTimeout := DefaultAttemptTimeout\<rparr> else config);
          config = (if wc_RecordRetryDelay config \<le> 0 then config\<lparr>wc_RecordRetryDelay := DefaultRecordRetryDelay\<rparr> else config);
          leaseFloor = wrap64 (wc_AttemptTimeout config + recordTimeout + disableTimeout + leaseMargin)
      in if wc_Lease config < leaseFloor then config\<lparr>wc_Lease := leaseFloor\<rparr> else config)"

definition claimBackoff :: "duration \<Rightarrow> int \<Rightarrow> duration" where
  "claimBackoff pollInterval failures =
     (let shift = min (max (failures - 1) 0) maxClaimBackoffShift;
          ceil = max maxClaimBackoff pollInterval
      in if pollInterval > ceil div 2 ^ nat shift then ceil
         else wrap64 (pollInterval * 2 ^ nat shift))"

section \<open>One attempt\<close>

text \<open>
  What one run of \<open>process\<close> sees of the outside: the instants the clock returned, the jitter
  source, when the record context was done, and what other transactions commit while the sink is
  called and before the destination is disabled.
\<close>

record 's attempt_env =
  ae_budgetCheck :: time
  ae_neverSent :: time
  ae_started :: time
  ae_finished :: time
  ae_random :: "float64 option"
  ae_record_done :: "nat \<Rightarrow> bool"
  ae_during_send :: "'s \<Rightarrow> 's"
  ae_before_disable :: "'s \<Rightarrow> 's"

definition latencyMS :: "time \<Rightarrow> time \<Rightarrow> int" where
  "latencyMS started finished = max (time_sub finished started) 0 div Millisecond"

datatype resolution = Send resolved_destination | Dead dead_reason | Unknown registry_error

definition resolveRecipient :: "'s worker_config \<Rightarrow> claim \<Rightarrow> 's \<Rightarrow> resolution" where
  "resolveRecipient config claim s =
     (case wc_Recipients config of
        None \<Rightarrow> Dead DeadReasonNoPublisher
      | Some recipients \<Rightarrow>
          (let envelope = sm_Envelope (cl_Message claim)
           in case recipients (en_AppID envelope) (en_ToRecipient envelope) (en_Channel envelope) s of
                Inl e \<Rightarrow> if e = ErrNoPublisher then Dead DeadReasonNoPublisher else Unknown e
              | Inr resolved \<Rightarrow> Send resolved))"

definition resolve :: "'s worker_config \<Rightarrow> claim \<Rightarrow> 's \<Rightarrow> resolution" where
  "resolve config claim s =
     (let delivery = cl_Delivery claim; envelope = sm_Envelope (cl_Message claim)
      in if d_DestinationName delivery = RecipientDestinationName then resolveRecipient config claim s
         else if d_DestinationName delivery = [] then Dead DeadReasonDestinationDeleted
         else case rv_Resolve (wc_Resolver config) (en_AppID envelope) (d_DestinationName delivery)
                     (en_Channel envelope) s of
           Inl e \<Rightarrow>
             if e = ErrUnknownDestination then Dead DeadReasonDestinationDeleted
             else if e = ErrDestinationDisabled then Dead DeadReasonDestinationDisabled
             else Unknown e
         | Inr [resolved] \<Rightarrow>
             if d_DestinationID delivery \<noteq> Some (rd_ID resolved) then Dead DeadReasonDestinationDeleted
             else Send resolved
         | Inr _ \<Rightarrow> Unknown (RegistryFailure ''resolve returned an unexpected number of destinations''))"

definition deliver :: "sink \<Rightarrow> resolved_destination \<Rightarrow> sink_request \<Rightarrow> outcome" where
  "deliver sink destination request =
     (case sink destination request of
        Some o' \<Rightarrow> o'
      | None \<Rightarrow> \<lparr>oc_StatusCode = 0, oc_RetryAfter = None, oc_ResponseSnippet = [],
                  oc_Err = Some (SinkError ''sink panicked'' []), oc_Gone = False\<rparr>)"

text \<open>Only a top-level \<^verbatim>\<open>*url.Error\<close> is stripped.\<close>

definition strip_url_error :: "outcome \<Rightarrow> outcome" where
  "strip_url_error o' =
     (case oc_Err o' of Some (UrlError _ inner) \<Rightarrow> o'\<lparr>oc_Err := Some inner\<rparr> | _ \<Rightarrow> o')"

text \<open>
  The retry loop of \<open>record\<close>, with the tries left and the number of the try. It stops on success,
  after the last try, and on a try that failed with the context done.
\<close>

fun record_loop ::
    "'s queue \<Rightarrow> (nat \<Rightarrow> bool) \<Rightarrow> attempt_result \<Rightarrow> nat \<Rightarrow> nat \<Rightarrow> 's \<Rightarrow> message_error option \<times> 's" where
  "record_loop queue ctx_done result 0 try s = (None, s)"
| "record_loop queue ctx_done result (Suc left) try s =
     (case q_RecordAttempt queue try result s of
        (Inr _, s') \<Rightarrow> (None, s')
      | (Inl e, s') \<Rightarrow>
          if left = 0 \<or> ctx_done try then (Some e, s')
          else record_loop queue ctx_done result left (Suc try) s')"

definition record_attempt ::
    "'s worker_config \<Rightarrow> 's attempt_env \<Rightarrow> attempt_result \<Rightarrow> 's \<Rightarrow> message_error option \<times> 's" where
  "record_attempt config env result s =
     record_loop (wc_Queue config) (ae_record_done env) result recordAttempts 0 s"

fun never_sent_text :: "dead_reason \<Rightarrow> string" where
  "never_sent_text DeadReasonDestinationDeleted = ''destination no longer exists''"
| "never_sent_text DeadReasonDestinationDisabled = ''destination is disabled''"
| "never_sent_text DeadReasonUnsupportedType = ''no sink for destination type''"
| "never_sent_text DeadReasonBudgetExhausted = ''destination could not be resolved''"
| "never_sent_text DeadReasonNoPublisher = ''app has no ntfy publisher''"
| "never_sent_text _ = []"

definition never_sent_result :: "claim \<Rightarrow> dead_reason \<Rightarrow> time \<Rightarrow> attempt_result" where
  "never_sent_result claim reason now =
     \<lparr>res_Record = \<lparr>ar_DeliveryID = d_ID (cl_Delivery claim), ar_Outcome = OutcomeTerminal, ar_StatusCode = None,
                     ar_LatencyMS = 0, ar_Error = Some (never_sent_text reason), ar_ResponseSnippet = None,
                     ar_StartedAt = now\<rparr>,
      res_NextState = StateDead, res_DeadReason = Some reason, res_NextAttemptAt = 0\<rparr>"

definition recordNeverSent ::
    "'s worker_config \<Rightarrow> 's attempt_env \<Rightarrow> claim \<Rightarrow> dead_reason \<Rightarrow> 's \<Rightarrow> 's" where
  "recordNeverSent config env claim reason s =
     snd (record_attempt config env (never_sent_result claim reason (ae_neverSent env)) s)"

definition request_of :: "claim \<Rightarrow> sink_request" where
  "request_of claim =
     \<lparr>rq_MessageID = sm_ID (cl_Message claim), rq_CreatedAt = sm_CreatedAt (cl_Message claim),
      rq_Envelope = sm_Envelope (cl_Message claim)\<rparr>"

definition attempt_result_of :: "'s attempt_env \<Rightarrow> claim \<Rightarrow> outcome \<Rightarrow> attempt_result" where
  "attempt_result_of env claim o' =
     (let result = Decide (cl_Delivery claim) (strip_url_error o') (ae_finished env) (ae_random env)
      in result\<lparr>res_Record := (res_Record result)\<lparr>ar_StartedAt := ae_started env,
                                 ar_LatencyMS := latencyMS (ae_started env) (ae_finished env)\<rparr>\<rparr>)"

definition disableDestination :: "'s worker_config \<Rightarrow> claim \<Rightarrow> int \<Rightarrow> 's \<Rightarrow> 's" where
  "disableDestination config claim destinationID s =
     snd (rv_DisableDestination (wc_Resolver config) (d_DestinationName (cl_Delivery claim)) destinationID
            disableReason s)"

text \<open>
  \<open>process\<close> returns what it handed to a sink, if anything, and the state it leaves.
\<close>

type_synonym sent = "(resolved_destination \<times> sink_request) option"

definition send_attempt ::
    "'s worker_config \<Rightarrow> 's attempt_env \<Rightarrow> claim \<Rightarrow> sink \<Rightarrow> resolved_destination \<Rightarrow> 's \<Rightarrow> sent \<times> 's" where
  "send_attempt config env claim sink destination s =
     (let result = attempt_result_of env claim (deliver sink destination (request_of claim));
          recorded = snd (record_attempt config env result (ae_during_send env s));
          final = (if ar_Outcome (res_Record result) = OutcomeGone
                      \<and> d_DestinationName (cl_Delivery claim) \<noteq> RecipientDestinationName
                   then disableDestination config claim (rd_ID destination) (ae_before_disable env recorded)
                   else recorded)
      in (Some (destination, request_of claim), final))"

definition process :: "'s worker_config \<Rightarrow> 's attempt_env \<Rightarrow> claim \<Rightarrow> 's \<Rightarrow> sent \<times> 's" where
  "process config env claim s =
     (case resolve config claim s of
        Unknown e \<Rightarrow>
          (let budgetStart = d_BudgetStartedAt (cl_Delivery claim)
           in if IsZero budgetStart \<or> time_sub (ae_budgetCheck env) budgetStart \<ge> MaxBudgetAge
              then (None, recordNeverSent config env claim DeadReasonBudgetExhausted s)
              else (None, s))
      | Dead reason \<Rightarrow> (None, recordNeverSent config env claim reason s)
      | Send destination \<Rightarrow>
          (case wc_Sinks config (rd_Type destination) of
             None \<Rightarrow> (None, recordNeverSent config env claim DeadReasonUnsupportedType s)
           | Some sink \<Rightarrow> send_attempt config env claim sink destination s))"

section \<open>The claim loop\<close>

text \<open>
  One turn of \<open>loop\<close>: the clock reading, the number of consecutive failures so far, the state.
  It returns how long the loop then idles (\<open>None\<close> when it goes on at once), the failure count, what
  was sent and the state. \<open>cancelled\<close> says that the context was done when the claim failed.
\<close>

datatype loop_turn = Stopped | Turn "duration option" int sent

definition loop_turn ::
    "'s worker_config \<Rightarrow> nat \<Rightarrow> time \<Rightarrow> bool \<Rightarrow> 's attempt_env \<Rightarrow> int \<Rightarrow> 's \<Rightarrow> loop_turn \<times> 's" where
  "loop_turn config call now cancelled env failures s =
     (case q_ClaimDue (wc_Queue config) call now (wc_Lease config) s of
        (Inl e, s') \<Rightarrow>
          if cancelled then (Stopped, s')
          else (Turn (Some (claimBackoff (wc_PollInterval config) (failures + 1))) (failures + 1) None, s')
      | (Inr None, s') \<Rightarrow> (Turn (Some (wc_PollInterval config)) 0 None, s')
      | (Inr (Some claim), s') \<Rightarrow>
          (case process config env claim s' of (sent, s'') \<Rightarrow> (Turn None 0 sent, s'')))"

section \<open>Releaser\<close>

definition DefaultReleaseBatchSize :: int where "DefaultReleaseBatchSize = 100"
definition DefaultMaxReleaseBatches :: int where "DefaultMaxReleaseBatches = 50"

type_synonym 's due_releaser = "nat \<Rightarrow> int \<Rightarrow> 's \<Rightarrow> (message_error + int) \<times> 's"

text \<open>
  \<open>drain\<close>: \<open>release_due b\<close> is the call of batch \<open>b\<close> (with the clock reading it makes); it
  stops on a done context, on an error, on a short batch and after the last batch.
\<close>

fun drain_loop ::
    "'s due_releaser \<Rightarrow> (nat \<Rightarrow> bool) \<Rightarrow> int \<Rightarrow> nat \<Rightarrow> nat \<Rightarrow> int \<Rightarrow> 's \<Rightarrow> int \<times> 's" where
  "drain_loop release_due ctx_done batchSize 0 batch sofar s = (sofar, s)"
| "drain_loop release_due ctx_done batchSize (Suc left) batch sofar s =
     (if ctx_done batch then (sofar, s)
      else case release_due batch batchSize s of
        (Inl e, s') \<Rightarrow> (sofar, s')
      | (Inr released, s') \<Rightarrow>
          if released < batchSize then (sofar + released, s')
          else drain_loop release_due ctx_done batchSize left (Suc batch) (sofar + released) s')"

definition drain :: "'s due_releaser \<Rightarrow> (nat \<Rightarrow> bool) \<Rightarrow> int \<Rightarrow> int \<Rightarrow> 's \<Rightarrow> int \<times> 's" where
  "drain release_due ctx_done batchSize maxBatches s =
     (let batchSize = (if batchSize \<le> 0 then DefaultReleaseBatchSize else batchSize);
          maxBatches = (if maxBatches \<le> 0 then DefaultMaxReleaseBatches else maxBatches)
      in drain_loop release_due ctx_done batchSize (nat maxBatches) 0 0 s)"

text \<open>One run of the releaser: it wakes the worker when it released something.\<close>

definition release_run ::
    "'s due_releaser \<Rightarrow> (nat \<Rightarrow> bool) \<Rightarrow> int \<Rightarrow> int \<Rightarrow> 's \<Rightarrow> bool \<times> 's" where
  "release_run release_due ctx_done batchSize maxBatches s =
     (case drain release_due ctx_done batchSize maxBatches s of (released, s') \<Rightarrow> (released > 0, s'))"

section \<open>Sweeper\<close>

record 's expirer =
  ex_DeleteExpired :: "time \<Rightarrow> 's \<Rightarrow> (int \<times> message_error option) \<times> 's"
  ex_DeleteExpiredHeld :: "time \<Rightarrow> 's \<Rightarrow> (int \<times> message_error option) \<times> 's"

text \<open>One sweep: both phases run, whatever the first one returned.\<close>

definition sweep :: "'s expirer \<Rightarrow> duration \<Rightarrow> duration \<Rightarrow> time \<Rightarrow> 's \<Rightarrow> (int \<times> int) \<times> 's" where
  "sweep expirer retention heldTTL now s =
     (case ex_DeleteExpired expirer (now - retention) s of
        ((deleted, _), s') \<Rightarrow>
          (case ex_DeleteExpiredHeld expirer (now - heldTTL) s' of
             ((heldDeleted, _), s'') \<Rightarrow> ((deleted, heldDeleted), s'')))"

text \<open>\<open>RunSweeper\<close> refuses a non-positive configuration, so a sweep never has a cutoff in the future.\<close>

definition run_sweep ::
    "'s expirer option \<Rightarrow> duration \<Rightarrow> duration \<Rightarrow> duration \<Rightarrow> time \<Rightarrow> 's \<Rightarrow> ((int \<times> int) \<times> 's) option" where
  "run_sweep expirer retention heldTTL interval now s =
     (case expirer of
        None \<Rightarrow> None
      | Some e \<Rightarrow>
          if retention \<le> 0 \<or> heldTTL \<le> 0 \<or> interval \<le> 0 then None
          else Some (sweep e retention heldTTL now s))"

section \<open>Environment settings\<close>

definition DefaultRetentionDays :: int where "DefaultRetentionDays = 30"
definition MaxRetentionDays :: int where "MaxRetentionDays = 3650"
definition DefaultHeldTTLDays :: int where "DefaultHeldTTLDays = 7"
definition MaxHeldTTLDays :: int where "MaxHeldTTLDays = 365"

definition days_setting :: "string + int \<Rightarrow> string + duration" where
  "days_setting r = (case r of Inl e \<Rightarrow> Inl e | Inr days \<Rightarrow> Inr (wrap64 (wrap64 (days * 24) * Hour)))"

definition RetentionFromEnv :: "(string \<Rightarrow> string) \<Rightarrow> string + duration" where
  "RetentionFromEnv getenv =
     days_setting (Bounded getenv ''DELIVERY_RETENTION_DAYS'' DefaultRetentionDays MaxRetentionDays)"

definition HeldTTLFromEnv :: "(string \<Rightarrow> string) \<Rightarrow> string + duration" where
  "HeldTTLFromEnv getenv =
     days_setting (Bounded getenv ''DELIVERY_HELD_TTL_DAYS'' DefaultHeldTTLDays MaxHeldTTLDays)"

section \<open>Configuration facts\<close>

text \<open>The lease always outlasts one worst-case attempt plus the margin.\<close>

lemma NewWorker_lease:
  assumes "wc_AttemptTimeout config \<le> maxDuration - 37 * Second"
  shows "wc_AttemptTimeout (NewWorker config) + recordTimeout + disableTimeout + leaseMargin \<le> wc_Lease (NewWorker config)"
    and "0 < wc_AttemptTimeout (NewWorker config)" "1 \<le> wc_Concurrency (NewWorker config)"
      "0 < wc_PollInterval (NewWorker config)" "0 < wc_RecordRetryDelay (NewWorker config)"
proof -
  have w: "wrap64 (t + recordTimeout + disableTimeout + leaseMargin) = t + recordTimeout + disableTimeout + leaseMargin"
    if "0 < t" "t \<le> maxDuration - 37 * Second" for t
    using that by (intro wrap64_id) (simp_all add: worker_consts)
  show "wc_AttemptTimeout (NewWorker config) + recordTimeout + disableTimeout + leaseMargin \<le> wc_Lease (NewWorker config)"
    using assms w [of "wc_AttemptTimeout config"] w [of DefaultAttemptTimeout]
    by (simp add: NewWorker_def Let_def) (simp add: worker_consts)
qed (simp_all add: NewWorker_def Let_def worker_consts)

text \<open>The claim back-off never polls faster than an idle loop, is capped, and never overflows.\<close>

lemma claimBackoff_bounds:
  assumes "0 < p" "p \<le> maxDuration"
  shows "p \<le> claimBackoff p n \<and> claimBackoff p n \<le> max maxClaimBackoff p"
proof -
  define k where "k = nat (min (max (n - 1) 0) maxClaimBackoffShift)"
  define c where "c = max maxClaimBackoff p"
  have eq: "claimBackoff p n = (if p > c div 2 ^ k then c else wrap64 (p * 2 ^ k))"
    by (simp add: claimBackoff_def k_def c_def Let_def)
  have c: "p \<le> c" "c \<le> maxDuration" using assms by (auto simp: c_def worker_consts)
  show ?thesis
  proof (cases "p > c div 2 ^ k")
    case True
    with c show ?thesis by (simp add: eq c_def [symmetric])
  next
    case False
    then have "p * 2 ^ k \<le> c div 2 ^ k * 2 ^ k" by (simp add: mult_right_mono)
    also have "\<dots> = c - c mod 2 ^ k" by (simp add: minus_mod_eq_div_mult)
    finally have "p * 2 ^ k \<le> c - c mod 2 ^ k" .
    moreover have "0 \<le> c mod 2 ^ k" by simp
    ultimately have le: "p * 2 ^ k \<le> c" by linarith
    have "p \<le> p * 2 ^ k" using assms(1) by simp
    moreover have "wrap64 (p * 2 ^ k) = p * 2 ^ k" using le c assms(1) by (intro wrap64_id) (auto intro: order_trans [of _ 0])
    ultimately show ?thesis using False le by (simp add: eq c_def [symmetric])
  qed
qed

section \<open>What a worker hands to a sink\<close>

lemma process_sent:
  assumes "process config env claim s = (Some (destination, request), s')"
  shows "resolve config claim s = Send destination" "request = request_of claim"
    "wc_Sinks config (rd_Type destination) \<noteq> None"
  using assms by (auto simp: process_def send_attempt_def Let_def split: resolution.splits if_splits option.splits)

lemma resolve_Send_named:
  assumes "resolve config claim s = Send destination"
    and "d_DestinationName (cl_Delivery claim) \<noteq> RecipientDestinationName"
  shows "d_DestinationID (cl_Delivery claim) = Some (rd_ID destination)"
    "d_DestinationName (cl_Delivery claim) \<noteq> []"
    "rv_Resolve (wc_Resolver config) (en_AppID (sm_Envelope (cl_Message claim)))
       (d_DestinationName (cl_Delivery claim)) (en_Channel (sm_Envelope (cl_Message claim))) s = Inr [destination]"
  using assms by (auto simp: resolve_def Let_def split: sum.splits if_splits list.splits)

text \<open>Every result the worker records passes the queue's validation.\<close>

lemma Decide_pairs:
  "(ar_Outcome (res_Record (Decide d o' now r)) = OutcomeSuccess) = (res_NextState (Decide d o' now r) = StateDelivered)"
  by (auto simp: Decide_record Decide_state buildRecord_def split: attempt_outcome.splits)

lemma attempt_result_of_fields [simp]:
  "res_NextState (attempt_result_of env claim o') = res_NextState (Decide (cl_Delivery claim) (strip_url_error o') (ae_finished env) (ae_random env))"
  "res_DeadReason (attempt_result_of env claim o') = res_DeadReason (Decide (cl_Delivery claim) (strip_url_error o') (ae_finished env) (ae_random env))"
  "res_NextAttemptAt (attempt_result_of env claim o') = res_NextAttemptAt (Decide (cl_Delivery claim) (strip_url_error o') (ae_finished env) (ae_random env))"
  "ar_Outcome (res_Record (attempt_result_of env claim o')) = Classify (strip_url_error o')"
  "ar_DeliveryID (res_Record (attempt_result_of env claim o')) = d_ID (cl_Delivery claim)"
  "ar_LatencyMS (res_Record (attempt_result_of env claim o')) = latencyMS (ae_started env) (ae_finished env)"
  by (simp_all add: attempt_result_of_def Let_def Decide_record buildRecord_def)

lemma latencyMS_nonneg: "0 \<le> latencyMS a b"
  by (simp add: latencyMS_def)

section \<open>The worker over any store\<close>

text \<open>
  What the worker relies on: an invariant of the store that claiming, recording and disabling keep,
  and that resolving a name returns the one destination of that name.
\<close>

locale delivery_queue =
  fixes inv :: "'s \<Rightarrow> bool" and Q :: "'s queue"
  assumes claim_inv: "inv s \<Longrightarrow> inv (snd (q_ClaimDue Q k now lease s))"
    and record_inv: "inv s \<Longrightarrow> inv (snd (q_RecordAttempt Q k result s))"
    and claim_parent: "inv s \<Longrightarrow> q_ClaimDue Q k now lease s = (Inr (Some c), s') \<Longrightarrow>
      d_State (cl_Delivery c) = StatePending \<and> sm_ID (cl_Message c) = d_MessageID (cl_Delivery c)
      \<and> d_NextAttemptAt (cl_Delivery c) = now + lease"

locale destination_resolver =
  fixes inv :: "'s \<Rightarrow> bool" and R :: "'s resolver"
  assumes disable_inv: "inv s \<Longrightarrow> inv (snd (rv_DisableDestination R name i reason s))"
    and resolve_one: "inv s \<Longrightarrow> name \<noteq> [] \<Longrightarrow> rv_Resolve R app name channel s = Inr ds \<Longrightarrow>
      \<exists>d. ds = [d] \<and> rd_Name d = name"

locale delivery_worker = delivery_queue inv Q + destination_resolver inv R
  for inv :: "'s \<Rightarrow> bool" and Q :: "'s queue" and R :: "'s resolver" +
  fixes config :: "'s worker_config"
  assumes queue: "wc_Queue config = Q" and resolver: "wc_Resolver config = R"
begin

definition steady :: "'s attempt_env \<Rightarrow> bool" where
  "steady env \<longleftrightarrow> (\<forall>s. inv s \<longrightarrow> inv (ae_during_send env s)) \<and> (\<forall>s. inv s \<longrightarrow> inv (ae_before_disable env s))"

lemma record_loop_inv: "inv s \<Longrightarrow> inv (snd (record_loop Q ctx_done result n k s))"
proof (induction n arbitrary: k s)
  case (Suc n)
  obtain r s' where r: "q_RecordAttempt Q k result s = (r, s')" by (cases "q_RecordAttempt Q k result s")
  then have "inv s'" using record_inv [OF Suc.prems, of k result] by simp
  with Suc.IH show ?case by (cases r) (simp_all add: r)
qed simp

lemma record_attempt_inv: "inv s \<Longrightarrow> inv (snd (record_attempt config env result s))"
  by (simp add: record_attempt_def queue record_loop_inv)

lemma never_sent_inv: "inv s \<Longrightarrow> inv (recordNeverSent config env claim reason s)"
  by (simp add: recordNeverSent_def record_attempt_inv)

lemma send_inv:
  assumes "inv s" "steady env"
  shows "inv (snd (send_attempt config env claim sink destination s))"
proof -
  have "inv (snd (record_attempt config env result (ae_during_send env s)))" for result
    using assms by (simp add: steady_def record_attempt_inv)
  with assms(2) show ?thesis
    by (simp add: send_attempt_def Let_def disableDestination_def resolver disable_inv steady_def)
qed

lemma process_inv: "inv s \<Longrightarrow> steady env \<Longrightarrow> inv (snd (process config env claim s))"
  by (simp add: process_def Let_def never_sent_inv send_inv split: resolution.split option.split)

lemma loop_turn_inv:
  assumes "inv s" "steady env"
  shows "inv (snd (loop_turn config k now cancelled env failures s))"
proof -
  obtain r s' where r: "q_ClaimDue Q k now (wc_Lease config) s = (r, s')"
    by (cases "q_ClaimDue Q k now (wc_Lease config) s")
  then have s': "inv s'" using claim_inv [OF assms(1), of k now "wc_Lease config"] by simp
  then have "inv (snd (process config env c s'))" for c using assms(2) by (rule process_inv)
  with r s' show ?thesis
    by (simp add: loop_turn_def queue case_prod_beta split: sum.split option.split)
qed

text \<open>A named delivery is sent only to the destination it was addressed to: same name, same id.\<close>

lemma sent_to_addressee:
  assumes "inv s" "process config env claim s = (Some (destination, request), s')"
    and "d_DestinationName (cl_Delivery claim) \<noteq> RecipientDestinationName"
  shows "rd_Name destination = d_DestinationName (cl_Delivery claim)
    \<and> d_DestinationID (cl_Delivery claim) = Some (rd_ID destination) \<and> request = request_of claim"
proof -
  note p = process_sent [OF assms(2)]
  note n = resolve_Send_named [OF p(1) assms(3)]
  from resolve_one [OF assms(1) n(2)] n(3) have "rd_Name destination = d_DestinationName (cl_Delivery claim)"
    by (auto simp: resolver)
  with n(1) p(2) show ?thesis by simp
qed

text \<open>The unexpected-count branch of \<open>resolve\<close> is dead code over such a resolver.\<close>

lemma resolve_known_error:
  assumes "inv s" "resolve config claim s = Unknown e"
    and "d_DestinationName (cl_Delivery claim) \<noteq> RecipientDestinationName"
  shows "rv_Resolve R (en_AppID (sm_Envelope (cl_Message claim))) (d_DestinationName (cl_Delivery claim))
    (en_Channel (sm_Envelope (cl_Message claim))) s = Inl e"
  using assms resolve_one [OF assms(1), of "d_DestinationName (cl_Delivery claim)"]
  by (fastforce simp: resolve_def Let_def resolver split: sum.splits if_splits list.splits)

end

section \<open>The background jobs over any store\<close>

locale due_release =
  fixes inv :: "'s \<Rightarrow> bool" and release_due :: "'s due_releaser"
  assumes release_inv: "inv s \<Longrightarrow> inv (snd (release_due k n s))"
    and release_count: "release_due k n s = (Inr m, s') \<Longrightarrow> 0 \<le> m"
begin

lemma drain_loop_inv: "inv s \<Longrightarrow> inv (snd (drain_loop release_due ctx_done size' n b k s))"
proof (induction n arbitrary: b k s)
  case (Suc n)
  obtain r s' where r: "release_due b size' s = (r, s')" by (cases "release_due b size' s")
  then have "inv s'" using release_inv [OF Suc.prems, of b size'] by simp
  with Suc show ?case by (cases r) (simp_all add: r)
qed simp

lemma drain_inv: "inv s \<Longrightarrow> inv (snd (drain release_due ctx_done size' n s))"
  by (simp add: drain_def Let_def drain_loop_inv)

lemma drain_loop_count: "k \<le> fst (drain_loop release_due ctx_done size' n b k s)"
proof (induction n arbitrary: b k s)
  case (Suc n)
  obtain r s' where r: "release_due b size' s = (r, s')" by (cases "release_due b size' s")
  show ?case
  proof (cases r)
    case (Inr m)
    then have "0 \<le> m" using release_count r by simp
    then show ?thesis using Suc.IH [of "k + m" "Suc b" s'] by (simp add: r Inr)
  qed (simp add: r)
qed simp

end

locale message_expirer =
  fixes inv :: "'s \<Rightarrow> bool" and E :: "'s expirer"
  assumes expire_inv: "inv s \<Longrightarrow> inv (snd (ex_DeleteExpired E cutoff s))"
    and expire_held_inv: "inv s \<Longrightarrow> inv (snd (ex_DeleteExpiredHeld E cutoff s))"
begin

lemma sweep_inv: "inv s \<Longrightarrow> inv (snd (sweep E retention heldTTL now s))"
proof -
  assume s: "inv s"
  obtain r1 s1 where r1: "ex_DeleteExpired E (now - retention) s = (r1, s1)"
    by (cases "ex_DeleteExpired E (now - retention) s")
  obtain r2 s2 where r2: "ex_DeleteExpiredHeld E (now - heldTTL) s1 = (r2, s2)"
    by (cases "ex_DeleteExpiredHeld E (now - heldTTL) s1")
  have "inv s1" using expire_inv [OF s, of "now - retention"] r1 by simp
  then have "inv s2" using expire_held_inv [of s1 "now - heldTTL"] r2 by simp
  then show ?thesis by (simp add: sweep_def r1 r2 case_prod_beta)
qed

end

end
