(* ===== verification/Delivery_System.thy ===== *)
theory Delivery_System
  imports Message_Preserve Registry_Invariant Dispatch_Worker
begin

text \<open>
  The Postgres store as the provider of the worker's, the releaser's and the sweeper's interfaces:
  message tables and registry tables live in one database, so the system invariant joins the two, and
  every operation of either side keeps both halves. The interfaces are then interpreted on the
  Postgres operations, which gives the worker its guarantees on the real store.
\<close>

definition system_inv :: "database \<Rightarrow> bool" where
  "system_inv db \<longleftrightarrow> store_inv db \<and> reg_inv db"

lemma system_invD: "system_inv db \<Longrightarrow> store_inv db" "system_inv db \<Longrightarrow> reg_inv db"
  by (simp_all add: system_inv_def)

lemma system_inv_empty: "system_inv empty_db"
  by (simp add: system_inv_def store_inv_empty reg_inv_empty)

section \<open>Message operations keep the registry half\<close>

definition dest_refs :: "database \<Rightarrow> int option set" where
  "dest_refs db = d_DestinationID ` set (db_deliveries db)"

definition dest_ids :: "database \<Rightarrow> int option set" where
  "dest_ids db = insert None (Some ` sd_ID ` set (db_destinations db))"

definition reg_frame :: "database \<Rightarrow> database \<Rightarrow> bool" where
  "reg_frame db db' \<longleftrightarrow>
     db_destinations db' = db_destinations db \<and> db_routes db' = db_routes db
     \<and> db_route_destinations db' = db_route_destinations db
     \<and> db_check_destinations db' = db_check_destinations db
     \<and> db_destination_seq db' = db_destination_seq db \<and> db_route_seq db' = db_route_seq db
     \<and> dest_refs db' \<subseteq> dest_ids db \<union> dest_refs db"

lemma reg_inv_frame: "reg_inv db \<Longrightarrow> reg_frame db db' \<Longrightarrow> reg_inv db'"
proof -
  assume inv: "reg_inv db" and fr: "reg_frame db db'"
  from fr have eq: "db_destinations db' = db_destinations db" "db_routes db' = db_routes db"
    "db_route_destinations db' = db_route_destinations db"
    "db_destination_seq db' = db_destination_seq db" "db_route_seq db' = db_route_seq db"
    by (simp_all add: reg_frame_def)
  have "delivery_refs_ok db'"
    unfolding delivery_refs_ok_def
  proof (intro ballI allI impI)
    fix x i assume "x \<in> set (db_deliveries db')" "d_DestinationID x = Some i"
    then have "Some i \<in> dest_refs db'" by (force simp: dest_refs_def)
    with fr have "Some i \<in> dest_ids db \<union> dest_refs db" by (auto simp: reg_frame_def)
    with reg_invD(4) [OF inv] show "i \<in> sd_ID ` set (db_destinations db')"
      by (auto simp: delivery_refs_ok_def dest_refs_def dest_ids_def eq dest: sym)
  qed
  with inv show ?thesis
    by (simp add: reg_inv_def dest_ok_def routes_ok_def links_ok_def link_ok_def eq)
qed

lemma reg_frame_refl [simp]: "reg_frame db db"
  by (simp add: reg_frame_def)

lemma reg_frame_update:
  assumes "\<And>d. d_DestinationID (f d) = d_DestinationID d"
  shows "reg_frame db (db\<lparr>db_deliveries := update_where p f (db_deliveries db)\<rparr>)"
proof -
  have "d_DestinationID ` set (update_where p f (db_deliveries db)) = d_DestinationID ` set (db_deliveries db)"
    by (metis assms list.set_map map_update_where)
  then show ?thesis by (simp add: reg_frame_def dest_refs_def)
qed

lemma reg_frame_same:
  assumes "reg_frame db db'" "db_deliveries db'' = db_deliveries db'" "db_destinations db'' = db_destinations db'"
    "db_routes db'' = db_routes db'" "db_route_destinations db'' = db_route_destinations db'"
    "db_destination_seq db'' = db_destination_seq db'" "db_route_seq db'' = db_route_seq db'"
    "db_check_destinations db'' = db_check_destinations db'"
  shows "reg_frame db db''"
  using assms by (simp add: reg_frame_def dest_refs_def)

lemma new_deliveries_targets:
  "d \<in> set (new_deliveries env mid sch did ts) \<Longrightarrow> d_DestinationID d \<in> dt_DestinationID ` set ts"
  by (induction ts arbitrary: did) (auto simp: new_delivery_def)

lemma insertDeliveries_frame:
  assumes "insertDeliveries env db mid ts sch = Inr db'"
  shows "reg_frame db db'"
proof -
  define rows where "rows = new_deliveries env mid sch (db_delivery_seq db) ts"
  have ok: "insertable db rows" "db' = db\<lparr>db_deliveries := db_deliveries db @ rows,
      db_delivery_seq := db_delivery_seq db + int (length ts)\<rparr>"
    using assms by (auto simp: insertDeliveries_def Let_def rows_def split: if_splits)
  have "d_DestinationID x \<in> dest_ids db" if "x \<in> set rows" for x
    using ok(1) that by (cases "d_DestinationID x") (auto simp: insertable_def list_all_iff dest_ids_def)
  then show ?thesis by (auto simp: reg_frame_def dest_refs_def ok(2))
qed

lemma delete_deliveries_frame: "reg_frame db (delete_deliveries_of mid db)"
  by (auto simp: reg_frame_def dest_refs_def delete_deliveries_of_def Let_def)

lemma delete_messages_frame: "reg_frame db (delete_messages ids db)"
  by (auto simp: reg_frame_def dest_refs_def delete_messages_def Let_def)

lemma reg_frame_trans:
  assumes "reg_frame db db'" "reg_frame db' db''"
  shows "reg_frame db db''"
  using assms by (auto simp: reg_frame_def dest_ids_def)

lemma ClaimDue_frame: "reg_frame db (snd (ClaimDue env locked now lease db))"
  by (auto simp: ClaimDue_def Let_def reg_frame_update split: list.split sum.split)

lemma RecordAttempt_frame: "reg_frame db (snd (RecordAttempt env result db))"
proof (cases rule: RecordAttempt_cases [of env result db])
  case same
  then show ?thesis by simp
next
  case (committed c)
  have "reg_frame db (db\<lparr>db_deliveries := update_where (\<lambda>d. d_ID d = d_ID c) (apply_result env result) (db_deliveries db)\<rparr>)"
    by (rule reg_frame_update) (simp add: apply_result_def)
  then have "reg_frame db (recorded env result c db)"
    by (rule reg_frame_same) (simp_all add: recorded_def)
  with committed show ?thesis by simp
qed

lemma Replay_frame: "reg_frame db (snd (Replay env i now db))"
proof -
  have "reg_frame db (db\<lparr>db_deliveries := update_where p (replayed env now) (db_deliveries db)\<rparr>)" for p
    by (rule reg_frame_update) (simp add: replayed_def)
  then show ?thesis by (simp add: Replay_def Let_def split: sum.split list.split)
qed

lemma cancel_row_frame: "reg_frame db (snd (cancel_row m now db))"
proof -
  have upd: "reg_frame db (db\<lparr>db_deliveries := update_where p (\<lambda>d. d\<lparr>d_State := StateCancelled, d_UpdatedAt := now\<rparr>)
      (db_deliveries db), db_messages := ms\<rparr>)" for p ms
    by (rule reg_frame_same [OF reg_frame_update [of "\<lambda>d. d\<lparr>d_State := StateCancelled, d_UpdatedAt := now\<rparr>" db p]]) simp_all
  have msg: "reg_frame db (db\<lparr>db_messages := ms\<rparr>)" for ms
    by (rule reg_frame_same [OF reg_frame_refl]) simp_all
  show ?thesis by (simp add: cancel_row_def Let_def upd msg)
qed

lemma cancel_frame: "reg_frame db (snd (cancel p now db))"
  by (auto simp: cancel_def cancel_row_frame split: option.split)

lemma ReleaseDue_frame: "reg_frame db (snd (ReleaseDue locked now limit db))"
  unfolding ReleaseDue_def Let_def
  by (simp only: split: if_split) (simp add: reg_frame_update released_def)

lemma delete_batches_frame:
  assumes "\<And>db. reg_frame db (snd (stmt db))"
  shows "reg_frame db (snd (delete_batches ctx_done stmt bsize n b k db))"
proof (induction n arbitrary: b k db)
  case (Suc n)
  obtain r db' where r: "stmt db = (r, db')" by (cases "stmt db")
  then have "reg_frame db db'" using assms [of db] by simp
  with Suc.IH [of db' "Suc b" "k + int r"] show ?case by (auto simp: r intro: reg_frame_trans)
qed simp

lemma DeleteExpired_frame: "reg_frame db (snd (DeleteExpiredInBatches ctx_done cutoff bsize db))"
  by (simp add: DeleteExpiredInBatches_def delete_batches_frame deleteExpiredSQL_def Let_def delete_messages_frame)

lemma DeleteExpiredHeld_frame: "reg_frame db (snd (DeleteExpiredHeldInBatches ctx_done locked cutoff bsize db))"
  by (simp add: DeleteExpiredHeldInBatches_def delete_batches_frame deleteExpiredHeldSQL_def Let_def delete_messages_frame)

lemma replace_rows_frame:
  assumes "replace_rows env e ts now row db = Inr db2"
  shows "reg_frame db db2"
proof -
  define db1 where "db1 = db\<lparr>db_messages := update_where (\<lambda>m. m_id m = m_id row) (\<lambda>_. replaced_row e now row) (db_messages db)\<rparr>"
  have "insertDeliveries env (delete_deliveries_of (m_id row) db1) (m_id row) ts (replace_schedule e now) = Inr db2"
    using assms by (auto simp: replace_rows_def db1_def split: if_splits)
  from insertDeliveries_frame [OF this] have "reg_frame (delete_deliveries_of (m_id row) db1) db2" .
  moreover have "reg_frame db db1"
    by (rule reg_frame_same [OF reg_frame_refl]) (simp_all add: db1_def)
  ultimately show ?thesis using delete_deliveries_frame reg_frame_trans by blast
qed

lemma Replace_frame: "reg_frame db (snd (ReplaceScheduledMessage env e ts now db))"
  by (auto simp: ReplaceScheduledMessage_def replace_rows_frame split: sum.split option.split)

text \<open>The inserts run beside other transactions, which keep the whole invariant.\<close>

definition system_quiet :: "tx_env \<Rightarrow> bool" where
  "system_quiet env \<longleftrightarrow> (\<forall>k db. system_inv db \<longrightarrow> system_inv (tx_between env k db))"

lemma insertOnce_frame:
  assumes "insert_message_row db (message_row_of env e None) = Inserted db1"
  shows "reg_frame db (snd (insertOnce env k e ts sch caps db))"
proof -
  have "reg_frame db db1"
    by (rule reg_frame_same [OF reg_frame_refl]) (simp_all add: insert_message_row_Inserted(1) [OF assms])
  then have "reg_frame db db2" if "insertDeliveries env db1 (tx_uuid env) ts sch = Inr db2" for db2
    using insertDeliveries_frame [OF that] reg_frame_trans by blast
  then show ?thesis by (simp add: insertOnce_def assms split: sum.split)
qed

lemma insertOnce_system:
  assumes inv: "system_inv db" and q: "system_quiet env" and ts: "ts \<noteq> []" and sch: "insert_schedule e sch"
  shows "system_inv (snd (insertOnce env k e ts sch caps db))"
proof (cases "insert_message_row db (message_row_of env e None)")
  case Conflict
  then show ?thesis using inv q by (simp add: insertOnce_def system_quiet_def Let_def split: sum.split)
next
  case Rejected
  then show ?thesis using inv by (simp add: insertOnce_def)
next
  case (Inserted db1)
  define env' where "env' = env\<lparr>tx_between := \<lambda>_ x. x\<rparr>"
  have uu: "tx_uuid env' = tx_uuid env" by (simp add: env'_def)
  have rows: "message_row_of env' e h = message_row_of env e h" for h by (simp add: env'_def message_row_of_def)
  have nd: "new_deliveries env' mid sch did ts = new_deliveries env mid sch did ts" for mid did
    by (induction ts arbitrary: did) (simp_all add: new_delivery_def env'_def)
  have eq: "insertOnce env' k e ts sch caps db = insertOnce env k e ts sch caps db"
    unfolding insertOnce_def rows Inserted insert_result.case insertDeliveries_def nd uu by (rule refl)
  have "store_inv (snd (insertOnce env' k e ts sch caps db))"
    by (rule insertOnce_inv [OF system_invD(1) [OF inv] _ ts sch]) (simp add: quiet_def env'_def)
  moreover have "reg_inv (snd (insertOnce env k e ts sch caps db))"
    by (rule reg_inv_frame [OF system_invD(2) [OF inv] insertOnce_frame [OF Inserted]])
  ultimately show ?thesis by (simp add: system_inv_def eq)
qed

lemma insertWithRetry_system:
  assumes "system_inv db" "system_quiet env" "insert_schedule e sch"
  shows "system_inv (snd (insertWithRetry env e ts sch caps db))"
proof (cases "ts = []")
  case True
  with assms(1) show ?thesis by (simp add: insertWithRetry_def)
next
  case False
  have "system_inv (snd (insert_loop msg (\<lambda>k. insertOnce env k e ts sch caps) n k db))" for msg n k
    by (rule insert_loop_preserves [where P = system_inv, OF insertOnce_system]) (use assms False in auto)
  with False show ?thesis by (simp add: insertWithRetry_def)
qed

lemma insertHeldOnce_system:
  assumes inv: "system_inv db" and q: "system_quiet env"
  shows "system_inv (snd (insertHeldOnce env k e caps now db))"
proof (cases "insert_message_row db (message_row_of env e (Some now))")
  case Conflict
  then show ?thesis using inv q by (simp add: insertHeldOnce_def system_quiet_def Let_def split: sum.split)
next
  case Rejected
  then show ?thesis using inv by (simp add: insertHeldOnce_def)
next
  case (Inserted db1)
  define env' where "env' = env\<lparr>tx_between := \<lambda>_ x. x\<rparr>"
  have uu: "tx_uuid env' = tx_uuid env" by (simp add: env'_def)
  have rows: "message_row_of env' e h = message_row_of env e h" for h by (simp add: env'_def message_row_of_def)
  have eq: "insertHeldOnce env' k e caps now db = insertHeldOnce env k e caps now db"
    unfolding insertHeldOnce_def rows Inserted insert_result.case uu by (rule refl)
  have "store_inv (snd (insertHeldOnce env' k e caps now db))"
    by (rule insertHeldOnce_inv [OF system_invD(1) [OF inv]]) (simp add: quiet_def env'_def)
  moreover have "reg_frame db (snd (insertHeldOnce env k e caps now db))"
    using reg_frame_same [OF reg_frame_refl [of db], of db1] insert_message_row_Inserted(1) [OF Inserted]
    by (simp add: insertHeldOnce_def Inserted split: sum.split)
  ultimately show ?thesis
    using reg_inv_frame [OF system_invD(2) [OF inv]] by (simp add: system_inv_def eq)
qed

section \<open>Registry operations keep the message half\<close>

lemma store_inv_same:
  assumes "store_inv db" "db_messages db' = db_messages db" "db_deliveries db' = db_deliveries db"
    "db_attempts db' = db_attempts db" "db_delivery_seq db' = db_delivery_seq db"
  shows "store_inv db'"
  using assms by (simp add: store_inv_def keys_ok_def refs_ok_def rows_ok_def log_ok_def numbers_ok_def
      phase_ok_def deliveries_of_def attempts_of_def)

lemma message_phase_cong:
  assumes "message_phase m ds" "\<And>d. d_State (f d) = d_State d" "\<And>d. d_NextAttemptAt (f d) = d_NextAttemptAt d"
    "\<And>d. d_AttemptCount (f d) = d_AttemptCount d"
  shows "message_phase m (map f ds)"
proof -
  have "message_phase m (map f ds) = message_phase m ds"
    unfolding message_phase_def by (simp add: assms(2-4))
  with assms(1) show ?thesis by simp
qed

definition drop_ref :: "int set \<Rightarrow> delivery \<Rightarrow> delivery" where
  "drop_ref gone x = (case d_DestinationID x of None \<Rightarrow> x
     | Some i \<Rightarrow> if i \<in> gone then x\<lparr>d_DestinationID := None\<rparr> else x)"

lemma drop_ref_fields [simp]:
  "d_ID (drop_ref g x) = d_ID x" "d_MessageID (drop_ref g x) = d_MessageID x"
  "d_DestinationName (drop_ref g x) = d_DestinationName x" "d_State (drop_ref g x) = d_State x"
  "d_AttemptCount (drop_ref g x) = d_AttemptCount x" "d_BudgetAttempts (drop_ref g x) = d_BudgetAttempts x"
  "d_NextAttemptAt (drop_ref g x) = d_NextAttemptAt x" "deliveries_check (drop_ref g x) = deliveries_check x"
  by (cases "d_DestinationID x"; simp add: drop_ref_def deliveries_check_def)+

lemma drop_refs_inv:
  assumes "store_inv db"
  shows "store_inv (db\<lparr>db_deliveries := map (drop_ref g) (db_deliveries db)\<rparr>)" (is "store_inv ?db")
proof -
  have "update_where (\<lambda>_. True) (drop_ref g) (db_deliveries db) = map (drop_ref g) (db_deliveries db)"
    by (simp add: update_where_def)
  moreover have "core_ok (db\<lparr>db_deliveries := update_where (\<lambda>_. True) (drop_ref g) (db_deliveries db)\<rparr>)"
    using assms store_invD(3) [OF assms]
    by (intro update_deliveries_core) (auto simp: store_inv_core same_ids_def rows_ok_def)
  ultimately have "core_ok ?db" by simp
  moreover have "deliveries_of ?db mid = map (drop_ref g) (deliveries_of db mid)" for mid
    by (simp add: deliveries_of_def filter_map comp_def)
  then have "phase_ok ?db"
    using store_invD(5) [OF assms] by (auto simp: phase_ok_def intro!: message_phase_cong)
  ultimately show ?thesis by (simp add: store_inv_core)
qed

lemma delete_destinations_store: "store_inv db \<Longrightarrow> store_inv (snd (delete_destinations p db))"
proof -
  assume inv: "store_inv db"
  let ?g = "set (map sd_ID (filter p (db_destinations db)))"
  have eq: "update_where (\<lambda>x. case d_DestinationID x of None \<Rightarrow> False | Some i \<Rightarrow> i \<in> ?g)
      (\<lambda>x. x\<lparr>d_DestinationID := None\<rparr>) (db_deliveries db) = map (drop_ref ?g) (db_deliveries db)"
    unfolding update_where_def by (rule map_cong) (auto simp: drop_ref_def split: option.split)
  have "store_inv (db\<lparr>db_destinations := ds, db_deliveries := map (drop_ref ?g) (db_deliveries db)\<rparr>)" for ds
    by (rule store_inv_same [OF drop_refs_inv [OF inv, of ?g]]) simp_all
  with inv show ?thesis unfolding delete_destinations_def Let_def eq by simp
qed

lemma store_inv_destinations: "store_inv db \<Longrightarrow> store_inv (db\<lparr>db_destinations := ds\<rparr>)"
  by (rule store_inv_same) simp_all

lemma registry_store [intro]:
  assumes "store_inv db"
  shows "store_inv (snd (InsertDestination now d db))"
    and "store_inv (snd (UpdateDestination now name mutate db))"
    and "store_inv (snd (DeleteDestination name db))"
    and "store_inv (snd (DeleteDestinationOwnedBy name app db))"
    and "store_inv (snd (InsertRoute now route db))"
    and "store_inv (snd (UpdateRoute now i rmutate db))"
    and "store_inv (snd (DeleteRoute i db))"
    and "store_inv (snd (DeleteRouteOwnedBy i app db))"
proof -
  show "store_inv (snd (InsertDestination now d db))"
    by (rule store_inv_same [OF assms]) (simp_all add: InsertDestination_def Let_def)
  show "store_inv (snd (UpdateDestination now name mutate db))"
    by (cases rule: UpdateDestination_cases [of now name mutate db]) (simp_all add: assms store_inv_destinations)
  show "store_inv (snd (DeleteDestination name db))" "store_inv (snd (DeleteDestinationOwnedBy name app db))"
    by (simp_all add: DeleteDestination_def DeleteDestinationOwnedBy_def delete_destinations_store assms)
  show "store_inv (snd (InsertRoute now route db))"
    by (rule store_inv_same [OF assms]; cases rule: InsertRoute_cases [of now route db]; simp add: linkDestinations_def)
  show "store_inv (snd (UpdateRoute now i rmutate db))"
    by (rule store_inv_same [OF assms]; cases rule: UpdateRoute_cases [of now i rmutate db]; simp add: linkDestinations_def)
  show "store_inv (snd (DeleteRoute i db))" "store_inv (snd (DeleteRouteOwnedBy i app db))"
    by (rule store_inv_same [OF assms]; simp add: DeleteRoute_def DeleteRouteOwnedBy_def delete_routes_def Let_def)+
qed

lemma service_store [intro]:
  assumes "store_inv db"
  shows "store_inv (snd (DisableDestination now name i reason db))"
  by (simp add: DisableDestination_def registry_store(2) assms)

section \<open>The Postgres store as provider of the worker's interfaces\<close>

text \<open>
  What the calls of the worker see of the database server: Postgres's clock and locks at each call,
  and which calls fail without an effect (a lost connection, a done context).
\<close>

record pg_world =
  pw_env :: "nat \<Rightarrow> tx_env"
  pw_locked :: "nat \<Rightarrow> int \<Rightarrow> bool"
  pw_locked_messages :: "nat \<Rightarrow> string \<Rightarrow> bool"
  pw_fails :: "nat \<Rightarrow> bool"
  pw_clock :: "nat \<Rightarrow> time"

definition failing :: "bool \<Rightarrow> (database \<Rightarrow> 'a tx) \<Rightarrow> database \<Rightarrow> 'a tx" where
  "failing fails op db = (if fails then (Inl (MessageFailure ''database unavailable''), db) else op db)"

definition pg_queue :: "pg_world \<Rightarrow> database queue" where
  "pg_queue w =
     \<lparr>q_ClaimDue = (\<lambda>k now lease. failing (pw_fails w k) (ClaimDue (pw_env w k) (pw_locked w k) now lease)),
      q_RecordAttempt = (\<lambda>k result. failing (pw_fails w k) (RecordAttempt (pw_env w k) result))\<rparr>"

definition pg_resolver :: "registry_service \<Rightarrow> time \<Rightarrow> database resolver" where
  "pg_resolver svc now = \<lparr>rv_Resolve = Resolve svc, rv_DisableDestination = DisableDestination now\<rparr>"

definition pg_releaser :: "pg_world \<Rightarrow> database due_releaser" where
  "pg_releaser w = (\<lambda>k limit. failing (pw_fails w k) (ReleaseDue (pw_locked_messages w k) (pw_clock w k) limit))"

definition pg_expirer :: "(nat \<Rightarrow> bool) \<Rightarrow> (string \<Rightarrow> bool) \<Rightarrow> database expirer" where
  "pg_expirer ctx_done locked =
     \<lparr>ex_DeleteExpired = DeleteExpired ctx_done, ex_DeleteExpiredHeld = DeleteExpiredHeld ctx_done locked\<rparr>"

definition pg_worker ::
    "pg_world \<Rightarrow> registry_service \<Rightarrow> time \<Rightarrow> database worker_config \<Rightarrow> database worker_config" where
  "pg_worker w svc now config = NewWorker (config\<lparr>wc_Queue := pg_queue w, wc_Resolver := pg_resolver svc now\<rparr>)"

lemma NewWorker_interfaces [simp]:
  "wc_Queue (NewWorker config) = wc_Queue config" "wc_Resolver (NewWorker config) = wc_Resolver config"
  "wc_Sinks (NewWorker config) = wc_Sinks config" "wc_Recipients (NewWorker config) = wc_Recipients config"
  by (simp_all add: NewWorker_def Let_def)

lemma failing_preserves: "P db \<Longrightarrow> P (snd (op db)) \<Longrightarrow> P (snd (failing b op db))"
  by (simp add: failing_def)

lemma ClaimDue_Some:
  assumes "ClaimDue env locked now lease db = (Inr (Some c), db')"
  obtains d m where "d \<in> set (db_deliveries db)" "due now d" "\<not> locked (d_ID d)" "0 < lease"
    "cl_Delivery c = d\<lparr>d_NextAttemptAt := now + lease, d_UpdatedAt := tx_now env\<rparr>"
    "m \<in> set (db_messages db)" "m_id m = d_MessageID d" "cl_Message c = scanMessage m"
    "db' = db\<lparr>db_deliveries := update_where (\<lambda>x. d_ID x = d_ID d)
       (\<lambda>x. x\<lparr>d_NextAttemptAt := now + lease, d_UpdatedAt := tx_now env\<rparr>) (db_deliveries db)\<rparr>"
proof -
  let ?p = "\<lambda>d. due now d \<and> \<not> locked (d_ID d)"
  from assms obtain d rest where d: "order_limit due_order 1 (filter ?p (db_deliveries db)) = d # rest" and l: "0 < lease"
    by (cases "order_limit due_order 1 (filter ?p (db_deliveries db))") (auto simp: ClaimDue_def split: if_splits)
  note c = ClaimDue_chosen [OF d]
  define db1 where "db1 = db\<lparr>db_deliveries := update_where (\<lambda>x. d_ID x = d_ID d)
       (\<lambda>x. x\<lparr>d_NextAttemptAt := now + lease, d_UpdatedAt := tx_now env\<rparr>) (db_deliveries db)\<rparr>"
  have ms: "db_messages db1 = db_messages db" by (simp add: db1_def)
  from assms l have "case queryMessageHead db1 (\<lambda>m. m_id m = d_MessageID d) of Inl e \<Rightarrow> False
      | Inr parent \<Rightarrow> c = \<lparr>cl_Delivery = d\<lparr>d_NextAttemptAt := now + lease, d_UpdatedAt := tx_now env\<rparr>, cl_Message = parent\<rparr>
          \<and> db' = db1"
    by (simp add: ClaimDue_def d [unfolded One_nat_def] Let_def db1_def split: sum.splits)
  then obtain m where "find (\<lambda>m. m_id m = d_MessageID d) (db_messages db) = Some m"
    "c = \<lparr>cl_Delivery = d\<lparr>d_NextAttemptAt := now + lease, d_UpdatedAt := tx_now env\<rparr>, cl_Message = scanMessage m\<rparr>"
    "db' = db1"
    by (auto simp: queryMessageHead_def ms split: option.splits)
  with find_Some_in [OF this(1)] c l show ?thesis by (intro that [of d m]) (simp_all add: db1_def)
qed

lemma ClaimDue_system: "system_inv db \<Longrightarrow> system_inv (snd (ClaimDue env locked now lease db))"
  by (simp add: system_inv_def ClaimDue_inv reg_inv_frame [OF _ ClaimDue_frame])

lemma RecordAttempt_system: "system_inv db \<Longrightarrow> system_inv (snd (RecordAttempt env result db))"
  by (simp add: system_inv_def RecordAttempt_inv reg_inv_frame [OF _ RecordAttempt_frame])

lemma ReleaseDue_system: "system_inv db \<Longrightarrow> system_inv (snd (ReleaseDue locked now limit db))"
  by (simp add: system_inv_def ReleaseDue_inv reg_inv_frame [OF _ ReleaseDue_frame])

lemma DeleteExpired_system: "system_inv db \<Longrightarrow> system_inv (snd (DeleteExpiredInBatches ctx_done cutoff n db))"
  by (simp add: system_inv_def DeleteExpired_inv reg_inv_frame [OF _ DeleteExpired_frame])

lemma DeleteExpiredHeld_system:
  "system_inv db \<Longrightarrow> system_inv (snd (DeleteExpiredHeldInBatches ctx_done locked cutoff n db))"
  by (simp add: system_inv_def DeleteExpiredHeld_inv reg_inv_frame [OF _ DeleteExpiredHeld_frame])

lemma DisableDestination_system: "system_inv db \<Longrightarrow> system_inv (snd (DisableDestination now name i reason db))"
  by (simp add: system_inv_def service_store service_writes_inv(4))

interpretation pgq: delivery_queue system_inv "pg_queue w" for w
proof
  fix s k now lease result c s'
  assume inv: "system_inv s"
  show "system_inv (snd (q_ClaimDue (pg_queue w) k now lease s))"
    using inv by (simp add: pg_queue_def failing_preserves ClaimDue_system)
  show "system_inv (snd (q_RecordAttempt (pg_queue w) k result s))"
    using inv by (simp add: pg_queue_def failing_preserves RecordAttempt_system)
  assume "q_ClaimDue (pg_queue w) k now lease s = (Inr (Some c), s')"
  then have "ClaimDue (pw_env w k) (pw_locked w k) now lease s = (Inr (Some c), s')"
    by (simp add: pg_queue_def failing_def split: if_splits)
  then show "d_State (cl_Delivery c) = StatePending \<and> sm_ID (cl_Message c) = d_MessageID (cl_Delivery c)
      \<and> d_NextAttemptAt (cl_Delivery c) = now + lease"
    by (rule ClaimDue_Some) (simp add: due_def scanMessage_def)
qed

interpretation pgr: destination_resolver system_inv "pg_resolver svc now" for svc now
proof
  fix s name i reason app channel ds
  assume inv: "system_inv s"
  show "system_inv (snd (rv_DisableDestination (pg_resolver svc now) name i reason s))"
    using inv by (simp add: pg_resolver_def DisableDestination_system)
  assume "name \<noteq> []" "rv_Resolve (pg_resolver svc now) app name channel s = Inr ds"
  then have "resolveNamed svc app name s = Inr ds" by (simp add: pg_resolver_def Resolve_def)
  then show "\<exists>d. ds = [d] \<and> rd_Name d = name" by (rule resolveNamed_Inr) simp
qed

interpretation pgw: delivery_worker system_inv "pg_queue w" "pg_resolver svc now" "pg_worker w svc now config"
  for w svc now config
  by unfold_locales (simp_all add: pg_worker_def)

interpretation pgrel: due_release system_inv "pg_releaser w" for w
proof
  fix s k n m s'
  show "system_inv (snd (pg_releaser w k n s))" if "system_inv s"
    using that by (simp add: pg_releaser_def failing_preserves ReleaseDue_system)
  show "0 \<le> m" if "pg_releaser w k n s = (Inr m, s')"
    using that by (auto simp: pg_releaser_def failing_def ReleaseDue_def Let_def split: if_splits)
qed

interpretation pgex: message_expirer system_inv "pg_expirer ctx_done locked" for ctx_done locked
  by unfold_locales
    (simp_all add: pg_expirer_def DeleteExpired_def DeleteExpiredHeld_def DeleteExpired_system DeleteExpiredHeld_system)

end
