(* ===== verification/Service_System.thy ===== *)
theory Service_System
  imports Delivery_System Message_Service
begin

text \<open>
  The message service over the Postgres store: the store's operations satisfy the laws the service
  relies on, so the idempotency of \<open>Submit\<close> and the preservation of the invariant hold of the
  real store.
\<close>

section \<open>Postgres as the service's store\<close>

text \<open>
  A transaction of the service meets no other transaction half-way (\<open>tx_between\<close> is the identity):
  what other callers commit shows between its store calls.
\<close>

definition alone :: "tx_env \<Rightarrow> bool" where
  "alone env \<longleftrightarrow> tx_between env = (\<lambda>_ db. db)"

definition by_itself :: "tx_env \<Rightarrow> tx_env" where
  "by_itself env = env\<lparr>tx_between := \<lambda>_ db. db\<rparr>"

lemma alone_by_itself [simp]: "alone (by_itself env)"
  by (simp add: alone_def by_itself_def)

definition pg_store :: "tx_env \<Rightarrow> database message_store" where
  "pg_store env =
     \<lparr>st_GetMessage = (\<lambda>mid db. GetMessage db mid),
      st_GetMessageByKey = (\<lambda>app key db. GetMessageByKey db app key),
      st_InsertMessage = InsertMessage (by_itself env),
      st_InsertScheduledMessage = InsertScheduledMessage (by_itself env),
      st_InsertHeldMessage = InsertHeldMessage (by_itself env),
      st_ReplaceScheduledMessage = ReplaceScheduledMessage (by_itself env),
      st_CancelMessage = CancelMessage,
      st_AdminCancelMessage = AdminCancelMessage,
      st_CancelMessageByKey = CancelMessageByKey,
      st_ListDeliveries = (\<lambda>state limit db. ListDeliveries db state limit),
      st_ListAttempts = (\<lambda>i db. ListAttempts db i),
      st_Replay = Replay (by_itself env),
      st_ListScheduled = (\<lambda>limit db. ListScheduled db limit)\<rparr>"

lemma alone_quiet: "alone env \<Longrightarrow> system_quiet env"
  by (simp add: alone_def system_quiet_def)

section \<open>Lookup by key\<close>

definition loaded :: "database \<Rightarrow> message_row \<Rightarrow> stored_message" where
  "loaded db m = (scanMessage m)\<lparr>sm_Deliveries := sort_key delivery_order (deliveries_of db (m_id m))\<rparr>"

lemma queryMessage_eq:
  "queryMessage db p = (case find p (db_messages db) of None \<Rightarrow> Inl ErrMessageNotFound | Some m \<Rightarrow> Inr (loaded db m))"
  by (simp add: queryMessage_def queryMessageHead_def loaded_def scanMessage_def split: option.split)

lemma find_by_key:
  assumes "keys_ok db" "m \<in> set (db_messages db)"
  shows "find (by_key (m_app_id m) (m_idempotency_key m)) (db_messages db) = Some m"
proof -
  have "find (\<lambda>x. (m_app_id x, m_idempotency_key x) = (m_app_id m, m_idempotency_key m)) (db_messages db) = Some m"
    using assms by (intro find_unique) (simp_all add: keys_ok_def)
  moreover have "by_key (m_app_id m) (m_idempotency_key m) = (\<lambda>x. (m_app_id x, m_idempotency_key x) = (m_app_id m, m_idempotency_key m))"
    by (auto simp: by_key_def fun_eq_iff)
  ultimately show ?thesis by simp
qed

lemma find_by_id:
  assumes "keys_ok db" "m \<in> set (db_messages db)"
  shows "find (\<lambda>x. m_id x = m_id m) (db_messages db) = Some m"
  using assms by (intro find_unique) (simp_all add: keys_ok_def)

lemma loaded_fields [simp]:
  "sm_ID (loaded db m) = m_id m" "sm_Envelope (loaded db m) = sm_Envelope (scanMessage m)"
  "State (loaded db m) = row_state m"
  "sm_Deliveries (loaded db m) = sort_key delivery_order (deliveries_of db (m_id m))"
  by (simp_all add: loaded_def scanMessage_def State_def row_state_def)

lemma GetMessageByKey_Inr:
  assumes "GetMessageByKey db app key = Inr stored"
  obtains m where "m \<in> set (db_messages db)" "m_app_id m = app" "m_idempotency_key m = key" "stored = loaded db m"
  using assms by (auto simp: GetMessageByKey_def queryMessage_eq by_key_def dest!: find_Some_in split: option.splits)

lemma GetMessageByKey_NotFound:
  "GetMessageByKey db app key = Inl ErrMessageNotFound \<Longrightarrow> \<not> list_ex (by_key app key) (db_messages db)"
  by (auto simp: GetMessageByKey_def queryMessage_eq find_None_iff list_ex_iff split: option.splits)

lemma nullIfEmpty_coalesce [simp]: "coalesce (nullIfEmpty s) [] = s"
  by (simp add: coalesce_def nullIfEmpty_def)

lemma scan_row_of:
  "same_envelope e (sm_Envelope (scanMessage (message_row_of env e h)))"
  "en_AppID (sm_Envelope (scanMessage (message_row_of env e h))) = en_AppID e"
  by (simp_all add: same_envelope_def scanMessage_def message_row_of_def)

section \<open>Inserts under a free key\<close>

definition stored_as :: "database \<Rightarrow> envelope \<Rightarrow> stored_message \<Rightarrow> bool" where
  "stored_as db e m \<longleftrightarrow> GetMessageByKey db (en_AppID e) (en_IdempotencyKey e) = Inr m \<and> same_envelope e (sm_Envelope m)"

lemma row_stored_as:
  assumes keys: "keys_ok db" and row: "row \<in> set (db_messages db)" and r: "row = message_row_of env e h"
    and q: "queryMessage db (\<lambda>m. m_id m = tx_uuid env) = Inr m"
  shows "stored_as db e m"
proof -
  have rf: "m_id row = tx_uuid env" "m_app_id row = en_AppID e" "m_idempotency_key row = en_IdempotencyKey e"
    by (simp_all add: r message_row_of_def)
  from find_by_id [OF keys row] q have "m = loaded db row" by (simp add: queryMessage_eq rf)
  with find_by_key [OF keys row] scan_row_of(1) [of e env h] show ?thesis
    by (simp add: stored_as_def GetMessageByKey_def queryMessage_eq rf r [symmetric])
qed

lemma insert_message_row_free:
  assumes "\<not> list_ex (by_key (en_AppID e) (en_IdempotencyKey e)) (db_messages db)"
  shows "insert_message_row db (message_row_of env e h) \<noteq> Conflict"
  using assms by (simp add: insert_message_row_def message_row_of_def)

lemma insertOnce_free:
  assumes inv: "store_inv (snd (insertOnce env k e ts sch caps db))"
    and free: "\<not> list_ex (by_key (en_AppID e) (en_IdempotencyKey e)) (db_messages db)"
    and ins: "insertOnce env k e ts sch caps db = (Inr (m, dup), db')"
  shows "\<not> dup \<and> stored_as db' e m"
proof (cases "insert_message_row db (message_row_of env e None)")
  case Conflict
  with insert_message_row_free [OF free] show ?thesis by simp
next
  case Rejected
  with ins show ?thesis by (simp add: insertOnce_def)
next
  case (Inserted db1)
  with ins obtain db2 where d: "insertDeliveries env db1 (tx_uuid env) ts sch = Inr db2"
    "queryMessage db2 (\<lambda>m. m_id m = tx_uuid env) = Inr m" "db' = db2" "\<not> dup"
    by (auto simp: insertOnce_def split: sum.splits if_splits)
  have "db_messages db2 = db_messages db1"
    using d(1) by (auto simp: insertDeliveries_def Let_def split: if_splits)
  then have "message_row_of env e None \<in> set (db_messages db2)"
    using insert_message_row_Inserted(1) [OF Inserted] by simp
  moreover have "keys_ok db2" using inv ins d(3) store_invD(1) by simp
  ultimately show ?thesis using row_stored_as d by blast
qed

lemma insert_loop_first:
  assumes "insert_loop msg once (Suc n) k db = (Inr r, db')"
    and "\<And>e db'. once k db = (Inl e, db') \<Longrightarrow> e \<noteq> ErrMessageNotFound"
  shows "once k db = (Inr r, db')"
  using assms by (auto split: prod.splits sum.splits message_error.splits)

lemma insertOnce_no_retry:
  assumes free: "\<not> list_ex (by_key (en_AppID e) (en_IdempotencyKey e)) (db_messages db)"
    and ins: "insertOnce env k e ts sch caps db = (Inl x, db')"
  shows "x \<noteq> ErrMessageNotFound"
proof (cases "insert_message_row db (message_row_of env e None)")
  case (Inserted db1)
  have "queryMessage db2 (\<lambda>m. m_id m = tx_uuid env) \<noteq> Inl y"
    if "insertDeliveries env db1 (tx_uuid env) ts sch = Inr db2" for db2 y
  proof -
    have "db_messages db2 = db_messages db1"
      using that by (auto simp: insertDeliveries_def Let_def split: if_splits)
    then have "message_row_of env e None \<in> set (db_messages db2)"
      using insert_message_row_Inserted(1) [OF Inserted] by simp
    moreover have "m_id (message_row_of env e None) = tx_uuid env" by (simp add: message_row_of_def)
    ultimately have "find (\<lambda>m. m_id m = tx_uuid env) (db_messages db2) \<noteq> None"
      unfolding find_None_iff by blast
    then show ?thesis by (auto simp: queryMessage_eq split: option.split)
  qed
  with Inserted ins show ?thesis
    by (auto simp: insertOnce_def insertDeliveries_def Let_def split: sum.splits if_splits)
qed (use ins insert_message_row_free [OF free] in \<open>auto simp: insertOnce_def\<close>)

lemma insertWithRetry_free:
  assumes inv: "system_inv db" and al: "alone env" and sch: "insert_schedule e sch"
    and free: "\<not> list_ex (by_key (en_AppID e) (en_IdempotencyKey e)) (db_messages db)"
    and ins: "insertWithRetry env e ts sch caps db = (Inr (m, dup), db')"
  shows "\<not> dup \<and> stored_as db' e m"
proof -
  from ins have ts: "ts \<noteq> []" by (auto simp: insertWithRetry_def)
  with ins have "insertOnce env 0 e ts sch caps db = (Inr (m, dup), db')"
    using insertOnce_no_retry [OF free]
    by (intro insert_loop_first) (auto simp: insertWithRetry_def maxInsertAttempts_def numeral_2_eq_2)
  moreover from this have "store_inv (snd (insertOnce env 0 e ts sch caps db))"
    using insertOnce_system [OF inv alone_quiet [OF al] ts sch] system_invD(1) by blast
  ultimately show ?thesis using insertOnce_free [OF _ free] by blast
qed

lemma InsertHeldMessage_free:
  assumes inv: "system_inv db" and al: "alone env"
    and free: "\<not> list_ex (by_key (en_AppID e) (en_IdempotencyKey e)) (db_messages db)"
    and ins: "InsertHeldMessage env e caps now db = (Inr (m, dup), db')"
  shows "\<not> dup \<and> stored_as db' e m"
proof -
  let ?once = "\<lambda>k. insertHeldOnce env k e caps now"
  note not_conflict = insert_message_row_free [OF free, of env "Some now"]
  have in1: "find (\<lambda>m. m_id m = tx_uuid env) (db_messages db1) \<noteq> None"
    if "insert_message_row db (message_row_of env e (Some now)) = Inserted db1" for db1
  proof -
    have "message_row_of env e (Some now) \<in> set (db_messages db1)"
      using insert_message_row_Inserted(1) [OF that] by simp
    moreover have "m_id (message_row_of env e (Some now)) = tx_uuid env" by (simp add: message_row_of_def)
    ultimately show ?thesis unfolding find_None_iff by blast
  qed
  have no_retry: "x \<noteq> ErrMessageNotFound" if "?once 0 db = (Inl x, db')" for x db'
    using that not_conflict in1
    by (cases "insert_message_row db (message_row_of env e (Some now))")
      (auto simp: insertHeldOnce_def queryMessage_eq split: if_splits option.splits)
  from ins have loop: "insert_loop ''insert held message: conflicting message deleted during every attempt'' ?once
      (Suc (Suc 0)) 0 db = (Inr (m, dup), db')"
    by (simp only: InsertHeldMessage_def maxInsertAttempts_def numeral_2_eq_2 split: if_splits) auto
  have once: "?once 0 db = (Inr (m, dup), db')" using insert_loop_first [OF loop] no_retry by blast
  then obtain db1 where i: "insert_message_row db (message_row_of env e (Some now)) = Inserted db1"
    "queryMessage db1 (\<lambda>m. m_id m = tx_uuid env) = Inr m" "db' = db1" "\<not> dup"
    using not_conflict
    by (cases "insert_message_row db (message_row_of env e (Some now))")
      (auto simp: insertHeldOnce_def split: if_splits sum.splits)
  have "system_inv (snd (?once 0 db))" by (rule insertHeldOnce_system [OF inv alone_quiet [OF al]])
  then have "keys_ok db1" using once i(3) system_invD(1) store_invD(1) by fastforce
  moreover have "message_row_of env e (Some now) \<in> set (db_messages db1)"
    using insert_message_row_Inserted(1) [OF i(1)] by simp
  ultimately show ?thesis using row_stored_as i by blast
qed

section \<open>Replacing a scheduled message\<close>

lemma status_loaded: "status_of (loaded db m) = StatusScheduled \<longleftrightarrow>
    DeriveStatus (deliveries_of db (m_id m)) (row_state m) = StatusScheduled"
  by (simp add: DeriveStatus_scheduled_iff) (metis set_empty set_sort)

lemma same_envelope_replaced:
  assumes "\<not> release_now e now"
  shows "same_envelope e (sm_Envelope (scanMessage (replaced_row e now row)))"
  using assms by (simp add: same_envelope_def scanMessage_def replaced_row_def)

lemma replace_rows_messages:
  assumes "replace_rows env e ts now row db = Inr db2"
  shows "db_messages db2 = update_where (\<lambda>m. m_id m = m_id row) (\<lambda>_. replaced_row e now row) (db_messages db)"
  using assms by (auto simp: replace_rows_def insertDeliveries_def delete_deliveries_of_def Let_def split: if_splits)

lemma replace_rows_released:
  assumes rep: "replace_rows env e ts now row db = Inr db2" and rel: "release_now e now" and ts: "ts \<noteq> []"
    and d: "d \<in> set (deliveries_of db2 (m_id row))"
  shows "d_State d = StatePending"
proof -
  let ?rows = "\<lambda>n. new_deliveries env (m_id row) (replace_schedule e now) n ts"
  obtain n where "db_deliveries db2 = filter (\<lambda>d. d_MessageID d \<noteq> m_id row) (db_deliveries db) @ ?rows n"
    using rep by (auto simp: replace_rows_def insertDeliveries_def delete_deliveries_of_def Let_def split: if_splits)
  with d have "d \<in> set (?rows n)" by (auto simp: in_deliveries_of)
  then show ?thesis using rel by (simp add: new_deliveries_fields replace_schedule_def)
qed

lemma Replace_law:
  assumes inv: "system_inv db"
    and some: "GetMessageByKey db (en_AppID e) (en_IdempotencyKey e) = Inr m0"
    and sch: "status_of m0 = StatusScheduled"
    and rep: "ReplaceScheduledMessage env e ts now db = (r, db')"
  shows "r \<noteq> Inl ErrMessageNotFound
      \<and> (\<forall>m d. r = Inr (m, d) \<longrightarrow> d \<and> sm_ID m = sm_ID m0 \<and> GetMessageByKey db' (en_AppID e) (en_IdempotencyKey e) = Inr m
           \<and> (status_of m = StatusScheduled \<longrightarrow> same_envelope e (sm_Envelope m)))"
proof -
  have keys: "keys_ok db" using inv by (simp add: system_inv_def store_inv_def)
  from some obtain row where row: "row \<in> set (db_messages db)" "m_app_id row = en_AppID e"
    "m_idempotency_key row = en_IdempotencyKey e" "m0 = loaded db row" by (rule GetMessageByKey_Inr)
  have f: "find (by_key (en_AppID e) (en_IdempotencyKey e)) (db_messages db) = Some row"
    using find_by_key [OF keys row(1)] row(2,3) by simp
  have q: "queryMessage db (\<lambda>m. m_id m = m_id row) = Inr m0"
    using find_by_id [OF keys row(1)] row(4) by (simp add: queryMessage_eq)
  show ?thesis
  proof (cases "ts = [] \<or> IsZero now \<or> (\<exists>x. replace_rows env e ts now row db = Inl x)")
    case True
    then have "r \<noteq> Inl ErrMessageNotFound \<and> (\<exists>x. r = Inl x)"
      using rep sch
      by (auto simp: ReplaceScheduledMessage_def f q replace_rows_def insertDeliveries_def Let_def split: if_splits)
    then show ?thesis by auto
  next
    case False
    then obtain db2 where db2: "replace_rows env e ts now row db = Inr db2" and nz: "ts \<noteq> []" "\<not> IsZero now"
      by (cases "replace_rows env e ts now row db") auto
    have plain: "m_held_at row = None" "m_cancelled_at row = None"
      using scheduled_row(1,2) [of "sm_Deliveries m0" row] sch row(4) by simp_all
    have inv2: "store_inv db2"
      by (rule replace_rows_inv [OF system_invD(1) [OF inv] row(1) plain nz(1) db2])
    let ?row = "replaced_row e now row"
    have in2: "?row \<in> set (db_messages db2)"
      using row(1) by (auto simp: replace_rows_messages [OF db2] in_update_where)
    have id2: "queryMessage db2 (\<lambda>m. m_id m = m_id row) = Inr (loaded db2 ?row)"
      using find_by_id [OF store_invD(1) [OF inv2] in2] by (simp add: queryMessage_eq)
    have key2: "GetMessageByKey db2 (en_AppID e) (en_IdempotencyKey e) = Inr (loaded db2 ?row)"
      using find_by_key [OF store_invD(1) [OF inv2] in2] row(2,3) by (simp add: GetMessageByKey_def queryMessage_eq)
    have res: "r = Inr (loaded db2 ?row, True)" "db' = db2"
      using rep nz db2 sch id2 by (auto simp: ReplaceScheduledMessage_def f q)
    have "same_envelope e (sm_Envelope (loaded db2 ?row))" if "status_of (loaded db2 ?row) = StatusScheduled"
    proof -
      have st: "DeriveStatus (deliveries_of db2 (m_id row)) (row_state ?row) = StatusScheduled"
        using that status_loaded [of db2 ?row] by simp
      then obtain d where "d \<in> set (deliveries_of db2 (m_id row))" "d_State d = StateScheduled"
        using scheduled_row(4,5) [OF st] by (metis last_in_set)
      then have "\<not> release_now e now" using replace_rows_released [OF db2 _ nz(1)] by fastforce
      then show ?thesis by (simp add: same_envelope_replaced)
    qed
    with res key2 row(4) show ?thesis by simp
  qed
qed

section \<open>Interpretation\<close>

lemma message_ops_system:
  assumes "system_inv db"
  shows "system_inv (snd (ReplaceScheduledMessage env e ts now db))"
    and "system_inv (snd (Replay env i now db))"
    and "system_inv (snd (cancel p now db))"
  using assms by (simp_all add: system_inv_def ReplaceScheduledMessage_inv Replay_inv cancel_inv
      reg_inv_frame [OF _ Replace_frame] reg_inv_frame [OF _ Replay_frame] reg_inv_frame [OF _ cancel_frame])

lemma cancels_system:
  assumes "system_inv db"
  shows "system_inv (snd (CancelMessage mid app now db))" "system_inv (snd (AdminCancelMessage mid now db))"
    "system_inv (snd (CancelMessageByKey app key now db))"
  using assms by (simp_all add: CancelMessage_def AdminCancelMessage_def CancelMessageByKey_def message_ops_system)

lemma inserts_system:
  assumes "system_inv db" "system_quiet env"
  shows "system_inv (snd (InsertMessage env e ts db))"
    and "system_inv (snd (InsertScheduledMessage env e ts caps db))"
    and "system_inv (snd (InsertHeldMessage env e hcaps now db))"
proof -
  show "system_inv (snd (InsertMessage env e ts db))"
    using assms by (simp add: InsertMessage_def insertWithRetry_system insert_schedule_def pendingNow_def)
  show "system_inv (snd (InsertScheduledMessage env e ts caps db))"
    using assms by (auto simp: InsertScheduledMessage_def insert_schedule_def intro!: insertWithRetry_system)
  have "system_inv (snd (insert_loop msg (\<lambda>k. insertHeldOnce env k e hcaps now) n k db))" for msg n k
    by (rule insert_loop_preserves [where P = system_inv, OF insertHeldOnce_system]) (use assms in auto)
  with assms(1) show "system_inv (snd (InsertHeldMessage env e hcaps now db))" by (simp add: InsertHeldMessage_def)
qed

interpretation pgs: message_store_laws system_inv "pg_store env" for env
proof
  fix s e ts caps hcaps now mid app key i m m0 dup s' r
  let ?env = "by_itself env"
  assume inv: "system_inv s"
  note q = alone_quiet [OF alone_by_itself [of env]]
  show "system_inv (snd (st_InsertMessage (pg_store env) e ts s))"
    "system_inv (snd (st_InsertScheduledMessage (pg_store env) e ts caps s))"
    "system_inv (snd (st_InsertHeldMessage (pg_store env) e hcaps now s))"
    "system_inv (snd (st_ReplaceScheduledMessage (pg_store env) e ts now s))"
    "system_inv (snd (st_CancelMessage (pg_store env) mid app now s))"
    "system_inv (snd (st_AdminCancelMessage (pg_store env) mid now s))"
    "system_inv (snd (st_CancelMessageByKey (pg_store env) app key now s))"
    "system_inv (snd (st_Replay (pg_store env) i now s))"
    using inserts_system [OF inv q] message_ops_system [OF inv] cancels_system [OF inv]
    by (simp_all add: pg_store_def)
  show "en_AppID (sm_Envelope m) = app \<and> en_IdempotencyKey (sm_Envelope m) = key"
    if "st_GetMessageByKey (pg_store env) app key s = Inr m"
    using that by (auto simp: pg_store_def scanMessage_def elim!: GetMessageByKey_Inr)
  {
    assume none: "st_GetMessageByKey (pg_store env) (en_AppID e) (en_IdempotencyKey e) s = Inl ErrMessageNotFound"
    then have free: "\<not> list_ex (by_key (en_AppID e) (en_IdempotencyKey e)) (db_messages s)"
      by (simp add: pg_store_def GetMessageByKey_NotFound)
    note with_retry = insertWithRetry_free [OF inv alone_by_itself [of env] _ free]
    show "\<not> dup \<and> st_GetMessageByKey (pg_store env) (en_AppID e) (en_IdempotencyKey e) s' = Inr m
        \<and> same_envelope e (sm_Envelope m)"
      if "st_InsertMessage (pg_store env) e ts s = (Inr (m, dup), s')"
      using that with_retry [of pendingNow ts "\<lparr>sc_PerApp = 0, sc_Total = 0\<rparr>" m dup s']
      by (simp add: pg_store_def InsertMessage_def insert_schedule_def pendingNow_def stored_as_def)
    show "\<not> dup \<and> st_GetMessageByKey (pg_store env) (en_AppID e) (en_IdempotencyKey e) s' = Inr m
        \<and> same_envelope e (sm_Envelope m)"
      if "st_InsertScheduledMessage (pg_store env) e ts caps s = (Inr (m, dup), s')"
      using that with_retry [of "\<lparr>sch_state = StateScheduled, sch_nextAttemptAt = en_DeliverAt e,
          sch_budgetStartedAt = None\<rparr>" ts caps m dup s']
      by (auto simp: pg_store_def InsertScheduledMessage_def insert_schedule_def stored_as_def split: if_splits)
    show "\<not> dup \<and> st_GetMessageByKey (pg_store env) (en_AppID e) (en_IdempotencyKey e) s' = Inr m
        \<and> same_envelope e (sm_Envelope m)"
      if "st_InsertHeldMessage (pg_store env) e hcaps now s = (Inr (m, dup), s')"
      using that InsertHeldMessage_free [OF inv alone_by_itself [of env] free, of hcaps now m dup s']
      by (simp add: pg_store_def stored_as_def)
  }
  show "r \<noteq> Inl ErrMessageNotFound
      \<and> (\<forall>m d. r = Inr (m, d) \<longrightarrow> d \<and> sm_ID m = sm_ID m0
           \<and> st_GetMessageByKey (pg_store env) (en_AppID e) (en_IdempotencyKey e) s' = Inr m
           \<and> (status_of m = StatusScheduled \<longrightarrow> same_envelope e (sm_Envelope m)))"
    if "st_GetMessageByKey (pg_store env) (en_AppID e) (en_IdempotencyKey e) s = Inr m0"
      "status_of m0 = StatusScheduled" "st_ReplaceScheduledMessage (pg_store env) e ts now s = (r, s')"
  proof -
    have g: "st_GetMessageByKey (pg_store env) a k d = GetMessageByKey d a k" for a k d by (simp add: pg_store_def)
    have r: "st_ReplaceScheduledMessage (pg_store env) = ReplaceScheduledMessage ?env" by (simp add: pg_store_def)
    show ?thesis unfolding g by (rule Replace_law [OF inv that(1) [unfolded g] that(2) that(3) [unfolded r]])
  qed
qed

end
