(* ===== verification/System_Steps.thy ===== *)
theory System_Steps
  imports Service_System
begin

text \<open>
  The delivery API as a transition system: one step is one committed store operation of the message
  store or of the registry store, with whatever arguments its callers pass. Requests and workers run
  concurrently, and each is a sequence of such operations, so the reachable databases are those of
  every interleaving. The interfaces of the service, the worker, the releaser and the sweeper are
  interpreted a second time here, with reachability in place of the invariant.
\<close>

section \<open>Steps\<close>

text \<open>
  An insert that meets a conflicting key re-selects the row; what it sees then is the database after
  further steps of other transactions.
\<close>

inductive system_step :: "database \<Rightarrow> database \<Rightarrow> bool" where
  insert: "(\<And>k x. system_step\<^sup>*\<^sup>* x (tx_between env k x)) \<Longrightarrow>
     system_step db (snd (InsertMessage env e ts db))"
| insert_scheduled: "(\<And>k x. system_step\<^sup>*\<^sup>* x (tx_between env k x)) \<Longrightarrow>
     system_step db (snd (InsertScheduledMessage env e ts caps db))"
| insert_held: "(\<And>k x. system_step\<^sup>*\<^sup>* x (tx_between env k x)) \<Longrightarrow>
     system_step db (snd (InsertHeldMessage env e hcaps now db))"
| replace: "system_step db (snd (ReplaceScheduledMessage env e ts now db))"
| cancel: "system_step db (snd (cancel p now db))"
| claim: "system_step db (snd (ClaimDue env locked now lease db))"
| record_attempt: "system_step db (snd (RecordAttempt env result db))"
| replay: "system_step db (snd (Replay env i now db))"
| release: "system_step db (snd (ReleaseDue locked_messages now limit db))"
| delete_expired: "system_step db (snd (DeleteExpiredInBatches ctx_done cutoff n db))"
| delete_held: "system_step db (snd (DeleteExpiredHeldInBatches ctx_done locked_messages cutoff n db))"
| insert_destination: "system_step db (snd (InsertDestination now d db))"
| update_destination: "system_step db (snd (UpdateDestination now name mutate db))"
| delete_destination: "system_step db (snd (DeleteDestination name db))"
| delete_app_destination: "system_step db (snd (DeleteDestinationOwnedBy name app db))"
| insert_route: "system_step db (snd (InsertRoute now route db))"
| update_route: "system_step db (snd (UpdateRoute now i rmutate db))"
| delete_route: "system_step db (snd (DeleteRoute i db))"
| delete_app_route: "system_step db (snd (DeleteRouteOwnedBy i app db))"

definition reachable :: "database \<Rightarrow> bool" where
  "reachable db \<longleftrightarrow> system_step\<^sup>*\<^sup>* empty_db db"

lemma reachable_empty [simp]: "reachable empty_db"
  by (simp add: reachable_def)

lemma reachable_step: "reachable db \<Longrightarrow> system_step db db' \<Longrightarrow> reachable db'"
  unfolding reachable_def by (rule rtranclp.rtrancl_into_rtrancl)

section \<open>The invariant holds on every reachable database\<close>

lemma steps_preserve:
  assumes "(\<lambda>x y. system_step x y \<and> (system_inv x \<longrightarrow> system_inv y))\<^sup>*\<^sup>* x y" "system_inv x"
  shows "system_inv y"
  using assms by (induction rule: rtranclp_induct) auto

lemma registry_ops_system:
  assumes "system_inv db"
  shows "system_inv (snd (InsertDestination now d db))" "system_inv (snd (UpdateDestination now name mutate db))"
    "system_inv (snd (DeleteDestination name db))" "system_inv (snd (DeleteDestinationOwnedBy name app db))"
    "system_inv (snd (InsertRoute now route db))" "system_inv (snd (UpdateRoute now i rmutate db))"
    "system_inv (snd (DeleteRoute i db))" "system_inv (snd (DeleteRouteOwnedBy i app db))"
  using assms registry_store [of db] InsertDestination_inv [of db] UpdateDestination_inv [of db] DeleteDestination_inv [of db]
    DeleteDestinationOwnedBy_inv [of db] InsertRoute_inv [of db] UpdateRoute_inv [of db] DeleteRoute_inv [of db]
    DeleteRouteOwnedBy_inv [of db]
  by (simp_all add: system_inv_def)

lemma system_step_inv: "system_step db db' \<Longrightarrow> system_inv db \<Longrightarrow> system_inv db'"
proof (induction rule: system_step.induct)
  case (insert env db e ts)
  then have "system_quiet env" unfolding system_quiet_def using steps_preserve by blast
  with insert.prems show ?case by (rule inserts_system(1))
next
  case (insert_scheduled env db e ts caps)
  then have "system_quiet env" unfolding system_quiet_def using steps_preserve by blast
  with insert_scheduled.prems show ?case by (rule inserts_system(2))
next
  case (insert_held env db e hcaps now)
  then have "system_quiet env" unfolding system_quiet_def using steps_preserve by blast
  with insert_held.prems show ?case by (rule inserts_system(3))
qed (simp_all add: message_ops_system ClaimDue_system RecordAttempt_system ReleaseDue_system DeleteExpired_system
    DeleteExpiredHeld_system registry_ops_system)

lemma reachable_inv: "reachable db \<Longrightarrow> system_inv db"
  unfolding reachable_def by (induction rule: rtranclp_induct) (auto intro: system_inv_empty system_step_inv)

lemmas reachable_invD =
  reachable_inv [THEN system_invD(1)] reachable_inv [THEN system_invD(2)]

section \<open>The clients reach only reachable databases\<close>

lemma alone_steps: "system_step\<^sup>*\<^sup>* x (tx_between (by_itself env) k x)"
  by (simp add: by_itself_def)

lemma reachable_pg_store:
  assumes "reachable db"
  shows "reachable (snd (st_InsertMessage (pg_store env) e ts db))"
    "reachable (snd (st_InsertScheduledMessage (pg_store env) e ts caps db))"
    "reachable (snd (st_InsertHeldMessage (pg_store env) e hcaps now db))"
    "reachable (snd (st_ReplaceScheduledMessage (pg_store env) e ts now db))"
    "reachable (snd (st_CancelMessage (pg_store env) mid app now db))"
    "reachable (snd (st_AdminCancelMessage (pg_store env) mid now db))"
    "reachable (snd (st_CancelMessageByKey (pg_store env) app key now db))"
    "reachable (snd (st_Replay (pg_store env) i now db))"
  using reachable_step [OF assms system_step.insert [OF alone_steps [where env = env]]]
    reachable_step [OF assms system_step.insert_scheduled [OF alone_steps [where env = env]]]
    reachable_step [OF assms system_step.insert_held [OF alone_steps [where env = env]]]
    reachable_step [OF assms system_step.replace] reachable_step [OF assms system_step.cancel]
    reachable_step [OF assms system_step.replay]
  by (simp_all add: pg_store_def CancelMessage_def AdminCancelMessage_def CancelMessageByKey_def assms)

interpretation rs: message_store_laws reachable "pg_store env" for env
proof
  fix s e ts caps hcaps now mid app key i m m0 dup s' r
  assume r: "reachable s"
  note inv = reachable_inv [OF r]
  note ops = reachable_pg_store [OF r]
  show "reachable (snd (st_InsertMessage (pg_store env) e ts s))"
    "reachable (snd (st_InsertScheduledMessage (pg_store env) e ts caps s))"
    "reachable (snd (st_InsertHeldMessage (pg_store env) e hcaps now s))"
    "reachable (snd (st_ReplaceScheduledMessage (pg_store env) e ts now s))"
    "reachable (snd (st_CancelMessage (pg_store env) mid app now s))"
    "reachable (snd (st_AdminCancelMessage (pg_store env) mid now s))"
    "reachable (snd (st_CancelMessageByKey (pg_store env) app key now s))"
    "reachable (snd (st_Replay (pg_store env) i now s))"
    by (rule ops)+
qed (rule pgs.insert_new pgs.insert_scheduled_new pgs.insert_held_new pgs.replace_existing pgs.get_by_key;
     (rule reachable_inv)?; assumption)+

interpretation rq: delivery_queue reachable "pg_queue w" for w
proof
  fix s k now lease result c s'
  assume r: "reachable s"
  show "reachable (snd (q_ClaimDue (pg_queue w) k now lease s))"
    using reachable_step [OF r system_step.claim] r by (simp add: pg_queue_def failing_preserves)
  show "reachable (snd (q_RecordAttempt (pg_queue w) k result s))"
    using reachable_step [OF r system_step.record_attempt] r by (simp add: pg_queue_def failing_preserves)
qed (rule pgq.claim_parent, (rule reachable_inv)?, assumption+)

interpretation rr: destination_resolver reachable "pg_resolver svc now" for svc now
proof
  fix s name i reason
  assume r: "reachable s"
  show "reachable (snd (rv_DisableDestination (pg_resolver svc now) name i reason s))"
    using reachable_step [OF r system_step.update_destination] by (simp add: pg_resolver_def DisableDestination_def)
qed (rule pgr.resolve_one, (rule reachable_inv)?, assumption+)

interpretation rw: delivery_worker reachable "pg_queue w" "pg_resolver svc now" "pg_worker w svc now config"
  for w svc now config
  by unfold_locales (simp_all add: pg_worker_def)

interpretation rrel: due_release reachable "pg_releaser w" for w
proof
  fix s k n
  show "reachable (snd (pg_releaser w k n s))" if "reachable s"
    using reachable_step [OF that system_step.release] that by (simp add: pg_releaser_def failing_preserves)
qed (rule pgrel.release_count)

interpretation rex: message_expirer reachable "pg_expirer ctx_done locked" for ctx_done locked
  using reachable_step [OF _ system_step.delete_expired] reachable_step [OF _ system_step.delete_held]
  by unfold_locales (simp_all add: pg_expirer_def DeleteExpired_def DeleteExpiredHeld_def)

end
