(* ===== verification/Heartbeat_System.thy ===== *)
theory Heartbeat_System
  imports Heartbeat_Service System_Steps
begin

text \<open>
  The whole delivery API as a transition system: a step is one committed operation of the heartbeat
  store, of the message store or of the registry store, all on one database. The invariants of the
  three stores hold on every reachable database, and every destination a check alerts exists.
\<close>

section \<open>The delivery core keeps the links of the checks\<close>

definition check_refs_ok :: "database \<Rightarrow> bool" where
  "check_refs_ok db \<longleftrightarrow> snd ` set (db_check_destinations db) \<subseteq> sd_ID ` set (db_destinations db)"

definition links_kept :: "database \<Rightarrow> database \<Rightarrow> bool" where
  "links_kept db db' \<longleftrightarrow> db_check_destinations db' = db_check_destinations db \<and> (check_refs_ok db \<longrightarrow> check_refs_ok db')"

lemma links_kept_refl [simp]: "links_kept db db"
  by (simp add: links_kept_def)

lemma links_kept_trans: "links_kept a b \<Longrightarrow> links_kept b c \<Longrightarrow> links_kept a c"
  by (simp add: links_kept_def)

lemma links_kept_frame: "reg_frame db db' \<Longrightarrow> links_kept db db'"
  by (simp add: reg_frame_def links_kept_def check_refs_ok_def)

lemma links_kept_destinations:
  "db_check_destinations db' = db_check_destinations db \<Longrightarrow> sd_ID ` set (db_destinations db) \<subseteq> sd_ID ` set (db_destinations db')
   \<Longrightarrow> links_kept db db'"
  unfolding links_kept_def check_refs_ok_def by (metis subset_trans)

lemma delete_destinations_links: "links_kept db (snd (delete_destinations p db))"
proof (cases "list_ex (referenced db) (map sd_ID (filter p (db_destinations db)))")
  case False
  let ?db = "snd (delete_destinations p db)"
  from False have db': "db_check_destinations ?db = db_check_destinations db"
    "db_destinations ?db = filter (\<lambda>d. \<not> p d) (db_destinations db)"
    by (simp_all add: delete_destinations_def)
  have "i \<in> sd_ID ` set (db_destinations ?db)"
    if link: "i \<in> snd ` set (db_check_destinations db)" and i: "i \<in> sd_ID ` set (db_destinations db)" for i
  proof -
    from i obtain d where d: "d \<in> set (db_destinations db)" "i = sd_ID d" by blast
    with False link have "\<not> p d" by (auto simp: list_ex_iff referenced_def)
    with d show ?thesis unfolding db' by simp
  qed
  then show ?thesis unfolding links_kept_def check_refs_ok_def db'(1) by blast
qed (simp add: delete_destinations_def)

lemma registry_ops_links:
  "links_kept db (snd (InsertDestination now d db))" "links_kept db (snd (UpdateDestination now name dmutate db))"
  "links_kept db (snd (DeleteDestination name db))" "links_kept db (snd (DeleteDestinationOwnedBy name app db))"
  "links_kept db (snd (InsertRoute now route db))" "links_kept db (snd (UpdateRoute now i rmutate db))"
  "links_kept db (snd (DeleteRoute i db))" "links_kept db (snd (DeleteRouteOwnedBy i app db))"
proof -
  show "links_kept db (snd (InsertDestination now d db))"
    by (rule links_kept_destinations) (auto simp: InsertDestination_def Let_def)
  show "links_kept db (snd (UpdateDestination now name dmutate db))"
  proof (cases rule: UpdateDestination_cases [of now name dmutate db])
    case (updated current mutated row)
    have "map sd_ID (update_where (\<lambda>d. sd_ID d = sd_ID current) (\<lambda>_. row) (db_destinations db)) = map sd_ID (db_destinations db)"
      by (rule map_update_where) (simp add: updated(4))
    then have "sd_ID ` set (update_where (\<lambda>d. sd_ID d = sd_ID current) (\<lambda>_. row) (db_destinations db)) = sd_ID ` set (db_destinations db)"
      by (metis set_map)
    with updated(5) show ?thesis by (intro links_kept_destinations) simp_all
  qed simp
  show "links_kept db (snd (DeleteDestination name db))" "links_kept db (snd (DeleteDestinationOwnedBy name app db))"
    by (simp_all add: DeleteDestination_def DeleteDestinationOwnedBy_def delete_destinations_links)
  show "links_kept db (snd (InsertRoute now route db))"
    by (cases rule: InsertRoute_cases [of now route db]) (simp_all add: linkDestinations_def links_kept_def check_refs_ok_def)
  show "links_kept db (snd (UpdateRoute now i rmutate db))"
    by (cases rule: UpdateRoute_cases [of now i rmutate db]) (simp_all add: linkDestinations_def links_kept_def check_refs_ok_def)
  show "links_kept db (snd (DeleteRoute i db))" "links_kept db (snd (DeleteRouteOwnedBy i app db))"
    by (simp_all add: DeleteRoute_def DeleteRouteOwnedBy_def delete_routes_def Let_def links_kept_def check_refs_ok_def)
qed

lemma insertOnce_links:
  assumes "\<And>k x. links_kept x (tx_between env k x)"
  shows "links_kept db (snd (insertOnce env k e ts sch caps db))"
proof (cases "insert_message_row db (message_row_of env e None)")
  case (Inserted db1)
  then show ?thesis by (rule links_kept_frame [OF insertOnce_frame])
qed (use assms in \<open>simp_all add: insertOnce_def Let_def split: sum.split\<close>)

lemma insertHeldOnce_links:
  assumes "\<And>k x. links_kept x (tx_between env k x)"
  shows "links_kept db (snd (insertHeldOnce env k e caps now db))"
proof (cases "insert_message_row db (message_row_of env e (Some now))")
  case (Inserted db1)
  have "links_kept db db1"
    by (simp add: insert_message_row_Inserted(1) [OF Inserted] links_kept_def check_refs_ok_def)
  then show ?thesis by (simp add: insertHeldOnce_def Inserted split: sum.split)
qed (use assms in \<open>simp_all add: insertHeldOnce_def Let_def split: sum.split\<close>)

lemma insert_loop_links:
  assumes "\<And>k x. links_kept x (snd (once k x))"
  shows "links_kept db (snd (insert_loop msg once n k db))"
  using insert_loop_preserves [where P = "links_kept db" and once = once and db = db] assms links_kept_trans
  by (metis links_kept_refl)

lemma inserts_links:
  assumes "\<And>k x. links_kept x (tx_between env k x)"
  shows "links_kept db (snd (InsertMessage env e ts db))" "links_kept db (snd (InsertScheduledMessage env e ts caps db))"
    "links_kept db (snd (InsertHeldMessage env e hcaps now db))"
  by (simp_all add: InsertMessage_def InsertScheduledMessage_def InsertHeldMessage_def insertWithRetry_def
      insert_loop_links insertOnce_links insertHeldOnce_links assms)

lemmas message_ops_links =
  Replace_frame [THEN links_kept_frame] cancel_frame [THEN links_kept_frame] ClaimDue_frame [THEN links_kept_frame]
  RecordAttempt_frame [THEN links_kept_frame] Replay_frame [THEN links_kept_frame] ReleaseDue_frame [THEN links_kept_frame]
  DeleteExpired_frame [THEN links_kept_frame] DeleteExpiredHeld_frame [THEN links_kept_frame]

lemma steps_links:
  assumes "(\<lambda>x y. system_step x y \<and> links_kept x y)\<^sup>*\<^sup>* x y"
  shows "links_kept x y"
  using assms by (induction rule: rtranclp_induct) (auto intro: links_kept_trans)

lemma system_step_links: "system_step db db' \<Longrightarrow> links_kept db db'"
proof (induction rule: system_step.induct)
  case (insert env db e ts)
  then show ?case by (intro inserts_links(1)) (blast intro: steps_links)
next
  case (insert_scheduled env db e ts caps)
  then show ?case by (intro inserts_links(2)) (blast intro: steps_links)
next
  case (insert_held env db e hcaps now)
  then show ?case by (intro inserts_links(3)) (blast intro: steps_links)
qed (rule message_ops_links registry_ops_links)+

section \<open>Steps\<close>

inductive hb_step :: "heartbeat_db \<Rightarrow> heartbeat_db \<Rightarrow> bool" where
  core: "system_step (hb_main db) main \<Longrightarrow> hb_step db (db\<lparr>hb_main := main\<rparr>)"
| create: "hb_step db (snd (hb_Create sealer check now db))"
| patch: "hb_step db (snd (hb_Patch lib sealer i p now db))"
| patch_owned: "hb_step db (snd (PatchOwnedBy lib sealer i app p now db))"
| delete: "hb_step db (snd (hb_Delete i db))"
| delete_owned: "hb_step db (snd (DeleteOwnedBy i app db))"
| pause: "hb_step db (snd (hb_Pause i now db))"
| pause_owned: "hb_step db (snd (PauseOwnedBy i app now db))"
| resume: "hb_step db (snd (hb_Resume i now db))"
| resume_owned: "hb_step db (snd (ResumeOwnedBy i app now db))"
| ping: "hb_step db (snd (RecordPing app name kind now db))"
| advance: "hb_step db (snd (AdvanceDue now db))"
| clear: "hb_step db (snd (ClearPendingAlert i alertSeq db))"
| claim_probes: "hb_step db (snd (ClaimDueProbes locked now limit db))"
| record_probe: "hb_step db (snd (RecordProbeResult i version result now holdOff db))"

definition hb_reachable :: "heartbeat_db \<Rightarrow> bool" where
  "hb_reachable db \<longleftrightarrow> hb_step\<^sup>*\<^sup>* (empty_heartbeats empty_db) db"

lemma hb_reachable_empty [simp]: "hb_reachable (empty_heartbeats empty_db)"
  by (simp add: hb_reachable_def)

lemma hb_reachable_step: "hb_reachable db \<Longrightarrow> hb_step db db' \<Longrightarrow> hb_reachable db'"
  unfolding hb_reachable_def by (rule rtranclp.rtrancl_into_rtrancl)

definition api_inv :: "heartbeat_db \<Rightarrow> bool" where
  "api_inv db \<longleftrightarrow> hb_inv db \<and> system_inv (hb_main db) \<and> check_refs_ok (hb_main db)"

lemma api_invD: "api_inv db \<Longrightarrow> hb_inv db" "api_inv db \<Longrightarrow> system_inv (hb_main db)" "api_inv db \<Longrightarrow> check_refs_ok (hb_main db)"
  by (simp_all add: api_inv_def)

section \<open>The heartbeat store keeps the delivery core\<close>

text \<open>An operation of the heartbeat store writes no table of the core but the links, and links only destinations that exist.\<close>

definition main_kept :: "heartbeat_db \<Rightarrow> heartbeat_db \<Rightarrow> bool" where
  "main_kept db db' \<longleftrightarrow> (\<exists>links. hb_main db' = (hb_main db)\<lparr>db_check_destinations := links\<rparr>
     \<and> snd ` set links \<subseteq> snd ` set (db_check_destinations (hb_main db)) \<union> sd_ID ` set (db_destinations (hb_main db)))"

lemma main_kept_same: "hb_main db' = hb_main db \<Longrightarrow> main_kept db db'"
  unfolding main_kept_def by (intro exI [of _ "db_check_destinations (hb_main db)"]) simp

lemma main_kept_hb_frame: "hb_frame db db' \<Longrightarrow> main_kept db db'"
  by (rule main_kept_same) (simp add: hb_frame_def)

lemma main_kept_system:
  assumes "main_kept db db'" "system_inv (hb_main db)" "check_refs_ok (hb_main db)"
  shows "system_inv (hb_main db')" "check_refs_ok (hb_main db')"
proof -
  obtain links where main: "hb_main db' = (hb_main db)\<lparr>db_check_destinations := links\<rparr>"
    and ids: "snd ` set links \<subseteq> snd ` set (db_check_destinations (hb_main db)) \<union> sd_ID ` set (db_destinations (hb_main db))"
    using assms(1) by (auto simp: main_kept_def)
  have "store_inv (hb_main db')"
    by (rule store_inv_same [OF system_invD(1) [OF assms(2)]]) (simp_all add: main)
  moreover have "reg_inv (hb_main db')"
    using system_invD(2) [OF assms(2)]
    by (simp add: main reg_inv_def dest_ok_def routes_ok_def links_ok_def link_ok_def delivery_refs_ok_def)
  ultimately show "system_inv (hb_main db')" by (simp add: system_inv_def)
  show "check_refs_ok (hb_main db')"
    using ids assms(3) by (simp add: main check_refs_ok_def subset_iff) blast
qed

lemma hb_resolved_ids:
  "hb_resolveDestinationIDs db names app = Inr ids \<Longrightarrow> set ids \<subseteq> sd_ID ` set (db_destinations db)"
  by (auto simp: hb_resolveDestinationIDs_def Let_def split: if_splits)

lemma saves_main: "main_kept db (snd (saveCheck check locked now db))" "main_kept db (snd (mutate now lock f db))"
  using saveCheck_frame main_kept_hb_frame by (auto simp: mutate_def main_kept_same split: sum.split)

lemma advance_each_main: "advance_each now cs db = Inr (ids, db') \<Longrightarrow> hb_main db' = hb_main db"
proof (induction cs arbitrary: db ids)
  case (Cons c cs)
  then show ?case
    using saveCheck_frame [of db "fst (AdvanceTick c now)" c now]
    by (auto simp: case_prod_beta hb_frame_def split: if_splits sum.splits prod.splits)
qed simp

lemma insertProbeRow_main: "insertProbeRow sealer i p t now db = Inr db' \<Longrightarrow> hb_main db' = hb_main db"
  by (auto elim: insertProbeRow_shape)

lemma linked_main:
  assumes "hb_resolveDestinationIDs (hb_main db) names app = Inr ids" "hb_main db1 = hb_main db"
  shows "main_kept db (hb_linkDestinations i ids db1)" "main_kept db (hb_linkDestinations i ids (unlink_check i db1))"
  using hb_resolved_ids [OF assms(1)] assms(2)
  by (auto simp: main_kept_def hb_linkDestinations_def unlink_check_def intro!: exI) (force dest: subsetD)+

lemma hb_Create_main: "main_kept db (snd (hb_Create sealer check now db))"
proof (cases "hb_Create sealer check now db")
  case (Pair r db')
  show ?thesis
  proof (cases r)
    case (Inl e)
    with Pair hb_Create_error show ?thesis by (metis main_kept_same snd_conv)
  next
    case (Inr c)
    show ?thesis
    proof (rule hb_Create_shape [OF Pair [unfolded Inr]])
      fix period grace ids db1
      assume ids: "hb_resolveDestinationIDs (hb_main db) (nc_DestinationNames check) (nc_AppID check) = Inr ids"
        and db1: "db1 = hb_linkDestinations (hb_check_seq db) ids (db\<lparr>hb_checks := hb_checks db @
          [new_check_row (hb_check_seq db) check period grace (storeTime now)], hb_check_seq := hb_check_seq db + 1\<rparr>)"
        and db': "(case nc_Probe check of None \<Rightarrow> Inr db1
          | Some p \<Rightarrow> insertProbeRow sealer (hb_check_seq db) p (nc_AccessToken check) (storeTime now) db1) = Inr db'"
      have "main_kept db db1" unfolding db1 by (rule linked_main [OF ids]) simp
      moreover have "hb_main db' = hb_main db1"
        using db' by (auto split: option.splits dest: insertProbeRow_main)
      ultimately show ?thesis using Pair by (simp add: main_kept_def)
    qed
  qed
qed

lemma patch_with_main: "main_kept db (snd (patch_with lib sealer i patch now lock db))"
proof (cases "patch_with lib sealer i patch now lock db")
  case (Pair r db')
  show ?thesis
  proof (cases r)
    case (Inl e)
    with Pair patch_with_error show ?thesis by (metis main_kept_same snd_conv)
  next
    case (Inr c)
    obtain current anchor db1 where "queryCheckByID db i = Inr current"
      and rs: "replaceSchedule (hc_AppID current) i (ApplyPatch current patch) anchor (storeTime now) db = Inr db1"
      and w: "db' = db1 \<or> (\<exists>p b a. writeProbeRow i p b a db1 = Inr db')"
      by (rule patch_with_shape [OF Pair [unfolded Inr]])
    have "main_kept db db1"
      using rs linked_main(2) by (auto simp: replaceSchedule_def Let_def split: sum.splits if_splits)
    moreover have "hb_main db' = hb_main db1"
      using w by (auto simp: writeProbeRow_def Let_def split: if_splits)
    ultimately show ?thesis using Pair by (simp add: main_kept_def)
  qed
qed

lemma delete_checks_main: "main_kept db (snd (delete_checks where db))"
  by (auto simp: main_kept_def delete_checks_def Let_def intro!: exI)

lemma hb_ops_main:
  "main_kept db (snd (hb_Patch lib sealer i patch now db))" "main_kept db (snd (PatchOwnedBy lib sealer i app patch now db))"
  "main_kept db (snd (hb_Delete i db))" "main_kept db (snd (DeleteOwnedBy i app db))"
  "main_kept db (snd (hb_Pause i now db))" "main_kept db (snd (PauseOwnedBy i app now db))"
  "main_kept db (snd (hb_Resume i now db))" "main_kept db (snd (ResumeOwnedBy i app now db))"
  "main_kept db (snd (RecordPing app name kind now db))" "main_kept db (snd (AdvanceDue now db))"
  "main_kept db (snd (ClearPendingAlert i k db))" "main_kept db (snd (ClaimDueProbes locked now limit db))"
  "main_kept db (snd (RecordProbeResult i version result now holdOff db))"
proof -
  show "main_kept db (snd (hb_Patch lib sealer i patch now db))" "main_kept db (snd (PatchOwnedBy lib sealer i app patch now db))"
    by (simp_all add: hb_Patch_def PatchOwnedBy_def patch_with_main)
  show "main_kept db (snd (hb_Delete i db))" "main_kept db (snd (DeleteOwnedBy i app db))"
    by (simp_all add: hb_Delete_def DeleteOwnedBy_def delete_checks_main)
  show "main_kept db (snd (hb_Pause i now db))" "main_kept db (snd (PauseOwnedBy i app now db))"
    "main_kept db (snd (hb_Resume i now db))" "main_kept db (snd (ResumeOwnedBy i app now db))"
    by (simp_all add: hb_Pause_def PauseOwnedBy_def hb_Resume_def ResumeOwnedBy_def saves_main)
  show "main_kept db (snd (RecordPing app name kind now db))"
    by (simp add: RecordPing_def saves_main main_kept_same split: sum.split)
  show "main_kept db (snd (AdvanceDue now db))"
    by (rule main_kept_same) (auto simp: AdvanceDue_def Let_def split: sum.split dest: advance_each_main)
  show "main_kept db (snd (ClearPendingAlert i k db))" "main_kept db (snd (ClaimDueProbes locked now limit db))"
    by (simp_all add: ClearPendingAlert_def ClaimDueProbes_def Let_def main_kept_same)
  have "hb_main db' = hb_main db" if "saveCheck next current t db = (r, db')" for r current t db' and "next" :: stored_check
    using saveCheck_frame [of db "next" current t] that by (simp add: hb_frame_def)
  then show "main_kept db (snd (RecordProbeResult i version result now holdOff db))"
    by (intro main_kept_same) (auto simp: RecordProbeResult_def Let_def split: sum.splits option.splits prod.splits)
qed

section \<open>The invariant of the whole\<close>

lemma api_inv_core:
  assumes "api_inv db" "system_step (hb_main db) main"
  shows "api_inv (db\<lparr>hb_main := main\<rparr>)"
proof -
  note links = system_step_links [OF assms(2)]
  have locked: "locked_check (db\<lparr>hb_main := main\<rparr>) = locked_check db"
    by (rule ext) (simp add: locked_check_def lockProbeRows_def)
  have "hb_inv (db\<lparr>hb_main := main\<rparr>)"
    using api_invD(1) [OF assms(1)] links by (simp add: hb_inv_def locked links_kept_def)
  with links system_step_inv [OF assms(2)] api_invD [OF assms(1)] show ?thesis
    by (simp add: api_inv_def links_kept_def)
qed

lemma api_inv_main: "api_inv db \<Longrightarrow> hb_inv db' \<Longrightarrow> main_kept db db' \<Longrightarrow> api_inv db'"
  by (simp add: api_inv_def main_kept_system)

lemma hb_step_inv:
  assumes "hb_step db db'" "api_inv db"
  shows "api_inv db'"
  using assms(1)
proof cases
  case (core main)
  then show ?thesis using api_inv_core assms(2) by blast
qed (hypsubst, rule api_inv_main [OF assms(2)], rule hb_ops_inv, rule api_invD(1) [OF assms(2)], rule hb_Create_main hb_ops_main)+

lemma hb_reachable_inv: "hb_reachable db \<Longrightarrow> api_inv db"
  unfolding hb_reachable_def
proof (induction rule: rtranclp_induct)
  case base
  have "db_check_destinations empty_db = []" by (simp add: empty_db_def)
  moreover have "hb_main (empty_heartbeats empty_db) = empty_db" by (simp add: empty_heartbeats_def)
  ultimately show ?case by (simp add: api_inv_def hb_inv_empty system_inv_empty check_refs_ok_def)
qed (blast intro: hb_step_inv)

section \<open>The outbox on Postgres\<close>

text \<open>A tick submits through the message service over the same database.\<close>

definition pg_outbox :: "tx_env \<Rightarrow> database message_service \<Rightarrow> time \<Rightarrow> heartbeat_db alert_outbox" where
  "pg_outbox env svc now =
     \<lparr>ob_AdvanceDue = AdvanceDue, ob_ListPendingAlerts = (\<lambda>db. Inr (ListPendingAlerts db)),
      ob_ClearPendingAlert = ClearPendingAlert,
      ob_Submit = (\<lambda>e db. case Submit (svc\<lparr>sv_store := pg_store env\<rparr>) (\<lambda>_ x. x) now e (hb_main db) of
        ((r, woken), main) \<Rightarrow> (map_sum id (\<lambda>_. ()) r, db\<lparr>hb_main := main\<rparr>))\<rparr>"

definition unflushed :: "heartbeat_db \<Rightarrow> int \<Rightarrow> (int \<times> alert_kind) option" where
  "unflushed db i = (case find (\<lambda>c. hc_ID c = i) (hb_checks db) of
     None \<Rightarrow> None | Some c \<Rightarrow> map_option (\<lambda>k. (hc_AlertSeq c, k)) (hc_PendingAlert c))"

definition has_message :: "heartbeat_db \<Rightarrow> string \<Rightarrow> string \<Rightarrow> bool" where
  "has_message db app key \<longleftrightarrow> list_ex (by_key app key) (db_messages (hb_main db))"

text \<open>The store operations of a submission are steps of the whole.\<close>

interpretation hm: message_store_invariant "\<lambda>main. hb_reachable (db\<lparr>hb_main := main\<rparr>)" "pg_store env" "\<lambda>_. True" for db env
proof
  fix main e ts caps hcaps now
  assume r: "hb_reachable (db\<lparr>hb_main := main\<rparr>)"
  have step: "hb_reachable (db\<lparr>hb_main := main'\<rparr>)" if "system_step main main'" for main'
    using hb_reachable_step [OF r hb_step.core [of "db\<lparr>hb_main := main\<rparr>" main']] that by simp
  note alone = alone_steps [where env = env]
  show "hb_reachable (db\<lparr>hb_main := snd (st_InsertMessage (pg_store env) e ts main)\<rparr>)"
    "hb_reachable (db\<lparr>hb_main := snd (st_InsertScheduledMessage (pg_store env) e ts caps main)\<rparr>)"
    "hb_reachable (db\<lparr>hb_main := snd (st_InsertHeldMessage (pg_store env) e hcaps now main)\<rparr>)"
    "hb_reachable (db\<lparr>hb_main := snd (st_ReplaceScheduledMessage (pg_store env) e ts now main)\<rparr>)"
    using step [OF system_step.insert [OF alone]] step [OF system_step.insert_scheduled [OF alone]]
      step [OF system_step.insert_held [OF alone]] step [OF system_step.replace]
    by (simp_all add: pg_store_def)
qed

text \<open>They never remove a message, so a key once taken stays taken.\<close>

lemma insertOnce_has:
  "list_ex p (db_messages db) \<Longrightarrow> list_ex p (db_messages (snd (insertOnce (by_itself env) k e ts sch caps db)))"
  "list_ex p (db_messages db) \<Longrightarrow> list_ex p (db_messages (snd (insertHeldOnce (by_itself env) k e hcaps now db)))"
  by (auto simp: insertOnce_def insertHeldOnce_def insert_message_row_def insertDeliveries_def by_itself_def Let_def
      split: insert_result.splits sum.split if_splits)

lemma replace_rows_has:
  assumes "replace_rows env e ts now row db = Inr db2" "row \<in> set (db_messages db)" "keys_ok db"
    and "list_ex (by_key app key) (db_messages db)"
  shows "list_ex (by_key app key) (db_messages db2)"
proof -
  have "by_key app key (replaced_row e now row)" if "by_key app key m" "m_id m = m_id row" "m \<in> set (db_messages db)" for m
  proof -
    have "m = row" using assms(2,3) that(2,3) by (auto simp: keys_ok_def dest: distinct_map_inj)
    with that(1) show ?thesis by (simp add: by_key_def replaced_row_def)
  qed
  then show ?thesis
    using assms(4) unfolding replace_rows_messages [OF assms(1)]
    by (auto simp: list_ex_iff update_where_def)
qed

lemma Replace_has:
  assumes "system_inv db" "list_ex (by_key app key) (db_messages db)"
  shows "list_ex (by_key app key) (db_messages (snd (ReplaceScheduledMessage env e ts now db)))"
proof -
  have keys: "keys_ok db" using assms(1) by (simp add: system_inv_def store_inv_def)
  show ?thesis
    using replace_rows_has [OF _ _ keys assms(2)] assms(2)
    by (auto simp: ReplaceScheduledMessage_def split: option.split sum.split dest!: find_Some_in)
qed

interpretation hk: message_store_invariant "\<lambda>main. system_inv main \<and> list_ex (by_key app key) (db_messages main)"
    "pg_store env" "\<lambda>_. True" for app key env
proof
  fix main e ts caps hcaps now
  assume r: "system_inv main \<and> list_ex (by_key app key) (db_messages main)"
  then have has: "list_ex (by_key app key) (db_messages main)" by simp
  let ?p = "\<lambda>x. list_ex (by_key app key) (db_messages x)"
  have loop: "?p (snd (insert_loop msg (\<lambda>k. insertOnce (by_itself env) k e ts sch scaps) n k main))" for msg n k sch scaps
    by (rule insert_loop_preserves [where P = ?p, OF insertOnce_has(1) has])
  have held: "?p (snd (insert_loop msg (\<lambda>k. insertHeldOnce (by_itself env) k e hcaps now) n k main))" for msg n k
    by (rule insert_loop_preserves [where P = ?p, OF insertOnce_has(2) has])
  note keeps = loop held has Replace_has [OF conjunct1 [OF r] has]
  note invs = pgs.insert_inv pgs.insert_scheduled_inv pgs.insert_held_inv pgs.replace_inv
  show "system_inv (snd (st_InsertMessage (pg_store env) e ts main)) \<and> ?p (snd (st_InsertMessage (pg_store env) e ts main))"
    "system_inv (snd (st_InsertScheduledMessage (pg_store env) e ts caps main))
       \<and> ?p (snd (st_InsertScheduledMessage (pg_store env) e ts caps main))"
    "system_inv (snd (st_InsertHeldMessage (pg_store env) e hcaps now main))
       \<and> ?p (snd (st_InsertHeldMessage (pg_store env) e hcaps now main))"
    "system_inv (snd (st_ReplaceScheduledMessage (pg_store env) e ts now main))
       \<and> ?p (snd (st_ReplaceScheduledMessage (pg_store env) e ts now main))"
    using invs [of main] r keeps
    by (simp_all add: pg_store_def InsertMessage_def InsertScheduledMessage_def InsertHeldMessage_def insertWithRetry_def)
qed

lemma outbox_Submit:
  "ob_Submit (pg_outbox env svc now) e db =
     (let ((r, woken), main) = Submit (svc\<lparr>sv_store := pg_store env\<rparr>) (\<lambda>_ x. x) now e (hb_main db)
      in (map_sum id (\<lambda>_. ()) r, db\<lparr>hb_main := main\<rparr>))"
  by (simp add: pg_outbox_def case_prod_beta Let_def)

lemma unflushed_clear:
  "unflushed (snd (ClearPendingAlert i n db)) =
    (\<lambda>j. if j = i \<and> map_option fst (unflushed db i) = Some n then None else unflushed db j)"
proof
  fix j
  let ?hit = "\<lambda>c :: check_row. hc_ID c = i \<and> hc_AlertSeq c = n \<and> hc_PendingAlert c \<noteq> None"
  let ?f = "\<lambda>c :: check_row. c\<lparr>hc_PendingAlert := None\<rparr>"
  have found: "find (\<lambda>c. hc_ID c = j) (update_where ?hit ?f rows) =
      map_option (\<lambda>c. if ?hit c then ?f c else c) (find (\<lambda>c. hc_ID c = j) rows)" for rows
    by (induction rows) (auto simp: update_where_def)
  have clear: "hb_checks (snd (ClearPendingAlert i n db)) = update_where ?hit ?f (hb_checks db)"
    by (simp add: ClearPendingAlert_def Let_def)
  show "unflushed (snd (ClearPendingAlert i n db)) j =
      (if j = i \<and> map_option fst (unflushed db i) = Some n then None else unflushed db j)"
  proof (cases "find (\<lambda>c. hc_ID c = j) (hb_checks db)")
    case None
    then show ?thesis unfolding unflushed_def clear found by simp
  next
    case (Some c)
    then have "hc_ID c = j" by (auto dest: find_Some_in)
    with Some show ?thesis unfolding unflushed_def clear found by (cases "hc_PendingAlert c") auto
  qed
qed

interpretation pgob: alert_outbox_laws hb_reachable "pg_outbox env svc now" unflushed has_message for env svc now
proof
  fix s s' :: heartbeat_db and e u i n r app key t
  let ?svc = "svc\<lparr>sv_store := pg_store env\<rparr>"
  let ?sub = "Submit ?svc (\<lambda>_ x. x) now e (hb_main s)"
  have st: "sv_store ?svc = pg_store env" by simp
  show "unflushed (snd (ob_Submit (pg_outbox env svc now) e s)) = unflushed s"
    by (simp add: outbox_Submit Let_def case_prod_beta unflushed_def fun_eq_iff)
  show "has_message (snd (ob_ClearPendingAlert (pg_outbox env svc now) i n s)) = has_message s"
    by (simp add: pg_outbox_def ClearPendingAlert_def Let_def has_message_def fun_eq_iff)
  assume reach: "hb_reachable s"
  note inv = api_invD [OF hb_reachable_inv [OF reach]]
  show "hb_reachable (snd (ob_AdvanceDue (pg_outbox env svc now) t s))"
    "hb_reachable (snd (ob_ClearPendingAlert (pg_outbox env svc now) i n s))"
    using hb_reachable_step [OF reach hb_step.advance] hb_reachable_step [OF reach hb_step.clear]
    by (simp_all add: pg_outbox_def)
  have "hb_reachable (s\<lparr>hb_main := snd ?sub\<rparr>)"
    by (rule hm.Submit_inv [where db = s, OF st]) (simp_all add: reach hm.calm_def)
  then show "hb_reachable (snd (ob_Submit (pg_outbox env svc now) e s))"
    by (simp add: outbox_Submit Let_def case_prod_beta)
  show "has_message s' (en_AppID e) (en_IdempotencyKey e)" if sub: "ob_Submit (pg_outbox env svc now) e s = (Inr u, s')"
  proof -
    obtain m o' w main where m: "?sub = ((Inr (m, o'), w), main)" "s' = s\<lparr>hb_main := main\<rparr>"
      using sub by (cases "?sub"; cases "fst (fst ?sub)") (auto simp: outbox_Submit Let_def split: prod.splits)
    from pgs.Submit_stored [OF st inv(2) m(1)] have "GetMessageByKey main (en_AppID e) (en_IdempotencyKey e) = Inr m"
      by (simp add: pg_store_def)
    then show ?thesis by (auto simp: has_message_def m(2) list_ex_iff by_key_def elim!: GetMessageByKey_Inr)
  qed
  show "has_message (snd (ob_Submit (pg_outbox env svc now) e s)) app key" if "has_message s app key"
    using hk.Submit_inv [where app = app and key = key and between = "\<lambda>_ x. x" and e = e and now = now and s = "hb_main s", OF st] that inv(2)
    by (simp add: outbox_Submit Let_def case_prod_beta has_message_def hk.calm_def)
  show "unflushed s' = (if isl r then unflushed s
      else (\<lambda>j. if j = i \<and> map_option fst (unflushed s i) = Some n then None else unflushed s j))"
    if "ob_ClearPendingAlert (pg_outbox env svc now) i n s = (r, s')"
    using unflushed_clear [of i n s] that
    by (auto simp: pg_outbox_def ClearPendingAlert_def Let_def)
qed

end
