(* ===== verification/App_Teardown.thy ===== *)
theory App_Teardown
  imports Publisher_System Heartbeat_System
begin

text \<open>
  Removing an app and everything it owns (\<^verbatim>\<open>delivery-api/internal/appteardown\<close>: store.go, service.go). The
  store deletes the app's delivery objects in one READ COMMITTED transaction of six statements; other
  transactions may commit before each of them, and a foreign key they break rolls the whole back. The
  service calls the provisioning API, then unbinds, removes the publisher under the mint lock, and deletes
  the objects. The count of orphans is taken together with the delete it follows.
\<close>

section \<open>The object store\<close>

record Deleted =
  dl_Checks :: int
  dl_Routes :: int
  dl_Destinations :: int
  dl_OrphanedRoutes :: int
  dl_OrphanedChecks :: int
  dl_HeldMessages :: int

definition no_Deleted :: Deleted where
  "no_Deleted = \<lparr>dl_Checks = 0, dl_Routes = 0, dl_Destinations = 0, dl_OrphanedRoutes = 0, dl_OrphanedChecks = 0,
     dl_HeldMessages = 0\<rparr>"

definition owned_route :: "string \<Rightarrow> route_row \<Rightarrow> bool" where
  "owned_route appID r \<longleftrightarrow> r_owner_kind r = OwnerApp \<and> r_owner_app_id r = Some appID"

definition owned_destination :: "string \<Rightarrow> stored_destination \<Rightarrow> bool" where
  "owned_destination appID d \<longleftrightarrow> sd_OwnerKind d = OwnerApp \<and> sd_OwnerAppID d = Some appID"

definition held_of :: "string \<Rightarrow> message_row \<Rightarrow> bool" where
  "held_of appID m \<longleftrightarrow> m_app_id m = appID \<and> m_held_at m \<noteq> None"

definition count_where :: "('a \<Rightarrow> bool) \<Rightarrow> 'a list \<Rightarrow> int" where
  "count_where p xs = int (length (filter p xs))"

text \<open>\<open>owners\<close> are the rows of the owner table as pairs of the id and whether the operator owns the row.\<close>

definition deleteLinksCountOrphans ::
  "(int \<times> bool) list \<Rightarrow> int list \<Rightarrow> (int \<times> int) list \<Rightarrow> int \<times> (int \<times> int) list" where
  "deleteLinksCountOrphans owners destinations links =
     (let affectedIDs = map fst (filter (\<lambda>l. snd l \<in> set destinations) links);
          rest = filter (\<lambda>l. snd l \<notin> set destinations) links
      in (if affectedIDs = [] then 0
          else count_where (\<lambda>(i, operator). i \<in> set affectedIDs \<and> operator \<and> i \<notin> fst ` set rest) owners, rest))"

datatype objects_statement = DelHeld | DelChecks | DelRoutes | DelRouteLinks | DelCheckLinks | DelDestinations

abbreviation owned_destination_ids :: "string \<Rightarrow> database \<Rightarrow> int list" where
  "owned_destination_ids appID main \<equiv> map sd_ID (filter (owned_destination appID) (db_destinations main))"

fun objects_exec :: "objects_statement \<Rightarrow> string \<Rightarrow> heartbeat_db \<Rightarrow> (string + int) \<times> heartbeat_db" where
  "objects_exec DelHeld appID db =
     (Inr (count_where (held_of appID) (db_messages (hb_main db))),
      db\<lparr>hb_main := delete_messages (m_id ` set (filter (held_of appID) (db_messages (hb_main db)))) (hb_main db)\<rparr>)"
| "objects_exec DelChecks appID db =
     (Inr (count_where (owned_by appID) (hb_checks db)), snd (delete_checks (owned_by appID) db))"
| "objects_exec DelRoutes appID db =
     (Inr (count_where (owned_route appID) (db_routes (hb_main db))),
      db\<lparr>hb_main := snd (delete_routes (owned_route appID) (hb_main db))\<rparr>)"
| "objects_exec DelRouteLinks appID db =
     (case deleteLinksCountOrphans (map (\<lambda>r. (r_id r, r_owner_kind r = OwnerOperator)) (db_routes (hb_main db)))
             (owned_destination_ids appID (hb_main db)) (db_route_destinations (hb_main db)) of
        (n, links) \<Rightarrow> (Inr n, db\<lparr>hb_main := (hb_main db)\<lparr>db_route_destinations := links\<rparr>\<rparr>))"
| "objects_exec DelCheckLinks appID db =
     (case deleteLinksCountOrphans (map (\<lambda>c. (hc_ID c, hc_OwnerKind c = OwnerOperator)) (hb_checks db))
             (owned_destination_ids appID (hb_main db)) (db_check_destinations (hb_main db)) of
        (n, links) \<Rightarrow> (Inr n, db\<lparr>hb_main := (hb_main db)\<lparr>db_check_destinations := links\<rparr>\<rparr>))"
| "objects_exec DelDestinations appID db =
     (case delete_destinations (owned_destination appID) (hb_main db) of
        (Inl e, _) \<Rightarrow> (Inl ''delete app destinations'', db)
      | (Inr _, main) \<Rightarrow> (Inr (count_where (owned_destination appID) (db_destinations (hb_main db))), db\<lparr>hb_main := main\<rparr>))"

fun objects_count :: "objects_statement \<Rightarrow> int \<Rightarrow> Deleted \<Rightarrow> Deleted" where
  "objects_count DelHeld n d = d\<lparr>dl_HeldMessages := n\<rparr>"
| "objects_count DelChecks n d = d\<lparr>dl_Checks := n\<rparr>"
| "objects_count DelRoutes n d = d\<lparr>dl_Routes := n\<rparr>"
| "objects_count DelRouteLinks n d = d\<lparr>dl_OrphanedRoutes := n\<rparr>"
| "objects_count DelCheckLinks n d = d\<lparr>dl_OrphanedChecks := n\<rparr>"
| "objects_count DelDestinations n d = d\<lparr>dl_Destinations := n\<rparr>"

text \<open>Which statements the connection fails, whether the commit fails, and what commits before a statement.\<close>

record objects_env =
  ov_fails :: "objects_statement \<Rightarrow> bool"
  ov_commit_fails :: bool
  ov_between :: "objects_statement \<Rightarrow> heartbeat_db \<Rightarrow> heartbeat_db"

fun run_objects ::
  "objects_env \<Rightarrow> string \<Rightarrow> objects_statement list \<Rightarrow> Deleted \<Rightarrow> heartbeat_db open_tx
   \<Rightarrow> (string + Deleted) \<times> heartbeat_db open_tx" where
  "run_objects env appID [] deleted tx = (Inr deleted, tx)"
| "run_objects env appID (s # ss) deleted tx0 =
     (let tx = see_commits (ov_between env s) tx0
      in if ov_fails env s then (Inl ''database error'', tx)
         else case objects_exec s appID (et_view tx) of
                (Inl e, _) \<Rightarrow> (Inl e, tx)
              | (Inr n, view) \<Rightarrow> run_objects env appID ss (objects_count s n deleted) (tx\<lparr>et_view := view\<rparr>))"

definition objects_order :: "objects_statement list" where
  "objects_order = [DelHeld, DelChecks, DelRoutes, DelRouteLinks, DelCheckLinks, DelDestinations]"

definition DeleteOwnedObjects :: "objects_env \<Rightarrow> string \<Rightarrow> heartbeat_db \<Rightarrow> (string + Deleted) \<times> heartbeat_db" where
  "DeleteOwnedObjects env appID db =
     (if \<not> app_id_valid appID then (Inl ''invalid app_id'', db)
      else case run_objects env appID objects_order no_Deleted \<lparr>et_committed = db, et_view = db\<rparr> of
             (Inl e, tx) \<Rightarrow> (Inl e, et_committed tx)
           | (Inr deleted, tx) \<Rightarrow>
               if ov_commit_fails env then (Inl ''commit'', et_committed tx) else (Inr deleted, et_view tx))"

section \<open>The cascade\<close>

datatype teardown_error =
    ErrInvalidAppID
  | ErrUpstream string
  | ErrBusy
  | ErrUnavailable string

record teardown_result =
  tr_AppID :: string
  tr_Removed :: bool
  tr_Unbound :: bool
  tr_Deleted :: Deleted

text \<open>
  The dependencies, each \<open>None\<close> where it is nil. The provisioner answers with a status or an error; what
  other requests do while it runs, and between the later phases, is the argument \<open>between\<close>.
\<close>

record 's teardown_service =
  ts_provisioner :: "(string \<Rightarrow> string + int) option"
  ts_binder :: "(string \<Rightarrow> 's \<Rightarrow> (string + bool) \<times> 's) option"
  ts_publisher :: "(string \<Rightarrow> 's \<Rightarrow> unit publisher_result \<times> 's) option"
  ts_store :: "(string \<Rightarrow> 's \<Rightarrow> (string + Deleted) \<times> 's) option"

datatype teardown_phase = DuringUpstream | BeforeRemove | BeforeObjects

definition teardown_rest ::
  "(string \<Rightarrow> 's \<Rightarrow> (string + bool) \<times> 's) \<Rightarrow> (string \<Rightarrow> 's \<Rightarrow> unit publisher_result \<times> 's)
   \<Rightarrow> (string \<Rightarrow> 's \<Rightarrow> (string + Deleted) \<times> 's) \<Rightarrow> (teardown_phase \<Rightarrow> 's \<Rightarrow> 's) \<Rightarrow> string \<Rightarrow> 's
   \<Rightarrow> (teardown_error + teardown_result) \<times> 's" where
  "teardown_rest unbind remove erase between appID s =
     (case unbind appID s of
        (Inl e, s1) \<Rightarrow> (Inl (ErrUnavailable (''unbind: '' @ e)), s1)
      | (Inr unbound, s1) \<Rightarrow>
          (case remove appID (between BeforeRemove s1) of
             (Inl e, s2) \<Rightarrow> (Inl (if e = ErrMintBusy then ErrBusy else ErrUnavailable ''publisher''), s2)
           | (Inr _, s2) \<Rightarrow>
               (case erase appID (between BeforeObjects s2) of
                  (Inl e, s3) \<Rightarrow> (Inl (ErrUnavailable (''objects: '' @ e)), s3)
                | (Inr deleted, s3) \<Rightarrow>
                    (Inr \<lparr>tr_AppID = appID, tr_Removed = True, tr_Unbound = unbound, tr_Deleted = deleted\<rparr>, s3))))"

definition Deprovision ::
  "'s teardown_service \<Rightarrow> (teardown_phase \<Rightarrow> 's \<Rightarrow> 's) \<Rightarrow> string \<Rightarrow> 's \<Rightarrow> (teardown_error + teardown_result) \<times> 's" where
  "Deprovision svc between appID s =
     (if \<not> app_id_valid appID then (Inl ErrInvalidAppID, s)
      else case (ts_provisioner svc, ts_binder svc, ts_publisher svc, ts_store svc) of
             (Some DeprovisionApp, Some unbind, Some remove, Some erase) \<Rightarrow>
               (let s1 = between DuringUpstream s
                in case DeprovisionApp appID of
                     Inl e \<Rightarrow> (Inl (ErrUpstream e), s1)
                   | Inr status \<Rightarrow>
                       if status < 200 \<or> status > 299 then (Inl (ErrUpstream ''status''), s1)
                       else teardown_rest unbind remove erase between appID s1)
           | _ \<Rightarrow> (Inl (ErrUnavailable ''missing dependency''), s))"

text \<open>The deployment: the identity service, the publisher service and the object store on one database.\<close>

record tenant_db =
  tn_publishers :: publisher_db
  tn_delivery :: heartbeat_db

definition identity_binder :: "string \<Rightarrow> tenant_db \<Rightarrow> (string + bool) \<times> tenant_db" where
  "identity_binder appID s =
     (case service_Unbind appID (pdb_identity (tn_publishers s)) of
        (r, i) \<Rightarrow> (map_sum (\<lambda>_. ''unbind'') id r, s\<lparr>tn_publishers := (tn_publishers s)\<lparr>pdb_identity := i\<rparr>\<rparr>))"

definition publisher_remover :: "mint_env \<Rightarrow> string \<Rightarrow> tenant_db \<Rightarrow> unit publisher_result \<times> tenant_db" where
  "publisher_remover env appID s =
     (case RemoveExclusive env appID (tn_publishers s) of (r, p) \<Rightarrow> (r, s\<lparr>tn_publishers := p\<rparr>))"

definition object_store :: "objects_env \<Rightarrow> string \<Rightarrow> tenant_db \<Rightarrow> (string + Deleted) \<times> tenant_db" where
  "object_store env appID s = (case DeleteOwnedObjects env appID (tn_delivery s) of (r, d) \<Rightarrow> (r, s\<lparr>tn_delivery := d\<rparr>))"

definition deployed :: "(string \<Rightarrow> string + int) \<Rightarrow> mint_env \<Rightarrow> objects_env \<Rightarrow> tenant_db teardown_service" where
  "deployed provision menv oenv =
     \<lparr>ts_provisioner = Some provision, ts_binder = Some identity_binder,
      ts_publisher = Some (publisher_remover menv), ts_store = Some (object_store oenv)\<rparr>"

section \<open>All or nothing\<close>

text \<open>The committed state of a run is what the others committed before its statements.\<close>

lemma run_committed:
  "run_objects env app ss d tx = (r, tx') \<Longrightarrow> \<exists>n. et_committed tx' = fold (ov_between env) (take n ss) (et_committed tx)"
proof (induction ss arbitrary: d tx)
  case (Cons s ss)
  let ?tx = "see_commits (ov_between env s) tx"
  have stop: "tx' = ?tx \<Longrightarrow> ?case" by (intro exI [of _ "1"]) simp
  have later: ?case if "run_objects env app ss d' (?tx\<lparr>et_view := v\<rparr>) = (r, tx')" for d' v
  proof -
    from Cons.IH [OF that] obtain n where "et_committed tx' = fold (ov_between env) (take n ss) (et_committed ?tx)" by auto
    then show ?thesis by (intro exI [of _ "Suc n"]) simp
  qed
  show ?case using Cons.prems stop later by (auto simp: Let_def split: if_splits sum.splits prod.splits)
qed simp

lemma objects_rollback:
  assumes "DeleteOwnedObjects env app db = (Inl e, db')"
  shows "\<exists>n. db' = fold (ov_between env) (take n objects_order) db"
proof (cases "app_id_valid app")
  case False
  with assms show ?thesis by (intro exI [of _ 0]) (simp add: DeleteOwnedObjects_def)
next
  case True
  obtain r tx where r: "run_objects env app objects_order no_Deleted \<lparr>et_committed = db, et_view = db\<rparr> = (r, tx)" by fastforce
  with True assms have "db' = et_committed tx" by (auto simp: DeleteOwnedObjects_def split: sum.splits if_splits)
  with run_committed [OF r] show ?thesis by simp
qed

section \<open>What a run keeps\<close>

lemma run_keeps:
  assumes "\<And>s x. Q x \<Longrightarrow> Q (ov_between env s x)" "\<And>s x. Q x \<Longrightarrow> Q (snd (objects_exec s app x))"
    and "run_objects env app ss d tx = (r, tx')" "Q (et_committed tx)" "Q (et_view tx)"
  shows "Q (et_committed tx') \<and> Q (et_view tx')"
  using assms(3-5)
proof (induction ss arbitrary: d tx)
  case (Cons s ss)
  let ?tx = "see_commits (ov_between env s) tx"
  have q: "Q (et_committed ?tx)" "Q (et_view ?tx)" using Cons.prems assms(1) by simp_all
  obtain e view where e: "objects_exec s app (et_view ?tx) = (e, view)" by fastforce
  have view: "Q view" using assms(2) [OF q(2)] e by (metis snd_conv)
  show ?case
  proof (cases "ov_fails env s \<or> isl e")
    case True
    then have "tx' = ?tx" using Cons.prems(1) e by (auto simp: Let_def split: if_splits sum.splits)
    with q show ?thesis by simp
  next
    case False
    then obtain n where "e = Inr n" "\<not> ov_fails env s" by (cases e) auto
    with Cons.prems(1) e have "run_objects env app ss (objects_count s n d) (?tx\<lparr>et_view := view\<rparr>) = (r, tx')"
      by (simp add: Let_def)
    then show ?thesis by (rule Cons.IH) (use q view in simp_all)
  qed
qed simp

lemma objects_keep:
  assumes "\<And>s x. Q x \<Longrightarrow> Q (ov_between env s x)" "\<And>s x. Q x \<Longrightarrow> Q (snd (objects_exec s app x))" "Q db"
  shows "Q (snd (DeleteOwnedObjects env app db))"
proof -
  obtain r tx where r: "run_objects env app objects_order no_Deleted \<lparr>et_committed = db, et_view = db\<rparr> = (r, tx)" by fastforce
  have "Q (et_committed tx) \<and> Q (et_view tx)" using run_keeps [of Q, OF assms(1,2) r] assms(3) by simp
  then show ?thesis using assms(3) r by (simp add: DeleteOwnedObjects_def split: sum.split)
qed

text \<open>A statement on the tables of the core that keeps its invariants and the links of the checks keeps the whole.\<close>

lemma api_inv_links:
  assumes "api_inv db" "system_inv main" "check_refs_ok main"
    and "set (db_check_destinations main) \<subseteq> set (db_check_destinations (hb_main db))"
  shows "api_inv (db\<lparr>hb_main := main\<rparr>)"
proof -
  have locked: "locked_check (db\<lparr>hb_main := main\<rparr>) = locked_check db"
    by (rule ext) (simp add: locked_check_def lockProbeRows_def)
  have "fst ` set (db_check_destinations main) \<subseteq> hc_ID ` set (hb_checks db)"
    using image_mono [OF assms(4), of fst] api_invD(1) [OF assms(1)] unfolding hb_inv_def by (meson subset_trans)
  with api_invD(1) [OF assms(1)] have "hb_inv (db\<lparr>hb_main := main\<rparr>)" by (simp add: hb_inv_def locked)
  with assms(2,3) show ?thesis by (simp add: api_inv_def)
qed

lemma route_links_inv:
  assumes "system_inv main" "set links \<subseteq> set (db_route_destinations main)"
  shows "system_inv (main\<lparr>db_route_destinations := links\<rparr>)"
proof -
  note reg = reg_invD [OF system_invD(2) [OF assms(1)]]
  have link: "link_ok (main\<lparr>db_route_destinations := links\<rparr>) = link_ok main" by (rule ext) (simp add: link_ok_def)
  have "reg_inv (main\<lparr>db_route_destinations := links\<rparr>)"
    using reg(1,2,4) subsetD [OF assms(2)] reg(3)
    by (simp add: reg_inv_def dest_ok_def routes_ok_def links_ok_def delivery_refs_ok_def link)
  moreover have "store_inv (main\<lparr>db_route_destinations := links\<rparr>)"
    by (rule store_inv_same [OF system_invD(1) [OF assms(1)]]) simp_all
  ultimately show ?thesis by (simp add: system_inv_def)
qed

lemma objects_exec_inv:
  assumes inv: "api_inv db"
  shows "api_inv (snd (objects_exec s app db))"
proof -
  note sys = api_invD(2) [OF inv] and refs = api_invD(3) [OF inv]
  show ?thesis
  proof (cases s)
    case DelHeld
    let ?main = "delete_messages (m_id ` set (filter (held_of app) (db_messages (hb_main db)))) (hb_main db)"
    have "system_inv ?main"
      using sys reg_inv_frame [OF _ delete_messages_frame] delete_messages_inv by (simp add: system_inv_def)
    moreover have "links_kept (hb_main db) ?main" by (rule links_kept_frame [OF delete_messages_frame])
    ultimately have "api_inv (db\<lparr>hb_main := ?main\<rparr>)"
      using refs by (intro api_inv_links [OF inv]) (simp_all add: links_kept_def)
    then show ?thesis using DelHeld by simp
  next
    case DelChecks
    then show ?thesis using inv api_inv_main [OF inv delete_checks_inv delete_checks_main] api_invD(1) by simp
  next
    case DelRoutes
    let ?main = "snd (delete_routes (owned_route app) (hb_main db))"
    have "reg_inv ?main" using sys delete_routes_inv by (simp add: system_inv_def)
    moreover have "store_inv ?main"
      by (rule store_inv_same [OF system_invD(1) [OF sys]]) (simp_all add: delete_routes_def Let_def)
    moreover have "check_refs_ok ?main" using refs by (simp add: check_refs_ok_def delete_routes_def Let_def)
    moreover have "db_check_destinations ?main = db_check_destinations (hb_main db)" by (simp add: delete_routes_def Let_def)
    ultimately show ?thesis using DelRoutes by (simp add: api_inv_links [OF inv] system_inv_def)
  next
    case DelRouteLinks
    have "api_inv (db\<lparr>hb_main := (hb_main db)\<lparr>db_route_destinations := links\<rparr>\<rparr>)"
      if "set links \<subseteq> set (db_route_destinations (hb_main db))" for links
      using route_links_inv [OF sys that] refs by (intro api_inv_links [OF inv]) (simp_all add: check_refs_ok_def)
    then show ?thesis using DelRouteLinks by (auto simp: deleteLinksCountOrphans_def Let_def)
  next
    case DelCheckLinks
    have "api_inv (db\<lparr>hb_main := (hb_main db)\<lparr>db_check_destinations := links\<rparr>\<rparr>)"
      if "set links \<subseteq> set (db_check_destinations (hb_main db))" for links
    proof (rule api_inv_main [OF inv])
      show "main_kept db (db\<lparr>hb_main := (hb_main db)\<lparr>db_check_destinations := links\<rparr>\<rparr>)"
        using image_mono [OF that, of snd] unfolding main_kept_def by (intro exI [of _ links]) auto
      have "locked_check (db\<lparr>hb_main := (hb_main db)\<lparr>db_check_destinations := links\<rparr>\<rparr>) = locked_check db"
        by (rule ext) (simp add: locked_check_def lockProbeRows_def)
      then show "hb_inv (db\<lparr>hb_main := (hb_main db)\<lparr>db_check_destinations := links\<rparr>\<rparr>)"
        using image_mono [OF that, of fst] api_invD(1) [OF inv] by (simp add: hb_inv_def) (meson subset_trans)
    qed
    then show ?thesis using DelCheckLinks by (auto simp: deleteLinksCountOrphans_def Let_def)
  next
    case DelDestinations
    let ?d = "delete_destinations (owned_destination app) (hb_main db)"
    have "system_inv (snd ?d)"
      using sys delete_destinations_inv delete_destinations_store by (simp add: system_inv_def)
    moreover have "links_kept (hb_main db) (snd ?d)" by (rule delete_destinations_links)
    ultimately have "api_inv (db\<lparr>hb_main := snd ?d\<rparr>)"
      using refs by (intro api_inv_links [OF inv]) (simp_all add: links_kept_def)
    then show ?thesis using DelDestinations inv by (auto split: sum.split prod.split)
  qed
qed

section \<open>Nothing of the app is left\<close>

text \<open>What a statement leaves none of. The two link statements are about rows of others and leave no claim.\<close>

fun cleared :: "objects_statement \<Rightarrow> string \<Rightarrow> heartbeat_db \<Rightarrow> bool" where
  "cleared DelHeld app db \<longleftrightarrow> list_all (\<lambda>m. \<not> held_of app m) (db_messages (hb_main db))"
| "cleared DelChecks app db \<longleftrightarrow> list_all (\<lambda>c. \<not> owned_by app c) (hb_checks db)"
| "cleared DelRoutes app db \<longleftrightarrow> list_all (\<lambda>r. \<not> owned_route app r) (db_routes (hb_main db))"
| "cleared DelRouteLinks app db \<longleftrightarrow> True"
| "cleared DelCheckLinks app db \<longleftrightarrow> True"
| "cleared DelDestinations app db \<longleftrightarrow> list_all (\<lambda>d. \<not> owned_destination app d) (db_destinations (hb_main db))"

definition owns_nothing :: "string \<Rightarrow> heartbeat_db \<Rightarrow> bool" where
  "owns_nothing app db \<longleftrightarrow> list_all (\<lambda>s. cleared s app db) objects_order"

definition objects_calm :: "objects_env \<Rightarrow> string \<Rightarrow> bool" where
  "objects_calm env app \<longleftrightarrow> (\<forall>s t x. cleared t app x \<longrightarrow> cleared t app (ov_between env s x))"

lemma exec_clears: "objects_exec s app x = (Inr n, y) \<Longrightarrow> cleared s app y"
proof (cases s)
  case DelHeld
  assume "objects_exec s app x = (Inr n, y)"
  with DelHeld show ?thesis by (auto simp: delete_messages_def Let_def list_all_iff)
qed (auto simp: delete_checks_def delete_routes_def delete_destinations_def Let_def list_all_iff
    split: if_splits sum.splits prod.splits)

lemma exec_keeps_clear:
  assumes "objects_exec s app x = (Inr n, y)" "cleared t app x"
  shows "cleared t app y"
proof (cases s)
  case DelHeld
  then show ?thesis using assms by (cases t) (auto simp: delete_messages_def Let_def list_all_iff)
next
  case DelChecks
  then show ?thesis using assms by (cases t) (auto simp: delete_checks_def Let_def list_all_iff)
next
  case DelRoutes
  then show ?thesis using assms by (cases t) (auto simp: delete_routes_def Let_def list_all_iff)
next
  case DelDestinations
  then show ?thesis using assms
    by (cases t) (auto simp: delete_destinations_def Let_def list_all_iff split: if_splits sum.splits prod.splits)
qed (use assms in \<open>cases t; auto split: prod.splits\<close>)+

lemma run_clears:
  assumes "objects_calm env app"
  shows "run_objects env app ss d tx = (Inr d', tx') \<Longrightarrow> t \<in> set ss \<or> cleared t app (et_view tx) \<Longrightarrow> cleared t app (et_view tx')"
proof (induction ss arbitrary: d tx)
  case (Cons s ss)
  let ?tx = "see_commits (ov_between env s) tx"
  obtain n view where e: "objects_exec s app (et_view ?tx) = (Inr n, view)"
    and rest: "run_objects env app ss (objects_count s n d) (?tx\<lparr>et_view := view\<rparr>) = (Inr d', tx')"
    using Cons.prems(1) by (auto simp: Let_def split: if_splits sum.splits prod.splits)
  have "t \<in> set ss \<or> cleared t app view"
  proof (cases "t = s")
    case True
    with exec_clears [OF e] show ?thesis by simp
  next
    case False
    with Cons.prems(2) have "t \<in> set ss \<or> cleared t app (et_view tx)" by simp
    then show ?thesis using assms exec_keeps_clear [OF e] by (auto simp: objects_calm_def)
  qed
  then show ?case by (intro Cons.IH [OF rest]) simp
qed simp

lemma objects_cleared:
  assumes "objects_calm env app" "DeleteOwnedObjects env app db = (Inr d, db')"
  shows "owns_nothing app db'"
proof -
  obtain r tx where r: "run_objects env app objects_order no_Deleted \<lparr>et_committed = db, et_view = db\<rparr> = (r, tx)" by fastforce
  with assms(2) have "r = Inr d" "db' = et_view tx" by (auto simp: DeleteOwnedObjects_def split: if_splits sum.splits)
  with run_clears [OF assms(1), of objects_order] r show ?thesis by (auto simp: owns_nothing_def list_all_iff)
qed

section \<open>The effect by itself\<close>

text \<open>What the transaction amounts to when nothing else commits meanwhile: one simultaneous deletion.\<close>

definition erase_main :: "string \<Rightarrow> int set \<Rightarrow> database \<Rightarrow> database" where
  "erase_main app checks main =
     (let kept = delete_messages (m_id ` set (filter (held_of app) (db_messages main))) main;
          dests = set (owned_destination_ids app main); routes = r_id ` set (filter (owned_route app) (db_routes main))
      in kept\<lparr>db_routes := filter (\<lambda>r. \<not> owned_route app r) (db_routes main),
              db_destinations := filter (\<lambda>d. \<not> owned_destination app d) (db_destinations main),
              db_route_destinations := filter (\<lambda>(r, d). r \<notin> routes \<and> d \<notin> dests) (db_route_destinations main),
              db_check_destinations := filter (\<lambda>(c, d). c \<notin> checks \<and> d \<notin> dests) (db_check_destinations main),
              db_deliveries := map (drop_ref dests) (db_deliveries kept)\<rparr>)"

definition erase_app :: "string \<Rightarrow> heartbeat_db \<Rightarrow> heartbeat_db" where
  "erase_app app db =
     (let checks = hc_ID ` set (filter (owned_by app) (hb_checks db))
      in db\<lparr>hb_checks := filter (\<lambda>c. \<not> owned_by app c) (hb_checks db),
            hb_probes := filter (\<lambda>p. pw_check_id p \<notin> checks) (hb_probes db),
            hb_main := erase_main app checks (hb_main db)\<rparr>)"

definition objects_quiet :: "objects_env \<Rightarrow> bool" where
  "objects_quiet env \<longleftrightarrow> (\<forall>s. \<not> ov_fails env s \<and> ov_between env s = id) \<and> \<not> ov_commit_fails env"

lemma delete_messages_tables [simp]:
  "db_routes (delete_messages ids main) = db_routes main" "db_destinations (delete_messages ids main) = db_destinations main"
  "db_route_destinations (delete_messages ids main) = db_route_destinations main"
  "db_check_destinations (delete_messages ids main) = db_check_destinations main"
  by (simp_all add: delete_messages_def Let_def)

text \<open>The state before the last statement, and the last statement on it.\<close>

definition before_destinations :: "string \<Rightarrow> heartbeat_db \<Rightarrow> heartbeat_db" where
  "before_destinations app db =
     foldl (\<lambda>x s. snd (objects_exec s app x)) db [DelHeld, DelChecks, DelRoutes, DelRouteLinks, DelCheckLinks]"

lemma before_destinations_main:
  fixes app db
  defines "main \<equiv> hb_main (before_destinations app db)"
    and "dests \<equiv> set (owned_destination_ids app (hb_main db))"
    and "checks \<equiv> hc_ID ` set (filter (owned_by app) (hb_checks db))"
    and "routes \<equiv> r_id ` set (filter (owned_route app) (db_routes (hb_main db)))"
  shows "main = (delete_messages (m_id ` set (filter (held_of app) (db_messages (hb_main db)))) (hb_main db))
     \<lparr>db_routes := filter (\<lambda>r. \<not> owned_route app r) (db_routes (hb_main db)),
      db_route_destinations := filter (\<lambda>(r, d). r \<notin> routes \<and> d \<notin> dests) (db_route_destinations (hb_main db)),
      db_check_destinations := filter (\<lambda>(c, d). c \<notin> checks \<and> d \<notin> dests) (db_check_destinations (hb_main db))\<rparr>"
  unfolding assms before_destinations_def
  by (simp add: delete_checks_def delete_routes_def deleteLinksCountOrphans_def Let_def case_prod_unfold conj_commute)

lemma before_destinations_checks:
  "hb_checks (before_destinations app db) = filter (\<lambda>c. \<not> owned_by app c) (hb_checks db)"
  "hb_probes (before_destinations app db)
     = filter (\<lambda>p. pw_check_id p \<notin> hc_ID ` set (filter (owned_by app) (hb_checks db))) (hb_probes db)"
  "hb_check_seq (before_destinations app db) = hb_check_seq db"
  by (simp_all add: before_destinations_def delete_checks_def Let_def case_prod_beta)

lemma drop_refs_eq:
  "update_where (\<lambda>x. case d_DestinationID x of None \<Rightarrow> False | Some i \<Rightarrow> i \<in> g) (\<lambda>x. x\<lparr>d_DestinationID := None\<rparr>) ds
     = map (drop_ref g) ds"
  unfolding update_where_def by (rule map_cong) (auto simp: drop_ref_def split: option.split)

lemma last_statement:
  "objects_exec DelDestinations app (before_destinations app db)
     = (Inr (count_where (owned_destination app) (db_destinations (hb_main db))), erase_app app db)"
proof -
  note main = before_destinations_main [of app db]
  have free: "\<not> list_ex (referenced (hb_main (before_destinations app db)))
      (map sd_ID (filter (owned_destination app) (db_destinations (hb_main db))))"
    unfolding main by (auto simp: list_ex_iff referenced_def)
  have "db_destinations (hb_main (before_destinations app db)) = db_destinations (hb_main db)" unfolding main by simp
  with free show ?thesis
    by (simp add: delete_destinations_def erase_app_def erase_main_def Let_def drop_refs_eq del: set_map)
      (rule heartbeat_db.equality; simp add: before_destinations_checks main)
qed

lemma orphan_count:
  "fst (deleteLinksCountOrphans owners dests links)
     = count_where (\<lambda>(i, operator). operator \<and> i \<in> fst ` set (filter (\<lambda>l. snd l \<in> set dests) links)
         \<and> i \<notin> fst ` set (filter (\<lambda>l. snd l \<notin> set dests) links)) owners"
proof (cases "filter (\<lambda>l. snd l \<in> set dests) links = []")
  case True
  then show ?thesis by (simp add: deleteLinksCountOrphans_def Let_def count_where_def case_prod_unfold)
next
  case False
  then show ?thesis by (simp add: deleteLinksCountOrphans_def Let_def count_where_def case_prod_unfold conj_commute conj_left_commute)
qed

text \<open>The orphans: rows of the operator that had a link and have none left.\<close>

definition orphans :: "('r \<Rightarrow> int) \<Rightarrow> ('r \<Rightarrow> owner_kind) \<Rightarrow> 'r list \<Rightarrow> (int \<times> int) list \<Rightarrow> (int \<times> int) list \<Rightarrow> int" where
  "orphans key owner rows links rest =
     count_where (\<lambda>r. owner r = OwnerOperator \<and> key r \<in> fst ` set links \<and> key r \<notin> fst ` set rest) rows"

lemma linked_before:
  assumes "k \<notin> gone"
  shows "(k \<in> fst ` set (filter (\<lambda>l. snd l \<in> D) (filter (\<lambda>l. fst l \<notin> gone) links))
      \<and> k \<notin> fst ` set (filter (\<lambda>l. snd l \<notin> D) (filter (\<lambda>l. fst l \<notin> gone) links)))
    \<longleftrightarrow> (k \<in> fst ` set links \<and> k \<notin> fst ` set (filter (\<lambda>(r, d). r \<notin> gone \<and> d \<notin> D) links))"
proof -
  have mem: "k \<in> fst ` set (filter P links) \<longleftrightarrow> (\<exists>d. (k, d) \<in> set links \<and> P (k, d))" for P by force
  have all: "k \<in> fst ` set links \<longleftrightarrow> (\<exists>d. (k, d) \<in> set links)" by force
  show ?thesis unfolding filter_filter mem all using assms by auto
qed

lemma orphan_count_rows:
  assumes "distinct (map key rows)" "\<And>r. own r \<Longrightarrow> owner r \<noteq> OwnerOperator"
  shows "fst (deleteLinksCountOrphans (map (\<lambda>r. (key r, owner r = OwnerOperator)) (filter (\<lambda>r. \<not> own r) rows)) dests
       (filter (\<lambda>l. fst l \<notin> key ` set (filter own rows)) links))
     = orphans key owner rows links (filter (\<lambda>(r, d). r \<notin> key ` set (filter own rows) \<and> d \<notin> set dests) links)"
proof -
  let ?gone = "key ` set (filter own rows)"
  let ?sel = "\<lambda>r. owner r = OwnerOperator
        \<and> key r \<in> fst ` set (filter (\<lambda>l. snd l \<in> set dests) (filter (\<lambda>l. fst l \<notin> ?gone) links))
        \<and> key r \<notin> fst ` set (filter (\<lambda>l. snd l \<notin> set dests) (filter (\<lambda>l. fst l \<notin> ?gone) links))"
  have out: "key r \<notin> ?gone" if "r \<in> set rows" "owner r = OwnerOperator" for r
    using that assms by (auto dest: distinct_map_inj)
  have "fst (deleteLinksCountOrphans (map (\<lambda>r. (key r, owner r = OwnerOperator)) (filter (\<lambda>r. \<not> own r) rows)) dests
       (filter (\<lambda>l. fst l \<notin> ?gone) links)) = int (length (filter ?sel (filter (\<lambda>r. \<not> own r) rows)))"
    unfolding orphan_count count_where_def by (simp only: filter_map o_def prod.case length_map)
  also have "filter ?sel (filter (\<lambda>r. \<not> own r) rows) = filter (\<lambda>r. owner r = OwnerOperator \<and> key r \<in> fst ` set links
        \<and> key r \<notin> fst ` set (filter (\<lambda>(r, d). r \<notin> ?gone \<and> d \<notin> set dests) links)) rows"
    unfolding filter_filter [of _ "\<lambda>r. \<not> own r" rows]
  proof (rule filter_cong [OF refl])
    fix r assume r: "r \<in> set rows"
    show "(\<not> own r \<and> ?sel r) = (owner r = OwnerOperator \<and> key r \<in> fst ` set links
        \<and> key r \<notin> fst ` set (filter (\<lambda>(r, d). r \<notin> ?gone \<and> d \<notin> set dests) links))"
    proof (cases "owner r = OwnerOperator")
      case True
      then have "\<not> own r" using assms(2) by blast
      with True linked_before [OF out [OF r True], of "set dests" links] show ?thesis by (simp only: simp_thms)
    qed simp
  qed
  finally show ?thesis by (simp only: orphans_def count_where_def)
qed

lemma exec_ok:
  "s \<noteq> DelDestinations \<Longrightarrow> objects_exec s app x = (Inr (projr (fst (objects_exec s app x))), snd (objects_exec s app x))"
  by (cases s) (auto split: prod.split)

lemma quiet_step:
  assumes "objects_quiet env" "objects_exec s app v = (Inr n, v')"
  shows "run_objects env app (s # ss) d \<lparr>et_committed = c, et_view = v\<rparr>
    = run_objects env app ss (objects_count s n d) \<lparr>et_committed = c, et_view = v'\<rparr>"
  using assms by (simp add: objects_quiet_def see_commits_def)

definition erased_counts :: "string \<Rightarrow> heartbeat_db \<Rightarrow> Deleted" where
  "erased_counts app db =
     (let main = hb_main db; main' = hb_main (erase_app app db)
      in \<lparr>dl_Checks = count_where (owned_by app) (hb_checks db), dl_Routes = count_where (owned_route app) (db_routes main),
          dl_Destinations = count_where (owned_destination app) (db_destinations main),
          dl_OrphanedRoutes = orphans r_id r_owner_kind (db_routes main) (db_route_destinations main) (db_route_destinations main'),
          dl_OrphanedChecks = orphans hc_ID hc_OwnerKind (hb_checks db) (db_check_destinations main) (db_check_destinations main'),
          dl_HeldMessages = count_where (held_of app) (db_messages main)\<rparr>)"

lemma DeleteOwnedObjects_quiet:
  assumes quiet: "objects_quiet env" and valid: "app_id_valid app"
    and ids: "distinct (map r_id (db_routes (hb_main db)))" "distinct (map hc_ID (hb_checks db))"
  shows "DeleteOwnedObjects env app db = (Inr (erased_counts app db), erase_app app db)"
proof -
  define x1 where "x1 = snd (objects_exec DelHeld app db)"
  define x2 where "x2 = snd (objects_exec DelChecks app x1)"
  define x3 where "x3 = snd (objects_exec DelRoutes app x2)"
  define x4 where "x4 = snd (objects_exec DelRouteLinks app x3)"
  define x5 where "x5 = snd (objects_exec DelCheckLinks app x4)"
  note xs = x1_def x2_def x3_def x4_def x5_def
  have step: "s \<noteq> DelDestinations \<Longrightarrow> run_objects env app (s # ss) d \<lparr>et_committed = c, et_view = v\<rparr>
      = run_objects env app ss (objects_count s (projr (fst (objects_exec s app v))) d) \<lparr>et_committed = c, et_view = snd (objects_exec s app v)\<rparr>"
    for s ss d c v by (rule quiet_step [OF quiet exec_ok])
  have x5: "x5 = before_destinations app db" unfolding before_destinations_def xs by (simp del: objects_exec.simps)
  have run: "run_objects env app objects_order no_Deleted \<lparr>et_committed = db, et_view = db\<rparr>
      = (Inr \<lparr>dl_Checks = projr (fst (objects_exec DelChecks app x1)), dl_Routes = projr (fst (objects_exec DelRoutes app x2)),
          dl_Destinations = count_where (owned_destination app) (db_destinations (hb_main db)),
          dl_OrphanedRoutes = projr (fst (objects_exec DelRouteLinks app x3)),
          dl_OrphanedChecks = projr (fst (objects_exec DelCheckLinks app x4)),
          dl_HeldMessages = projr (fst (objects_exec DelHeld app db))\<rparr>, \<lparr>et_committed = db, et_view = erase_app app db\<rparr>)"
    unfolding objects_order_def
    by (simp add: step xs [symmetric] x5 quiet_step [OF quiet last_statement] no_Deleted_def del: run_objects.simps(2) objects_exec.simps)
  have routes: "projr (fst (objects_exec DelRouteLinks app x3)) = dl_OrphanedRoutes (erased_counts app db)"
    using orphan_count_rows [OF ids(1), of "owned_route app" r_owner_kind "owned_destination_ids app (hb_main db)" "db_route_destinations (hb_main db)"]
    by (simp add: owned_route_def [abs_def] xs delete_checks_def delete_routes_def Let_def case_prod_unfold
        erased_counts_def erase_app_def erase_main_def)
  have checks: "projr (fst (objects_exec DelCheckLinks app x4)) = dl_OrphanedChecks (erased_counts app db)"
    using orphan_count_rows [OF ids(2), of "owned_by app" hc_OwnerKind "owned_destination_ids app (hb_main db)" "db_check_destinations (hb_main db)"]
    by (simp add: owned_by_def [abs_def] xs delete_checks_def delete_routes_def Let_def case_prod_unfold
        erased_counts_def erase_app_def erase_main_def)
  have plain: "projr (fst (objects_exec DelHeld app db)) = dl_HeldMessages (erased_counts app db)"
    "projr (fst (objects_exec DelChecks app x1)) = dl_Checks (erased_counts app db)"
    "projr (fst (objects_exec DelRoutes app x2)) = dl_Routes (erased_counts app db)"
    "count_where (owned_destination app) (db_destinations (hb_main db)) = dl_Destinations (erased_counts app db)"
    by (simp_all add: xs delete_checks_def erased_counts_def Let_def)
  show ?thesis
    using valid quiet
    by (simp add: DeleteOwnedObjects_def run plain routes checks objects_quiet_def del: objects_exec.simps)
qed

section \<open>The cascade\<close>

text \<open>A cascade that reports success ran every phase.\<close>

lemma Deprovision_success:
  assumes "Deprovision (deployed provision menv oenv) between app s = (Inr result, s')"
  shows "\<exists>s1 unbound s2 deleted status. identity_binder app (between DuringUpstream s) = (Inr unbound, s1)
    \<and> publisher_remover menv app (between BeforeRemove s1) = (Inr (), s2)
    \<and> object_store oenv app (between BeforeObjects s2) = (Inr deleted, s')
    \<and> result = \<lparr>tr_AppID = app, tr_Removed = True, tr_Unbound = unbound, tr_Deleted = deleted\<rparr>
    \<and> provision app = Inr status \<and> 200 \<le> status \<and> status \<le> 299 \<and> app_id_valid app"
  using assms
  by (auto simp: Deprovision_def deployed_def teardown_rest_def Let_def split: if_splits sum.splits prod.splits)

lemma binder_done:
  assumes "identity_binder app s = (r, s')" "app_id_valid app"
  shows "r = Inr (length (filter (\<lambda>b. br_app_id b = app) (idb_bindings (pdb_identity (tn_publishers s)))) = 1)"
    and "s' = s\<lparr>tn_publishers := (tn_publishers s)\<lparr>pdb_identity := snd (store_Unbind app (pdb_identity (tn_publishers s)))\<rparr>\<rparr>"
  using assms by (auto simp: identity_binder_def service_Unbind_def identity_ValidateAppID_def store_Unbind_def)

lemma unbind_unbound: "\<not> BindingExists app (snd (store_Unbind app db))"
  by (auto simp: BindingExists_def store_Unbind_def list_ex_iff)

lemma remover_done:
  assumes "publisher_remover env app s = (Inr (), s')"
  shows "s' = s\<lparr>tn_publishers := unlock_app app (store_Delete app (lock_app app (tn_publishers s)))\<rparr>"
  using assms
  by (auto simp: publisher_remover_def RemoveExclusive_def WithAppMintLock_def Let_def split: sum.splits if_splits prod.splits)

lemma remover_clears:
  assumes "publisher_remover env app s = (Inr (), s')" "\<not> BindingExists app (pdb_identity (tn_publishers s))"
  shows "app_clear app (tn_publishers s')"
  unfolding remover_done [OF assms(1)] using assms(2) by (auto simp: app_clear_def unlock_app_def lock_app_def store_Delete_def)

text \<open>Other requests of the tenant tables meanwhile: steps of the publisher system on one half, anything on the other.\<close>

definition tenant_calm :: "time \<Rightarrow> string \<Rightarrow> (teardown_phase \<Rightarrow> tenant_db \<Rightarrow> tenant_db) \<Rightarrow> bool" where
  "tenant_calm t app between \<longleftrightarrow>
     (\<forall>phase s. (publisher_step t {app})\<^sup>*\<^sup>* (tn_publishers s) (tn_publishers (between phase s)))"

lemma unbound_mint_closed:
  assumes "\<And>phase x. \<not> BindingExists a (pdb_identity x) \<Longrightarrow> \<not> BindingExists a (pdb_identity (mv_between env phase x))"
  shows "mint_closed svc env app (\<lambda>x. \<not> BindingExists a (pdb_identity x))"
proof -
  have "pdb_identity (snd (ReserveMintSlot now app n w x)) = pdb_identity x" for now n w x
    using reserve_frame [of now app n w x] by auto
  with assms show ?thesis by (simp add: mint_closed_def lock_app_def unlock_app_def)
qed

lemma publisher_step_unbound:
  "publisher_step t calm x y \<Longrightarrow> a \<in> calm \<Longrightarrow> \<not> BindingExists a (pdb_identity x) \<longrightarrow> \<not> BindingExists a (pdb_identity y)"
proof (induction rule: publisher_step.induct)
  case (identity db i)
  then show ?case by (auto simp: identity_calm_def)
next
  case (mint env svc db app rotating limited)
  let ?Q = "\<lambda>x. \<not> BindingExists a (pdb_identity x)"
  have "?Q y" if "(\<lambda>x y. publisher_step t calm x y \<and> (a \<in> calm \<longrightarrow> ?Q x \<longrightarrow> ?Q y))\<^sup>*\<^sup>* x y" "?Q x" for x y
    using that mint.prems by (induction rule: rtranclp_induct) auto
  with mint(1) have "\<And>phase x. ?Q x \<Longrightarrow> ?Q (mv_between env phase x)" by blast
  from mint_lift [OF unbound_mint_closed [OF this]] show ?case by blast
next
  case (remove db app)
  then show ?case by (simp add: publisher_Remove_def store_Delete_def split: sum.split)
next
  case (remove_exclusive db env app)
  then show ?case using RemoveExclusive_state [of env app db] by (auto simp: lock_app_def unlock_app_def store_Delete_def)
next
  case (sweep now db)
  then show ?case using sweep_frame [of now MintRateWindow db] by auto
qed

lemma publisher_steps_unbound:
  "(publisher_step t calm)\<^sup>*\<^sup>* x y \<Longrightarrow> a \<in> calm \<Longrightarrow> \<not> BindingExists a (pdb_identity x) \<Longrightarrow> \<not> BindingExists a (pdb_identity y)"
  by (induction rule: rtranclp_induct) (use publisher_step_unbound in blast)+

lemma Deprovision_clears:
  assumes calm: "tenant_calm t app between" "objects_calm oenv app"
    and done': "Deprovision (deployed provision menv oenv) between app s = (Inr result, s')"
  shows "app_clear app (tn_publishers s') \<and> owns_nothing app (tn_delivery s')"
proof -
  obtain s1 unbound s2 deleted where unbind: "identity_binder app (between DuringUpstream s) = (Inr unbound, s1)"
    and remove: "publisher_remover menv app (between BeforeRemove s1) = (Inr (), s2)"
    and objects: "object_store oenv app (between BeforeObjects s2) = (Inr deleted, s')" and valid: "app_id_valid app"
    using Deprovision_success [OF done'] by blast
  note steps = calm(1) [unfolded tenant_calm_def, THEN spec, THEN spec]
  have "\<not> BindingExists app (pdb_identity (tn_publishers s1))" unfolding binder_done(2) [OF unbind valid] by (simp add: unbind_unbound)
  then have "\<not> BindingExists app (pdb_identity (tn_publishers (between BeforeRemove s1)))"
    by (rule publisher_steps_unbound [OF steps, rotated]) simp
  from remover_clears [OF remove this] have "app_clear app (tn_publishers (between BeforeObjects s2))"
    by (rule publisher_steps_clear [OF steps, rotated]) simp
  moreover obtain d where d: "DeleteOwnedObjects oenv app (tn_delivery (between BeforeObjects s2)) = (Inr deleted, d)"
    and s': "s' = (between BeforeObjects s2)\<lparr>tn_delivery := d\<rparr>"
    using objects by (auto simp: object_store_def split: prod.splits)
  ultimately show ?thesis using objects_cleared [OF calm(2) d] by simp
qed

text \<open>Where the cascade fails, what it left.\<close>

lemma Deprovision_failure:
  assumes "Deprovision (deployed provision menv oenv) between app s = (Inl e, s')" "e = ErrInvalidAppID \<or> (\<exists>c. e = ErrUpstream c)"
  shows "s' = s \<or> s' = between DuringUpstream s"
  using assms
  by (auto simp: Deprovision_def deployed_def teardown_rest_def Let_def split: if_splits sum.splits prod.splits)

text \<open>By itself, with an upstream that answers and no mint in flight, the cascade succeeds and erases the app.\<close>

definition erase_tenant :: "string \<Rightarrow> tenant_db \<Rightarrow> tenant_db" where
  "erase_tenant app s =
     \<lparr>tn_publishers = unlock_app app (store_Delete app
        ((tn_publishers s)\<lparr>pdb_identity := snd (store_Unbind app (pdb_identity (tn_publishers s)))\<rparr>)),
      tn_delivery = erase_app app (tn_delivery s)\<rparr>"

lemma Deprovision_quiet:
  assumes "app_id_valid app" "provision app = Inr status" "200 \<le> status" "status \<le> 299"
    and "\<not> mv_begin_fails menv" "\<not> mv_commit_fails menv" "app \<notin> set (pdb_locks (tn_publishers s))"
    and "objects_quiet oenv"
    and ids: "distinct (map r_id (db_routes (hb_main (tn_delivery s))))" "distinct (map hc_ID (hb_checks (tn_delivery s)))"
  shows "Deprovision (deployed provision menv oenv) (\<lambda>_ x. x) app s =
    (Inr \<lparr>tr_AppID = app, tr_Removed = True, tr_Unbound = fst (store_Unbind app (pdb_identity (tn_publishers s))),
          tr_Deleted = erased_counts app (tn_delivery s)\<rparr>, erase_tenant app s)"
proof -
  obtain b i where b: "store_Unbind app (pdb_identity (tn_publishers s)) = (b, i)" by fastforce
  have bind: "identity_binder app s = (Inr b, s\<lparr>tn_publishers := (tn_publishers s)\<lparr>pdb_identity := i\<rparr>\<rparr>)"
    using assms(1) by (simp add: identity_binder_def service_Unbind_def identity_ValidateAppID_def b)
  have locked: "unlock_app app (store_Delete app (lock_app app p)) = unlock_app app (store_Delete app p)" for p
    by (simp add: unlock_app_def store_Delete_def lock_app_def)
  have remove: "publisher_remover menv app x = (Inr (), x\<lparr>tn_publishers := unlock_app app (store_Delete app (tn_publishers x))\<rparr>)"
    if "app \<notin> set (pdb_locks (tn_publishers x))" for x
    using assms(1,5,6) that
    by (simp add: publisher_remover_def RemoveExclusive_def WithAppMintLock_def publisher_ValidateAppID_def Let_def locked)
  show ?thesis
    using assms(1-4,7)
    by (simp add: Deprovision_def deployed_def teardown_rest_def Let_def bind remove object_store_def
        DeleteOwnedObjects_quiet [OF assms(8) _ ids] erase_tenant_def b)
qed

text \<open>Repeating it changes nothing more and counts nothing.\<close>

lemma drop_ref_none [simp]: "drop_ref {} = (\<lambda>x. x)"
  by (rule ext) (simp add: drop_ref_def split: option.split)

lemma delete_messages_none [simp]: "delete_messages {} main = main"
  by (simp add: delete_messages_def Let_def)

lemma owns_nothing_none:
  assumes "owns_nothing app db"
  shows "filter (held_of app) (db_messages (hb_main db)) = []" "filter (owned_by app) (hb_checks db) = []"
    "filter (owned_route app) (db_routes (hb_main db)) = []" "filter (owned_destination app) (db_destinations (hb_main db)) = []"
    "filter (\<lambda>c. \<not> owned_by app c) (hb_checks db) = hb_checks db"
    "filter (\<lambda>r. \<not> owned_route app r) (db_routes (hb_main db)) = db_routes (hb_main db)"
    "filter (\<lambda>d. \<not> owned_destination app d) (db_destinations (hb_main db)) = db_destinations (hb_main db)"
  using assms by (simp_all add: owns_nothing_def objects_order_def list_all_iff filter_empty_conv filter_id_conv)

lemma erase_app_again:
  assumes "owns_nothing app db"
  shows "erase_app app db = db" "erased_counts app db = no_Deleted"
proof -
  note none = owns_nothing_none [OF assms]
  show same: "erase_app app db = db"
    by (simp only: erase_app_def erase_main_def Let_def none list.set image_empty delete_messages_none list.map) simp
  show "erased_counts app db = no_Deleted"
    unfolding erased_counts_def same Let_def
    by (simp add: count_where_def orphans_def no_Deleted_def none filter_empty_conv)
qed

lemma erase_app_clears: "owns_nothing app (erase_app app db)"
  by (auto simp: owns_nothing_def objects_order_def erase_app_def erase_main_def delete_messages_def Let_def list_all_iff)

lemma Unbind_again: "store_Unbind app (snd (store_Unbind app db)) = (False, snd (store_Unbind app db))"
  using unbind_unbound [of app db] by (simp add: store_Unbind_def)

lemma erase_tenant_again: "erase_tenant app (erase_tenant app s) = erase_tenant app s"
  by (simp add: erase_tenant_def erase_app_again [OF erase_app_clears] Unbind_again unlock_app_def store_Delete_def)

lemma erase_tenant_ids:
  "distinct (map r_id (db_routes (hb_main (tn_delivery s)))) \<Longrightarrow>
     distinct (map r_id (db_routes (hb_main (tn_delivery (erase_tenant app s)))))"
  "distinct (map hc_ID (hb_checks (tn_delivery s))) \<Longrightarrow> distinct (map hc_ID (hb_checks (tn_delivery (erase_tenant app s))))"
  by (simp_all add: erase_tenant_def erase_app_def erase_main_def Let_def distinct_map_filter_sub)

end
