(* ===== verification/Key_Rotation.thy ===== *)
theory Key_Rotation
  imports Seal App_Teardown
begin

text \<open>
  Re-sealing every stored secret under a new master key (\<^verbatim>\<open>delivery-api/internal/keyrotation\<close>): the registry
  of sealed columns, the run that re-seals row by row, and the run that verifies. A table is its name, how
  the additional data of a row follows from its key, the rows that the SELECT returns, and the conditional
  UPDATE of one row. What the database, the random source and other sessions do is in \<open>rotate_env\<close>.
\<close>

section \<open>The registry of sealed columns\<close>

type_synonym sealed_row = "string \<times> string option"

record 'db SealedTable =
  st_Table :: string
  st_KeyColumn :: string
  st_SealedColumn :: string
  st_Nullable :: bool
  st_AAD :: "string \<Rightarrow> string option"
  st_select :: "'db \<Rightarrow> sealed_row list"
  st_update :: "string \<Rightarrow> string \<Rightarrow> string \<Rightarrow> 'db \<Rightarrow> bool \<times> 'db"

text \<open>
  \<^verbatim>\<open>UPDATE \<dots> SET sealed = new WHERE key::text = k AND sealed = old\<close> on a list of rows: whether exactly one
  row matched, and the rows after it.
\<close>

definition update_sealed_rows ::
  "('r \<Rightarrow> string) \<Rightarrow> ('r \<Rightarrow> string option) \<Rightarrow> (string \<Rightarrow> 'r \<Rightarrow> 'r) \<Rightarrow> string \<Rightarrow> string \<Rightarrow> string \<Rightarrow> 'r list \<Rightarrow> bool \<times> 'r list" where
  "update_sealed_rows key sealed put k old new rows =
     (let hit = (\<lambda>r. key r = k \<and> sealed r = Some old)
      in (length (filter hit rows) = 1, update_where hit (put new) rows))"

definition on_destinations :: "(stored_destination list \<Rightarrow> bool \<times> stored_destination list) \<Rightarrow> tenant_db \<Rightarrow> bool \<times> tenant_db" where
  "on_destinations f db =
     (let hb = tn_delivery db
      in case f (db_destinations (hb_main hb)) of (matched, ds) \<Rightarrow>
           (matched, db\<lparr>tn_delivery := hb\<lparr>hb_main := (hb_main hb)\<lparr>db_destinations := ds\<rparr>\<rparr>\<rparr>))"

definition on_publishers :: "(stored_publisher list \<Rightarrow> bool \<times> stored_publisher list) \<Rightarrow> tenant_db \<Rightarrow> bool \<times> tenant_db" where
  "on_publishers f db =
     (case f (pdb_publishers (tn_publishers db)) of (matched, ps) \<Rightarrow>
        (matched, db\<lparr>tn_publishers := (tn_publishers db)\<lparr>pdb_publishers := ps\<rparr>\<rparr>))"

definition on_probes :: "(probe_row list \<Rightarrow> bool \<times> probe_row list) \<Rightarrow> tenant_db \<Rightarrow> bool \<times> tenant_db" where
  "on_probes f db =
     (case f (hb_probes (tn_delivery db)) of (matched, ps) \<Rightarrow>
        (matched, db\<lparr>tn_delivery := (tn_delivery db)\<lparr>hb_probes := ps\<rparr>\<rparr>))"

definition destinations_table :: "tenant_db SealedTable" where
  "destinations_table =
     \<lparr>st_Table = ''destinations'', st_KeyColumn = ''name'', st_SealedColumn = ''sealed_secrets'', st_Nullable = False,
      st_AAD = (\<lambda>rowKey. Some (DestinationSecretsAAD rowKey)),
      st_select = (\<lambda>db. map (\<lambda>d. (sd_Name d, Some (sd_SealedSecrets d))) (db_destinations (hb_main (tn_delivery db)))),
      st_update = (\<lambda>k old new. on_destinations
        (update_sealed_rows sd_Name (\<lambda>d. Some (sd_SealedSecrets d)) (\<lambda>v d. d\<lparr>sd_SealedSecrets := v\<rparr>) k old new))\<rparr>"

definition publishers_table :: "tenant_db SealedTable" where
  "publishers_table =
     \<lparr>st_Table = ''app_publishers'', st_KeyColumn = ''app_id'', st_SealedColumn = ''sealed_token'', st_Nullable = False,
      st_AAD = (\<lambda>rowKey. Some (TokenAAD rowKey)),
      st_select = (\<lambda>db. map (\<lambda>p. (pb_AppID p, Some (pb_SealedToken p))) (pdb_publishers (tn_publishers db))),
      st_update = (\<lambda>k old new. on_publishers
        (update_sealed_rows pb_AppID (\<lambda>p. Some (pb_SealedToken p)) (\<lambda>v p. p\<lparr>pb_SealedToken := v\<rparr>) k old new))\<rparr>"

definition probes_table :: "tenant_db SealedTable" where
  "probes_table =
     \<lparr>st_Table = ''heartbeat_check_probes'', st_KeyColumn = ''check_id'', st_SealedColumn = ''sealed_access_headers'',
      st_Nullable = True, st_AAD = (\<lambda>rowKey. map_option ProbeAccessAAD (Atoi rowKey)),
      st_select = (\<lambda>db. map (\<lambda>p. (dec_int (pw_check_id p), pw_sealed p)) (hb_probes (tn_delivery db))),
      st_update = (\<lambda>k old new. on_probes
        (update_sealed_rows (\<lambda>p. dec_int (pw_check_id p)) pw_sealed (\<lambda>v p. p\<lparr>pw_sealed := Some v\<rparr>) k old new))\<rparr>"

definition Registry :: "tenant_db SealedTable list" where
  "Registry = [destinations_table, publishers_table, probes_table]"

type_synonym sealed_column = "string \<times> string"

definition CoverageGaps :: "sealed_column list \<Rightarrow> 'db SealedTable list \<Rightarrow> sealed_column list \<times> sealed_column list" where
  "CoverageGaps found tables =
     (let registered = map (\<lambda>t. (st_Table t, st_SealedColumn t)) tables
      in (filter (\<lambda>c. c \<notin> set registered) found, filter (\<lambda>c. c \<notin> set found) registered))"

section \<open>Reports\<close>

datatype reason = ReasonDecryptFailed | ReasonMalformed | ReasonUnsupportedVersion | ReasonChangedConcurrently

record RowIssue =
  ri_Table :: string
  ri_RowKey :: string
  ri_Reason :: reason

record TableCounts =
  ct_Scanned :: int
  ct_Rotated :: int
  ct_AlreadyCurrent :: int
  ct_SkippedNull :: int
  ct_Failed :: int

definition no_counts_yet :: TableCounts where
  "no_counts_yet = \<lparr>ct_Scanned = 0, ct_Rotated = 0, ct_AlreadyCurrent = 0, ct_SkippedNull = 0, ct_Failed = 0\<rparr>"

record Report =
  rp_Tables :: "(string \<times> TableCounts) list"
  rp_Issues :: "RowIssue list"

datatype rotation_error =
    NeedsSealer string
  | RunAborted string
  | ErrIncomplete

definition reasonFor :: "seal_error \<Rightarrow> reason" where
  "reasonFor e =
     (case e of ErrUnsupportedVersion \<Rightarrow> ReasonUnsupportedVersion | ErrMalformed \<Rightarrow> ReasonMalformed | _ \<Rightarrow> ReasonDecryptFailed)"

text \<open>How a row ended; an abort carries the error of the run.\<close>

datatype row_outcome = RowNull | RowCurrent | RowRotated | RowHasIssue reason | RowAborts string

fun count_row :: "row_outcome \<Rightarrow> TableCounts \<Rightarrow> TableCounts" where
  "count_row RowNull c = c\<lparr>ct_Scanned := ct_Scanned c + 1, ct_SkippedNull := ct_SkippedNull c + 1\<rparr>"
| "count_row RowCurrent c = c\<lparr>ct_Scanned := ct_Scanned c + 1, ct_AlreadyCurrent := ct_AlreadyCurrent c + 1\<rparr>"
| "count_row RowRotated c = c\<lparr>ct_Scanned := ct_Scanned c + 1, ct_Rotated := ct_Rotated c + 1\<rparr>"
| "count_row (RowHasIssue _) c = c\<lparr>ct_Scanned := ct_Scanned c + 1, ct_Failed := ct_Failed c + 1\<rparr>"
| "count_row (RowAborts _) c = c\<lparr>ct_Scanned := ct_Scanned c + 1\<rparr>"

definition issues_of :: "string \<Rightarrow> string \<Rightarrow> row_outcome \<Rightarrow> RowIssue list" where
  "issues_of table key outcome =
     (case outcome of RowHasIssue r \<Rightarrow> [\<lparr>ri_Table = table, ri_RowKey = key, ri_Reason = r\<rparr>] | _ \<Rightarrow> [])"

section \<open>Rotate\<close>

text \<open>
  The order in which Postgres returns the rows of a table, which reads, hooks and updates fail, the random
  bytes of each row's nonce, and what other sessions commit before a row's update. The hook
  \<^verbatim>\<open>BeforeUpdate\<close> is nil in production.
\<close>

record 'db rotate_env =
  ro_order :: "string \<Rightarrow> sealed_row list \<Rightarrow> sealed_row list"
  ro_load_fails :: "string \<Rightarrow> bool"
  ro_random :: "string \<Rightarrow> string \<Rightarrow> string"
  ro_hook_fails :: "string \<Rightarrow> string \<Rightarrow> bool"
  ro_update_fails :: "string \<Rightarrow> string \<Rightarrow> bool"
  ro_between :: "string \<Rightarrow> string \<Rightarrow> 'db \<Rightarrow> 'db"

definition loadRows :: "'db rotate_env \<Rightarrow> 'db SealedTable \<Rightarrow> 'db \<Rightarrow> string + sealed_row list" where
  "loadRows env table db =
     (if ro_load_fails env (st_Table table) then Inl ''read table''
      else Inr (ro_order env (st_Table table) (st_select table db)))"

definition updateSealed ::
  "'db rotate_env \<Rightarrow> 'db SealedTable \<Rightarrow> string \<Rightarrow> string \<Rightarrow> string \<Rightarrow> 'db \<Rightarrow> (string + bool) \<times> 'db" where
  "updateSealed env table key sealed resealed db0 =
     (let db = ro_between env (st_Table table) key db0
      in if ro_update_fails env (st_Table table) key then (Inl ''update'', db)
         else case st_update table key sealed resealed db of (matched, db') \<Rightarrow> (Inr matched, db'))"

definition rotate_row :: "sealer \<Rightarrow> 'db rotate_env \<Rightarrow> 'db SealedTable \<Rightarrow> sealed_row \<Rightarrow> 'db \<Rightarrow> row_outcome \<times> 'db" where
  "rotate_row s env table row db =
     (case row of (key, sealed) \<Rightarrow>
        case sealed of None \<Rightarrow> (RowNull, db)
        | Some box \<Rightarrow>
            (case st_AAD table key of None \<Rightarrow> (RowHasIssue ReasonMalformed, db)
             | Some aad \<Rightarrow>
                 (case OpenReportingKey s box aad of
                    Inl e \<Rightarrow> (RowHasIssue (reasonFor e), db)
                  | Inr (plaintext, used) \<Rightarrow>
                      if used = KeyPrimary then (RowCurrent, db)
                      else case sealer_Seal s (ro_random env (st_Table table) key) plaintext aad of
                             Inl e \<Rightarrow> (RowAborts ''reseal'', db)
                           | Inr resealed \<Rightarrow>
                               if ro_hook_fails env (st_Table table) key then (RowAborts ''before update'', db)
                               else case updateSealed env table key box resealed db of
                                      (Inl e, db') \<Rightarrow> (RowAborts e, db')
                                    | (Inr matched, db') \<Rightarrow>
                                        (if matched then RowRotated else RowHasIssue ReasonChangedConcurrently, db'))))"

fun rotate_rows ::
  "sealer \<Rightarrow> 'db rotate_env \<Rightarrow> 'db SealedTable \<Rightarrow> sealed_row list \<Rightarrow> TableCounts \<Rightarrow> RowIssue list \<Rightarrow> 'db
   \<Rightarrow> (string option \<times> TableCounts \<times> RowIssue list) \<times> 'db" where
  "rotate_rows s env table [] counts issues db = ((None, counts, issues), db)"
| "rotate_rows s env table (row # rows) counts issues db =
     (case rotate_row s env table row db of
        (outcome, db') \<Rightarrow>
          (let counts' = count_row outcome counts; issues' = issues @ issues_of (st_Table table) (fst row) outcome
           in case outcome of
                RowAborts e \<Rightarrow> ((Some e, counts', issues'), db')
              | _ \<Rightarrow> rotate_rows s env table rows counts' issues' db'))"

fun rotate_tables ::
  "sealer \<Rightarrow> 'db rotate_env \<Rightarrow> 'db SealedTable list \<Rightarrow> Report \<Rightarrow> 'db \<Rightarrow> (Report \<times> rotation_error option) \<times> 'db" where
  "rotate_tables s env [] report db = ((report, if rp_Issues report \<noteq> [] then Some ErrIncomplete else None), db)"
| "rotate_tables s env (table # tables) report db =
     (case loadRows env table db of
        Inl e \<Rightarrow> ((report\<lparr>rp_Tables := rp_Tables report @ [(st_Table table, no_counts_yet)]\<rparr>, Some (RunAborted e)), db)
      | Inr rows \<Rightarrow>
          (case rotate_rows s env table rows no_counts_yet (rp_Issues report) db of
             ((abort, counts, issues), db') \<Rightarrow>
               (let report' = \<lparr>rp_Tables = rp_Tables report @ [(st_Table table, counts)], rp_Issues = issues\<rparr>
                in case abort of
                     Some e \<Rightarrow> ((report', Some (RunAborted e)), db')
                   | None \<Rightarrow> rotate_tables s env tables report' db')))"

definition empty_report :: Report where
  "empty_report = \<lparr>rp_Tables = [], rp_Issues = []\<rparr>"

definition Rotate ::
  "sealer option \<Rightarrow> 'db rotate_env \<Rightarrow> 'db SealedTable list \<Rightarrow> 'db \<Rightarrow> (Report \<times> rotation_error option) \<times> 'db" where
  "Rotate sealer env tables db =
     (case sealer of
        None \<Rightarrow> ((empty_report, Some (NeedsSealer ''key rotation needs a sealer with both a primary and a previous key'')), db)
      | Some s \<Rightarrow>
          if \<not> HasPrevious s
          then ((empty_report, Some (NeedsSealer ''key rotation needs a sealer with both a primary and a previous key'')), db)
          else rotate_tables s env tables empty_report db)"

section \<open>Verify\<close>

definition verify_row :: "sealer \<Rightarrow> 'db SealedTable \<Rightarrow> sealed_row \<Rightarrow> row_outcome" where
  "verify_row primaryOnly table row =
     (case row of (key, sealed) \<Rightarrow>
        case sealed of None \<Rightarrow> RowNull
        | Some box \<Rightarrow>
            (case st_AAD table key of None \<Rightarrow> RowHasIssue ReasonMalformed
             | Some aad \<Rightarrow>
                 (case OpenReportingKey primaryOnly box aad of Inl e \<Rightarrow> RowHasIssue (reasonFor e) | Inr _ \<Rightarrow> RowCurrent)))"

fun verify_tables :: "sealer \<Rightarrow> 'db rotate_env \<Rightarrow> 'db SealedTable list \<Rightarrow> Report \<Rightarrow> 'db \<Rightarrow> Report \<times> rotation_error option" where
  "verify_tables p env [] report db = (report, if rp_Issues report \<noteq> [] then Some ErrIncomplete else None)"
| "verify_tables p env (table # tables) report db =
     (case loadRows env table db of
        Inl e \<Rightarrow> (report\<lparr>rp_Tables := rp_Tables report @ [(st_Table table, no_counts_yet)]\<rparr>, Some (RunAborted e))
      | Inr rows \<Rightarrow>
          verify_tables p env tables
            \<lparr>rp_Tables = rp_Tables report @ [(st_Table table, foldl (\<lambda>c r. count_row (verify_row p table r) c) no_counts_yet rows)],
             rp_Issues = rp_Issues report @ concat (map (\<lambda>r. issues_of (st_Table table) (fst r) (verify_row p table r)) rows)\<rparr> db)"

definition verifyTables ::
  "sealer option \<Rightarrow> 'db rotate_env \<Rightarrow> 'db SealedTable list \<Rightarrow> 'db \<Rightarrow> Report \<times> rotation_error option" where
  "verifyTables sealer env tables db =
     (case sealer of None \<Rightarrow> (empty_report, Some (NeedsSealer ''key verification needs a sealer''))
      | Some s \<Rightarrow> verify_tables (PrimaryOnly s) env tables empty_report db)"

definition rotation_Verify :: "sealer option \<Rightarrow> tenant_db rotate_env \<Rightarrow> tenant_db \<Rightarrow> Report \<times> rotation_error option" where
  "rotation_Verify sealer env db = verifyTables sealer env Registry db"

end
