(* ===== verification/Rotation_Laws.thy ===== *)
theory Rotation_Laws
  imports Key_Rotation
begin

text \<open>
  What a rotation keeps and reaches, over any tables with the laws of the locale \<open>sealed_tables\<close>: keys are
  unique, the conditional update of a row changes that row's value alone and only if it still is the one
  that was read, and the tables are independent. The registry of the delivery API is an interpretation.
\<close>

section \<open>What a row says\<close>

definition opened :: "sealer \<Rightarrow> 'db SealedTable \<Rightarrow> sealed_row \<Rightarrow> string option" where
  "opened s t row =
     (case row of (key, sealed) \<Rightarrow>
        case sealed of None \<Rightarrow> None
        | Some box \<Rightarrow>
            (case st_AAD t key of None \<Rightarrow> None
             | Some aad \<Rightarrow> (case sealer_Open s box aad of Inl _ \<Rightarrow> None | Inr p \<Rightarrow> Some p)))"

definition secrets :: "sealer \<Rightarrow> 'db SealedTable \<Rightarrow> 'db \<Rightarrow> (string \<times> string option) list" where
  "secrets s t db = map (\<lambda>r. (fst r, opened s t r)) (st_select t db)"

definition put_row :: "string \<Rightarrow> string \<Rightarrow> sealed_row \<Rightarrow> sealed_row" where
  "put_row k new r = (if fst r = k then (k, Some new) else r)"

text \<open>A value a rotation writes: it opens under the primary key, to what the old value opened to.\<close>

lemma resealed_opens:
  assumes "aead_documented (sr_aead s)" "st_AAD t k = Some aad" "OpenReportingKey s box aad = Inr (p, used)"
    and "sealer_Seal s random p aad = Inr new"
  shows "opened s t (k, Some new) = opened s t (k, Some box)" "opened (PrimaryOnly s) t (k, Some new) = opened s t (k, Some box)"
    "OpenReportingKey s new aad = Inr (p, KeyPrimary)"
proof -
  have "OpenReportingKey s new aad = Inr (p, KeyPrimary)" "OpenReportingKey (PrimaryOnly s) new aad = Inr (p, KeyPrimary)"
    using Open_Seal [OF assms(1,4), of s] Open_Seal [OF assms(1,4), of "PrimaryOnly s"] by (simp_all add: PrimaryOnly_def)
  with assms(2,3) show "opened s t (k, Some new) = opened s t (k, Some box)"
    "opened (PrimaryOnly s) t (k, Some new) = opened s t (k, Some box)" "OpenReportingKey s new aad = Inr (p, KeyPrimary)"
    by (simp_all add: opened_def sealer_Open_def)
qed

text \<open>A row that needs no rotation: nothing is stored, or the value opens under the primary key.\<close>

definition fresh_row :: "sealer \<Rightarrow> 'db SealedTable \<Rightarrow> sealed_row \<Rightarrow> bool" where
  "fresh_row s t row \<longleftrightarrow> verify_row (PrimaryOnly s) t row \<in> {RowNull, RowCurrent}"

definition openable :: "sealer \<Rightarrow> 'db SealedTable \<Rightarrow> sealed_row \<Rightarrow> bool" where
  "openable s t row \<longleftrightarrow> snd row = None \<or> opened s t row \<noteq> None"

lemma fresh_row_opened: "fresh_row s t row \<Longrightarrow> opened (PrimaryOnly s) t row = opened s t row"
  by (auto simp: fresh_row_def verify_row_def opened_def sealer_Open_def Open_PrimaryOnly
      split: prod.splits option.splits sum.splits key_used.splits)

lemma fresh_row_primary:
  "st_AAD t k = Some aad \<Longrightarrow> OpenReportingKey s box aad = Inr (p, KeyPrimary) \<Longrightarrow> fresh_row s t (k, Some box)"
  by (simp add: fresh_row_def verify_row_def Open_PrimaryOnly)

text \<open>Nothing else commits during the run, and a SELECT returns its rows in some order.\<close>

definition rotation_alone :: "'db rotate_env \<Rightarrow> bool" where
  "rotation_alone env \<longleftrightarrow> (\<forall>table key x. ro_between env table key x = x) \<and> (\<forall>table rows. mset (ro_order env table rows) = mset rows)"

definition rotation_steady :: "'db rotate_env \<Rightarrow> bool" where
  "rotation_steady env \<longleftrightarrow> (\<forall>table. \<not> ro_load_fails env table)
     \<and> (\<forall>table key. \<not> ro_hook_fails env table key \<and> \<not> ro_update_fails env table key \<and> nonceSize \<le> length (ro_random env table key))"

lemma loadRows_alone: "rotation_alone env \<Longrightarrow> loadRows env t db = Inr rows \<Longrightarrow> mset rows = mset (st_select t db)"
  by (auto simp: loadRows_def rotation_alone_def split: if_splits)

definition row_fine :: "row_outcome \<Rightarrow> bool" where
  "row_fine outcome \<longleftrightarrow> outcome \<in> {RowNull, RowCurrent, RowRotated}"

lemma rotate_row_rotated:
  assumes "rotate_row s env t (k, v) db = (RowRotated, db')"
  shows "\<exists>box aad p new. v = Some box \<and> st_AAD t k = Some aad \<and> OpenReportingKey s box aad = Inr (p, KeyPrevious)
    \<and> sealer_Seal s (ro_random env (st_Table t) k) p aad = Inr new
    \<and> st_update t k box new (ro_between env (st_Table t) k db) = (True, db')"
proof -
  obtain box where box: "v = Some box" using assms by (cases v) (auto simp: rotate_row_def)
  obtain aad where aad: "st_AAD t k = Some aad" using assms by (cases "st_AAD t k") (auto simp: rotate_row_def box)
  obtain p used where p: "OpenReportingKey s box aad = Inr (p, used)"
    using assms by (cases "OpenReportingKey s box aad") (auto simp: rotate_row_def box aad)
  have used: "used = KeyPrevious" using assms by (cases used) (auto simp: rotate_row_def box aad p)
  obtain new where new: "sealer_Seal s (ro_random env (st_Table t) k) p aad = Inr new"
    using assms by (cases "sealer_Seal s (ro_random env (st_Table t) k) p aad") (auto simp: rotate_row_def box aad p used)
  have "st_update t k box new (ro_between env (st_Table t) k db) = (True, db')"
    using assms by (auto simp: rotate_row_def updateSealed_def Let_def box aad p used new split: if_splits prod.splits)
  with box aad p used new show ?thesis by blast
qed

lemma rotate_rows_issues:
  "rotate_rows s env t rows c i db = ((a, c', i'), db') \<Longrightarrow> \<exists>more. i' = i @ more"
proof (induction rows arbitrary: c i db)
  case (Cons row rows)
  obtain outcome db1 where row: "rotate_row s env t row db = (outcome, db1)" by fastforce
  have "\<exists>more. i' = (i @ issues_of (st_Table t) (fst row) outcome) @ more"
  proof (cases "\<exists>e. outcome = RowAborts e")
    case True
    with Cons.prems row show ?thesis by (auto simp: Let_def)
  next
    case False
    with Cons.prems row have "rotate_rows s env t rows (count_row outcome c) (i @ issues_of (st_Table t) (fst row) outcome) db1 = ((a, c', i'), db')"
      by (auto simp: Let_def split: row_outcome.splits)
    then show ?thesis by (rule Cons.IH)
  qed
  then show ?case by auto
qed simp

text \<open>A run over rows that reports no issue and no abort had a fine outcome at every row.\<close>

lemma rotate_rows_fine:
  assumes "rotate_rows s env t (row # rows) c [] db = ((None, c', []), db')" "rotate_row s env t row db = (outcome, db1)"
  shows "row_fine outcome \<and> rotate_rows s env t rows (count_row outcome c) [] db1 = ((None, c', []), db')"
proof -
  have "\<not> (\<exists>r. outcome = RowHasIssue r)"
  proof
    assume "\<exists>r. outcome = RowHasIssue r"
    then obtain r where r: "outcome = RowHasIssue r" by blast
    with assms have "rotate_rows s env t rows (count_row outcome c)
        [\<lparr>ri_Table = st_Table t, ri_RowKey = fst row, ri_Reason = r\<rparr>] db1 = ((None, c', []), db')"
      by (simp add: Let_def issues_of_def)
    from rotate_rows_issues [OF this] show False by simp
  qed
  with assms show ?thesis by (cases outcome) (auto simp: Let_def row_fine_def issues_of_def)
qed

lemma rotate_tables_issues:
  "rp_Issues report \<noteq> [] \<Longrightarrow> snd (fst (rotate_tables s env ts report db)) \<noteq> None"
proof (induction ts arbitrary: report db)
  case (Cons t ts)
  show ?case
  proof (cases "loadRows env t db")
    case (Inr rows)
    obtain a c i db' where run: "rotate_rows s env t rows no_counts_yet (rp_Issues report) db = ((a, c, i), db')"
      by (metis prod.collapse)
    have "i \<noteq> []" using rotate_rows_issues [OF run] Cons.prems by auto
    then show ?thesis using Cons.IH by (simp add: Inr run Let_def split: option.split)
  qed simp
qed simp

section \<open>The laws of the tables\<close>

locale sealed_tables =
  fixes tables :: "'db SealedTable list" and inv :: "'db \<Rightarrow> bool"
  assumes names: "distinct (map st_Table tables)"
    and keys: "t \<in> set tables \<Longrightarrow> inv db \<Longrightarrow> distinct (map fst (st_select t db))"
    and hit: "t \<in> set tables \<Longrightarrow> inv db \<Longrightarrow> (k, Some old) \<in> set (st_select t db) \<Longrightarrow>
        fst (st_update t k old new db) \<and> st_select t (snd (st_update t k old new db)) = map (put_row k new) (st_select t db)"
    and miss: "t \<in> set tables \<Longrightarrow> inv db \<Longrightarrow> (k, Some old) \<notin> set (st_select t db) \<Longrightarrow> st_update t k old new db = (False, db)"
    and keeps: "t \<in> set tables \<Longrightarrow> inv db \<Longrightarrow> inv (snd (st_update t k old new db))"
    and frame: "t \<in> set tables \<Longrightarrow> t' \<in> set tables \<Longrightarrow> st_Table t' \<noteq> st_Table t \<Longrightarrow>
        st_select t' (snd (st_update t k old new db)) = st_select t' db"
begin

definition view :: "sealer \<Rightarrow> 'db \<Rightarrow> (string \<times> string option) list list" where
  "view s db = map (\<lambda>t. secrets s t db) tables"

lemma same_table: "t \<in> set tables \<Longrightarrow> t' \<in> set tables \<Longrightarrow> st_Table t' = st_Table t \<Longrightarrow> t' = t"
  using names by (auto dest: distinct_map_inj)

lemma update_opened:
  assumes t: "t \<in> set tables" and inv: "inv db" and same: "opened s t (k, Some new) = opened s t (k, Some old)"
  shows "view s (snd (st_update t k old new db)) = view s db"
proof -
  have "secrets s t' (snd (st_update t k old new db)) = secrets s t' db" if t': "t' \<in> set tables" for t'
  proof (cases "st_Table t' = st_Table t \<and> (k, Some old) \<in> set (st_select t db)")
    case True
    then have eq: "t' = t" using same_table [OF t t'] by blast
    have rows: "st_select t (snd (st_update t k old new db)) = map (put_row k new) (st_select t db)"
      using hit [OF t inv] True by blast
    have "(fst (put_row k new r), opened s t (put_row k new r)) = (fst r, opened s t r)" if r: "r \<in> set (st_select t db)" for r
    proof (cases "fst r = k")
      case True
      with r keys [OF t inv] \<open>_ \<and> (k, Some old) \<in> _\<close> have "r = (k, Some old)" by (auto dest: distinct_map_inj)
      with same show ?thesis by (simp add: put_row_def)
    qed (simp add: put_row_def)
    then show ?thesis unfolding eq secrets_def rows by simp
  next
    case False
    then show ?thesis using frame [OF t t'] miss [OF t inv] by (auto simp: secrets_def)
  qed
  then show ?thesis by (simp add: view_def)
qed

section \<open>Nothing is lost\<close>

lemma row_safe:
  assumes gcm: "aead_documented (sr_aead s)" and t: "t \<in> set tables"
    and between: "\<And>table key x. inv x \<Longrightarrow> Q (view s x) \<Longrightarrow> inv (ro_between env table key x) \<and> Q (view s (ro_between env table key x))"
    and q: "inv db" "Q (view s db)"
  shows "inv (snd (rotate_row s env t row db)) \<and> Q (view s (snd (rotate_row s env t row db)))"
proof -
  obtain k sealed where row: "row = (k, sealed)" by fastforce
  let ?x = "ro_between env (st_Table t) k db"
  have x: "inv ?x" "Q (view s ?x)" using between [OF q] by blast+
  have upd: "inv (snd (st_update t k box new ?x)) \<and> Q (view s (snd (st_update t k box new ?x)))"
    if "st_AAD t k = Some aad" "OpenReportingKey s box aad = Inr (p, used)" "sealer_Seal s random p aad = Inr new" for box aad p used random new
    using keeps [OF t x(1)] update_opened [OF t x(1) resealed_opens(1) [OF gcm that]] x(2) by simp
  show ?thesis
    using q x upd
    by (auto simp: row rotate_row_def updateSealed_def Let_def split: option.splits sum.splits prod.splits if_splits) (metis snd_conv)+
qed

lemma rows_safe:
  assumes gcm: "aead_documented (sr_aead s)" and t: "t \<in> set tables"
    and between: "\<And>table key x. inv x \<Longrightarrow> Q (view s x) \<Longrightarrow> inv (ro_between env table key x) \<and> Q (view s (ro_between env table key x))"
    and q: "inv db" "Q (view s db)"
  shows "inv (snd (rotate_rows s env t rows c i db)) \<and> Q (view s (snd (rotate_rows s env t rows c i db)))"
  using q
proof (induction rows arbitrary: c i db)
  case (Cons row rows)
  obtain outcome db' where row: "rotate_row s env t row db = (outcome, db')" by fastforce
  have "inv db'" "Q (view s db')" using row_safe [where Q = Q, OF gcm t between Cons.prems, of row] row by simp_all
  with Cons.IH show ?case by (simp add: row Let_def split: row_outcome.split)
qed simp

lemma rotation_safe:
  assumes gcm: "aead_documented (sr_aead s)" and ts: "set ts \<subseteq> set tables"
    and between: "\<And>table key x. inv x \<Longrightarrow> Q (view s x) \<Longrightarrow> inv (ro_between env table key x) \<and> Q (view s (ro_between env table key x))"
    and q: "inv db" "Q (view s db)"
  shows "inv (snd (rotate_tables s env ts report db)) \<and> Q (view s (snd (rotate_tables s env ts report db)))"
  using ts q
proof (induction ts arbitrary: report db)
  case (Cons t ts)
  then have t: "t \<in> set tables" by simp
  show ?case
  proof (cases "loadRows env t db")
    case (Inr rows)
    obtain a c i db' where rows: "rotate_rows s env t rows no_counts_yet (rp_Issues report) db = ((a, c, i), db')"
      by (metis prod.collapse)
    have "inv db'" "Q (view s db')"
      using rows_safe [where Q = Q, OF gcm t between Cons.prems(2,3), of rows no_counts_yet "rp_Issues report"] rows by simp_all
    with Cons show ?thesis by (simp add: Inr rows Let_def split: option.split)
  qed (use Cons.prems in simp)
qed simp

section \<open>What a complete run reaches\<close>

text \<open>One row by itself: its key's row is fresh after it, and every other row is as it was.\<close>

lemma row_done:
  assumes gcm: "aead_documented (sr_aead s)" and t: "t \<in> set tables" and inv: "inv db" and alone: "rotation_alone env"
    and row: "(k, v) \<in> set (st_select t db)" and run: "rotate_row s env t (k, v) db = (outcome, db')" and fine: "row_fine outcome"
  shows "inv db' \<and> (\<forall>r \<in> set (st_select t db'). fst r = k \<longrightarrow> fresh_row s t r)
    \<and> (\<forall>r. fst r \<noteq> k \<longrightarrow> (r \<in> set (st_select t db') \<longleftrightarrow> r \<in> set (st_select t db)))
    \<and> (\<forall>t' \<in> set tables. st_Table t' \<noteq> st_Table t \<longrightarrow> st_select t' db' = st_select t' db)"
proof -
  have only: "r = (k, v)" if "r \<in> set (st_select t db)" "fst r = k" for r
    using that row keys [OF t inv] by (auto dest: distinct_map_inj)
  show ?thesis
  proof (cases "outcome = RowRotated")
    case False
    with fine run have same: "db' = db" "fresh_row s t (k, v)"
      by (auto simp: rotate_row_def row_fine_def updateSealed_def Let_def fresh_row_def verify_row_def Open_PrimaryOnly
          split: option.splits sum.splits prod.splits if_splits key_used.splits)
    have "fresh_row s t r" if "r \<in> set (st_select t db)" "fst r = k" for r unfolding only [OF that] by (rule same(2))
    with inv show ?thesis unfolding same(1) by simp
  next
    case True
    then obtain box aad p new where v: "v = Some box" and aad: "st_AAD t k = Some aad"
      and opens: "OpenReportingKey s box aad = Inr (p, KeyPrevious)"
      and new: "sealer_Seal s (ro_random env (st_Table t) k) p aad = Inr new"
      and upd: "db' = snd (st_update t k box new db)"
      using rotate_row_rotated [OF run [unfolded True]] alone unfolding rotation_alone_def by (metis snd_conv)
    have rows: "st_select t db' = map (put_row k new) (st_select t db)" using hit [OF t inv, of k box new] row v upd by simp
    have "fresh_row s t (k, Some new)" by (rule fresh_row_primary [OF aad resealed_opens(3) [OF gcm aad opens new]])
    then have "\<forall>r \<in> set (st_select t db'). fst r = k \<longrightarrow> fresh_row s t r" unfolding rows by (auto simp: put_row_def)
    moreover have "r \<in> set (st_select t db') \<longleftrightarrow> r \<in> set (st_select t db)" if "fst r \<noteq> k" for r
      using that unfolding rows by (force simp: put_row_def split: if_splits)
    ultimately show ?thesis using keeps [OF t inv] frame [OF t] upd by blast
  qed
qed

lemma rows_done:
  assumes gcm: "aead_documented (sr_aead s)" and t: "t \<in> set tables" and alone: "rotation_alone env"
  shows "inv db \<Longrightarrow> set rows \<subseteq> set (st_select t db) \<Longrightarrow> distinct (map fst rows) \<Longrightarrow>
    rotate_rows s env t rows c [] db = ((None, c', []), db') \<Longrightarrow>
    inv db' \<and> (\<forall>r \<in> set (st_select t db'). fst r \<in> fst ` set rows \<longrightarrow> fresh_row s t r)
    \<and> (\<forall>r. fst r \<notin> fst ` set rows \<longrightarrow> (r \<in> set (st_select t db') \<longleftrightarrow> r \<in> set (st_select t db)))
    \<and> (\<forall>t' \<in> set tables. st_Table t' \<noteq> st_Table t \<longrightarrow> st_select t' db' = st_select t' db)"
proof (induction rows arbitrary: c db)
  case (Cons row rows)
  obtain k v where row: "row = (k, v)" by fastforce
  obtain outcome db1 where run: "rotate_row s env t row db = (outcome, db1)" by fastforce
  note fine = rotate_rows_fine [OF Cons.prems(4) run]
  have one: "inv db1 \<and> (\<forall>r \<in> set (st_select t db1). fst r = k \<longrightarrow> fresh_row s t r)
    \<and> (\<forall>r. fst r \<noteq> k \<longrightarrow> (r \<in> set (st_select t db1) \<longleftrightarrow> r \<in> set (st_select t db)))
    \<and> (\<forall>t' \<in> set tables. st_Table t' \<noteq> st_Table t \<longrightarrow> st_select t' db1 = st_select t' db)"
    using row_done [OF gcm t Cons.prems(1) alone _ run [unfolded row]] fine Cons.prems(2) row by auto
  have k: "k \<notin> fst ` set rows" using Cons.prems(3) row by auto
  have "set rows \<subseteq> set (st_select t db1)"
  proof
    fix r assume r: "r \<in> set rows"
    then have "fst r \<noteq> k" using k by auto
    then have "r \<in> set (st_select t db1) \<longleftrightarrow> r \<in> set (st_select t db)" using one by blast
    with r Cons.prems(2) show "r \<in> set (st_select t db1)" by auto
  qed
  with Cons.IH [of db1 "count_row outcome c"] one fine Cons.prems(3)
  have later: "inv db' \<and> (\<forall>r \<in> set (st_select t db'). fst r \<in> fst ` set rows \<longrightarrow> fresh_row s t r)
    \<and> (\<forall>r. fst r \<notin> fst ` set rows \<longrightarrow> (r \<in> set (st_select t db') \<longleftrightarrow> r \<in> set (st_select t db1)))
    \<and> (\<forall>t' \<in> set tables. st_Table t' \<noteq> st_Table t \<longrightarrow> st_select t' db' = st_select t' db1)" by simp
  have "fresh_row s t r" if "r \<in> set (st_select t db')" "fst r \<in> fst ` set (row # rows)" for r
    using that later one k row by (cases "fst r \<in> fst ` set rows") auto
  moreover have "r \<in> set (st_select t db') \<longleftrightarrow> r \<in> set (st_select t db)" if "fst r \<notin> fst ` set (row # rows)" for r
  proof -
    have r: "fst r \<noteq> k" "fst r \<notin> fst ` set rows" using that row by auto
    have "r \<in> set (st_select t db') \<longleftrightarrow> r \<in> set (st_select t db1)" using later r(2) by blast
    moreover have "r \<in> set (st_select t db1) \<longleftrightarrow> r \<in> set (st_select t db)" using one r(1) by blast
    ultimately show ?thesis by blast
  qed
  ultimately show ?case using later one by auto
qed simp

lemma tables_done:
  assumes gcm: "aead_documented (sr_aead s)" and alone: "rotation_alone env"
  shows "inv db \<Longrightarrow> set ts \<subseteq> set tables \<Longrightarrow> distinct (map st_Table ts) \<Longrightarrow> rp_Issues report = [] \<Longrightarrow>
    rotate_tables s env ts report db = ((report', None), db') \<Longrightarrow>
    inv db' \<and> (\<forall>t \<in> set ts. \<forall>r \<in> set (st_select t db'). fresh_row s t r)
    \<and> (\<forall>t' \<in> set tables. st_Table t' \<notin> st_Table ` set ts \<longrightarrow> st_select t' db' = st_select t' db)"
proof (induction ts arbitrary: report db)
  case (Cons t ts)
  then have t: "t \<in> set tables" by simp
  obtain rows where rows: "loadRows env t db = Inr rows" using Cons.prems(5) by (auto split: sum.splits)
  have m: "mset rows = mset (st_select t db)" by (rule loadRows_alone [OF alone rows])
  then have set: "set rows = set (st_select t db)" by (rule mset_eq_setD)
  have dist: "distinct (map fst rows)" using keys [OF t Cons.prems(1)] m by (metis mset_eq_imp_distinct_iff mset_map)
  obtain a c i db1 where run: "rotate_rows s env t rows no_counts_yet [] db = ((a, c, i), db1)" by (metis prod.collapse)
  let ?report = "\<lparr>rp_Tables = rp_Tables report @ [(st_Table t, c)], rp_Issues = i\<rparr>"
  have a: "a = None" and rest: "rotate_tables s env ts ?report db1 = ((report', None), db')"
    using Cons.prems(4,5) by (auto simp: rows run Let_def split: option.splits)
  have "i = []"
    using rest rotate_tables_issues [of ?report s env ts db1] by fastforce
  with run a have one: "inv db1 \<and> (\<forall>r \<in> set (st_select t db1). fresh_row s t r)
      \<and> (\<forall>t' \<in> set tables. st_Table t' \<noteq> st_Table t \<longrightarrow> st_select t' db1 = st_select t' db)"
    using rows_done [OF gcm t alone Cons.prems(1) _ dist, of no_counts_yet c db1] set
    by (metis (no_types, lifting) image_eqI order_refl)
  have later: "inv db' \<and> (\<forall>t \<in> set ts. \<forall>r \<in> set (st_select t db'). fresh_row s t r)
    \<and> (\<forall>t' \<in> set tables. st_Table t' \<notin> st_Table ` set ts \<longrightarrow> st_select t' db' = st_select t' db1)"
    using Cons.IH [OF _ _ _ _ rest] one Cons.prems(2,3) \<open>i = []\<close> by simp
  have "st_Table t \<notin> st_Table ` set ts" using Cons.prems(3) by simp
  then have "st_select t db' = st_select t db1" using later t by blast
  then show ?case using later one by auto
qed simp

section \<open>A run that can be complete is\<close>

lemma row_progress:
  assumes t: "t \<in> set tables" and inv: "inv db" and alone: "rotation_alone env" and steady: "rotation_steady env"
    and row: "(k, v) \<in> set (st_select t db)" and opens: "openable s t (k, v)"
  shows "row_fine (fst (rotate_row s env t (k, v) db))"
proof (cases v)
  case (Some box)
  then obtain aad where aad: "st_AAD t k = Some aad"
    using opens by (cases "st_AAD t k") (auto simp: openable_def opened_def)
  obtain p used where p: "OpenReportingKey s box aad = Inr (p, used)"
    using opens Some aad by (cases "OpenReportingKey s box aad") (auto simp: openable_def opened_def sealer_Open_def)
  have random: "\<not> length (ro_random env (st_Table t) k) < nonceSize" using steady by (simp add: rotation_steady_def not_less)
  show ?thesis
  proof (cases used)
    case KeyPrimary
    then show ?thesis by (simp add: rotate_row_def row_fine_def Some aad p)
  next
    case KeyPrevious
    obtain new where new: "sealer_Seal s (ro_random env (st_Table t) k) p aad = Inr new"
      using random by (auto simp: sealer_Seal_def Let_def)
    have "fst (st_update t k box new db)" using hit [OF t inv, of k box new] row Some by simp
    then show ?thesis
      using alone steady
      by (simp add: rotate_row_def row_fine_def Some aad p KeyPrevious new updateSealed_def Let_def rotation_alone_def
          rotation_steady_def case_prod_beta)
  qed
qed (simp add: rotate_row_def row_fine_def)

lemma rows_progress:
  assumes gcm: "aead_documented (sr_aead s)" and t: "t \<in> set tables" and alone: "rotation_alone env" and steady: "rotation_steady env"
  shows "inv db \<Longrightarrow> set rows \<subseteq> set (st_select t db) \<Longrightarrow> distinct (map fst rows) \<Longrightarrow> \<forall>r \<in> set rows. openable s t r \<Longrightarrow>
    \<exists>c'. fst (rotate_rows s env t rows c [] db) = (None, c', [])"
proof (induction rows arbitrary: c db)
  case (Cons row rows)
  obtain k v where row: "row = (k, v)" by fastforce
  obtain outcome db1 where run: "rotate_row s env t row db = (outcome, db1)" by fastforce
  have mem: "(k, v) \<in> set (st_select t db)" using Cons.prems(2) row by auto
  have fine: "row_fine outcome"
    using row_progress [OF t Cons.prems(1) alone steady mem, of s] Cons.prems(4) row run by simp
  have one: "inv db1" "\<And>r. fst r \<noteq> k \<Longrightarrow> (r \<in> set (st_select t db1) \<longleftrightarrow> r \<in> set (st_select t db))"
    using row_done [OF gcm t Cons.prems(1) alone mem run [unfolded row] fine] by blast+
  have "set rows \<subseteq> set (st_select t db1)"
  proof
    fix r assume r: "r \<in> set rows"
    then have "fst r \<noteq> k" using Cons.prems(3) row by auto
    from one(2) [OF this] r Cons.prems(2) show "r \<in> set (st_select t db1)" by auto
  qed
  with Cons.IH [of db1 "count_row outcome c"] one(1) Cons.prems(3,4)
  have "\<exists>c'. fst (rotate_rows s env t rows (count_row outcome c) [] db1) = (None, c', [])" by simp
  with fine run show ?case by (auto simp: row_fine_def Let_def issues_of_def)
qed simp

lemma tables_progress:
  assumes gcm: "aead_documented (sr_aead s)" and alone: "rotation_alone env" and steady: "rotation_steady env"
  shows "inv db \<Longrightarrow> set ts \<subseteq> set tables \<Longrightarrow> distinct (map st_Table ts) \<Longrightarrow> rp_Issues report = [] \<Longrightarrow>
    \<forall>t \<in> set ts. \<forall>r \<in> set (st_select t db). openable s t r \<Longrightarrow>
    snd (fst (rotate_tables s env ts report db)) = None"
proof (induction ts arbitrary: report db)
  case (Cons t ts)
  then have t: "t \<in> set tables" by simp
  obtain rows where rows: "loadRows env t db = Inr rows" using steady by (simp add: loadRows_def rotation_steady_def)
  have m: "mset rows = mset (st_select t db)" by (rule loadRows_alone [OF alone rows])
  then have set: "set rows = set (st_select t db)" by (rule mset_eq_setD)
  have dist: "distinct (map fst rows)" using keys [OF t Cons.prems(1)] m by (metis mset_eq_imp_distinct_iff mset_map)
  have "\<exists>c. fst (rotate_rows s env t rows no_counts_yet [] db) = (None, c, [])"
    by (rule rows_progress [OF gcm t alone steady Cons.prems(1) _ dist]) (use set Cons.prems(5) in auto)
  then obtain c db1 where run: "rotate_rows s env t rows no_counts_yet [] db = ((None, c, []), db1)" by (metis prod.collapse)
  have one: "inv db1" "\<forall>t' \<in> set tables. st_Table t' \<noteq> st_Table t \<longrightarrow> st_select t' db1 = st_select t' db"
    using rows_done [OF gcm t alone Cons.prems(1) _ dist run] set by auto
  have "st_select t' db1 = st_select t' db" if "t' \<in> set ts" for t'
    using one(2) that Cons.prems(2,3) by (metis image_eqI list.map(2) distinct.simps(2) list.set_map set_subset_Cons subsetD)
  with Cons.IH [of db1 "\<lparr>rp_Tables = rp_Tables report @ [(st_Table t, c)], rp_Issues = []\<rparr>"] one(1) Cons.prems
  show ?case by (simp add: rows run Let_def)
qed simp

lemma verify_done:
  assumes alone: "rotation_alone env" and steady: "\<And>table. \<not> ro_load_fails env table"
  shows "rp_Issues report = [] \<Longrightarrow> \<forall>t \<in> set ts. \<forall>r \<in> set (st_select t db). fresh_row s t r \<Longrightarrow>
    snd (verify_tables (PrimaryOnly s) env ts report db) = None"
proof (induction ts arbitrary: report)
  case (Cons t ts)
  obtain rows where rows: "loadRows env t db = Inr rows" using steady by (simp add: loadRows_def)
  have set: "set rows = set (st_select t db)" by (rule mset_eq_setD [OF loadRows_alone [OF alone rows]])
  have "issues_of (st_Table t) (fst r) (verify_row (PrimaryOnly s) t r) = []" if "r \<in> set rows" for r
  proof -
    have "fresh_row s t r" using that set Cons.prems(2) by auto
    then show ?thesis by (auto simp: fresh_row_def issues_of_def)
  qed
  then have "concat (map (\<lambda>r. issues_of (st_Table t) (fst r) (verify_row (PrimaryOnly s) t r)) rows) = []" by simp
  with Cons show ?case by (simp add: rows)
qed simp

text \<open>The three together, for a run over all tables.\<close>

lemma rotation_reaches:
  assumes gcm: "aead_documented (sr_aead s)" and alone: "rotation_alone env" and inv: "inv db"
    and run: "rotate_tables s env tables empty_report db = ((report, None), db')"
  shows "\<forall>t \<in> set tables. secrets (PrimaryOnly s) t db' = secrets s t db \<and> (\<forall>r \<in> set (st_select t db'). fresh_row s t r)"
proof -
  have "inv db' \<and> view s db = view s db'"
    using rotation_safe [where Q = "\<lambda>v. view s db = v", OF gcm order_refl, of env db empty_report] alone inv run
    by (simp add: rotation_alone_def)
  then have view: "secrets s t db' = secrets s t db" if "t \<in> set tables" for t
    using that by (simp add: view_def)
  have fresh: "\<forall>r \<in> set (st_select t db'). fresh_row s t r" if "t \<in> set tables" for t
    using tables_done [OF gcm alone inv order_refl names _ run] that by (simp add: empty_report_def)
  have "secrets (PrimaryOnly s) t db' = secrets s t db'" if "t \<in> set tables" for t
    unfolding secrets_def using fresh [OF that] fresh_row_opened by fastforce
  with view fresh show ?thesis by simp
qed

end

section \<open>The registry of the delivery API\<close>

lemma update_sealed_rows_laws:
  assumes put: "\<And>v r. key (put v r) = key r" "\<And>v r. sealed (put v r) = Some v" and dist: "distinct (map key rows)"
  shows "(k, Some old) \<in> set (map (\<lambda>r. (key r, sealed r)) rows) \<Longrightarrow>
      fst (update_sealed_rows key sealed put k old new rows)
      \<and> map (\<lambda>r. (key r, sealed r)) (snd (update_sealed_rows key sealed put k old new rows))
          = map (put_row k new) (map (\<lambda>r. (key r, sealed r)) rows)"
    and "(k, Some old) \<notin> set (map (\<lambda>r. (key r, sealed r)) rows) \<Longrightarrow>
      update_sealed_rows key sealed put k old new rows = (False, rows)"
    and "map key (snd (update_sealed_rows key sealed put k old new rows)) = map key rows"
proof -
  let ?hit = "\<lambda>r. key r = k \<and> sealed r = Some old"
  {
    assume "(k, Some old) \<in> set (map (\<lambda>r. (key r, sealed r)) rows)"
    then obtain r where r: "r \<in> set rows" "key r = k" "sealed r = Some old" by auto
    have only: "r' = r" if "r' \<in> set rows" "key r' = k" for r'
      using that r dist by (auto dest: distinct_map_inj)
    have "filter ?hit rows = [r]"
    proof -
      have "filter ?hit rows = filter (\<lambda>x. key x = k) rows" using only r(3) by (intro filter_cong refl) blast
      with filter_unique [OF dist r(1)] r(2) show ?thesis by simp
    qed
    then have "length (filter ?hit rows) = 1" by simp
    moreover have "(\<lambda>r. (key r, sealed r)) (if ?hit x then put new x else x) = put_row k new (key x, sealed x)" if "x \<in> set rows" for x
    proof (cases "key x = k")
      case True
      with only [OF that] r(3) show ?thesis by (simp add: put_row_def put)
    qed (simp add: put_row_def)
    then have "map (\<lambda>r. (key r, sealed r)) (update_where ?hit (put new) rows) = map (put_row k new) (map (\<lambda>r. (key r, sealed r)) rows)"
      by (simp add: update_where_def)
    ultimately show "fst (update_sealed_rows key sealed put k old new rows)
      \<and> map (\<lambda>r. (key r, sealed r)) (snd (update_sealed_rows key sealed put k old new rows))
          = map (put_row k new) (map (\<lambda>r. (key r, sealed r)) rows)"
      by (simp only: update_sealed_rows_def Let_def fst_conv snd_conv simp_thms)
  }
  {
    assume "(k, Some old) \<notin> set (map (\<lambda>r. (key r, sealed r)) rows)"
    then have none: "\<And>r. r \<in> set rows \<Longrightarrow> \<not> ?hit r" by auto
    then have "filter ?hit rows = []" by (simp add: filter_empty_conv)
    moreover have "update_where ?hit (put new) rows = rows" by (rule update_where_none) (use none in blast)
    ultimately show "update_sealed_rows key sealed put k old new rows = (False, rows)"
      by (simp add: update_sealed_rows_def Let_def)
  }
  show "map key (snd (update_sealed_rows key sealed put k old new rows)) = map key rows"
    by (simp add: update_sealed_rows_def Let_def update_where_def put)
qed

definition sealed_keys_ok :: "tenant_db \<Rightarrow> bool" where
  "sealed_keys_ok db \<longleftrightarrow> distinct (map sd_Name (db_destinations (hb_main (tn_delivery db))))
     \<and> distinct (map pb_AppID (pdb_publishers (tn_publishers db))) \<and> distinct (map pw_check_id (hb_probes (tn_delivery db)))"

lemma sealed_keys_ok_inv: "api_inv (tn_delivery db) \<Longrightarrow> publisher_inv (tn_publishers db) \<Longrightarrow> sealed_keys_ok db"
  by (simp add: sealed_keys_ok_def api_inv_def hb_inv_def system_inv_def reg_inv_def dest_ok_def publisher_inv_def)

lemma dec_nat_inj: "dec_nat a = dec_nat b \<Longrightarrow> a = b"
  by (metis digits_value_dec of_nat_eq_iff option.inject)

lemma dec_nat_no_sign: "dec_nat n \<noteq> CHR ''-'' # s"
  using dec_nat_head [of n] by (auto simp: is_digit_def less_eq_char_def)

lemma dec_int_inj: "dec_int a = dec_int b \<longleftrightarrow> a = b"
proof
  assume eq: "dec_int a = dec_int b"
  have sign: "(a < 0) = (b < 0)" using eq dec_nat_no_sign by (metis dec_int_def)
  show "a = b"
  proof (cases "a < 0")
    case True
    with eq sign have "dec_nat (nat (- a)) = dec_nat (nat (- b))" by (simp add: dec_int_def)
    from dec_nat_inj [OF this] True sign show ?thesis by simp
  next
    case False
    with eq sign have "dec_nat (nat a) = dec_nat (nat b)" by (simp add: dec_int_def)
    from dec_nat_inj [OF this] False sign show ?thesis by simp
  qed
qed simp

lemma distinct_dec: "distinct (map pw_check_id ps) \<Longrightarrow> distinct (map (\<lambda>p. dec_int (pw_check_id p)) ps)"
  by (auto simp: distinct_map inj_on_def dec_int_inj)

lemmas sealed_tables_defs = destinations_table_def publishers_table_def probes_table_def on_destinations_def on_publishers_def
  on_probes_def

lemma Registry_cases:
  assumes "t \<in> set Registry"
  obtains "t = destinations_table" | "t = publishers_table" | "t = probes_table"
  using assms by (auto simp: Registry_def)

lemmas destination_rows = update_sealed_rows_laws [where key = sd_Name and sealed = "\<lambda>d. Some (sd_SealedSecrets d)"
    and put = "\<lambda>v d. d\<lparr>sd_SealedSecrets := v\<rparr>", simplified]

lemmas publisher_rows = update_sealed_rows_laws [where key = pb_AppID and sealed = "\<lambda>p. Some (pb_SealedToken p)"
    and put = "\<lambda>v p. p\<lparr>pb_SealedToken := v\<rparr>", simplified]

lemmas probe_rows = update_sealed_rows_laws [where key = "\<lambda>p. dec_int (pw_check_id p)" and sealed = pw_sealed
    and put = "\<lambda>v p. p\<lparr>pw_sealed := Some v\<rparr>", simplified]

lemma probe_ids: "map pw_check_id (snd (update_sealed_rows (\<lambda>p. dec_int (pw_check_id p)) pw_sealed (\<lambda>v p. p\<lparr>pw_sealed := Some v\<rparr>) k old new ps))
    = map pw_check_id ps"
  by (simp add: update_sealed_rows_def Let_def update_where_def)

interpretation rot: sealed_tables Registry sealed_keys_ok
proof
  show "distinct (map st_Table Registry)" by (simp add: Registry_def sealed_tables_defs)
next
  fix t :: "tenant_db SealedTable" and db
  assume t: "t \<in> set Registry" and ok: "sealed_keys_ok db"
  from t show "distinct (map fst (st_select t db))"
    by (cases rule: Registry_cases) (use ok in \<open>simp_all add: sealed_tables_defs sealed_keys_ok_def o_def distinct_dec\<close>)
next
  fix t :: "tenant_db SealedTable" and db k old new
  assume t: "t \<in> set Registry" and ok: "sealed_keys_ok db" and mem: "(k, Some old) \<in> set (st_select t db)"
  from t show "fst (st_update t k old new db) \<and> st_select t (snd (st_update t k old new db)) = map (put_row k new) (st_select t db)"
  proof (cases rule: Registry_cases)
    case 1
    with ok mem destination_rows(1) [of "db_destinations (hb_main (tn_delivery db))" k old new] show ?thesis
      by (simp add: sealed_tables_defs sealed_keys_ok_def Let_def case_prod_beta)
  next
    case 2
    with ok mem publisher_rows(1) [of "pdb_publishers (tn_publishers db)" k old new] show ?thesis
      by (simp add: sealed_tables_defs sealed_keys_ok_def Let_def case_prod_beta)
  next
    case 3
    with ok mem probe_rows(1) [of "hb_probes (tn_delivery db)" k old new] show ?thesis
      by (simp add: sealed_tables_defs sealed_keys_ok_def Let_def case_prod_beta distinct_dec)
  qed
next
  fix t :: "tenant_db SealedTable" and db k old new
  assume t: "t \<in> set Registry" and ok: "sealed_keys_ok db" and mem: "(k, Some old) \<notin> set (st_select t db)"
  from t show "st_update t k old new db = (False, db)"
  proof (cases rule: Registry_cases)
    case 1
    with ok mem destination_rows(2) [of "db_destinations (hb_main (tn_delivery db))" k old new] show ?thesis
      by (simp add: sealed_tables_defs sealed_keys_ok_def Let_def)
  next
    case 2
    with ok mem publisher_rows(2) [of "pdb_publishers (tn_publishers db)" k old new] show ?thesis
      by (simp add: sealed_tables_defs sealed_keys_ok_def)
  next
    case 3
    with ok mem probe_rows(2) [of "hb_probes (tn_delivery db)" k old new] show ?thesis
      by (simp add: sealed_tables_defs sealed_keys_ok_def distinct_dec)
  qed
next
  fix t :: "tenant_db SealedTable" and db k old new
  assume t: "t \<in> set Registry" and ok: "sealed_keys_ok db"
  from t show "sealed_keys_ok (snd (st_update t k old new db))"
  proof (cases rule: Registry_cases)
    case 1
    with ok destination_rows(3) [of "db_destinations (hb_main (tn_delivery db))" k old new] show ?thesis
      by (simp add: sealed_tables_defs sealed_keys_ok_def Let_def case_prod_beta)
  next
    case 2
    with ok publisher_rows(3) [of "pdb_publishers (tn_publishers db)" k old new] show ?thesis
      by (simp add: sealed_tables_defs sealed_keys_ok_def Let_def case_prod_beta)
  next
    case 3
    with ok show ?thesis
      by (simp add: sealed_tables_defs sealed_keys_ok_def Let_def case_prod_beta probe_ids)
  qed
next
  fix t t' :: "tenant_db SealedTable" and db k old new
  assume t: "t \<in> set Registry" and t': "t' \<in> set Registry" and "st_Table t' \<noteq> st_Table t"
  then show "st_select t' (snd (st_update t k old new db)) = st_select t' db"
    by (auto simp: Registry_def sealed_tables_defs Let_def case_prod_beta)
qed

end
