(* ===== verification/Reset_Limit.thy ===== *)
theory Reset_Limit
  imports Publisher History
begin

text \<open>
  The door limit of password resets (\<^verbatim>\<open>delivery-api/internal/resetlimit\<close>, table \<^verbatim>\<open>app_reset_attempts\<close>): at most
  thirty attempts an hour per app and three per app and person. A reservation is one transaction under
  the app's advisory lock, and commits nothing when it is refused.
\<close>

section \<open>The store\<close>

record reset_row =
  ra_app_id :: string
  ra_person_hash :: string
  ra_attempted_at :: time

type_synonym reset_db = "reset_row list"

abbreviation AppLimit :: nat where "AppLimit \<equiv> 30"
abbreviation PersonLimit :: nat where "PersonLimit \<equiv> 3"
abbreviation ResetWindow :: duration where "ResetWindow \<equiv> Hour"
abbreviation ReserveTimeout :: duration where "ReserveTimeout \<equiv> 3 * Second"

datatype reset_scope = ScopeApp | ScopePerson

record reset_refusal =
  rf_RetryAfter :: duration
  rf_Scope :: reset_scope

text \<open>The transaction's \<^verbatim>\<open>now()\<close> and the readings of \<^verbatim>\<open>clock_timestamp()\<close> in its three statements.\<close>

record reset_env =
  rv_now :: time
  rv_prune :: time
  rv_app :: time
  rv_person :: time

definition app_attempts :: "string \<Rightarrow> reset_db \<Rightarrow> time list" where
  "app_attempts appID rows = map ra_attempted_at (filter (\<lambda>r. ra_app_id r = appID) rows)"

definition person_attempts :: "string \<Rightarrow> string \<Rightarrow> reset_db \<Rightarrow> time list" where
  "person_attempts appID personHash rows =
     map ra_attempted_at (filter (\<lambda>r. ra_app_id r = appID \<and> ra_person_hash r = personHash) rows)"

definition prune_attempts :: "string \<Rightarrow> time \<Rightarrow> reset_db \<Rightarrow> reset_db" where
  "prune_attempts appID cutoff rows = filter (\<lambda>r. \<not> (ra_app_id r = appID \<and> ra_attempted_at r < cutoff)) rows"

definition Reserve :: "reset_env \<Rightarrow> string \<Rightarrow> string \<Rightarrow> reset_db \<Rightarrow> (reset_refusal + unit) \<times> reset_db" where
  "Reserve env appID personHash rows =
     (let pruned = prune_attempts appID (rv_prune env - ResetWindow) rows;
          appUsed = app_attempts appID pruned; personUsed = person_attempts appID personHash pruned;
          appFull = length appUsed \<ge> AppLimit; personFull = length personUsed \<ge> PersonLimit
      in if appFull \<or> personFull
         then (let w0 = (if personFull then wait_seconds personUsed ResetWindow (rv_person env) else 0);
                   w1 = (if appFull then max w0 (wait_seconds appUsed ResetWindow (rv_app env)) else w0)
               in (Inl \<lparr>rf_RetryAfter = max w1 1 * Second, rf_Scope = (if appFull then ScopeApp else ScopePerson)\<rparr>, rows))
         else (Inr (), pruned @ [\<lparr>ra_app_id = appID, ra_person_hash = personHash, ra_attempted_at = rv_now env\<rparr>]))"

definition DeleteExpiredResetAttempts :: "time \<Rightarrow> duration \<Rightarrow> reset_db \<Rightarrow> (string + int) \<times> reset_db" where
  "DeleteExpiredResetAttempts now window rows =
     (if window \<le> 0 then (Inl ''delete old reset attempts: window must be positive'', rows)
      else (Inr (int (length (filter (\<lambda>r. ra_attempted_at r < now - window) rows))),
            filter (\<lambda>r. \<not> ra_attempted_at r < now - window) rows))"

section \<open>Nothing forgets a recent attempt\<close>

abbreviation reset_times :: "(reset_row \<Rightarrow> bool) \<Rightarrow> reset_db \<Rightarrow> time multiset" where
  "reset_times \<equiv> row_times ra_attempted_at"

lemma mset_app_attempts: "mset (app_attempts app rows) = reset_times (\<lambda>r. ra_app_id r = app) rows"
  by (simp add: app_attempts_def row_times_def)

lemma mset_person_attempts:
  "mset (person_attempts app person rows) = reset_times (\<lambda>r. ra_app_id r = app \<and> ra_person_hash r = person) rows"
  by (simp add: person_attempts_def row_times_def)

lemma Reserve_admits:
  assumes "Reserve env app person rows = (Inr (), rows')"
  shows "rows' = prune_attempts app (rv_prune env - ResetWindow) rows
      @ [\<lparr>ra_app_id = app, ra_person_hash = person, ra_attempted_at = rv_now env\<rparr>]"
    and "length (app_attempts app (prune_attempts app (rv_prune env - ResetWindow) rows)) < AppLimit"
    and "length (person_attempts app person (prune_attempts app (rv_prune env - ResetWindow) rows)) < PersonLimit"
  using assms by (auto simp: Reserve_def Let_def split: if_splits)

lemma Reserve_refuses: "Reserve env app person rows = (Inl e, rows') \<Longrightarrow> rows' = rows \<and> Second \<le> rf_RetryAfter e"
  by (auto simp: Reserve_def Let_def split: if_splits)

lemma prune_keeps:
  "cutoff \<le> t \<Longrightarrow> filter_mset (\<lambda>a. t \<le> a) (reset_times p rows) \<subseteq># reset_times p (prune_attempts app cutoff rows)"
  unfolding prune_attempts_def by (rule row_times_filter) simp

text \<open>
  An admission at clock \<open>t\<close> ends within the reserve timeout of its start; every other reservation and
  sweep reads clocks up to \<open>t\<close>, and a sweep keeps at least the window.
\<close>

definition reset_admit :: "(reset_row \<Rightarrow> bool) \<Rightarrow> time \<Rightarrow> reset_db \<Rightarrow> reset_db \<Rightarrow> bool" where
  "reset_admit p t rows rows' \<longleftrightarrow>
     (\<exists>env app person. Reserve env app person rows = (Inr (), rows')
        \<and> p \<lparr>ra_app_id = app, ra_person_hash = person, ra_attempted_at = rv_now env\<rparr>
        \<and> rv_prune env \<le> t \<and> t - ReserveTimeout \<le> rv_now env)"

definition reset_other :: "time \<Rightarrow> reset_db \<Rightarrow> reset_db \<Rightarrow> bool" where
  "reset_other t rows rows' \<longleftrightarrow>
     (\<exists>env app person. rv_prune env \<le> t \<and> rows' = snd (Reserve env app person rows))
     \<or> (\<exists>now window. now \<le> t \<and> ResetWindow \<le> window \<and> rows' = snd (DeleteExpiredResetAttempts now window rows))"

lemma reset_other_keeps:
  assumes "reset_other t rows rows'"
  shows "filter_mset (\<lambda>a. t - ResetWindow \<le> a) (reset_times p rows) \<subseteq># reset_times p rows'"
proof -
  have "filter_mset (\<lambda>a. t - ResetWindow \<le> a) (reset_times p rows) \<subseteq># reset_times p (snd (Reserve env app person rows))"
    if prune: "rv_prune env \<le> t" for env app person
  proof (cases "Reserve env app person rows")
    case (Pair r rows1)
    show ?thesis
    proof (cases r)
      case (Inl e)
      with Pair Reserve_refuses [of env app person rows e rows1] show ?thesis by simp
    next
      case (Inr u)
      have "filter_mset (\<lambda>a. t - ResetWindow \<le> a) (reset_times p rows)
          \<subseteq># reset_times p (prune_attempts app (rv_prune env - ResetWindow) rows)"
        using prune by (intro prune_keeps) simp
      also have "\<dots> \<subseteq># reset_times p rows1"
        using Reserve_admits(1) [of env app person rows rows1] Pair Inr by simp
      finally show ?thesis by (simp add: Pair)
    qed
  qed
  moreover have "filter_mset (\<lambda>a. t - ResetWindow \<le> a) (reset_times p rows)
      \<subseteq># reset_times p (snd (DeleteExpiredResetAttempts now window rows))"
    if "now \<le> t" "ResetWindow \<le> window" for now window
    using that by (auto simp: DeleteExpiredResetAttempts_def intro!: row_times_filter)
  ultimately show ?thesis using assms unfolding reset_other_def by blast
qed

lemma reset_admit_adds:
  assumes "reset_admit p t rows rows'"
  shows "\<exists>a. t - ReserveTimeout \<le> a
    \<and> add_mset a (filter_mset (\<lambda>a. t - ResetWindow \<le> a) (reset_times p rows)) \<subseteq># reset_times p rows'"
proof -
  from assms obtain env app person where r: "Reserve env app person rows = (Inr (), rows')"
    "p \<lparr>ra_app_id = app, ra_person_hash = person, ra_attempted_at = rv_now env\<rparr>"
    "rv_prune env \<le> t" "t - ReserveTimeout \<le> rv_now env" by (auto simp: reset_admit_def)
  have "filter_mset (\<lambda>a. t - ResetWindow \<le> a) (reset_times p rows)
      \<subseteq># reset_times p (prune_attempts app (rv_prune env - ResetWindow) rows)"
    using r(3) by (intro prune_keeps) simp
  moreover have "reset_times p rows' = add_mset (rv_now env) (reset_times p (prune_attempts app (rv_prune env - ResetWindow) rows))"
    using r(2) by (simp add: Reserve_admits(1) [OF r(1)])
  ultimately show ?thesis using r(4) by auto
qed

interpretation app_limit: sliding_limit ResetWindow ReserveTimeout AppLimit "reset_times (\<lambda>r. ra_app_id r = app)"
  "reset_admit (\<lambda>r. ra_app_id r = app)" reset_other for app
proof
  fix t rows rows'
  assume "reset_admit (\<lambda>r. ra_app_id r = app) t rows rows'"
  then obtain env person where r: "Reserve env app person rows = (Inr (), rows')" "rv_prune env \<le> t" by (auto simp: reset_admit_def)
  have "filter_mset (\<lambda>a. t - ResetWindow \<le> a) (reset_times (\<lambda>r. ra_app_id r = app) rows)
      \<subseteq># mset (app_attempts app (prune_attempts app (rv_prune env - ResetWindow) rows))"
    unfolding mset_app_attempts using r(2) by (intro prune_keeps) simp
  then show "size (filter_mset (\<lambda>a. t - ResetWindow \<le> a) (reset_times (\<lambda>r. ra_app_id r = app) rows)) < AppLimit"
    by (rule size_less [OF _ Reserve_admits(2) [OF r(1)]])
qed (fact reset_admit_adds, fact reset_other_keeps)

interpretation person_limit: sliding_limit ResetWindow ReserveTimeout PersonLimit
  "reset_times (\<lambda>r. ra_app_id r = app \<and> ra_person_hash r = person)"
  "reset_admit (\<lambda>r. ra_app_id r = app \<and> ra_person_hash r = person)" reset_other for app person
proof
  fix t rows rows'
  assume "reset_admit (\<lambda>r. ra_app_id r = app \<and> ra_person_hash r = person) t rows rows'"
  then obtain env where r: "Reserve env app person rows = (Inr (), rows')" "rv_prune env \<le> t" by (auto simp: reset_admit_def)
  have "filter_mset (\<lambda>a. t - ResetWindow \<le> a) (reset_times (\<lambda>r. ra_app_id r = app \<and> ra_person_hash r = person) rows)
      \<subseteq># mset (person_attempts app person (prune_attempts app (rv_prune env - ResetWindow) rows))"
    unfolding mset_person_attempts using r(2) by (intro prune_keeps) simp
  then show "size (filter_mset (\<lambda>a. t - ResetWindow \<le> a)
      (reset_times (\<lambda>r. ra_app_id r = app \<and> ra_person_hash r = person) rows)) < PersonLimit"
    by (rule size_less [OF _ Reserve_admits(3) [OF r(1)]])
qed (fact reset_admit_adds, fact reset_other_keeps)

end
