(* ===== verification/Identity_Cleanup.thy ===== *)
theory Identity_Cleanup
  imports Publisher_System Reset_Limit
begin

text \<open>
  The background cleanup of the tenant tables (\<^verbatim>\<open>delivery-api/internal/appidentity/cleanup.go\<close>): five
  sweeps on one ticker. A store that is nil, or comes with a window or a TTL that is not positive, is not
  sweep_ran; a sweep that fails or panics deletes nothing and stops neither the others nor the loop.
\<close>

section \<open>One sweep\<close>

record cleanup_db =
  cd_publishers :: publisher_db
  cd_resets :: reset_db

text \<open>The windows and the TTL come with their stores, so they are one field each.\<close>

record cleanup_config =
  cc_Store :: bool
  cc_RejectedStore :: bool
  cc_PendingStore :: "duration option"
  cc_MintStore :: "duration option"
  cc_ResetStore :: "duration option"
  cc_Interval :: duration

datatype sweep_kind = SweepReplay | SweepRejected | SweepPending | SweepMints | SweepResets

definition positive_window :: "duration option \<Rightarrow> bool" where
  "positive_window w \<longleftrightarrow> (case w of None \<Rightarrow> False | Some d \<Rightarrow> d > 0)"

fun sweep_enabled :: "cleanup_config \<Rightarrow> sweep_kind \<Rightarrow> bool" where
  "sweep_enabled cfg SweepReplay = True"
| "sweep_enabled cfg SweepRejected = cc_RejectedStore cfg"
| "sweep_enabled cfg SweepPending = positive_window (cc_PendingStore cfg)"
| "sweep_enabled cfg SweepMints = positive_window (cc_MintStore cfg)"
| "sweep_enabled cfg SweepResets = positive_window (cc_ResetStore cfg)"

definition on_identity :: "(identity_db \<Rightarrow> identity_db) \<Rightarrow> cleanup_db \<Rightarrow> cleanup_db" where
  "on_identity f db = db\<lparr>cd_publishers := (cd_publishers db)\<lparr>pdb_identity := f (pdb_identity (cd_publishers db))\<rparr>\<rparr>"

fun delete_rows :: "cleanup_config \<Rightarrow> time \<Rightarrow> sweep_kind \<Rightarrow> cleanup_db \<Rightarrow> cleanup_db" where
  "delete_rows cfg now SweepReplay db = on_identity (\<lambda>i. snd (DeleteExpiredReplay now i)) db"
| "delete_rows cfg now SweepRejected db = on_identity (\<lambda>i. snd (DeleteExpiredRejectedRequests now i)) db"
| "delete_rows cfg now SweepPending db =
     on_identity (\<lambda>i. snd (DeleteStalePendingRequests now (the (cc_PendingStore cfg)) i)) db"
| "delete_rows cfg now SweepMints db =
     db\<lparr>cd_publishers := snd (DeleteExpiredPublisherMints now (the (cc_MintStore cfg)) (cd_publishers db))\<rparr>"
| "delete_rows cfg now SweepResets db =
     db\<lparr>cd_resets := snd (DeleteExpiredResetAttempts now (the (cc_ResetStore cfg)) (cd_resets db))\<rparr>"

text \<open>How a call of a store ends: it deletes, it returns an error, or it panics and is recovered.\<close>

datatype sweep_outcome = Swept | SweepFailed | SweepPanicked

definition runSweep :: "(cleanup_db \<Rightarrow> cleanup_db) \<Rightarrow> sweep_outcome \<Rightarrow> cleanup_db \<Rightarrow> cleanup_db" where
  "runSweep delete outcome db = (case outcome of Swept \<Rightarrow> delete db | SweepFailed \<Rightarrow> db | SweepPanicked \<Rightarrow> db)"

definition sweep_order :: "sweep_kind list" where
  "sweep_order = [SweepReplay, SweepRejected, SweepPending, SweepMints, SweepResets]"

definition cleanup_sweep :: "cleanup_config \<Rightarrow> (sweep_kind \<Rightarrow> sweep_outcome) \<Rightarrow> time \<Rightarrow> cleanup_db \<Rightarrow> cleanup_db" where
  "cleanup_sweep cfg outcome sweepTime db =
     foldl (\<lambda>x kind. if sweep_enabled cfg kind then runSweep (delete_rows cfg sweepTime kind) (outcome kind) x else x) db sweep_order"

text \<open>
  The loop over the ticks that come before the context is done, each with its clock and its outcomes;
  \<open>others\<close> commit between two sweeps.
\<close>

record tick =
  tk_now :: time
  tk_outcome :: "sweep_kind \<Rightarrow> sweep_outcome"
  tk_others :: "cleanup_db \<Rightarrow> cleanup_db"

definition RunReplayCleanup :: "cleanup_config \<Rightarrow> bool \<Rightarrow> tick list \<Rightarrow> cleanup_db \<Rightarrow> cleanup_db" where
  "RunReplayCleanup cfg ctx_done ticks db =
     (if \<not> cc_Store cfg \<or> cc_Interval cfg \<le> 0 \<or> ctx_done then db
      else foldl (\<lambda>x tick. cleanup_sweep cfg (tk_outcome tick) (tk_now tick) (tk_others tick x)) db ticks)"

section \<open>What a sweep deletes\<close>

text \<open>The rows a sweep at \<open>now\<close> may delete, one predicate per table; a sweep deletes all of them or none.\<close>

definition dead_replay :: "time \<Rightarrow> replay_row \<Rightarrow> bool" where
  "dead_replay now r \<longleftrightarrow> rp_expires_at r < identity_storeTime now"

definition dead_request :: "cleanup_config \<Rightarrow> (sweep_kind \<Rightarrow> bool) \<Rightarrow> time \<Rightarrow> request_row \<Rightarrow> bool" where
  "dead_request cfg sweep_ran now r \<longleftrightarrow>
     (sweep_ran SweepRejected \<and> \<not> rq_pending r \<and> (case rq_decided_at r of None \<Rightarrow> False | Some t \<Rightarrow> t < rejected_cutoff now))
     \<or> (sweep_ran SweepPending \<and> rq_pending r \<and> rq_updated_at r < identity_storeTime now - the (cc_PendingStore cfg))"

definition sweep_ran :: "cleanup_config \<Rightarrow> (sweep_kind \<Rightarrow> sweep_outcome) \<Rightarrow> sweep_kind \<Rightarrow> bool" where
  "sweep_ran cfg outcome kind \<longleftrightarrow> sweep_enabled cfg kind \<and> outcome kind = Swept"

lemma runSweep_swept:
  "(if sweep_enabled cfg kind then runSweep delete (outcome kind) x else x) = (if sweep_ran cfg outcome kind then delete x else x)"
  by (simp add: sweep_ran_def runSweep_def split: sweep_outcome.split)

lemma cleanup_sweep_swept:
  "cleanup_sweep cfg outcome now db =
     foldl (\<lambda>x kind. if sweep_ran cfg outcome kind then delete_rows cfg now kind x else x) db sweep_order"
  unfolding cleanup_sweep_def runSweep_swept ..

definition expected_sweep :: "cleanup_config \<Rightarrow> (sweep_kind \<Rightarrow> bool) \<Rightarrow> time \<Rightarrow> cleanup_db \<Rightarrow> cleanup_db" where
  "expected_sweep cfg did now db =
     (let p = cd_publishers db; i = pdb_identity p
      in \<lparr>cd_publishers = p
            \<lparr>pdb_identity := i\<lparr>idb_replay := filter (\<lambda>r. \<not> (did SweepReplay \<and> dead_replay now r)) (idb_replay i),
                               idb_requests := filter (\<lambda>r. \<not> dead_request cfg did now r) (idb_requests i)\<rparr>,
             pdb_mints := filter (\<lambda>r. \<not> (did SweepMints \<and> mr_minted_at r < now - the (cc_MintStore cfg))) (pdb_mints p)\<rparr>,
          cd_resets = filter (\<lambda>r. \<not> (did SweepResets \<and> ra_attempted_at r < now - the (cc_ResetStore cfg))) (cd_resets db)\<rparr>)"

lemma positive_windowD: "positive_window w \<Longrightarrow> the w > 0"
  by (auto simp: positive_window_def split: option.splits)

lemma swept_windows:
  "sweep_ran cfg outcome SweepPending \<Longrightarrow> \<not> the (cc_PendingStore cfg) \<le> 0"
  "sweep_ran cfg outcome SweepMints \<Longrightarrow> \<not> the (cc_MintStore cfg) \<le> 0"
  "sweep_ran cfg outcome SweepResets \<Longrightarrow> \<not> the (cc_ResetStore cfg) \<le> 0"
  by (auto simp: sweep_ran_def dest: positive_windowD)

lemma filter_when: "filter (\<lambda>r. \<not> (b \<and> P r)) xs = (if b then filter (\<lambda>r. \<not> P r) xs else xs)"
  by simp

lemma cleanup_sweep_exact:
  "cleanup_sweep cfg outcome now db = expected_sweep cfg (sweep_ran cfg outcome) now db"
proof -
  have requests: "filter (\<lambda>r. \<not> dead_request cfg (sweep_ran cfg outcome) now r) rs
      = (let a = (if sweep_ran cfg outcome SweepRejected then filter (\<lambda>r. \<not> (\<not> rq_pending r
             \<and> (case rq_decided_at r of None \<Rightarrow> False | Some t \<Rightarrow> t < rejected_cutoff now))) rs else rs)
         in if sweep_ran cfg outcome SweepPending
            then filter (\<lambda>r. \<not> (rq_pending r \<and> rq_updated_at r < identity_storeTime now - the (cc_PendingStore cfg))) a else a)" for rs
    by (auto simp: dead_request_def Let_def conj_commute intro!: filter_cong)
  show ?thesis
    unfolding cleanup_sweep_swept expected_sweep_def sweep_order_def requests filter_when Let_def
    by (cases "sweep_ran cfg outcome SweepReplay"; cases "sweep_ran cfg outcome SweepRejected"; cases "sweep_ran cfg outcome SweepPending";
        cases "sweep_ran cfg outcome SweepMints"; cases "sweep_ran cfg outcome SweepResets")
      (simp_all add: swept_windows on_identity_def DeleteExpiredReplay_def DeleteExpiredRejectedRequests_def
        DeleteStalePendingRequests_def delete_requests_def DeleteExpiredPublisherMints_def DeleteExpiredResetAttempts_def
        dead_replay_def Let_def)
qed

end
