(* ===== verification/Samples.thy ===== *)
theory Samples
  imports System_Steps
begin

text \<open>
  A small concrete deployment: an operator destination \<open>ops\<close> and a destination of the app
  \<open>shop\<close>, one route, and messages sent, scheduled and held under it. The databases are built by
  the store operations from the empty one, so they are reachable; the lemmas evaluate them. They are
  the inputs at which the properties are applied.
\<close>

section \<open>The deployment\<close>

definition s_registry :: registry_service where
  "s_registry =
     \<lparr>rs_seal = (\<lambda>p a. Some p), rs_open = (\<lambda>b a. Some b), rs_json_encode = (\<lambda>f. ''{}''),
      rs_json_decode = (\<lambda>p. Some [(''url'', ''https://hooks.test/x'')]),
      rs_url_parse = (\<lambda>_. None), rs_parse_rfc3339 = (\<lambda>_. Some 0), rs_format_rfc3339 = (\<lambda>_. []),
      rs_url_checker = None\<rparr>"

definition s_lib :: text_lib where
  "s_lib = \<lparr>tl_url_parse = (\<lambda>_. None), tl_json_valid = (\<lambda>_. True), tl_json_decode = (\<lambda>_. Some JNull),
            tl_rat = (\<lambda>_. None), tl_lower = (\<lambda>s. s), tl_sha256 = (\<lambda>_. replicate 32 CHR 0x00)\<rparr>"

definition s_dest :: "string \<Rightarrow> owner_kind \<Rightarrow> string option \<Rightarrow> stored_destination" where
  "s_dest name kind app =
     \<lparr>sd_ID = 0, sd_Name = name, sd_Type = TypeWebhook, sd_Config = [], sd_SealedSecrets = [], sd_Enabled = True,
      sd_DisabledReason = None, sd_OwnerKind = kind, sd_OwnerAppID = app, sd_CreatedAt = 0, sd_UpdatedAt = 0\<rparr>"

definition s_route :: stored_route where
  "s_route =
     \<lparr>sr_ID = 0, sr_AppPattern = ''shop'', sr_ChannelPattern = ''*'', sr_DestinationIDs = [],
      sr_DestinationNames = [''ops''], sr_Enabled = True, sr_OwnerKind = OwnerOperator, sr_OwnerAppID = None,
      sr_CreatedAt = 0, sr_UpdatedAt = 0\<rparr>"

definition s_registry_db :: database where
  "s_registry_db =
     snd (InsertRoute 10 s_route (snd (InsertDestination 10 (s_dest ''shop_hook'' OwnerApp (Some ''shop''))
       (snd (InsertDestination 10 (s_dest ''ops'' OwnerOperator None) empty_db)))))"

definition s_envelope :: "string \<Rightarrow> time option \<Rightarrow> envelope" where
  "s_envelope key deliverAt =
     \<lparr>en_AppID = ''shop'', en_Channel = ''orders'', en_IdempotencyKey = key, en_ToDestination = [],
      en_ToRecipient = [], en_DeliverAt = deliverAt, en_Critical = False, en_Payload = ''{}'',
      en_Display = None, en_Hold = True\<rparr>"

definition s_target :: delivery_target where
  "s_target = \<lparr>dt_DestinationID = Some 1, dt_DestinationName = ''ops'', dt_DestinationType = TypeWebhook\<rparr>"

definition s_env :: "string \<Rightarrow> tx_env" where
  "s_env uuid = \<lparr>tx_now = 100, tx_uuid = uuid, tx_between = (\<lambda>_ db. db)\<rparr>"

text \<open>One message to send now, one scheduled for instant 500, one held.\<close>

definition s_sent_db :: database where
  "s_sent_db = snd (InsertMessage (s_env ''m1'') (s_envelope ''k1'' None) [s_target] s_registry_db)"

definition s_caps :: scheduled_caps where "s_caps = \<lparr>sc_PerApp = 2, sc_Total = 3\<rparr>"

definition s_held_caps :: held_caps where "s_held_caps = \<lparr>hc_PerApp = 2, hc_Total = 3\<rparr>"

definition s_scheduled_db :: database where
  "s_scheduled_db = snd (InsertScheduledMessage (s_env ''m2'') (s_envelope ''k2'' (Some 500)) [s_target] s_caps s_sent_db)"

definition s_db :: database where
  "s_db = snd (InsertHeldMessage (s_env ''m3'') (s_envelope ''k3'' None) s_held_caps 100 s_scheduled_db)"

section \<open>They are reachable\<close>

text \<open>The shape of a transaction that returned a value.\<close>

lemma tx_Inr: "\<not> isl (fst r) \<Longrightarrow> r = (Inr (projr (fst r)), snd r)"
  by (cases r; cases "fst r") auto

lemma tx_flagged: "\<not> isl (fst r) \<and> snd (projr (fst r)) \<Longrightarrow> r = (Inr (fst (projr (fst r)), True), snd r)"
  by (cases r; cases "fst r") auto

lemma tx_new: "\<not> isl (fst r) \<and> \<not> snd (projr (fst r)) \<Longrightarrow> r = (Inr (fst (projr (fst r)), False), snd r)"
  by (cases r; cases "fst r") auto

lemma s_env_steps: "system_step\<^sup>*\<^sup>* x (tx_between (s_env u) k x)"
  by (simp add: s_env_def)

lemma s_reachable [simp]:
  "reachable s_registry_db" "reachable s_sent_db" "reachable s_scheduled_db" "reachable s_db"
proof -
  show 1: "reachable s_registry_db" unfolding s_registry_db_def
    by (rule reachable_step [OF _ system_step.insert_route], (rule reachable_step [OF _ system_step.insert_destination])+) simp
  show 2: "reachable s_sent_db" unfolding s_sent_db_def by (rule reachable_step [OF 1 system_step.insert [OF s_env_steps]])
  show 3: "reachable s_scheduled_db" unfolding s_scheduled_db_def
    by (rule reachable_step [OF 2 system_step.insert_scheduled [OF s_env_steps]])
  show "reachable s_db" unfolding s_db_def by (rule reachable_step [OF 3 system_step.insert_held [OF s_env_steps]])
qed

section \<open>What they contain\<close>

definition s_row :: "string \<Rightarrow> string \<Rightarrow> time option \<Rightarrow> time option \<Rightarrow> message_row" where
  "s_row mid key deliverAt heldAt = message_row_of (s_env mid) (s_envelope key deliverAt) heldAt"

definition s_delivery :: "int \<Rightarrow> string \<Rightarrow> delivery_state \<Rightarrow> time \<Rightarrow> delivery" where
  "s_delivery i mid state next =
     \<lparr>d_ID = i, d_MessageID = mid, d_DestinationID = Some 1, d_DestinationName = ''ops'',
      d_DestinationType = TypeWebhook, d_State = state, d_DeadReason = None, d_AttemptCount = 0, d_BudgetAttempts = 0,
      d_BudgetStartedAt = 100, d_NextAttemptAt = next, d_LastStatusCode = None, d_DeliveredAt = None,
      d_CreatedAt = 100, d_UpdatedAt = 100\<rparr>"

lemma s_db_messages: "db_messages s_db = [s_row ''m1'' ''k1'' None None, s_row ''m2'' ''k2'' (Some 500) None, s_row ''m3'' ''k3'' None (Some 100)]"
  by code_simp

lemma s_db_deliveries: "db_deliveries s_db = [s_delivery 1 ''m1'' StatePending 100, s_delivery 2 ''m2'' StateScheduled 500]"
  by code_simp

end
