(* ===== verification/Identity_Properties.thy ===== *)
theory Identity_Properties
  imports Identity_System Samples
begin

text \<open>
  The properties of app identity, over every interleaving of its transactions, with their witnesses at a
  small deployment: the app \<open>shop\<close> files a request, is approved, and exchanges a second token for a key.
\<close>

section \<open>A deployment\<close>

definition i_lib :: text_lib where
  "i_lib = s_lib\<lparr>tl_sha256 := (\<lambda>s. take 32 (rev s @ replicate 32 CHR 0x00))\<rparr>"

definition i_claims :: "string \<Rightarrow> claims" where
  "i_claims jti =
     \<lparr>cl_Repository = ''acme/shop'', cl_RepositoryID = 5, cl_RepositoryOwnerID = 7, cl_WorkflowPath = ''deploy.yml'',
      cl_Ref = ''refs/heads/main'', cl_Environment = [], cl_RunID = ''42'', cl_JTI = jti, cl_ExpiresAt = 1000 * Second\<rparr>"

definition i_env :: "string \<Rightarrow> time \<Rightarrow> exchange_env" where
  "i_env random now = \<lparr>ee_between = (\<lambda>_ db. db), ee_random = Inr random, ee_now = now\<rparr>"

definition i_random :: "char \<Rightarrow> string" where "i_random c = replicate 32 c"

definition i_now :: time where "i_now = 10 * Second"

definition i_pending_db :: identity_db where
  "i_pending_db = snd (exchange_commit i_lib (i_env (i_random CHR 0x01) i_now) ''shop'' (i_claims ''j1'') empty_identity)"

definition i_bound_db :: identity_db where
  "i_bound_db = snd (store_ApproveRequest 1 ''shop'' (20 * Second) i_pending_db)"

definition i_keyed_db :: identity_db where
  "i_keyed_db = snd (exchange_commit i_lib (i_env (i_random CHR 0x02) (30 * Second)) ''shop'' (i_claims ''j2'') i_bound_db)"

lemma i_now_less: "i_now < 1000 * Second"
  by (simp add: i_now_def)

lemma i_env_between [simp]: "ee_between (i_env random now) phase x = x"
  by (simp add: i_env_def)

lemma i_steps [simp]: "(identity_step t)\<^sup>*\<^sup>* x (ee_between (i_env random now) phase x)"
  by simp

lemma i_pending_requests: "map rq_id (idb_requests i_pending_db) = [1]" "map rq_app_id (idb_requests i_pending_db) = [''shop'']"
  "idb_bindings i_pending_db = []" "map rq_pending (idb_requests i_pending_db) = [True]"
  by code_simp+

lemma i_bound_bindings: "map br_app_id (idb_bindings i_bound_db) = [''shop'']" "idb_requests i_bound_db = []"
  by code_simp+

lemma i_keyed_keys: "map k_id (idb_keys i_keyed_db) = [1]" "map k_app_id (idb_keys i_keyed_db) = [''shop'']"
  by code_simp+

lemma i_reachable:
  "identity_reachable t i_pending_db" "identity_reachable t i_bound_db" "identity_reachable t i_keyed_db"
proof -
  have ex: "identity_step t db (snd (exchange_commit i_lib (i_env random now) app c db))" for db random now app c
    by (rule identity_step.exchange) simp
  show p: "identity_reachable t i_pending_db"
    unfolding i_pending_db_def by (rule identity_reachable.step [OF identity_reachable.start order_refl ex])
  show b: "identity_reachable t i_bound_db"
    unfolding i_bound_db_def by (rule identity_reachable.step [OF p order_refl identity_step.approve])
  show "identity_reachable t i_keyed_db"
    unfolding i_keyed_db_def by (rule identity_reachable.step [OF b order_refl ex])
qed

section \<open>The invariant\<close>

text \<open>
  C24. Whatever exchanges, approvals, rejections, revocations, unbindings and sweeps run, and however they
  interleave: bound app ids and workflow identities are unique and no bound app id extends another with
  an underscore; at most twenty requests are pending, each distinct and none for a bound app; every key
  belongs to a binding, its hash is unique, and an app has at most one key that is neither superseded
  nor revoked; every CHECK of the tables holds.
\<close>

theorem identity_reachable_inv:
  assumes "identity_reachable t db"
  shows "identity_inv db"
  by (rule reachable_identity_inv [OF assms])

theorem identity_reachable_inv_witness:
  "map k_app_id (idb_keys i_keyed_db) = [''shop''] \<and> identity_inv i_keyed_db"
  by (simp add: i_keyed_keys identity_reachable_inv [OF i_reachable(3)])

section \<open>A token is exchanged once\<close>

text \<open>
  C25. In every history of the identity service under a clock that does not go back, in which each
  exchange commits no later than its token's expiry plus the leeway, no token is exchanged twice: while
  a token may still be accepted, its record stays in the replay ledger through every sweep and every
  other transaction.
\<close>

theorem token_exchanged_once:
  assumes "jwt_documented jwt" and "history_run start (token_accepted jwt) identity_other t h s"
  shows "distinct (map fst h)"
proof -
  have marks: "distinct (map token_mark h)"
    by (rule token_ledger.history_distinct [OF assms(2)])
  have claims: "\<exists>now kf v p v'. jwt now (fst k) kf v = (Inr p, v') \<and> toClaims p = Inr (snd k)" if "k \<in> set h" for k
    using assms(2) that
  proof (induction rule: history_run.induct)
    case (accepted t h s t' k' s')
    show ?case
    proof (cases "k = k'")
      case True
      with accepted(3) obtain decode renv where
        ver: "fst (Verify jwt decode renv (fst k) (Some verifyOnly_RecordJTI) (fst s, ())) = Inr (snd k)"
        unfolding token_accepted_def by blast
      obtain w where "Verify jwt decode renv (fst k) (Some verifyOnly_RecordJTI) (fst s, ()) = (Inr (snd k), w)"
        using ver by (metis fst_conv prod.collapse)
      then obtain p where p: "fst (jwt (re_now renv) (fst k) (signingKey decode renv) (fst s)) = Inr p" "toClaims p = Inr (snd k)"
        using Verify_accepts(1) by (metis prod.collapse)
      then show ?thesis by (metis prod.collapse)
    next
      case False
      with accepted show ?thesis by auto
    qed
  qed auto
  have "snd k = snd k'" if k: "k \<in> set h" and k': "k' \<in> set h" and eq: "fst k = fst k'" for k k'
  proof -
    obtain now kf v p v' where p: "jwt now (fst k) kf v = (Inr p, v')" "toClaims p = Inr (snd k)" using claims [OF k] by blast
    obtain now2 kf2 v2 p2 v2' where p2: "jwt now2 (fst k') kf2 v2 = (Inr p2, v2')" "toClaims p2 = Inr (snd k')"
      using claims [OF k'] by blast
    have "p2 = p" using assms(1) p(1) p2(1) unfolding jwt_documented_def eq by metis
    with p(2) p2(2) show ?thesis by simp
  qed
  then have "inj_on fst (set h)" unfolding inj_on_def by (metis prod_eqI)
  moreover have "distinct h" using marks by (rule distinct_map [THEN iffD1, THEN conjunct1])
  ultimately show ?thesis by (simp add: distinct_map)
qed

definition i_token :: tokenClaims where
  "i_token =
     \<lparr>tc_ID = ''j1'', tc_ExpiresAt = Some (1000 * Second), tc_Repository = ''acme/shop'', tc_RepositoryID = ''5'',
      tc_RepositoryOwnerID = ''7'', tc_WorkflowRef = ''acme/shop/deploy.yml@refs/heads/main'',
      tc_Ref = ''refs/heads/main'', tc_Environment = [], tc_RunID = ''42''\<rparr>"

definition i_jwt :: jwt_lib where
  "i_jwt now raw kf v =
     (case kf \<lparr>jt_alg = signingAlgorithm, jt_kid = Some ''k1''\<rparr> v of
        (Inl e, v') \<Rightarrow> (Inl e, v')
      | (Inr key, v') \<Rightarrow> if now < 1000 * Second + ClockLeeway then (Inr i_token, v') else (Inl (IdentityOther ''expired''), v'))"

definition i_verifier :: verifier where
  "i_verifier =
     \<lparr>vf_issuer = GitHubIssuer, vf_audience = DefaultAudience, vf_jwksURL = GitHubIssuer @ jwksPath,
      vf_fetchTimeout = DefaultFetchTimeout, vf_refetchInterval = DefaultRefetchInterval, vf_static = False,
      vf_keys = [(''k1'', \<lparr>rk_N = 2 ^ 2047, rk_E = 65537\<rparr>)], vf_lastFetch = 0, vf_lastFetchErr = None\<rparr>"

definition i_refresh :: "time \<Rightarrow> refresh_env" where
  "i_refresh now = \<lparr>re_context_done = False, re_now = now, re_response = RequestFailed ''down''\<rparr>"

lemma i_toClaims: "toClaims i_token = Inr (i_claims ''j1'')"
  by code_simp

lemma i_jwt_documented: "jwt_documented i_jwt"
  unfolding jwt_documented_def i_jwt_def
  by (auto simp: i_token_def split: prod.splits sum.splits if_splits) (metis snd_conv)+

lemma i_Verify:
  assumes "now < 1000 * Second"
  shows "Verify i_jwt decode (i_refresh now) ''raw'' (Some verifyOnly_RecordJTI) (i_verifier, ())
    = (Inr (i_claims ''j1''), i_verifier, ())"
  using assms
  by (simp add: Verify_def i_jwt_def signingKey_def verifier_publicKey_def cachedKey_def i_verifier_def i_refresh_def
      i_toClaims record_replay_def verifyOnly_RecordJTI_def)

lemma i_commit:
  "exchange_commit i_lib (i_env (i_random CHR 0x01) i_now) ''shop'' (i_claims ''j1'') empty_identity
   = (Inr (ExchangePending 1), i_pending_db)"
proof -
  have "fst (exchange_commit i_lib (i_env (i_random CHR 0x01) i_now) ''shop'' (i_claims ''j1'') empty_identity)
    = Inr (ExchangePending 1)" by code_simp
  then show ?thesis by (simp add: prod_eq_iff i_pending_db_def)
qed

lemma i_service:
  "service_Exchange i_lib i_jwt decode (i_refresh i_now) (i_env (i_random CHR 0x01) i_now) ''shop'' ''raw''
     (i_verifier, empty_identity) = (Inr (ExchangePending 1), i_verifier, i_pending_db)"
proof -
  have ok: "identity_ValidateAppID ''shop'' = Inr ()" "validateExchangeAppID ''shop'' = Inr ()" by code_simp+
  show ?thesis
    by (simp add: service_Exchange_def ok i_Verify [OF i_now_less] i_commit)
qed

theorem token_exchanged_once_witness:
  "history_run (i_verifier, empty_identity) (token_accepted i_jwt) identity_other i_now
     [(''raw'', i_claims ''j1'')] (i_verifier, i_pending_db)
   \<and> distinct (map fst [(''raw'', i_claims ''j1'')])"
proof -
  have "token_accepted i_jwt i_now (''raw'', i_claims ''j1'') (i_verifier, empty_identity) (i_verifier, i_pending_db)"
    unfolding token_accepted_def
    by (rule exI [of _ i_lib], rule exI [of _ "\<lambda>_. Inl []"], rule exI [of _ "i_refresh i_now"],
        rule exI [of _ "i_env (i_random CHR 0x01) i_now"], rule exI [of _ "''shop''"],
        rule exI [of _ "ExchangePending 1"])
      (simp add: i_service i_Verify [OF i_now_less], simp add: ReplayExpiry_def i_claims_def i_now_def)
  then have run: "history_run (i_verifier, empty_identity) (token_accepted i_jwt) identity_other i_now
     [(''raw'', i_claims ''j1'')] (i_verifier, i_pending_db)"
    by (rule history_run.accepted [OF history_run.start order_refl])
  with token_exchanged_once [OF i_jwt_documented run] show ?thesis by blast
qed

text \<open>
  The deadline matters: a token verified in time whose transaction only runs after the ledger was swept
  is accepted a second time, because the transaction does not look at the expiry again.
\<close>

lemma replay_after_sweep:
  "fst (exchange_commit i_lib (i_env (i_random CHR 0x01) i_now) ''shop'' (i_claims ''j1'') empty_identity) = Inr (ExchangePending 1)
   \<and> fst (exchange_commit i_lib (i_env (i_random CHR 0x01) (1061 * Second)) ''shop'' (i_claims ''j1'')
        (snd (DeleteExpiredReplay (1061 * Second) i_pending_db))) = Inr (ExchangePending 1)"
  by code_simp

section \<open>What a token must show\<close>




section \<open>Keys\<close>

lemma IssueKey_row:
  assumes "IssueKey lib (Inr random) app run now db = (Inr issued, db')" "length random = keyRandomBytes"
  shows "\<exists>row \<in> set (idb_keys db'). k_id row = ik_ID issued \<and> k_hash row = HashKey lib (ik_Plaintext issued)
    \<and> k_hint row = KeyHint (ik_Plaintext issued) \<and> live_key app row"
    and "idb_bindings db' = idb_bindings db" and "WellFormedKey (ik_Plaintext issued)"
proof -
  obtain plaintext row where row: "NewKey (Inr random) = Inr plaintext"
      "row = new_key_row lib (idb_key_seq db) app plaintext run (identity_storeTime now)"
      "issued = \<lparr>ik_ID = k_id row, ik_Plaintext = plaintext, ik_Hint = k_hint row\<rparr>"
      "row \<in> set (idb_keys db')" "idb_bindings db' = idb_bindings db"
    using assms(1) by (cases rule: IssueKey_cases [of lib "Inr random" app run now db]) auto
  show "idb_bindings db' = idb_bindings db" by (rule row(5))
  show "\<exists>row \<in> set (idb_keys db'). k_id row = ik_ID issued \<and> k_hash row = HashKey lib (ik_Plaintext issued)
    \<and> k_hint row = KeyHint (ik_Plaintext issued) \<and> live_key app row"
    by (rule bexI [OF _ row(4)]) (simp add: row(3), simp add: row(2) new_key_row_def live_key_def)
  show "WellFormedKey (ik_Plaintext issued)" using NewKey_shape(1) [OF row(1) assms(2)] row(3) by simp
qed

text \<open>
  C27. A key is issued only to an app whose binding matches the token's claims exactly. It authenticates
  that app at once, as the app's one current key: every other unrevoked key of the app has been
  superseded, and stops working 24 hours after it was.
\<close>

theorem issued_key_works:
  assumes "identity_inv db" and "\<forall>phase x. identity_inv x \<longrightarrow> identity_inv (ee_between env phase x)"
    and "ee_random env = Inr random" and "length random = keyRandomBytes"
    and "exchange_commit lib env app c db = (Inr (ExchangeIssued a key i), db')"
  shows "a = app \<and> (\<exists>b. LockBinding app db' = Some b \<and> Matches b c)
    \<and> (\<forall>now. ResolveKey lib key now db' = Inr \<lparr>rk_ID = i, rk_AppID = app, rk_Hint = KeyHint key\<rparr>)
    \<and> (\<forall>k \<in> set (idb_keys db'). k_app_id k = app \<and> k_id k \<noteq> i \<and> k_revoked_at k = None
           \<longrightarrow> (\<exists>s. k_superseded_at k = Some s \<and> (\<forall>t. Valid (row_record k) t \<longleftrightarrow> t < s + SupersededGrace)))"
proof -
  obtain others db1 where "issued_view lib env app c (ee_now env) (others db1) (ExchangeIssued a key i) db'
      \<or> filed_view app c (ee_now env) (others db1) (ExchangeIssued a key i) db'"
    using exchange_commit_Inr [OF assms(5)] by blast
  then obtain b issued where b: "LockBinding app (others db1) = Some b" "Matches b c"
    and issue: "IssueKey lib (Inr random) app (cl_RunID c) (ee_now env) (others db1) = (Inr issued, db')"
    and r: "a = app" "key = ik_Plaintext issued" "i = ik_ID issued"
    by (auto simp: issued_view_def filed_view_def assms(3))
  have inv: "identity_inv db'"
    using inv_law.commit [of env db lib app c] assms(1,2,5) by (metis snd_conv)
  obtain row where row: "row \<in> set (idb_keys db')" "k_id row = i" "k_hash row = HashKey lib key" "k_hint row = KeyHint key"
      "live_key app row" "idb_bindings db' = idb_bindings (others db1)" "WellFormedKey key"
    using IssueKey_row [OF issue assms(4)] r by auto
  have keys: "distinct (map k_hash (idb_keys db'))" "distinct (map k_id (idb_keys db'))"
      "length (filter (live_key app) (idb_keys db')) \<le> 1"
    using identity_invD(3) [OF inv] by (auto simp: keys_inv_def)
  have "LockBinding app db' = Some b" using b by (simp add: LockBinding_def row(6))
  moreover have "ResolveKey lib key now db' = Inr \<lparr>rk_ID = i, rk_AppID = app, rk_Hint = KeyHint key\<rparr>" for now
  proof -
    have "find (\<lambda>k. k_hash k = HashKey lib key) (idb_keys db') = Some row" by (rule find_unique [OF keys(1) row(1,3)])
    then show ?thesis using row by (simp add: ResolveKey_def Valid_iff row_record_def live_key_def)
  qed
  moreover have "k_superseded_at k \<noteq> None" if "k \<in> set (idb_keys db')" "k_app_id k = app" "k_id k \<noteq> i" "k_revoked_at k = None" for k
  proof
    assume "k_superseded_at k = None"
    with that have "{k, row} \<subseteq> set (filter (live_key app) (idb_keys db'))" using row(1,5) by (auto simp: live_key_def)
    then have "card {k, row} \<le> 1" using keys(3) by (meson List.finite_set card_length card_mono order.trans)
    with that(3) row(2) show False by (cases "k = row") auto
  qed
  then have "\<forall>k \<in> set (idb_keys db'). k_app_id k = app \<and> k_id k \<noteq> i \<and> k_revoked_at k = None
           \<longrightarrow> (\<exists>s. k_superseded_at k = Some s \<and> (\<forall>t. Valid (row_record k) t \<longleftrightarrow> t < s + SupersededGrace))"
    by (fastforce simp: Valid_iff row_record_def)
  ultimately show ?thesis using r(1) b(2) by blast
qed

definition i_rekeyed_db :: identity_db where
  "i_rekeyed_db = snd (exchange_commit i_lib (i_env (i_random CHR 0x03) (40 * Second)) ''shop'' (i_claims ''j3'') i_keyed_db)"

definition i_key :: string where "i_key = ''dak_'' @ EncodeToString (i_random CHR 0x03)"

lemma i_rekeyed: "exchange_commit i_lib (i_env (i_random CHR 0x03) (40 * Second)) ''shop'' (i_claims ''j3'') i_keyed_db
   = (Inr (ExchangeIssued ''shop'' i_key 2), i_rekeyed_db)"
proof -
  have "fst (exchange_commit i_lib (i_env (i_random CHR 0x03) (40 * Second)) ''shop'' (i_claims ''j3'') i_keyed_db)
    = Inr (ExchangeIssued ''shop'' i_key 2)" by code_simp
  then show ?thesis by (simp add: prod_eq_iff i_rekeyed_db_def)
qed

theorem issued_key_works_witness:
  "ResolveKey i_lib i_key (50 * Second) i_rekeyed_db = Inr \<lparr>rk_ID = 2, rk_AppID = ''shop'', rk_Hint = KeyHint i_key\<rparr>"
proof -
  have "\<forall>phase x. identity_inv x \<longrightarrow> identity_inv (ee_between (i_env (i_random CHR 0x03) (40 * Second)) phase x)"
    "ee_random (i_env (i_random CHR 0x03) (40 * Second)) = Inr (i_random CHR 0x03)" "length (i_random CHR 0x03) = keyRandomBytes"
    by (simp_all add: i_env_def i_random_def)
  from issued_key_works [OF reachable_identity_inv [OF i_reachable(3)] this i_rekeyed] show ?thesis by blast
qed

text \<open>
  C28. A key that was revoked, or whose app was unbound, never authenticates again: not at once, and not
  after any further transactions, new exchanges and new approvals of the same app included.
\<close>

theorem dead_key_never_resolves:
  assumes "identity_reachable t db" and "k \<in> set (idb_keys db)"
    and "store_RevokeKey (k_id k) now db = (Inr key, db1) \<or> db1 = snd (store_Unbind (k_app_id k) db)"
    and "(identity_step t')\<^sup>*\<^sup>* db1 db2" and "now \<le> later"
    and "ResolveKey lib presented later db2 = Inr r"
  shows "rk_ID r \<noteq> k_id k"
proof -
  have inv: "identity_inv db" by (rule reachable_identity_inv [OF assms(1)])
  have "dead_at (identity_storeTime now) (k_id k) db1"
    using assms(3) revoked_dead [OF inv] unbound_dead [OF inv assms(2)] by blast
  then have "dead_at (identity_storeTime now) (k_id k) db2"
    using dead_law.law_steps [OF assms(4)] by blast
  then show ?thesis by (rule dead_never_resolves [OF _ assms(5,6)])
qed

lemma i_old_key: "\<exists>k \<in> set (idb_keys i_keyed_db). k_id k = 1"
  using i_keyed_keys(1) by (metis list.set_intros(1) list.set_map image_iff)

theorem dead_key_never_resolves_witness:
  "\<exists>r. ResolveKey i_lib i_key (50 * Second)
      (snd (exchange_commit i_lib (i_env (i_random CHR 0x03) (40 * Second)) ''shop'' (i_claims ''j3'')
         (snd (store_RevokeKey 1 (35 * Second) i_keyed_db)))) = Inr r \<and> rk_ID r \<noteq> 1"
proof -
  let ?db2 = "snd (exchange_commit i_lib (i_env (i_random CHR 0x03) (40 * Second)) ''shop'' (i_claims ''j3'')
         (snd (store_RevokeKey 1 (35 * Second) i_keyed_db)))"
  obtain k where k: "k \<in> set (idb_keys i_keyed_db)" "k_id k = 1" using i_old_key by blast
  have "isl (fst (store_RevokeKey 1 (35 * Second) i_keyed_db)) = False" by code_simp
  then obtain key where "store_RevokeKey (k_id k) (35 * Second) i_keyed_db = (Inr key, snd (store_RevokeKey 1 (35 * Second) i_keyed_db))"
    unfolding k(2) by (cases "store_RevokeKey 1 (35 * Second) i_keyed_db"; cases "fst (store_RevokeKey 1 (35 * Second) i_keyed_db)") auto
  then have revoked: "store_RevokeKey (k_id k) (35 * Second) i_keyed_db = (Inr key, snd (store_RevokeKey 1 (35 * Second) i_keyed_db))
    \<or> snd (store_RevokeKey 1 (35 * Second) i_keyed_db) = snd (store_Unbind (k_app_id k) i_keyed_db)" by blast
  have step: "(identity_step 0)\<^sup>*\<^sup>* (snd (store_RevokeKey 1 (35 * Second) i_keyed_db)) ?db2"
    by (intro r_into_rtranclp identity_step.exchange i_steps)
  have "isl (ResolveKey i_lib i_key (50 * Second) ?db2) = False" by code_simp
  then obtain r where r: "ResolveKey i_lib i_key (50 * Second) ?db2 = Inr r"
    by (cases "ResolveKey i_lib i_key (50 * Second) ?db2") auto
  have "35 * Second \<le> 50 * Second" by simp
  from dead_key_never_resolves [OF i_reachable(3) k(1) revoked step this r] k(2) r show ?thesis by auto
qed

section \<open>Approvals\<close>

text \<open>
  An approval succeeds exactly for a pending request that still names the registered app, when the app
  id neither is bound nor overlaps a bound one and the workflow identity is free. It then binds the app
  to exactly the request's identity, removes the request and every pending request for the same app or
  identity, and changes nothing else. An approval that fails changes nothing.
\<close>

theorem approve_effect:
  assumes "identity_inv db" and "q \<in> set (idb_requests db)"
  shows "((\<exists>b db'. store_ApproveRequest (rq_id q) app now db = (Inr b, db')) \<longleftrightarrow>
      rq_pending q \<and> rq_app_id q = app
      \<and> (\<forall>b \<in> set (idb_bindings db). \<not> app_ids_overlap app (br_app_id b) \<and> br_app_id b \<noteq> app \<and> br_identity b \<noteq> rq_identity q))
    \<and> (\<forall>e db'. store_ApproveRequest (rq_id q) app now db = (Inl e, db') \<longrightarrow> db' = db)
    \<and> (\<forall>b db'. store_ApproveRequest (rq_id q) app now db = (Inr b, db') \<longrightarrow>
      LockBinding app db' = Some b \<and> bn_AppID b = app \<and> bn_RepositoryID b = rq_repository_id q
      \<and> bn_RepositoryOwnerID b = rq_owner_id q \<and> bn_WorkflowPath b = rq_workflow_path q \<and> bn_Ref b = rq_git_ref q
      \<and> environmentArgument (bn_Environment b) = rq_environment q
      \<and> idb_requests db' = filter (\<lambda>r. \<not> (rq_pending r \<and> (rq_app_id r = app \<or> rq_identity r = rq_identity q))) (idb_requests db)
      \<and> (\<exists>row. idb_bindings db' = idb_bindings db @ [row]) \<and> idb_keys db' = idb_keys db \<and> idb_replay db' = idb_replay db)"
proof (intro conjI allI)
  have req: "distinct (map rq_id (idb_requests db))" "requests_check q"
    using identity_invD(2) [OF assms(1)] assms(2) by (auto simp: requests_inv_def list_all_iff)
  have found: "find (\<lambda>r. rq_id r = rq_id q) (idb_requests db) = Some q" by (rule find_unique [OF req(1) assms(2) refl])
  let ?row = "request_binding_row (scanRequest q) (identity_storeTime now)"
  have env: "environmentArgument (environment_text (rq_environment q)) = rq_environment q"
    using req(2) by (intro environment_inverse) (simp add: requests_check_def)
  have ident: "br_identity ?row = rq_identity q"
    using env by (simp add: br_identity_def rq_identity_def request_binding_row_def scanRequest_def)
  have check: "bindings_check ?row"
    using req(2) env by (simp add: bindings_check_def requests_check_def request_binding_row_def scanRequest_def)
  show "store_ApproveRequest (rq_id q) app now db = (Inl e, db') \<longrightarrow> db' = db" for e db'
    by (cases rule: store_ApproveRequest_cases [of "rq_id q" app now db]) auto
  show "(\<exists>b db'. store_ApproveRequest (rq_id q) app now db = (Inr b, db')) \<longleftrightarrow>
      rq_pending q \<and> rq_app_id q = app
      \<and> (\<forall>b \<in> set (idb_bindings db). \<not> app_ids_overlap app (br_app_id b) \<and> br_app_id b \<noteq> app \<and> br_identity b \<noteq> rq_identity q)"
    (is "?L = ?R")
  proof
    assume ?R
    then have "\<not> list_ex (\<lambda>b. app_ids_overlap (rq_app_id q) (br_app_id b)) (idb_bindings db)"
      "\<not> BindingExists (br_app_id ?row) db" "\<not> list_ex (\<lambda>b. br_identity b = br_identity ?row) (idb_bindings db)"
      by (auto simp: list_ex_iff BindingExists_def ident)
    moreover have "ir_Status (scanRequest q) = RequestPending" "ir_AppID (scanRequest q) = app"
      using \<open>?R\<close> by (simp_all add: scanRequest_def rq_pending_def)
    ultimately show ?L using check \<open>?R\<close> by (simp add: store_ApproveRequest_def lockRequest_def found Let_def)
  next
    assume ?L
    then show ?R
    proof (cases rule: store_ApproveRequest_cases [of "rq_id q" app now db])
      case (approved r row)
      with found have "r = q" by simp
      with approved ident show ?thesis by (auto simp: image_iff)
    qed auto
  qed
  show "store_ApproveRequest (rq_id q) app now db = (Inr b, db') \<longrightarrow>
      LockBinding app db' = Some b \<and> bn_AppID b = app \<and> bn_RepositoryID b = rq_repository_id q
      \<and> bn_RepositoryOwnerID b = rq_owner_id q \<and> bn_WorkflowPath b = rq_workflow_path q \<and> bn_Ref b = rq_git_ref q
      \<and> environmentArgument (bn_Environment b) = rq_environment q
      \<and> idb_requests db' = filter (\<lambda>r. \<not> (rq_pending r \<and> (rq_app_id r = app \<or> rq_identity r = rq_identity q))) (idb_requests db)
      \<and> (\<exists>row. idb_bindings db' = idb_bindings db @ [row]) \<and> idb_keys db' = idb_keys db \<and> idb_replay db' = idb_replay db" for b db'
  proof (cases rule: store_ApproveRequest_cases [of "rq_id q" app now db])
    case (approved r row)
    then have q: "r = q" "rq_pending q" "rq_app_id q = app" "row = ?row" using found by auto
    have "filter (\<lambda>r. rq_id r \<noteq> rq_id q \<and> \<not> sibling_request row r) (idb_requests db)
      = filter (\<lambda>r. \<not> (rq_pending r \<and> (rq_app_id r = app \<or> rq_identity r = rq_identity q))) (idb_requests db)"
    proof (rule filter_cong [OF refl])
      fix r assume "r \<in> set (idb_requests db)"
      then have "rq_id r = rq_id q \<Longrightarrow> r = q" using distinct_map_inj [OF req(1) _ assms(2)] by blast
      then show "(rq_id r \<noteq> rq_id q \<and> \<not> sibling_request row r)
        = (\<not> (rq_pending r \<and> (rq_app_id r = app \<or> rq_identity r = rq_identity q)))"
        using q ident by (auto simp: sibling_request_def)
    qed
    moreover have "find (\<lambda>b. br_app_id b = app) (idb_bindings db @ [row]) = Some row"
    proof (rule find_unique)
      show "distinct (map br_app_id (idb_bindings db @ [row]))"
        using identity_invD(1) [OF assms(1)] approved(7) q by (simp add: bindings_inv_def)
    qed (use q in simp_all)
    ultimately show ?thesis
      unfolding approved(5) using env q
      by (auto simp: LockBinding_def scanBinding_def request_binding_row_def scanRequest_def environment_inverse)
  qed simp
qed

lemma i_request: "\<exists>q \<in> set (idb_requests i_pending_db). rq_id q = 1"
  using i_pending_requests(1) by (metis list.set_intros(1) list.set_map image_iff)

theorem approve_effect_witness:
  "\<exists>b. LockBinding ''shop'' i_bound_db = Some b \<and> bn_AppID b = ''shop'' \<and> idb_keys i_bound_db = idb_keys i_pending_db"
proof -
  obtain q where q: "q \<in> set (idb_requests i_pending_db)" "rq_id q = 1" using i_request by blast
  have "isl (fst (store_ApproveRequest 1 ''shop'' (20 * Second) i_pending_db)) = False" by code_simp
  then obtain b where "store_ApproveRequest (rq_id q) ''shop'' (20 * Second) i_pending_db = (Inr b, i_bound_db)"
    unfolding q(2) i_bound_db_def
    by (cases "store_ApproveRequest 1 ''shop'' (20 * Second) i_pending_db";
        cases "fst (store_ApproveRequest 1 ''shop'' (20 * Second) i_pending_db)") auto
  with approve_effect [OF reachable_identity_inv [OF i_reachable(1)] q(1)] show ?thesis by blast
qed

end
