(* ===== verification/Dispatch_Properties.thy ===== *)
theory Dispatch_Properties
  imports Samples
begin

text \<open>
  Properties of the queue, the retry policy and the worker: who gets a delivery, what is recorded,
  how often and how late it is tried again.
\<close>

section \<open>Claims\<close>

text \<open>The row a claim leases is the earliest claimable one.\<close>

lemma ClaimDue_first:
  assumes "ClaimDue env locked now lease db = (Inr (Some c), db')"
  obtains d where "d \<in> set (db_deliveries db)" "due now d" "\<not> locked (d_ID d)"
    "cl_Delivery c = d\<lparr>d_NextAttemptAt := now + lease, d_UpdatedAt := tx_now env\<rparr>"
    "\<forall>x \<in> set (db_deliveries db). due now x \<and> \<not> locked (d_ID x) \<longrightarrow> due_order d \<le> due_order x"
proof -
  let ?p = "\<lambda>d. due now d \<and> \<not> locked (d_ID d)"
  from assms obtain d rest where d: "order_limit due_order 1 (filter ?p (db_deliveries db)) = d # rest"
    by (cases "order_limit due_order 1 (filter ?p (db_deliveries db))") (auto simp: ClaimDue_def split: if_splits)
  from assms have "cl_Delivery c = d\<lparr>d_NextAttemptAt := now + lease, d_UpdatedAt := tx_now env\<rparr>"
    by (auto simp: ClaimDue_def d [unfolded One_nat_def] Let_def split: if_splits sum.splits)
  moreover have "\<forall>x \<in> set (filter ?p (db_deliveries db)). due_order d \<le> due_order x"
    using order_limit_first [OF d] by blast
  ultimately show ?thesis using ClaimDue_chosen [OF d] by (intro that [of d]) auto
qed

text \<open>
  C6. Claims are exclusive while the lease runs: once a worker has claimed a delivery at \<open>now\<close> for
  \<open>lease\<close>, no worker whose clock is before the end of the lease can claim the same delivery from
  the resulting table, whatever rows it finds locked.
\<close>

theorem claim_exclusive:
  assumes "ClaimDue env locked now lease db = (Inr (Some c), db')"
    and "ClaimDue env' locked' now' lease' db' = (Inr (Some c'), db'')"
    and "now' < now + lease"
  shows "d_ID (cl_Delivery c') \<noteq> d_ID (cl_Delivery c)"
proof -
  obtain d where d: "d \<in> set (db_deliveries db)"
    "cl_Delivery c = d\<lparr>d_NextAttemptAt := now + lease, d_UpdatedAt := tx_now env\<rparr>"
    "db' = db\<lparr>db_deliveries := update_where (\<lambda>x. d_ID x = d_ID d)
       (\<lambda>x. x\<lparr>d_NextAttemptAt := now + lease, d_UpdatedAt := tx_now env\<rparr>) (db_deliveries db)\<rparr>"
    using assms(1) by (rule ClaimDue_Some)
  obtain d' where d': "d' \<in> set (db_deliveries db')" "due now' d'"
    "cl_Delivery c' = d'\<lparr>d_NextAttemptAt := now' + lease', d_UpdatedAt := tx_now env'\<rparr>"
    using assms(2) by (rule ClaimDue_Some)
  have "d_NextAttemptAt x = now + lease" if "x \<in> set (db_deliveries db')" "d_ID x = d_ID d" for x
    using that by (auto simp: d(3) in_update_where)
  with d' assms(3) show ?thesis by (auto simp: d(2) due_def)
qed

theorem claim_exclusive_witness:
  "\<exists>c c' db' db''. ClaimDue (s_env []) (\<lambda>_. False) 600 50 (snd (ReleaseDue (\<lambda>_. False) 600 10 s_db)) = (Inr (Some c), db')
     \<and> ClaimDue (s_env []) (\<lambda>_. False) 610 50 db' = (Inr (Some c'), db'')
     \<and> d_ID (cl_Delivery c') \<noteq> d_ID (cl_Delivery c)"
proof -
  let ?db = "snd (ReleaseDue (\<lambda>_. False) 600 10 s_db)"
  let ?r = "ClaimDue (s_env []) (\<lambda>_. False) 600 50 ?db"
  let ?r' = "ClaimDue (s_env []) (\<lambda>_. False) 610 50 (snd ?r)"
  have "\<not> isl (fst ?r) \<and> projr (fst ?r) \<noteq> None" "\<not> isl (fst ?r') \<and> projr (fst ?r') \<noteq> None"
    by code_simp+
  then obtain c c' where r: "?r = (Inr (Some c), snd ?r)" and r': "?r' = (Inr (Some c'), snd ?r')"
    by (metis not_None_eq prod.collapse sum.collapse(2))
  from claim_exclusive [OF r r'] r r' show ?thesis by auto
qed

text \<open>
  A claim is fair and complete: with a positive lease it returns nothing exactly when no unlocked
  delivery is due, and otherwise it returns a due pending delivery with the least
  (\<open>next_attempt_at\<close>, \<open>id\<close>) together with its parent message.
\<close>

theorem claim_earliest:
  assumes "reachable db" and "0 < lease"
  shows "case ClaimDue env locked now lease db of
      (Inl _, _) \<Rightarrow> False
    | (Inr None, db') \<Rightarrow> db' = db \<and> \<not> (\<exists>d \<in> set (db_deliveries db).
          d_State d = StatePending \<and> d_NextAttemptAt d \<le> now \<and> \<not> locked (d_ID d))
    | (Inr (Some c), _) \<Rightarrow>
        d_State (cl_Delivery c) = StatePending \<and> d_NextAttemptAt (cl_Delivery c) = now + lease
        \<and> sm_ID (cl_Message c) = d_MessageID (cl_Delivery c)
        \<and> (\<exists>d \<in> set (db_deliveries db). d_ID d = d_ID (cl_Delivery c)
             \<and> d_State d = StatePending \<and> d_NextAttemptAt d \<le> now \<and> \<not> locked (d_ID d)
             \<and> (\<forall>x \<in> set (db_deliveries db). d_State x = StatePending \<and> \<not> locked (d_ID x) \<longrightarrow>
                  (d_NextAttemptAt d, d_ID d) \<le> (d_NextAttemptAt x, d_ID x)))"
proof -
  let ?p = "\<lambda>d. due now d \<and> \<not> locked (d_ID d)"
  obtain r db' where r: "ClaimDue env locked now lease db = (r, db')" by (cases "ClaimDue env locked now lease db")
  show ?thesis
  proof (cases "order_limit due_order 1 (filter ?p (db_deliveries db))")
    case Nil
    then have "length (order_limit due_order 1 (filter ?p (db_deliveries db))) = 0" by simp
    then have "filter ?p (db_deliveries db) = []" by (auto simp: min_def split: if_splits)
    then show ?thesis using assms(2) Nil [unfolded One_nat_def] by (auto simp: ClaimDue_def filter_empty_conv due_def)
  next
    case (Cons d rest)
    note d = ClaimDue_chosen [OF Cons]
    have "d_MessageID d \<in> m_id ` set (db_messages db)"
      using d reachable_invD(1) [OF assms(1)] by (simp add: store_inv_def refs_ok_def)
    then have "find (\<lambda>m. m_id m = d_MessageID d) (db_messages db) \<noteq> None" by (auto simp: find_None_iff)
    then obtain c where c: "r = Inr (Some c)"
      using r assms(2) Cons [unfolded One_nat_def]
      by (auto simp: ClaimDue_def Let_def queryMessageHead_def split: option.splits)
    note some = r [unfolded c]
    have 1: "d_State (cl_Delivery c) = StatePending \<and> d_NextAttemptAt (cl_Delivery c) = now + lease
        \<and> sm_ID (cl_Message c) = d_MessageID (cl_Delivery c)"
      by (rule ClaimDue_Some [OF some]) (simp add: due_def scanMessage_def)
    have 2: "\<exists>d \<in> set (db_deliveries db). d_ID d = d_ID (cl_Delivery c) \<and> due now d \<and> \<not> locked (d_ID d)
             \<and> (\<forall>x \<in> set (db_deliveries db). due now x \<and> \<not> locked (d_ID x) \<longrightarrow> due_order d \<le> due_order x)"
      by (rule ClaimDue_first [OF some]) fastforce
    from 2 obtain d' where d': "d' \<in> set (db_deliveries db)" "d_ID d' = d_ID (cl_Delivery c)" "due now d'" "\<not> locked (d_ID d')"
      and least: "\<And>x. x \<in> set (db_deliveries db) \<Longrightarrow> due now x \<Longrightarrow> \<not> locked (d_ID x) \<Longrightarrow> due_order d' \<le> due_order x"
      by blast
    have "(d_NextAttemptAt d', d_ID d') \<le> (d_NextAttemptAt x, d_ID x)"
      if x: "x \<in> set (db_deliveries db)" "d_State x = StatePending" "\<not> locked (d_ID x)" for x
      using least [OF x(1) _ x(3)] x(2) d'(3) by (cases "d_NextAttemptAt x \<le> now") (auto simp: due_def due_order_def)
    with d' have "\<exists>d \<in> set (db_deliveries db). d_ID d = d_ID (cl_Delivery c)
             \<and> d_State d = StatePending \<and> d_NextAttemptAt d \<le> now \<and> \<not> locked (d_ID d)
             \<and> (\<forall>x \<in> set (db_deliveries db). d_State x = StatePending \<and> \<not> locked (d_ID x) \<longrightarrow>
                  (d_NextAttemptAt d, d_ID d) \<le> (d_NextAttemptAt x, d_ID x))"
      using due_def [THEN iffD1, OF d'(3)] by blast
    with 1 some show ?thesis by simp
  qed
qed

theorem claim_earliest_witness:
  "d_ID (cl_Delivery (the (projr (fst (ClaimDue (s_env []) (\<lambda>_. False) 200 50 s_db))))) = 1
   \<and> (\<exists>d \<in> set (db_deliveries s_db). d_NextAttemptAt d \<le> 200
        \<and> (\<forall>x \<in> set (db_deliveries s_db). d_State x = StatePending \<longrightarrow> (d_NextAttemptAt d, d_ID d) \<le> (d_NextAttemptAt x, d_ID x)))"
proof -
  let ?r = "ClaimDue (s_env []) (\<lambda>_. False) 200 50 s_db"
  have e: "\<not> isl (fst ?r) \<and> projr (fst ?r) \<noteq> None \<and> d_ID (cl_Delivery (the (projr (fst ?r)))) = 1" by code_simp
  then obtain c db' where r: "?r = (Inr (Some c), db')" by (metis not_None_eq prod.collapse sum.collapse(2))
  from claim_earliest [OF s_reachable(4), where lease = 50 and env = "s_env []" and locked = "\<lambda>_. False" and now = 200] e show ?thesis
    by (auto simp: r)
qed

section \<open>Recording\<close>








definition s_attempt_env :: "database attempt_env" where
  "s_attempt_env = \<lparr>ae_budgetCheck = 200, ae_neverSent = 200, ae_started = 200, ae_finished = 5000200, ae_random = None,
     ae_record_done = (\<lambda>_. False), ae_during_send = (\<lambda>s. s), ae_before_disable = (\<lambda>s. s)\<rparr>"

definition s_claim :: claim where
  "s_claim = \<lparr>cl_Delivery = s_delivery 1 ''m1'' StatePending 250, cl_Message = scanMessage (s_row ''m1'' ''k1'' None None)\<rparr>"

definition s_outcome :: "int \<Rightarrow> outcome" where
  "s_outcome code = \<lparr>oc_StatusCode = code, oc_RetryAfter = None, oc_ResponseSnippet = [], oc_Err = None, oc_Gone = False\<rparr>"


text \<open>
  C8. A delivery settles once: after an attempt has been recorded as delivered or dead, every further
  \<open>RecordAttempt\<close> for it leaves every table unchanged, so a second worker that finishes late can
  neither overwrite the outcome nor add to the log.
\<close>

theorem record_settles_once:
  assumes "reachable db" and "RecordAttempt env result db = (Inr d, db')" and "d_State d \<noteq> StatePending"
    and "ar_DeliveryID (res_Record result') = ar_DeliveryID (res_Record result)"
  shows "snd (RecordAttempt env' result' db') = db'
    \<and> (\<forall>x. fst (RecordAttempt env' result' db') = Inr x \<longrightarrow> x = d)"
proof -
  from assms(2) obtain current where cur: "lockDelivery db (ar_DeliveryID (res_Record result)) = Inr current"
    by (auto simp: RecordAttempt_def split: sum.splits)
  then have curd: "current \<in> set (db_deliveries db)" "d_ID current = ar_DeliveryID (res_Record result)"
    by (auto simp: lockDelivery_def dest!: find_Some_in split: option.splits)
  have "reachable db'" using reachable_step [OF assms(1) system_step.record_attempt, of env result] assms(2) by simp
  then have dist: "distinct (map d_ID (db_deliveries db'))"
    using reachable_invD(1) by (simp add: store_inv_def keys_ok_def)
  have "d \<in> set (db_deliveries db') \<and> d_ID d = d_ID current"
    using assms(2) cur curd(1)
    by (fastforce simp: RecordAttempt_def Let_def in_update_where split: sum.splits if_splits)
  then have "lockDelivery db' (ar_DeliveryID (res_Record result')) = Inr d"
    using find_unique [OF dist, of d "d_ID d"] curd(2) assms(4) by (simp add: lockDelivery_def)
  with assms(3) show ?thesis by (simp add: RecordAttempt_def split: sum.split)
qed

theorem record_settles_once_witness:
  "let r = RecordAttempt (s_env []) (attempt_result_of s_attempt_env s_claim (s_outcome 200)) s_db
   in d_State (projr (fst r)) = StateDelivered
      \<and> snd (RecordAttempt (s_env []) (attempt_result_of s_attempt_env s_claim (s_outcome 503)) (snd r)) = snd r"
proof -
  let ?res = "attempt_result_of s_attempt_env s_claim (s_outcome 200)"
  let ?r = "RecordAttempt (s_env []) ?res s_db"
  have e: "\<not> isl (fst ?r) \<and> d_State (projr (fst ?r)) = StateDelivered" by code_simp
  then have r: "?r = (Inr (projr (fst ?r)), snd ?r)" by (metis prod.collapse sum.collapse(2))
  from record_settles_once [OF s_reachable(4) r, of "attempt_result_of s_attempt_env s_claim (s_outcome 503)" "s_env []"] e
  show ?thesis by (simp add: Let_def)
qed

text \<open>
  The attempt log is complete: in every reachable database, listing the attempts of a delivery
  gives exactly one row per attempt its counter reports, numbered 1, 2, \<dots> without a gap.
\<close>

theorem attempt_log_complete:
  assumes "reachable db" and "d \<in> set (db_deliveries db)"
  shows "\<exists>as. ListAttempts db (d_ID d) = Inr as \<and> map at_AttemptNumber as = [1..d_AttemptCount d]"
proof -
  have n: "map at_AttemptNumber (attempts_of db (d_ID d)) = [1..d_AttemptCount d]"
    using store_invD(4) [OF reachable_invD(1) [OF assms(1)]] assms(2) by (simp add: log_ok_def numbers_ok_def)
  then have "sorted (map at_AttemptNumber (attempts_of db (d_ID d)))" by simp
  then have "sort_key at_AttemptNumber (attempts_of db (d_ID d)) = attempts_of db (d_ID d)"
    by (simp add: sort_key_id_if_sorted)
  with n assms(2) show ?thesis by (simp add: ListAttempts_def)
qed

definition s_recorded_db :: database where
  "s_recorded_db = snd (RecordAttempt (s_env []) (attempt_result_of s_attempt_env s_claim (s_outcome 200)) s_db)"

theorem attempt_log_complete_witness:
  "\<exists>as. ListAttempts s_recorded_db 1 = Inr as \<and> map at_AttemptNumber as = [1]"
proof -
  let ?d = "hd (db_deliveries s_recorded_db)"
  have "reachable s_recorded_db"
    unfolding s_recorded_db_def by (rule reachable_step [OF s_reachable(4) system_step.record_attempt])
  moreover have "db_deliveries s_recorded_db \<noteq> [] \<and> d_ID ?d = 1 \<and> d_AttemptCount ?d = 1" by code_simp
  ultimately show ?thesis using attempt_log_complete [of s_recorded_db ?d] by auto
qed

section \<open>Retries\<close>

text \<open>
  The retry budget: an attempt is retried exactly when its outcome is retryable (a transport
  error that is neither blocked nor malformed, or HTTP 408, 429, 5xx), it was not the twelfth of its
  budget and the budget is younger than a day; it is delivered exactly on a 2xx answer without an
  error, and otherwise dead with a reason. The state never depends on the jitter.
\<close>

theorem retry_decision:
  "(res_NextState (Decide d out now r) = StatePending \<longleftrightarrow>
      Classify out = OutcomeRetryable \<and> d_BudgetAttempts d + 1 < 12 \<and> now - d_BudgetStartedAt d < 24 * Hour)
   \<and> (res_NextState (Decide d out now r) = StateDelivered \<longleftrightarrow>
        oc_Err out = None \<and> 200 \<le> oc_StatusCode out \<and> oc_StatusCode out \<le> 299)
   \<and> (res_NextState (Decide d out now r) = StateDead \<longleftrightarrow> res_DeadReason (Decide d out now r) \<noteq> None)
   \<and> res_NextState (Decide d out now r) \<in> {StatePending, StateDelivered, StateDead}"
proof -
  have success: "Classify out = OutcomeSuccess \<longleftrightarrow> oc_Err out = None \<and> 200 \<le> oc_StatusCode out \<and> oc_StatusCode out \<le> 299"
    by (auto simp: Classify_def Let_def split: option.splits if_splits)
  have "res_NextState (Decide d out now r) = StateDelivered \<longleftrightarrow> Classify out = OutcomeSuccess"
    "res_NextState (Decide d out now r) \<in> {StatePending, StateDelivered, StateDead}"
    "res_NextState (Decide d out now r) = StatePending \<longleftrightarrow>
      Classify out = OutcomeRetryable \<and> d_BudgetAttempts d + 1 < 12 \<and> now - d_BudgetStartedAt d < 24 * Hour"
    unfolding Decide_state by (auto simp: policy_consts split: attempt_outcome.split)
  with success show ?thesis using Decide_dead_iff_reason by blast
qed

text \<open>
  C9. The back-off is bounded and never overflows: before the \<open>n\<close>-th retry it lies between half of
  30 s doubled per earlier failure (capped at one hour) and one hour, is at least 15 s, and a
  \<open>Retry-After\<close> of the receiver is honoured up to one hour, for every value the jitter source can
  return (NaN and the infinities included).
\<close>

theorem backoff_bounds:
  "min (30 * Second * 2 ^ nat (n - 1)) Hour div 2 \<le> Backoff n ra r
   \<and> 15 * Second \<le> Backoff n ra r \<and> Backoff n ra r \<le> Hour
   \<and> (case ra of None \<Rightarrow> True | Some x \<Rightarrow> min x Hour \<le> Backoff n ra r)"
proof -
  have "min x Hour \<le> Backoff n (Some x) r" for x
    using Backoff_positive [of n "Some x" r] unfolding Backoff_eq Let_def by (auto simp: MaxRetryAfter_def)
  then show ?thesis
    using Backoff_range [of n ra r] Backoff_positive [of n ra r]
    by (auto simp: backoff_ceiling_def BaseBackoff_def MaxBackoff_def split: option.split)
qed

section \<open>Worker configuration\<close>

text \<open>
  The lease outlives the attempt it guards: whatever configuration is given (with an attempt
  timeout that leaves room in an \<open>int64\<close>), \<open>NewWorker\<close> yields a lease of at least the attempt
  timeout plus the time allowed for recording, for disabling a destination and the margin, so a
  second worker cannot claim a delivery whose attempt is still running; every other setting is
  positive.
\<close>

theorem lease_outlives_attempt:
  assumes "wc_AttemptTimeout config \<le> maxDuration - 37 * Second"
  shows "let c = NewWorker config in
    wc_AttemptTimeout c + recordTimeout + disableTimeout + leaseMargin \<le> wc_Lease c
    \<and> 0 < wc_AttemptTimeout c \<and> 1 \<le> wc_Concurrency c \<and> 0 < wc_PollInterval c \<and> 0 < wc_RecordRetryDelay c"
  using NewWorker_lease [OF assms] by (simp add: Let_def)

definition s_config :: "database worker_config" where
  "s_config =
     \<lparr>wc_Queue = \<lparr>q_ClaimDue = (\<lambda>_ now lease db. ClaimDue (s_env []) (\<lambda>_. False) now lease db),
                  q_RecordAttempt = (\<lambda>_ result db. RecordAttempt (s_env []) result db)\<rparr>,
      wc_Resolver = \<lparr>rv_Resolve = Resolve s_registry, rv_DisableDestination = DisableDestination 200\<rparr>,
      wc_Recipients = None,
      wc_Sinks = (\<lambda>t. if t = TypeWebhook then Some (\<lambda>_ _. Some (s_outcome 410)) else None),
      wc_Concurrency = 0, wc_PollInterval = 0, wc_Lease = Second, wc_AttemptTimeout = 20 * Second, wc_RecordRetryDelay = 0\<rparr>"

theorem lease_outlives_attempt_witness:
  "20 * Second + recordTimeout + disableTimeout + leaseMargin \<le> wc_Lease (NewWorker s_config)"
proof -
  have "wc_AttemptTimeout s_config \<le> maxDuration - 37 * Second" by (simp add: s_config_def)
  moreover have "wc_AttemptTimeout (NewWorker s_config) = 20 * Second" by code_simp
  ultimately show ?thesis using lease_outlives_attempt [of s_config] by (simp add: Let_def)
qed

text \<open>
  The back-off between failed claims never polls faster than an idle worker, never exceeds the
  larger of 30 s and the poll interval, and never overflows, however many claims failed in a row.
\<close>

theorem claim_backoff_bounds:
  assumes "0 < pollInterval" and "pollInterval \<le> maxDuration"
  shows "pollInterval \<le> claimBackoff pollInterval failures
    \<and> claimBackoff pollInterval failures \<le> max maxClaimBackoff pollInterval"
  by (rule claimBackoff_bounds [OF assms])

theorem claim_backoff_bounds_witness:
  "Second \<le> claimBackoff Second 1000 \<and> claimBackoff Second 1000 \<le> max maxClaimBackoff Second"
  by (rule claim_backoff_bounds) simp_all

end
