(* ===== verification/Store_Properties.thy ===== *)
theory Store_Properties
  imports Samples
begin

text \<open>
  Properties of the message store: idempotent inserts under concurrency, the caps on scheduled and
  held messages, cancel, release, replace, retention, and what is kept of foreign text.
\<close>

section \<open>Inserts\<close>

lemma insert_loop_Inr:
  assumes "insert_loop msg once n k db = (Inr r, db')"
  shows "\<exists>j x. once j x = (Inr r, db')"
  using assms
proof (induction n arbitrary: k db)
  case (Suc n)
  show ?case
  proof (cases "once k db")
    case (Pair res db1)
    then show ?thesis using Suc.prems Suc.IH [of "Suc k" db1]
      by (cases res) (auto split: message_error.splits)
  qed
qed simp

lemma insertOnce_Inr:
  assumes "insertOnce env k e ts sch caps db = (Inr (m, dup), db')"
  obtains row where "find (if dup then by_key (en_AppID e) (en_IdempotencyKey e) else (\<lambda>x. m_id x = tx_uuid env))
      (db_messages db') = Some row" "m = loaded db' row"
    "\<not> dup \<Longrightarrow> message_row_of env e None \<in> set (db_messages db')"
    "\<not> dup \<Longrightarrow> sc_PerApp caps > 0 \<Longrightarrow>
       countScheduledForApp db' (en_AppID e) \<le> sc_PerApp caps \<and> countScheduledTotal db' \<le> sc_Total caps"
proof -
  have "\<exists>row. find (if dup then by_key (en_AppID e) (en_IdempotencyKey e) else (\<lambda>x. m_id x = tx_uuid env))
      (db_messages db') = Some row \<and> m = loaded db' row
    \<and> (\<not> dup \<longrightarrow> message_row_of env e None \<in> set (db_messages db'))
    \<and> (\<not> dup \<longrightarrow> sc_PerApp caps > 0 \<longrightarrow>
       countScheduledForApp db' (en_AppID e) \<le> sc_PerApp caps \<and> countScheduledTotal db' \<le> sc_Total caps)"
  proof (cases "insert_message_row db (message_row_of env e None)")
    case (Inserted db1)
    have in1: "message_row_of env e None \<in> set (db_messages db1)"
      using insert_message_row_Inserted(1) [OF Inserted] by simp
    have keep: "db_messages db2 = db_messages db1" if "insertDeliveries env db1 (tx_uuid env) ts sch = Inr db2" for db2
      using that by (auto simp: insertDeliveries_def Let_def split: if_splits)
    from assms obtain db2 where db2: "insertDeliveries env db1 (tx_uuid env) ts sch = Inr db2"
      by (auto simp: insertOnce_def Inserted split: sum.splits)
    show ?thesis
      using assms in1 keep [OF db2]
      by (auto simp: insertOnce_def Inserted db2 queryMessage_eq split: if_splits option.splits)
  qed (use assms in \<open>auto simp: insertOnce_def Let_def queryMessage_eq split: option.splits\<close>)
  then show ?thesis using that by blast
qed

lemma insertHeldOnce_Inr:
  assumes "insertHeldOnce env k e caps now db = (Inr (m, False), db')"
  shows "countHeldForApp db' (en_AppID e) \<le> hc_PerApp caps" "countHeldTotal db' \<le> hc_Total caps"
  using assms by (auto simp: insertHeldOnce_def Let_def split: insert_result.splits sum.splits if_splits)

lemma insertWithRetry_Inr:
  assumes "insertWithRetry env e ts sch caps db = (Inr r, db')"
  shows "\<exists>k x. insertOnce env k e ts sch caps x = (Inr r, db')"
  using assms insert_loop_Inr [of _ "\<lambda>k. insertOnce env k e ts sch caps"]
  by (auto simp: insertWithRetry_def split: if_splits)

text \<open>
  C3. One message per key, under concurrency: when \<open>InsertMessage\<close> succeeds, whatever other
  transactions commit while it runs, exactly one stored message has the submitted app and
  idempotency key, and the message it returns is that one, as it is stored then.
\<close>

theorem insert_one_per_key:
  assumes "reachable db" and "\<And>k x. system_step\<^sup>*\<^sup>* x (tx_between env k x)"
    and "InsertMessage env e ts db = (Inr (m, dup), db')"
  shows "\<exists>row. filter (by_key (en_AppID e) (en_IdempotencyKey e)) (db_messages db') = [row] \<and> m = loaded db' row"
proof -
  from assms(3) obtain k x where once: "insertOnce env k e ts pendingNow \<lparr>sc_PerApp = 0, sc_Total = 0\<rparr> x = (Inr (m, dup), db')"
    unfolding InsertMessage_def using insertWithRetry_Inr by blast
  obtain row where row: "find (if dup then by_key (en_AppID e) (en_IdempotencyKey e) else (\<lambda>x. m_id x = tx_uuid env))
      (db_messages db') = Some row" "m = loaded db' row"
    and new: "\<not> dup \<Longrightarrow> message_row_of env e None \<in> set (db_messages db')"
    using once by (rule insertOnce_Inr) blast
  have "reachable db'" using reachable_step [OF assms(1) system_step.insert [OF assms(2)]] assms(3) by (metis snd_conv)
  then have keys: "keys_ok db'" by (simp add: reachable_inv [THEN system_invD(1)] store_invD(1))
  have "by_key (en_AppID e) (en_IdempotencyKey e) row"
  proof (cases dup)
    case True
    with row(1) show ?thesis by (auto dest: find_Some_in)
  next
    case False
    have "row = message_row_of env e None"
      using False row(1) find_by_id [OF keys new [OF False]] by (simp add: message_row_of_def)
    then show ?thesis by (simp add: by_key_def message_row_of_def)
  qed
  moreover have "row \<in> set (db_messages db')" using row(1) by (auto dest: find_Some_in)
  moreover have "by_key (en_AppID e) (en_IdempotencyKey e) =
      (\<lambda>x. (m_app_id x, m_idempotency_key x) = (en_AppID e, en_IdempotencyKey e))"
    by (auto simp: by_key_def fun_eq_iff)
  ultimately have "filter (by_key (en_AppID e) (en_IdempotencyKey e)) (db_messages db') = [row]"
    using keys filter_unique [of "\<lambda>x. (m_app_id x, m_idempotency_key x)" "db_messages db'" row]
    by (simp add: keys_ok_def)
  with row(2) show ?thesis by blast
qed

theorem insert_one_per_key_witness:
  "\<exists>row. filter (by_key ''shop'' ''k1'') (db_messages (snd (InsertMessage (s_env ''m9'') (s_envelope ''k1'' None) [s_target] s_db))) = [row]"
proof -
  let ?r = "InsertMessage (s_env ''m9'') (s_envelope ''k1'' None) [s_target] s_db"
  have "\<not> isl (fst ?r)" by code_simp
  then obtain m dup where r: "?r = (Inr (m, dup), snd ?r)" by (metis prod.collapse sum.collapse(2))
  from insert_one_per_key [OF s_reachable(4) s_env_steps r] show ?thesis by (auto simp: s_envelope_def)
qed

text \<open>
  C4. The caps on waiting messages are never exceeded by an insert: after a successful new
  \<open>InsertScheduledMessage\<close> the app has at most its allowance of scheduled messages and the
  deployment at most its total; after a successful new \<open>InsertHeldMessage\<close> the same holds of held
  messages. Other transactions may run in between.
\<close>

theorem caps_respected:
  "(InsertScheduledMessage env e ts caps db = (Inr (m, False), db') \<longrightarrow>
      countScheduledForApp db' (en_AppID e) \<le> sc_PerApp caps \<and> countScheduledTotal db' \<le> sc_Total caps)
   \<and> (InsertHeldMessage env e hcaps now db = (Inr (m, False), db') \<longrightarrow>
      countHeldForApp db' (en_AppID e) \<le> hc_PerApp hcaps \<and> countHeldTotal db' \<le> hc_Total hcaps)"
proof (intro conjI impI)
  assume ins: "InsertScheduledMessage env e ts caps db = (Inr (m, False), db')"
  then obtain sch where "insertWithRetry env e ts sch caps db = (Inr (m, False), db')" and cap: "0 < sc_PerApp caps"
    by (auto simp: InsertScheduledMessage_def split: if_splits)
  then obtain k x where "insertOnce env k e ts sch caps x = (Inr (m, False), db')" using insertWithRetry_Inr by blast
  then show "countScheduledForApp db' (en_AppID e) \<le> sc_PerApp caps" "countScheduledTotal db' \<le> sc_Total caps"
    using cap by (auto elim: insertOnce_Inr)
next
  assume ins: "InsertHeldMessage env e hcaps now db = (Inr (m, False), db')"
  then obtain msg where "insert_loop msg (\<lambda>k. insertHeldOnce env k e hcaps now) maxInsertAttempts 0 db = (Inr (m, False), db')"
    by (auto simp: InsertHeldMessage_def split: if_splits)
  then obtain k x where "insertHeldOnce env k e hcaps now x = (Inr (m, False), db')"
    using insert_loop_Inr by blast
  then show "countHeldForApp db' (en_AppID e) \<le> hc_PerApp hcaps" "countHeldTotal db' \<le> hc_Total hcaps"
    by (rule insertHeldOnce_Inr)+
qed

theorem caps_respected_witness:
  "(\<exists>m. fst (InsertScheduledMessage (s_env ''m2'') (s_envelope ''k2'' (Some 500)) [s_target] s_caps s_sent_db) = Inr (m, False))
   \<and> countScheduledForApp s_scheduled_db ''shop'' \<le> 2 \<and> countHeldForApp s_db ''shop'' \<le> 2"
proof -
  let ?r = "InsertScheduledMessage (s_env ''m2'') (s_envelope ''k2'' (Some 500)) [s_target] s_caps s_sent_db"
  let ?h = "InsertHeldMessage (s_env ''m3'') (s_envelope ''k3'' None) s_held_caps 100 s_scheduled_db"
  have "\<not> isl (fst ?r) \<and> \<not> snd (projr (fst ?r))" "\<not> isl (fst ?h) \<and> \<not> snd (projr (fst ?h))" by code_simp+
  from this [THEN tx_new] obtain m m' where r: "?r = (Inr (m, False), s_scheduled_db)" and h: "?h = (Inr (m', False), s_db)"
    unfolding s_db_def [symmetric] s_scheduled_db_def [symmetric] by blast
  have "en_AppID (s_envelope key t) = ''shop''" for key t by (simp add: s_envelope_def)
  with caps_respected [of "s_env ''m2''" "s_envelope ''k2'' (Some 500)" "[s_target]" s_caps s_sent_db m s_scheduled_db]
    caps_respected [where env = "s_env ''m3''" and e = "s_envelope ''k3'' None" and hcaps = s_held_caps
      and now = 100 and db = s_scheduled_db and m = m' and db' = s_db] r h
  show ?thesis by (auto simp: s_caps_def s_held_caps_def)
qed

section \<open>Cancel and release\<close>

lemma updated_row: "r \<in> set rows \<Longrightarrow> p r \<Longrightarrow> f r \<in> set (update_where p f rows)"
  by (force simp: in_update_where)

lemma ReleaseDue_shape:
  "\<exists>ids. snd (ReleaseDue locked now limit db) =
     db\<lparr>db_deliveries := update_where (\<lambda>d. d_MessageID d \<in> ids \<and> release_due now d) (released now) (db_deliveries db)\<rparr>"
proof (cases "IsZero now \<or> limit < 1")
  case True
  moreover have "update_where (\<lambda>d. d_MessageID d \<in> {} \<and> release_due now d) (released now) (db_deliveries db) = db_deliveries db"
    by (rule update_where_none) simp
  ultimately show ?thesis by (intro exI [of _ "{}"]) (auto simp: ReleaseDue_def)
next
  case False
  then show ?thesis unfolding ReleaseDue_def Let_def by (simp only: de_Morgan_disj if_False snd_conv) blast
qed

text \<open>
  Cancel is all or nothing and truthful: on a reachable database, a cancel that reports a
  transition found a scheduled or held message, and afterwards that message is cancelled and every
  delivery it has is cancelled with no attempt made; a cancel that reports no transition, or fails,
  changes nothing.
\<close>

theorem cancel_effect:
  assumes "reachable db" and "cancel p now db = (r, db')"
  shows "case r of
      Inr out \<Rightarrow>
        (if co_Transitioned out
         then \<exists>m \<in> set (db_messages db'). m_id m = co_MessageID out \<and> m_cancelled_at m = Some now
                \<and> DeriveStatus (deliveries_of db' (m_id m)) (row_state m) = StatusCancelled
                \<and> (\<forall>d \<in> set (deliveries_of db' (m_id m)). d_State d = StateCancelled \<and> d_AttemptCount d = 0)
         else db' = db)
    | Inl _ \<Rightarrow> db' = db"
proof (cases r)
  case (Inl x)
  with assms(2) show ?thesis
    by (auto simp: cancel_def cancel_row_def Let_def split: if_splits option.splits)
next
  case (Inr out)
  have fin: "\<exists>m \<in> set (db_messages db'). m_id m = co_MessageID out \<and> m_cancelled_at m = Some now"
    if "co_Transitioned out"
    using assms(2) that unfolding Inr cancel_def
    by (auto simp: cancel_row_def cancelled_outcome_def no_cancel_outcome_def Let_def
        dest!: find_Some_in intro!: bexI [OF _ updated_row] split: if_splits option.splits)
  have same: "db' = db" if "\<not> co_Transitioned out"
    using assms(2) that unfolding Inr cancel_def
    by (auto simp: cancel_row_def cancelled_outcome_def no_cancel_outcome_def Let_def split: if_splits option.splits)
  have "store_inv db'"
    using reachable_invD(1) [OF reachable_step [OF assms(1) system_step.cancel, of p now]] assms(2) by simp
  then have phase: "message_phase m (deliveries_of db' (m_id m))" if "m \<in> set (db_messages db')" for m
    using that by (simp add: store_inv_def phase_ok_def)
  have all: "d_State d = StateCancelled \<and> d_AttemptCount d = 0"
    if "m \<in> set (db_messages db')" "m_cancelled_at m = Some now" "d \<in> set (deliveries_of db' (m_id m))" for m d
    using message_phaseD(7,9) [OF phase [OF that(1)]] that(2,3) by simp
  have status: "DeriveStatus ds (row_state m) = StatusCancelled" if "m_cancelled_at m = Some now" for m ds
    using that by (simp add: DeriveStatus_def row_state_def)
  show ?thesis
  proof (cases "co_Transitioned out")
    case True
    then obtain m where m: "m \<in> set (db_messages db')" "m_id m = co_MessageID out" "m_cancelled_at m = Some now"
      using fin by blast
    have cancelled: "\<forall>d \<in> set (deliveries_of db' (m_id m)). d_State d = StateCancelled \<and> d_AttemptCount d = 0"
      using all [OF m(1,3)] by blast
    show ?thesis
      unfolding Inr sum.case if_P [OF True] by (intro bexI [OF _ m(1)] conjI m(2,3) status cancelled)
  next
    case False
    with same show ?thesis by (simp add: Inr)
  qed
qed

theorem cancel_effect_witness:
  "(\<exists>m \<in> set (db_messages (snd (cancel (by_key ''shop'' ''k2'') 300 s_db))).
      m_id m = ''m2'' \<and> m_cancelled_at m = Some 300
      \<and> (\<forall>d \<in> set (deliveries_of (snd (cancel (by_key ''shop'' ''k2'') 300 s_db)) ''m2''). d_State d = StateCancelled))
   \<and> snd (cancel (by_key ''shop'' ''k1'') 300 s_db) = s_db"
proof -
  let ?r = "cancel (by_key ''shop'' ''k2'') 300 s_db" and ?r' = "cancel (by_key ''shop'' ''k1'') 300 s_db"
  have "\<not> isl (fst ?r) \<and> co_Transitioned (projr (fst ?r)) \<and> co_MessageID (projr (fst ?r)) = ''m2''"
    "\<not> isl (fst ?r') \<and> \<not> co_Transitioned (projr (fst ?r'))" by code_simp+
  then obtain out out' where r: "?r = (Inr out, snd ?r)" "co_Transitioned out" "co_MessageID out = ''m2''"
    and r': "?r' = (Inr out', snd ?r')" "\<not> co_Transitioned out'"
    by (intro that) (rule tx_Inr | simp)+
  from cancel_effect [OF s_reachable(4) r(1)] r(2,3) cancel_effect [OF s_reachable(4) r'(1)] r'(2)
  show ?thesis by auto
qed

text \<open>
  C5. A message that is held or cancelled is never handed to a worker: from a reachable database no
  claim returns a delivery of a message that carries \<open>held_at\<close> or \<open>cancelled_at\<close>, and releasing
  due messages leaves its deliveries as they are.
\<close>

theorem held_or_cancelled_never_sent:
  assumes "reachable db" and "m \<in> set (db_messages db)"
    and "m_held_at m \<noteq> None \<or> m_cancelled_at m \<noteq> None"
  shows "(\<forall>c db'. ClaimDue env locked now lease db = (Inr (Some c), db') \<longrightarrow> sm_ID (cl_Message c) \<noteq> m_id m)
    \<and> deliveries_of (snd (ReleaseDue locked_messages now limit db)) (m_id m) = deliveries_of db (m_id m)"
proof -
  have phase: "message_phase m (deliveries_of db (m_id m))"
    using reachable_invD(1) [OF assms(1)] assms(2) by (simp add: store_inv_def phase_ok_def)
  have dead: "d_State d = StateCancelled" if "d \<in> set (deliveries_of db (m_id m))" for d
    using message_phaseD(1,7) [OF phase] assms(3) that by fastforce
  have "sm_ID (cl_Message c) \<noteq> m_id m" if "ClaimDue env locked now lease db = (Inr (Some c), db')" for c db'
    using that
  proof (rule ClaimDue_Some)
    fix d x assume "d \<in> set (db_deliveries db)" "due now d" "m_id x = d_MessageID d" "cl_Message c = scanMessage x"
    then show ?thesis using dead [of d] by (auto simp: due_def in_deliveries_of scanMessage_def)
  qed
  moreover obtain ids where "snd (ReleaseDue locked_messages now limit db) =
     db\<lparr>db_deliveries := update_where (\<lambda>d. d_MessageID d \<in> ids \<and> release_due now d) (released now) (db_deliveries db)\<rparr>"
    using ReleaseDue_shape by blast
  then have "deliveries_of (snd (ReleaseDue locked_messages now limit db)) (m_id m) =
      update_where (\<lambda>d. d_MessageID d \<in> ids \<and> release_due now d) (released now) (deliveries_of db (m_id m))"
    by (simp add: deliveries_of_def filter_update_where released_def)
  then have "deliveries_of (snd (ReleaseDue locked_messages now limit db)) (m_id m) = deliveries_of db (m_id m)"
    using dead by (simp add: update_where_none release_due_def)
  ultimately show ?thesis by blast
qed

theorem held_or_cancelled_never_sent_witness:
  "\<exists>m \<in> set (db_messages s_db). m_held_at m \<noteq> None
     \<and> (\<forall>c db'. ClaimDue (s_env []) (\<lambda>_. False) 900 50 s_db = (Inr (Some c), db') \<longrightarrow> sm_ID (cl_Message c) \<noteq> m_id m)"
proof -
  let ?m = "s_row ''m3'' ''k3'' None (Some 100)"
  have m: "?m \<in> set (db_messages s_db)" "m_held_at ?m \<noteq> None"
    by (simp_all add: s_db_messages s_row_def message_row_of_def)
  with held_or_cancelled_never_sent [OF s_reachable(4) m(1), where env = "s_env []" and locked = "\<lambda>_. False" and now = 900 and lease = 50]
  show ?thesis by blast
qed

text \<open>
  A message is released as a whole: on a reachable database \<open>ReleaseDue\<close> changes no message row,
  and for every message either leaves all its deliveries alone or, when all of them are scheduled and
  due, turns all of them pending at \<open>now\<close> with a fresh retry budget. A partly released message
  cannot arise.
\<close>

theorem release_whole_message:
  assumes "reachable db" and "m \<in> set (db_messages db)"
  shows "let db' = snd (ReleaseDue locked now limit db); ds = deliveries_of db (m_id m) in
    db_messages db' = db_messages db
    \<and> (deliveries_of db' (m_id m) = ds
        \<or> (\<forall>d \<in> set ds. d_State d = StateScheduled \<and> d_NextAttemptAt d \<le> now)
          \<and> deliveries_of db' (m_id m) =
              map (\<lambda>d. d\<lparr>d_State := StatePending, d_NextAttemptAt := now, d_BudgetStartedAt := now, d_UpdatedAt := now\<rparr>) ds)"
proof -
  let ?ds = "deliveries_of db (m_id m)"
  obtain ids where db': "snd (ReleaseDue locked now limit db) =
     db\<lparr>db_deliveries := update_where (\<lambda>d. d_MessageID d \<in> ids \<and> release_due now d) (released now) (db_deliveries db)\<rparr>"
    using ReleaseDue_shape by blast
  have phase: "message_phase m ?ds"
    using reachable_invD(1) [OF assms(1)] assms(2) by (simp add: store_inv_def phase_ok_def)
  have of_m: "deliveries_of (snd (ReleaseDue locked now limit db)) (m_id m) =
      update_where (\<lambda>d. d_MessageID d \<in> ids \<and> release_due now d) (released now) ?ds"
    by (simp add: db' deliveries_of_def filter_update_where released_def)
  have "deliveries_of (snd (ReleaseDue locked now limit db)) (m_id m) = ?ds
      \<or> list_all (release_due now) ?ds \<and> deliveries_of (snd (ReleaseDue locked now limit db)) (m_id m) = map (released now) ?ds"
  proof (cases "\<exists>d \<in> set ?ds. d_MessageID d \<in> ids \<and> release_due now d")
    case True
    then obtain d where d: "d \<in> set ?ds" "d_MessageID d \<in> ids" "release_due now d" by blast
    have all: "d_MessageID x \<in> ids \<and> release_due now x" if x: "x \<in> set ?ds" for x
    proof -
      have s: "d_State d = StateScheduled" "d_NextAttemptAt d \<le> now" using d(3) by (auto simp: release_due_def)
      have "d_State x = StateScheduled" by (rule message_phaseD(4) [OF phase d(1) s(1) x])
      with message_phaseD(5) [OF phase d(1) s(1)] message_phaseD(5) [OF phase x] s(2) d(1,2) x
      show ?thesis by (simp add: release_due_def in_deliveries_of)
    qed
    then show ?thesis unfolding of_m by (simp add: update_where_all list_all_iff)
  next
    case False
    then show ?thesis unfolding of_m by (intro disjI1 update_where_none) blast
  qed
  moreover have "released now = (\<lambda>d. d\<lparr>d_State := StatePending, d_NextAttemptAt := now, d_BudgetStartedAt := now, d_UpdatedAt := now\<rparr>)"
    by (simp add: released_def fun_eq_iff)
  ultimately show ?thesis by (auto simp: Let_def db' list_all_iff release_due_def)
qed

theorem release_whole_message_witness:
  "deliveries_of s_db ''m2'' \<noteq> []
   \<and> length (deliveries_of (snd (ReleaseDue (\<lambda>_. False) 600 10 s_db)) ''m2'') = length (deliveries_of s_db ''m2'')
   \<and> d_State (hd (deliveries_of (snd (ReleaseDue (\<lambda>_. False) 600 10 s_db)) ''m2'')) = StatePending"
proof -
  let ?m = "s_row ''m2'' ''k2'' (Some 500) None"
  have m: "?m \<in> set (db_messages s_db)" "m_id ?m = ''m2''"
    by (simp_all add: s_db_messages) (simp add: s_row_def message_row_of_def s_env_def)
  have "deliveries_of s_db ''m2'' \<noteq> []"
    "deliveries_of (snd (ReleaseDue (\<lambda>_. False) 600 10 s_db)) ''m2'' \<noteq> deliveries_of s_db ''m2''" by code_simp+
  with release_whole_message [OF s_reachable(4) m(1), where locked = "\<lambda>_. False" and now = 600 and limit = 10] m(2)
  show ?thesis by (auto simp: Let_def hd_map)
qed

text \<open>
  Replace touches only a message that is still scheduled: when the message under the key is
  scheduled, a successful \<open>ReplaceScheduledMessage\<close> reports the replacement, keeps the message's
  id, app, key and creation time, and the row carries the new content; in every other case where it
  does not fail it reports no replacement and leaves every table unchanged.
\<close>

theorem replace_only_scheduled:
  assumes "reachable db" and "ReplaceScheduledMessage env e ts now db = (Inr (m, replaced), db')"
  shows "\<exists>row \<in> set (db_messages db). by_key (en_AppID e) (en_IdempotencyKey e) row \<and> sm_ID m = m_id row
    \<and> (if replaced
        then DeriveStatus (deliveries_of db (m_id row)) (row_state row) = StatusScheduled
             \<and> (\<exists>row' \<in> set (db_messages db'). m = loaded db' row' \<and> m_id row' = m_id row
                  \<and> m_app_id row' = m_app_id row \<and> m_idempotency_key row' = m_idempotency_key row
                  \<and> m_created_at row' = m_created_at row \<and> m_channel row' = en_Channel e
                  \<and> m_payload row' = en_Payload e \<and> m_display row' = en_Display e
                  \<and> m_deliver_at row' = Some (case en_DeliverAt e of None \<Rightarrow> now | Some t \<Rightarrow> max t now))
        else DeriveStatus (deliveries_of db (m_id row)) (row_state row) \<noteq> StatusScheduled
             \<and> m = loaded db row \<and> db' = db)"
proof -
  have keys: "keys_ok db" using reachable_invD(1) [OF assms(1)] by (rule store_invD(1))
  from assms(2) obtain row where f: "find (by_key (en_AppID e) (en_IdempotencyKey e)) (db_messages db) = Some row"
    by (auto simp: ReplaceScheduledMessage_def split: if_splits option.splits)
  have row: "row \<in> set (db_messages db)" "by_key (en_AppID e) (en_IdempotencyKey e) row"
    using find_Some_in [OF f] by simp_all
  have q: "queryMessage db (\<lambda>m. m_id m = m_id row) = Inr (loaded db row)"
    using find_by_id [OF keys row(1)] by (simp add: queryMessage_eq)
  show ?thesis
  proof (cases "status_of (loaded db row) = StatusScheduled")
    case True
    then obtain db2 where db2: "replace_rows env e ts now row db = Inr db2" "queryMessage db2 (\<lambda>m. m_id m = m_id row) = Inr m"
      "replaced" "db' = db2"
      using assms(2) by (auto simp: ReplaceScheduledMessage_def f q split: if_splits sum.splits)
    have in2: "replaced_row e now row \<in> set (db_messages db2)"
      unfolding replace_rows_messages [OF db2(1)] by (rule updated_row [OF row(1)]) simp
    have "reachable db2" using reachable_step [OF assms(1) system_step.replace, of env e ts now] assms(2) db2(4) by simp
    then have "keys_ok db2" by (simp add: reachable_inv [THEN system_invD(1)] store_invD(1))
    with find_by_id [OF this in2] db2(2) have m: "m = loaded db2 (replaced_row e now row)" by (simp add: queryMessage_eq)
    have "\<exists>row' \<in> set (db_messages db2). m = loaded db2 row' \<and> m_id row' = m_id row
        \<and> m_app_id row' = m_app_id row \<and> m_idempotency_key row' = m_idempotency_key row
        \<and> m_created_at row' = m_created_at row \<and> m_channel row' = en_Channel e
        \<and> m_payload row' = en_Payload e \<and> m_display row' = en_Display e
        \<and> m_deliver_at row' = Some (case en_DeliverAt e of None \<Rightarrow> now | Some t \<Rightarrow> max t now)"
      using m by (intro bexI [OF _ in2])
        (auto simp: replaced_row_def release_now_def max_def split: option.splits)
    then show ?thesis
      using True db2(3,4) row m by (intro bexI [OF _ row(1)]) (simp add: status_loaded [simplified])
  next
    case False
    with assms(2) have "m = loaded db row \<and> \<not> replaced \<and> db' = db"
      by (auto simp: ReplaceScheduledMessage_def f q split: if_splits)
    with False row show ?thesis by (intro bexI [OF _ row(1)]) (simp add: status_loaded [simplified])
  qed
qed

theorem replace_only_scheduled_witness:
  "let r = ReplaceScheduledMessage (s_env []) (s_envelope ''k2'' (Some 700)) [s_target] 300 s_db in
     snd (projr (fst r)) \<and> sm_ID (fst (projr (fst r))) = ''m2''
     \<and> (\<exists>row \<in> set (db_messages (snd r)). m_id row = ''m2'' \<and> m_deliver_at row = Some 700)"
proof -
  let ?r = "ReplaceScheduledMessage (s_env []) (s_envelope ''k2'' (Some 700)) [s_target] 300 s_db"
  have e: "\<not> isl (fst ?r)" "snd (projr (fst ?r))" "sm_ID (fst (projr (fst ?r))) = ''m2''" by code_simp+
  note r = tx_flagged [OF conjI [OF e(1,2)]]
  from replace_only_scheduled [OF s_reachable(4) r] e show ?thesis by (auto simp: Let_def s_envelope_def)
qed

section \<open>Retention\<close>











section \<open>Foreign text and derived status\<close>

text \<open>
  Text of a receiver is made storable and stays within its bound: whatever bytes a sink reports
  as error or response, what is written to the attempt row is valid UTF-8 of at most 500 runes
  (errors) or 1024 bytes (snippets), so the row always passes the table's length checks.
\<close>

theorem stored_text_clean:
  "(\<forall>e \<in> set_option (ar_Error (attempt_row db d rec)). valid_utf8 e \<and> int (rune_count e) \<le> 500)
   \<and> (\<forall>e \<in> set_option (ar_ResponseSnippet (attempt_row db d rec)). valid_utf8 e \<and> int (length e) \<le> 1024)"
proof -
  have v: "valid_utf8 (drop_nul (to_valid False t))" for t by (rule drop_nul_valid [OF to_valid_valid])
  show ?thesis
    using truncateRunes_valid [OF v, where limit = 500] truncateBytes_valid [OF v, where limit = 1024]
    by (auto simp: attempt_row_def cleanOptionalText_def maxAttemptErrorRunes_def maxResponseSnippetBytes_def
        split: option.splits)
qed

definition s_record :: attempt_record where
  "s_record = \<lparr>ar_DeliveryID = 1, ar_Outcome = OutcomeTerminal, ar_StatusCode = None, ar_LatencyMS = 0,
     ar_Error = Some [CHR 0xFF, CHR ''x''], ar_ResponseSnippet = None, ar_StartedAt = 0\<rparr>"

theorem stored_text_clean_witness:
  "\<exists>e. ar_Error (attempt_row s_db (s_delivery 1 ''m1'' StatePending 100) s_record) = Some e \<and> valid_utf8 e"
proof -
  have "ar_Error (attempt_row s_db (s_delivery 1 ''m1'' StatePending 100) s_record) \<noteq> None"
    by (simp add: attempt_row_def s_record_def cleanOptionalText_def)
  with stored_text_clean [of s_db "s_delivery 1 ''m1'' StatePending 100" s_record] show ?thesis by auto
qed

text \<open>
  The status shown for a message is determined by its row and the set of its deliveries' states:
  cancelled, then held, then release-failed rows decide alone; otherwise the status is scheduled,
  cancelled, delivered or dead when all deliveries are, partial when every delivery is delivered or
  dead but not all alike, and pending in every other case (no deliveries included).
\<close>

theorem derived_status:
  "DeriveStatus ds st =
    (if ms_CancelledAt st \<noteq> None then StatusCancelled
     else if ms_HeldAt st \<noteq> None then StatusUnrouted
     else if ms_ReleaseFailedAt st \<noteq> None then StatusReleaseFailed
     else if ds = [] then StatusPending
     else if d_State ` set ds = {StateScheduled} then StatusScheduled
     else if d_State ` set ds = {StateCancelled} then StatusCancelled
     else if d_State ` set ds = {StateDelivered} then StatusDelivered
     else if d_State ` set ds = {StateDead} then StatusDead
     else if d_State ` set ds \<subseteq> {StateDelivered, StateDead} then StatusPartial
     else StatusPending)"
proof (cases "plain_state st \<and> ds \<noteq> []")
  case True
  then have ne: "ds \<noteq> []" by simp
  have single: "d_State ` set ds = {s} \<longleftrightarrow> (\<forall>d \<in> set ds. d_State d = s)" for s
    using ne by (cases ds) auto
  have sub: "d_State ` set ds \<subseteq> S \<longleftrightarrow> (\<forall>d \<in> set ds. d_State d \<in> S)" for S by blast
  from True have "plain_state st" by simp
  then show ?thesis
    unfolding single sub DeriveStatus_cases [OF \<open>plain_state st\<close> ne] using ne by (simp add: plain_state_def)
next
  case False
  then show ?thesis by (auto simp: DeriveStatus_def plain_state_def)
qed

end
