(* ===== verification/Registry_Properties.thy ===== *)
theory Registry_Properties
  imports Samples
begin

text \<open>
  Properties of the registry: route matching and fan-out, who may use and change a destination, and
  how secrets are kept.
\<close>

section \<open>Routing\<close>

text \<open>
  Route matching is exact: for routes with distinct ids, \<open>MatchRoutes\<close> lists each destination
  at most once, in id order; a destination is listed exactly when an enabled route whose two patterns
  match names it, together with exactly the ids of those routes.
\<close>

theorem match_routes_exact:
  assumes "distinct (map sr_ID routes)"
  shows "sorted (map dm_DestinationID (MatchRoutes routes app channel))
    \<and> distinct (map dm_DestinationID (MatchRoutes routes app channel))
    \<and> (\<forall>i. i \<in> dm_DestinationID ` set (MatchRoutes routes app channel) \<longleftrightarrow>
         (\<exists>r \<in> set routes. sr_Enabled r \<and> MatchPattern (sr_AppPattern r) app
            \<and> MatchPattern (sr_ChannelPattern r) channel \<and> i \<in> set (sr_DestinationIDs r)))
    \<and> (\<forall>m \<in> set (MatchRoutes routes app channel). set (dm_RouteIDs m) =
         {sr_ID r | r. r \<in> set routes \<and> sr_Enabled r \<and> MatchPattern (sr_AppPattern r) app
            \<and> MatchPattern (sr_ChannelPattern r) channel \<and> dm_DestinationID m \<in> set (sr_DestinationIDs r)})"
proof -
  have ids: "i \<in> dm_DestinationID ` set (MatchRoutes routes app channel) \<longleftrightarrow>
      (\<exists>r \<in> set routes. sr_Enabled r \<and> MatchPattern (sr_AppPattern r) app
         \<and> MatchPattern (sr_ChannelPattern r) channel \<and> i \<in> set (sr_DestinationIDs r))" for i
    unfolding MatchRoutes_ids [OF assms] route_fires_def by blast
  have "set (dm_RouteIDs m) = {sr_ID r | r. r \<in> set routes \<and> sr_Enabled r \<and> MatchPattern (sr_AppPattern r) app
      \<and> MatchPattern (sr_ChannelPattern r) channel \<and> dm_DestinationID m \<in> set (sr_DestinationIDs r)}"
    if "m \<in> set (MatchRoutes routes app channel)" for m
    using that [unfolded set_MatchRoutes [OF assms]] by (auto simp: firing_routes_def route_fires_def)
  then show ?thesis
    by (intro conjI allI ballI MatchRoutes_sorted MatchRoutes_distinct ids)
qed

theorem match_routes_exact_witness:
  "1 \<in> dm_DestinationID ` set (MatchRoutes (ListEnabledRoutes s_db) ''shop'' ''orders'')"
proof -
  have d: "distinct (map sr_ID (ListEnabledRoutes s_db))" by code_simp
  have r: "list_ex (\<lambda>r. sr_Enabled r \<and> MatchPattern (sr_AppPattern r) ''shop''
      \<and> MatchPattern (sr_ChannelPattern r) ''orders'' \<and> 1 \<in> set (sr_DestinationIDs r)) (ListEnabledRoutes s_db)"
    by code_simp
  note iff = match_routes_exact [OF d, of "''shop''" "''orders''", THEN conjunct2, THEN conjunct2, THEN conjunct1, THEN spec, of 1]
  show ?thesis by (rule iff [THEN iffD2]) (rule r [unfolded list_ex_iff])
qed

text \<open>
  C11. Fan-out is exact and isolated: from a reachable database, a message without a named target
  resolves to exactly the enabled destinations that an enabled matching route links, sorted by name
  and without repetition, and each of them is one the sending app may use.
\<close>

theorem fanout_exact:
  assumes "reachable db" and "Resolve svc app [] channel db = Inr rs"
  shows "set (map rd_ID rs) = {sd_ID d | d. d \<in> set (db_destinations db) \<and> sd_Enabled d \<and> fires_for db app channel d}
    \<and> sorted (map rd_Name rs) \<and> distinct (map rd_Name rs)
    \<and> (\<forall>d \<in> set (db_destinations db). fires_for db app channel d \<longrightarrow> UsableBy d app)"
  using Resolve_fanout [OF reachable_invD(2) [OF assms(1)] assms(2)] fires_usable [OF reachable_invD(2) [OF assms(1)]]
  by blast

theorem fanout_exact_witness:
  "\<exists>rs. Resolve s_registry ''shop'' [] ''orders'' s_db = Inr rs \<and> map rd_ID rs = [1]
     \<and> (\<exists>d \<in> set (db_destinations s_db). sd_ID d = 1 \<and> sd_Enabled d \<and> fires_for s_db ''shop'' ''orders'' d)"
proof -
  let ?r = "Resolve s_registry ''shop'' [] ''orders'' s_db"
  have e: "\<not> isl ?r" "map rd_ID (projr ?r) = [1]" by code_simp+
  then have r: "?r = Inr (projr ?r)" by (simp add: sum.collapse(2))
  from fanout_exact [OF s_reachable(4) r] e(2) have "1 \<in> {sd_ID d | d. d \<in> set (db_destinations s_db) \<and> sd_Enabled d
      \<and> fires_for s_db ''shop'' ''orders'' d}" by (metis list.set_intros(1))
  with r e(2) show ?thesis by auto
qed

text \<open>
  A destination of another app cannot be told from one that does not exist: addressing it by name
  gives the same error as addressing an unused name, whether it is enabled or not.
\<close>

theorem foreign_destination_unknown:
  assumes "reachable db" and "name \<noteq> []"
    and "\<And>d. d \<in> set (db_destinations db) \<Longrightarrow> sd_Name d = name \<Longrightarrow> \<not> UsableBy d app"
  shows "Resolve svc app name channel db = Inl ErrUnknownDestination"
proof (cases "\<exists>d \<in> set (db_destinations db). sd_Name d = name")
  case True
  then obtain d where d: "d \<in> set (db_destinations db)" "sd_Name d = name" by blast
  with assms(2,3) resolveNamed_foreign [OF reachable_invD(2) [OF assms(1), THEN reg_invD(1)] d(1)] show ?thesis
    by (simp add: Resolve_def)
next
  case False
  then have "find (\<lambda>d. sd_Name d = name) (db_destinations db) = None" by (auto simp: find_None_iff)
  with assms(2) show ?thesis by (simp add: Resolve_def resolveNamed_def GetDestination_def)
qed

theorem foreign_destination_unknown_witness:
  "Resolve s_registry ''bank'' ''shop_hook'' ''orders'' s_db = Inl ErrUnknownDestination
   \<and> Resolve s_registry ''bank'' ''nosuch'' ''orders'' s_db = Inl ErrUnknownDestination"
proof -
  have "list_all (\<lambda>d. sd_Name d = ''shop_hook'' \<longrightarrow> \<not> UsableBy d ''bank'') (db_destinations s_db)"
    "list_all (\<lambda>d. sd_Name d = ''nosuch'' \<longrightarrow> \<not> UsableBy d ''bank'') (db_destinations s_db)" by code_simp+
  then show ?thesis
    using foreign_destination_unknown [OF s_reachable(4), of "''shop_hook''" "''bank''"]
      foreign_destination_unknown [OF s_reachable(4), of "''nosuch''" "''bank''"]
    by (auto simp: list_all_iff)
qed

section \<open>Ownership\<close>




definition s_dest_row :: stored_destination where
  "s_dest_row = (s_dest ''shop_hook'' OwnerApp (Some ''shop''))\<lparr>sd_ID := 2, sd_CreatedAt := 10, sd_UpdatedAt := 10\<rparr>"



text \<open>
  Disabling is aimed: on a reachable database \<open>DisableDestination\<close> changes the destination of
  that name only if it still has the id the failed delivery was sent to; then that row alone becomes
  disabled with the reason, keeping its identity and secrets. A destination deleted and re-created
  under the same name is left alone, with an error.
\<close>

theorem disable_aimed:
  assumes "reachable db"
  shows "case DisableDestination now name i reason db of
      (Inl e, db') \<Rightarrow> e = ErrDestinationNotFound \<and> db' = db
        \<and> \<not> (\<exists>d \<in> set (db_destinations db). sd_Name d = name \<and> sd_ID d = i)
    | (Inr _, db') \<Rightarrow> (\<exists>d \<in> set (db_destinations db). sd_Name d = name \<and> sd_ID d = i)
        \<and> db' = db\<lparr>db_destinations := update_where (\<lambda>d. sd_ID d = i)
            (\<lambda>d. d\<lparr>sd_Enabled := False, sd_DisabledReason := Some reason, sd_UpdatedAt := now\<rparr>) (db_destinations db)\<rparr>"
proof (cases "find (\<lambda>d. sd_Name d = name) (db_destinations db)")
  case None
  moreover from this have "\<not> (\<exists>d \<in> set (db_destinations db). sd_Name d = name)" by (auto simp: find_None_iff)
  ultimately show ?thesis by (auto simp: DisableDestination_def UpdateDestination_def viewed_def)
next
  case (Some d)
  note ok = reachable_invD(2) [OF assms, THEN reg_invD(1)]
  note d = find_Some_in [OF Some]
  show ?thesis
  proof (cases "sd_ID d = i")
    case True
    have "update_where (\<lambda>x. sd_ID x = i) (\<lambda>_. d\<lparr>sd_Enabled := False, sd_DisabledReason := Some reason, sd_UpdatedAt := now\<rparr>) (db_destinations db)
        = update_where (\<lambda>x. sd_ID x = i) (\<lambda>x. x\<lparr>sd_Enabled := False, sd_DisabledReason := Some reason, sd_UpdatedAt := now\<rparr>) (db_destinations db)"
      using same_destination [OF ok, of d] d True by (intro update_where_cong) auto
    then show ?thesis
      using Some True d by (auto simp: DisableDestination_def UpdateDestination_def viewed_def disable_mutation_def Let_def)
  next
    case False
    have "\<not> (\<exists>x \<in> set (db_destinations db). sd_Name x = name \<and> sd_ID x = i)"
      using False d ok by (auto simp: dest_ok_def dest: distinct_map_inj)
    with Some False show ?thesis by (auto simp: DisableDestination_def UpdateDestination_def viewed_def disable_mutation_def)
  qed
qed

theorem disable_aimed_witness:
  "snd (DisableDestination 300 ''ops'' 7 ''gone'' s_db) = s_db \<and> isl (fst (DisableDestination 300 ''ops'' 7 ''gone'' s_db))"
proof -
  have "isl (fst (DisableDestination 300 ''ops'' 7 ''gone'' s_db))" by code_simp
  with disable_aimed [OF s_reachable(4), where now = 300 and name = "''ops''" and i = 7 and reason = "''gone''"] show ?thesis
    by (auto split: prod.splits sum.splits)
qed

section \<open>Secrets\<close>

text \<open>
  What the service relies on of the sealer and of the JSON codec, for one set of secrets: opening a
  blob under the associated data it was sealed with gives the plaintext back, and decoding gives the
  fields back.
\<close>

definition codec_ok :: "registry_service \<Rightarrow> fields \<Rightarrow> bool" where
  "codec_ok svc secrets \<longleftrightarrow>
     rs_json_decode svc (rs_json_encode svc secrets) = Some secrets
     \<and> (\<forall>aad sealed. rs_seal svc (rs_json_encode svc secrets) aad = Some sealed \<longrightarrow>
          rs_open svc sealed aad = Some (rs_json_encode svc secrets))"

lemma open_sealed: "codec_ok svc secrets \<Longrightarrow> sealSecrets svc name secrets = Inr sealed \<Longrightarrow> openSecrets svc name sealed = Inr secrets"
  by (auto simp: codec_ok_def sealSecrets_def openSecrets_def split: option.splits)

lemma find_snoc: "find p xs = None \<Longrightarrow> find p (xs @ [x]) = (if p x then Some x else None)"
  by (induction xs) (auto split: if_splits)

text \<open>
  C13. A created destination delivers what was configured: after \<open>CreateDestination\<close> succeeds with
  an enabled destination, every app that addresses it by name resolves to exactly one destination,
  with the submitted type, configuration and secrets (sealed in the table, opened on use).
\<close>

theorem create_then_resolve:
  assumes "reachable db" and "codec_ok svc (di_Secrets input)"
    and "CreateDestination svc now input db = (Inr view, db')" and "default_true (di_Enabled input)"
  shows "\<exists>r. Resolve svc app (di_Name input) channel db' = Inr [r] \<and> rd_Name r = di_Name input
    \<and> rd_Type r = di_Type input \<and> rd_Config r = di_Config input \<and> rd_Secrets r = di_Secrets input"
proof -
  from assms(3) obtain sealed stored where seal: "sealSecrets svc (di_Name input) (di_Secrets input) = Inr sealed"
    and name: "ValidateDestinationName (di_Name input) = Inr ()"
    and ins: "InsertDestination now (new_destination input sealed OwnerOperator None) db = (Inr stored, db')"
    by (auto simp: CreateDestination_def viewed_def split: sum.splits prod.splits)
  let ?row = "(new_destination input sealed OwnerOperator None)\<lparr>sd_ID := db_destination_seq db, sd_CreatedAt := now, sd_UpdatedAt := now\<rparr>"
  have db': "db_destinations db' = db_destinations db @ [?row]" and fresh: "di_Name input \<notin> sd_Name ` set (db_destinations db)"
    using ins by (auto simp: InsertDestination_def new_destination_def ownerKindOrOperator_def Let_def split: if_splits)
  have "find (\<lambda>d. sd_Name d = di_Name input) (db_destinations db) = None" using fresh by (force simp: find_None_iff)
  then have get: "GetDestination db' (di_Name input) = Inr ?row"
    by (simp add: GetDestination_def db' new_destination_def find_snoc)
  moreover have "di_Name input \<noteq> []" using name by (auto simp: ValidateDestinationName_def split: if_splits)
  ultimately show ?thesis
    using assms(4) open_sealed [OF assms(2) seal]
    by (simp add: Resolve_def resolveNamed_def unseal_def UsableBy_def new_destination_def)
qed

text \<open>
  C14. No view shows a secret: whatever the stored secrets are, every secret value a destination view
  carries is the fixed mask or, for the URL of a webhook or Discord destination, the mask with only
  the host of that URL.
\<close>

theorem views_mask_secrets:
  "\<forall>(key, v) \<in> set (dv_Secrets (destinationView svc stored)).
     v = ''****'' \<or> (\<exists>secrets url parsed. openSecrets svc (sd_Name stored) (sd_SealedSecrets stored) = Inr secrets
        \<and> key \<in> {''url'', ''webhook_url''} \<and> (key, url) \<in> set secrets \<and> rs_url_parse svc url = Some parsed
        \<and> v = ''https://'' @ pu_Host parsed @ ''/****'')"
  by (auto simp: destinationView_def MaskSecrets_def maskURL_def maskedValue_def split: sum.splits option.splits if_splits; blast)

definition s_secrets :: fields where
  "s_secrets = [(''url'', ''https://hooks.test/x''), (''signing_secret'', ''whsec_0123456789abcdef0123456789abcdef'')]"

definition s_rotated :: fields where
  "s_rotated = AList.update ''signing_secret'' ''whsec_fedcba9876543210fedcba9876543210''
     (AList.update ''signing_secret_previous'' (field s_secrets ''signing_secret'') s_secrets)"

text \<open>A service whose codec knows these secrets and whose sealer appends the associated data.\<close>

definition s_sealing :: registry_service where
  "s_sealing = s_registry\<lparr>rs_seal := (\<lambda>p a. Some (p @ a)), rs_open := (\<lambda>b a. Some (take (length b - length a) b)),
     rs_json_encode := (\<lambda>f. if f = s_secrets then ''s'' else ''t''),
     rs_json_decode := (\<lambda>p. if p = ''s'' then Some s_secrets else if p = ''t'' then Some s_rotated else None),
     rs_url_parse := (\<lambda>_. Some \<lparr>pu_Scheme = ''https'', pu_Hostname = ''hooks.test'', pu_Host = ''hooks.test'',
       pu_EscapedPath = ''/x'', pu_HasUser = False\<rparr>)\<rparr>"

lemma s_codec_ok: "codec_ok s_sealing s_secrets" "codec_ok s_sealing s_rotated"
proof -
  have "s_rotated \<noteq> s_secrets" by (simp add: s_rotated_def s_secrets_def)
  then show "codec_ok s_sealing s_secrets" "codec_ok s_sealing s_rotated" by (simp_all add: codec_ok_def s_sealing_def)
qed

definition s_input :: destination_input where
  "s_input = \<lparr>di_Name = ''alerts'', di_Type = TypeWebhook, di_Enabled = None, di_Config = [], di_Secrets = s_secrets\<rparr>"

theorem create_then_resolve_witness:
  "\<exists>r. Resolve s_sealing ''shop'' ''alerts'' ''orders'' (snd (CreateDestination s_sealing 400 s_input s_db)) = Inr [r]
     \<and> rd_Secrets r = s_secrets"
proof -
  let ?r = "CreateDestination s_sealing 400 s_input s_db"
  have "\<not> isl (fst ?r)" by code_simp
  note r = tx_Inr [OF this]
  from create_then_resolve [OF s_reachable(4) _ r] s_codec_ok(1)
  show ?thesis by (auto simp: s_input_def default_true_def)
qed

definition s_hosted :: registry_service where
  "s_hosted = s_registry\<lparr>rs_url_parse := rs_url_parse s_sealing\<rparr>"

theorem views_mask_secrets_witness:
  "\<exists>v. dv_Secrets (destinationView s_hosted s_dest_row) = [(''url'', v)] \<and> v = ''https://hooks.test/****''
     \<and> (v = ''****'' \<or> (\<exists>secrets url parsed. openSecrets s_hosted (sd_Name s_dest_row) (sd_SealedSecrets s_dest_row) = Inr secrets
          \<and> (''url'', url) \<in> set secrets \<and> rs_url_parse s_hosted url = Some parsed
          \<and> v = ''https://'' @ pu_Host parsed @ ''/****''))"
proof -
  let ?v = "''https://hooks.test/****''"
  have v: "dv_Secrets (destinationView s_hosted s_dest_row) = [(''url'', ?v)]" by code_simp
  then have "(''url'', ?v) \<in> set (dv_Secrets (destinationView s_hosted s_dest_row))" by simp
  from bspec [OF views_mask_secrets this] v show ?thesis by fast
qed

text \<open>
  Rotation never invalidates the signature in use: rotating a webhook secret makes the new secret
  current, keeps the old one as the previous secret until the end of the overlap, and leaves every
  other secret and the identity of the destination as they were.
\<close>

theorem rotation_keeps_previous:
  assumes "openSecrets svc (sd_Name d) (sd_SealedSecrets d) = Inr old"
    and "codec_ok svc (AList.update ''signing_secret'' new
           (AList.update ''signing_secret_previous'' (field old ''signing_secret'') old))"
    and "rotateSecret svc (Some new) clock hours d = Inr d'"
  shows "\<exists>secrets. openSecrets svc (sd_Name d') (sd_SealedSecrets d') = Inr secrets
    \<and> map_of secrets ''signing_secret'' = Some new
    \<and> map_of secrets ''signing_secret_previous'' = Some (field old ''signing_secret'')
    \<and> (\<forall>k. k \<notin> {''signing_secret'', ''signing_secret_previous''} \<longrightarrow> map_of secrets k = map_of old k)
    \<and> map_of (sd_Config d') ''previous_secret_expires_at'' = Some (rs_format_rfc3339 svc (clock + wrap64 (hours * Hour)))
    \<and> same_identity d d' \<and> sd_Type d = TypeWebhook"
proof -
  let ?secrets = "AList.update ''signing_secret'' new (AList.update ''signing_secret_previous'' (field old ''signing_secret'') old)"
  let ?config = "AList.update ''previous_secret_expires_at'' (rs_format_rfc3339 svc (clock + wrap64 (hours * Hour))) (sd_Config d)"
  from assms(1,3) obtain sealed where d': "sealSecrets svc (sd_Name d) ?secrets = Inr sealed"
    "d' = d\<lparr>sd_Config := ?config, sd_SealedSecrets := sealed\<rparr>" "sd_Type d = TypeWebhook"
    by (auto simp: rotateSecret_def Let_def split: if_splits sum.splits)
  with open_sealed [OF assms(2) d'(1)] show ?thesis
    by (intro exI [of _ ?secrets]) (simp add: update_conv' same_identity_def)
qed

definition s_webhook :: stored_destination where
  "s_webhook = s_dest_row\<lparr>sd_SealedSecrets := ''s'' @ DestinationSecretsAAD ''shop_hook''\<rparr>"

theorem rotation_keeps_previous_witness:
  "\<exists>d' secrets. rotateSecret s_sealing (Some ''whsec_fedcba9876543210fedcba9876543210'') 500 24 s_webhook = Inr d'
     \<and> openSecrets s_sealing ''shop_hook'' (sd_SealedSecrets d') = Inr secrets
     \<and> map_of secrets ''signing_secret_previous'' = Some (field s_secrets ''signing_secret'')"
proof -
  let ?new = "''whsec_fedcba9876543210fedcba9876543210''"
  let ?r = "rotateSecret s_sealing (Some ?new) 500 24 s_webhook"
  have o: "openSecrets s_sealing (sd_Name s_webhook) (sd_SealedSecrets s_webhook) = Inr s_secrets" by code_simp
  have v: "validate_fields s_sealing TypeWebhook (AList.update ''previous_secret_expires_at'' [] (sd_Config s_webhook)) s_rotated = Inr ()"
    by code_simp
  have t: "sd_Type s_webhook = TypeWebhook" by code_simp
  have "\<not> isl ?r"
    using v by (simp add: rotateSecret_def o t Let_def s_rotated_def [symmetric] sealSecrets_def)
      (simp add: s_sealing_def s_registry_def sealSecrets_def)
  then have r: "?r = Inr (projr ?r)" by (simp add: sum.collapse(2))
  have n: "sd_Name s_webhook = ''shop_hook''" by code_simp
  obtain secrets where "openSecrets s_sealing (sd_Name (projr ?r)) (sd_SealedSecrets (projr ?r)) = Inr secrets"
    "map_of secrets ''signing_secret_previous'' = Some (field s_secrets ''signing_secret'')" "same_identity s_webhook (projr ?r)"
    using rotation_keeps_previous [OF o s_codec_ok(2) [unfolded s_rotated_def] r] by blast
  moreover from this(3) n have "sd_Name (projr ?r) = ''shop_hook''" by (simp only: same_identity_def)
  ultimately show ?thesis using r by metis
qed

end
