(* ===== verification/Service_Properties.thy ===== *)
theory Service_Properties
  imports Dispatch_Properties Store_Properties Registry_Properties
begin

text \<open>
  Properties of the message service and of the worker over the Postgres stores: the end-to-end
  guarantees of submitting, sending and reading a message.
\<close>

section \<open>Submit\<close>

definition s_service :: "database message_service" where
  "s_service = NewService
     \<lparr>sv_lib = s_lib, sv_store = pg_store (s_env ''m9''), sv_resolve = Resolve s_registry, sv_publishers = None,
      sv_supportedTypes = (\<lambda>t. t = TypeWebhook), sv_maxScheduled = 0, sv_maxTotal = 0, sv_holdUnrouted = True,
      sv_heldCaps = s_held_caps\<rparr>"



lemma insert_loop_error:
  assumes "\<And>k x e x'. once k x = (Inl e, x') \<Longrightarrow> x' = x"
  shows "insert_loop msg once n k db = (Inl e, db') \<Longrightarrow> db' = db"
proof (induction n arbitrary: k db)
  case (Suc n)
  obtain r x' where r: "once k db = (r, x')" by (cases "once k db")
  show ?case
  proof (cases r)
    case (Inl e')
    then have "x' = db" using assms r by blast
    with Inl r Suc show ?thesis by (cases e') auto
  qed (use r Suc.prems in auto)
qed simp

lemma insert_error:
  "insertWithRetry (by_itself env) e ts sch caps db = (Inl x, db') \<Longrightarrow> db' = db"
  "InsertHeldMessage (by_itself env) e hcaps now db = (Inl x, db') \<Longrightarrow> db' = db"
proof -
  have once: "insertOnce (by_itself env) k e ts sch caps y = (Inl z, y') \<Longrightarrow> y' = y" for k y z y'
    by (auto simp: insertOnce_def by_itself_def Let_def split: insert_result.splits sum.splits if_splits)
  have held: "insertHeldOnce (by_itself env) k e hcaps now y = (Inl z, y') \<Longrightarrow> y' = y" for k y z y'
    by (auto simp: insertHeldOnce_def by_itself_def Let_def split: insert_result.splits sum.splits if_splits)
  show "db' = db" if "insertWithRetry (by_itself env) e ts sch caps db = (Inl x, db')"
    using that insert_loop_error [OF once] by (auto simp: insertWithRetry_def split: if_splits)
  show "db' = db" if "InsertHeldMessage (by_itself env) e hcaps now db = (Inl x, db')"
    using that insert_loop_error [OF held] by (auto simp: InsertHeldMessage_def split: if_splits)
qed

lemma pg_insert_error:
  "st_InsertMessage (pg_store env) e ts db = (Inl x, db') \<Longrightarrow> db' = db"
  "st_InsertScheduledMessage (pg_store env) e ts caps db = (Inl x, db') \<Longrightarrow> db' = db"
  "st_InsertHeldMessage (pg_store env) e hcaps now db = (Inl x, db') \<Longrightarrow> db' = db"
  "st_ReplaceScheduledMessage (pg_store env) e ts now db = (Inl x, db') \<Longrightarrow> db' = db"
  by (auto simp: pg_store_def InsertMessage_def InsertScheduledMessage_def ReplaceScheduledMessage_def
      dest: insert_error split: if_splits option.splits sum.splits)

lemma submitNew_error:
  assumes "sv_store svc = pg_store env" "submitNew svc (\<lambda>_ s. s) e now db = ((Inl x, w), db')"
  shows "db' = db \<and> \<not> w"
  using assms(2) pg_insert_error [of env]
  by (auto simp: submitNew_def insert_call_def holdMessage_def assms(1) Let_def
      split: sum.splits prod.splits if_splits)

lemma submitExisting_error:
  assumes "sv_store svc = pg_store env" "submitExisting svc (\<lambda>_ s. s) e m now db = (r, db')"
  shows "r = None \<or> (\<exists>x w. r = Some (Inl x, w)) \<Longrightarrow> db' = db" "r = Some (Inl x, w) \<Longrightarrow> \<not> w"
  using assms(2) pg_insert_error(4) [of env]
  by (auto simp: submitExisting_def assms(1) Let_def split: sum.splits prod.splits if_splits)

text \<open>
  C15. A failed submission leaves no trace: when \<open>Submit\<close> returns an error (invalid envelope, no
  destination, cap reached, failed statement), no table has changed and no worker is woken.
\<close>

theorem submit_error_no_trace:
  assumes "sv_store svc = pg_store env"
    and "Submit svc (\<lambda>_ s. s) now e db = ((Inl x, woken), db')"
  shows "db' = db \<and> \<not> woken"
proof (cases "ValidateEnvelope (sv_lib svc) e")
  case (Inl y)
  with assms(2) show ?thesis by (simp add: Submit_def)
next
  case (Inr u)
  let ?e = "hashed (sv_lib svc) e"
  show ?thesis
  proof (cases "st_GetMessageByKey (sv_store svc) (en_AppID ?e) (en_IdempotencyKey ?e) db")
    case (Inl y)
    with Inr assms(2) submitNew_error [OF assms(1), of ?e now db x woken db'] show ?thesis
      by (auto simp: Submit_def Let_def split: if_splits)
  next
    case (Inr m)
    obtain r db1 where r: "submitExisting svc (\<lambda>_ s. s) ?e m now db = (r, db1)"
      by (cases "submitExisting svc (\<lambda>_ s. s) ?e m now db")
    note err = submitExisting_error [OF assms(1) r]
    show ?thesis
    proof (cases r)
      case None
      with err have "db1 = db" by simp
      with None r Inr \<open>ValidateEnvelope (sv_lib svc) e = Inr u\<close> assms(2) submitNew_error [OF assms(1), of ?e now db]
      show ?thesis by (simp add: Submit_def Let_def)
    next
      case (Some p)
      with r Inr \<open>ValidateEnvelope (sv_lib svc) e = Inr u\<close> assms(2) have "r = Some (Inl x, woken)" "db1 = db'"
        by (simp_all add: Submit_def Let_def)
      with err show ?thesis by blast
    qed
  qed
qed

theorem submit_error_no_trace_witness:
  "\<exists>x. Submit s_service (\<lambda>_ s. s) 200 ((s_envelope ''k9'' None)\<lparr>en_ToDestination := ''nosuch''\<rparr>) s_db = ((Inl x, False), s_db)"
proof -
  let ?r = "Submit s_service (\<lambda>_ s. s) 200 ((s_envelope ''k9'' None)\<lparr>en_ToDestination := ''nosuch''\<rparr>) s_db"
  have "isl (fst (fst ?r))" by code_simp
  then have r: "?r = ((Inl (projl (fst (fst ?r))), snd (fst ?r)), snd ?r)" by (intro prod_eqI) simp_all
  have "sv_store s_service = pg_store (s_env ''m9'')" by (simp add: s_service_def NewService_def)
  from submit_error_no_trace [OF this r] have "snd ?r = s_db \<and> \<not> snd (fst ?r)" .
  then show ?thesis by (intro exI [of _ "projl (fst (fst ?r))"] trans [OF r]) simp
qed













section \<open>Sending\<close>

text \<open>
  C17. A delivery reaches only its addressee: when the worker over the Postgres stores hands a named
  delivery to a sink, the destination handed over is the one the delivery was created for (same name
  and same id, so not one re-created under the name), it exists, is enabled and usable by the sending
  app at that moment, its configuration and opened secrets are the stored ones, and the request is the
  claimed message.
\<close>

theorem worker_sends_to_addressee:
  assumes "reachable db"
    and "process (pg_worker w svc now config) env claim db = (Some (destination, request), db')"
    and "d_DestinationName (cl_Delivery claim) \<noteq> RecipientDestinationName"
  shows "request = request_of claim
    \<and> (\<exists>d \<in> set (db_destinations db). sd_Name d = d_DestinationName (cl_Delivery claim)
         \<and> Some (sd_ID d) = d_DestinationID (cl_Delivery claim) \<and> sd_Enabled d
         \<and> UsableBy d (en_AppID (sm_Envelope (cl_Message claim)))
         \<and> rd_ID destination = sd_ID d \<and> rd_Name destination = sd_Name d \<and> rd_Type destination = sd_Type d
         \<and> rd_Config destination = sd_Config d
         \<and> openSecrets svc (sd_Name d) (sd_SealedSecrets d) = Inr (rd_Secrets destination))"
proof -
  let ?cfg = "pg_worker w svc now config"
  let ?app = "en_AppID (sm_Envelope (cl_Message claim))" and ?name = "d_DestinationName (cl_Delivery claim)"
  note p = process_sent [OF assms(2)]
  note n = resolve_Send_named [OF p(1) assms(3)]
  have "resolveNamed svc ?app ?name db = Inr [destination]"
    using n(2,3) by (simp add: pg_worker_def pg_resolver_def Resolve_def)
  then obtain d where "d \<in> set (db_destinations db)" "sd_Name d = ?name" "UsableBy d ?app" "sd_Enabled d"
    "rd_ID destination = sd_ID d" "rd_Name destination = ?name" "rd_Type destination = sd_Type d"
    "rd_Config destination = sd_Config d" "openSecrets svc ?name (sd_SealedSecrets d) = Inr (rd_Secrets destination)"
    by (rule resolveNamed_Inr) auto
  with n(1) p(2) show ?thesis by (intro conjI bexI [of _ d]) simp_all
qed

definition s_world :: pg_world where
  "s_world = \<lparr>pw_env = (\<lambda>_. s_env []), pw_locked = (\<lambda>_ _. False), pw_locked_messages = (\<lambda>_ _. False),
     pw_fails = (\<lambda>_. False), pw_clock = (\<lambda>_. 200)\<rparr>"

theorem worker_sends_to_addressee_witness:
  "\<exists>destination request db'. process (pg_worker s_world s_registry 200 s_config) s_attempt_env s_claim s_db
       = (Some (destination, request), db')
     \<and> rd_ID destination = 1 \<and> request = request_of s_claim"
proof -
  let ?r = "process (pg_worker s_world s_registry 200 s_config) s_attempt_env s_claim s_db"
  have "fst ?r \<noteq> None" by code_simp
  then obtain destination request where r: "?r = (Some (destination, request), snd ?r)"
    by (cases ?r; cases "fst ?r") auto
  have c: "d_DestinationName (cl_Delivery s_claim) \<noteq> RecipientDestinationName" "d_DestinationID (cl_Delivery s_claim) = Some 1"
    by (simp_all add: s_claim_def s_delivery_def RecipientDestinationName_def)
  from worker_sends_to_addressee [OF s_reachable(4) r c(1)] c(2) have "rd_ID destination = 1 \<and> request = request_of s_claim"
    by auto
  with r show ?thesis by blast
qed



section \<open>Validation and reads\<close>



text \<open>
  Reads are scoped to the app: \<open>Get\<close> and \<open>GetByKey\<close> over the Postgres store return only messages
  of the calling app, with all their deliveries; another app's message id gives the same answer as an
  id that does not exist.
\<close>

theorem reads_are_app_scoped:
  assumes "sv_store svc = pg_store env" and "reachable db"
  shows "(\<forall>m. Get svc app mid db = Inr m \<longrightarrow> en_AppID (sm_Envelope m) = app \<and> set (sm_Deliveries m) = set (deliveries_of db (sm_ID m)))
    \<and> (\<forall>m. GetByKey svc app key db = Inr m \<longrightarrow> en_AppID (sm_Envelope m) = app \<and> en_IdempotencyKey (sm_Envelope m) = key
         \<and> set (sm_Deliveries m) = set (deliveries_of db (sm_ID m)))
    \<and> (\<forall>m \<in> set (db_messages db). m_id m = uuid_cast mid \<longrightarrow> m_app_id m \<noteq> app \<longrightarrow> ValidateAppID app = Inr () \<longrightarrow>
         Get svc app mid db = Inl ErrMessageNotFound)"
proof (intro conjI allI impI ballI)
  fix m assume g: "Get svc app mid db = Inr m"
  then have "queryMessage db (by_id mid) = Inr m"
    by (auto simp: Get_def assms(1) pg_store_def GetMessage_def split: sum.splits if_splits)
  then show "set (sm_Deliveries m) = set (deliveries_of db (sm_ID m))"
    by (auto simp: queryMessage_eq split: option.splits)
  from g show "en_AppID (sm_Envelope m) = app" by (auto simp: Get_def split: sum.splits if_splits)
next
  fix m assume "GetByKey svc app key db = Inr m"
  then have k: "GetMessageByKey db app key = Inr m" by (auto simp: GetByKey_def assms(1) pg_store_def split: sum.splits)
  from GetMessageByKey_Inr [OF k] obtain row where row: "m_app_id row = app" "m_idempotency_key row = key" "m = loaded db row" by blast
  then show "en_AppID (sm_Envelope m) = app" "en_IdempotencyKey (sm_Envelope m) = key"
    "set (sm_Deliveries m) = set (deliveries_of db (sm_ID m))" by (simp_all add: scanMessage_def)
next
  fix m assume m: "m \<in> set (db_messages db)" "m_id m = uuid_cast mid" "m_app_id m \<noteq> app" "ValidateAppID app = Inr ()"
  have "keys_ok db" using reachable_invD(1) [OF assms(2)] by (rule store_invD(1))
  then have "find (by_id mid) (db_messages db) = Some m"
    using find_by_id [OF _ m(1)] m(2) by (simp add: by_id_def [abs_def])
  then show "Get svc app mid db = Inl ErrMessageNotFound"
    using m(3,4) by (simp add: Get_def assms(1) pg_store_def GetMessage_def queryMessage_eq scanMessage_def split: sum.split)
qed

theorem reads_are_app_scoped_witness:
  "\<exists>m. GetByKey s_service ''shop'' ''k2'' s_db = Inr m \<and> en_AppID (sm_Envelope m) = ''shop''"
proof -
  have "\<not> isl (GetByKey s_service ''shop'' ''k2'' s_db)" by code_simp
  then obtain m where m: "GetByKey s_service ''shop'' ''k2'' s_db = Inr m" by (metis sum.collapse(2))
  have "sv_store s_service = pg_store (s_env ''m9'')" by (simp add: s_service_def NewService_def)
  from reads_are_app_scoped [OF this s_reachable(4), of "''shop''" _ "''k2''"] m show ?thesis by blast
qed

section \<open>Settings\<close>

text \<open>
  Retention settings are bounded and read back exactly: whatever the environment holds, an accepted
  retention lies between one day and 3650 days and an accepted held time between one day and 365 days
  (no \<open>int64\<close> overflow in nanoseconds), and a number of days in range, written in decimal, is read as
  exactly that many days.
\<close>

theorem retention_settings:
  "(\<forall>d. RetentionFromEnv getenv = Inr d \<longrightarrow> 24 * Hour \<le> d \<and> d \<le> 3650 * 24 * Hour)
   \<and> (\<forall>d. HeldTTLFromEnv getenv = Inr d \<longrightarrow> 24 * Hour \<le> d \<and> d \<le> 365 * 24 * Hour)
   \<and> (1 \<le> n \<longrightarrow> n \<le> 3650 \<longrightarrow> RetentionFromEnv (\<lambda>_. dec_int n) = Inr (n * 24 * Hour))"
proof -
  have w: "wrap64 (wrap64 (n * 24) * Hour) = n * 24 * Hour" if "1 \<le> n" "n \<le> 3650" for n
    using that by (subst (2) wrap64_id; simp) (subst wrap64_id; simp)
  have days: "\<exists>n. 1 \<le> n \<and> n \<le> hi \<and> d = n * 24 * Hour"
    if "days_setting (Bounded getenv name def hi) = Inr d" "1 \<le> def" "def \<le> hi" "hi \<le> 3650" for name def hi d
  proof -
    from that(1) obtain n where n: "Bounded getenv name def hi = Inr n" "d = wrap64 (wrap64 (n * 24) * Hour)"
      by (auto simp: days_setting_def split: sum.splits)
    with Bounded_range [OF n(1)] that(2-4) w [of n] show ?thesis by auto
  qed
  have exact: "RetentionFromEnv (\<lambda>_. dec_int n) = Inr (n * 24 * Hour)" if "1 \<le> n" "n \<le> 3650"
  proof -
    have a: "Atoi (dec_int n) = Some n" using that by (intro Atoi_dec_int) simp_all
    then have "dec_int n \<noteq> []" by (auto simp: Atoi_def)
    with a that w [of n] show ?thesis
      by (simp add: RetentionFromEnv_def days_setting_def Bounded_def MaxRetentionDays_def)
  qed
  show ?thesis
    using days [of _ DefaultRetentionDays MaxRetentionDays] days [of _ DefaultHeldTTLDays MaxHeldTTLDays] exact
    by (fastforce simp: RetentionFromEnv_def HeldTTLFromEnv_def DefaultRetentionDays_def MaxRetentionDays_def
        DefaultHeldTTLDays_def MaxHeldTTLDays_def)
qed

theorem retention_settings_witness:
  "RetentionFromEnv (\<lambda>_. ''14'') = Inr (14 * 24 * Hour)"
proof -
  have "dec_int 14 = ''14''" by code_simp
  with retention_settings [of "\<lambda>_. []" 14] show ?thesis by simp
qed

end
