(* ===== verification/Heartbeat_Properties.thy ===== *)
theory Heartbeat_Properties
  imports Heartbeat_System Service_Properties
begin

text \<open>
  Properties of the heartbeat monitor: its tables on every reachable database, the alerts of a check,
  the deadline scan, the failure threshold of a probe, and the outbox that turns alerts into messages.
\<close>

section \<open>A deployment with checks\<close>

definition s_check :: new_check where
  "s_check = \<lparr>nc_AppID = ''shop'', nc_Name = ''nightly'', nc_PeriodSeconds = 60, nc_GraceSeconds = 60,
     nc_DestinationNames = [''ops''], nc_OwnerKind = OwnerOperator, nc_OwnerAppID = None, nc_Probe = None,
     nc_AccessToken = None, nc_ScheduleSupplied = True\<rparr>"

definition s_probe_config :: probe_config where
  "s_probe_config = \<lparr>pc_URL = ''https://shop.test/up'', pc_ExpectedStatuses = [200], pc_BodyMatch = None,
     pc_TimeoutSeconds = 5, pc_IntervalSeconds = 60\<rparr>"

definition s_probe_check :: new_check where
  "s_probe_check = s_check\<lparr>nc_Name := ''web'', nc_Probe := Some s_probe_config\<rparr>"

definition s_hb :: heartbeat_db where
  "s_hb = snd (hb_Create None s_probe_check 1000 (snd (hb_Create None s_check 1000 (empty_heartbeats s_db))))"

lemma core_reachable: "reachable main \<Longrightarrow> hb_reachable (empty_heartbeats main)"
  unfolding reachable_def
proof (induction rule: rtranclp_induct)
  case (step y z)
  have "hb_step (empty_heartbeats y) ((empty_heartbeats y)\<lparr>hb_main := z\<rparr>)"
    by (rule hb_step.core) (use step.hyps(2) in \<open>simp add: empty_heartbeats_def\<close>)
  moreover have "(empty_heartbeats y)\<lparr>hb_main := z\<rparr> = empty_heartbeats z" by (simp add: empty_heartbeats_def)
  ultimately show ?case using hb_reachable_step [OF step.IH] by simp
qed simp

lemma s_hb_reachable: "hb_reachable s_hb"
  unfolding s_hb_def using core_reachable [OF s_reachable(4)]
  by (blast intro: hb_reachable_step [OF _ hb_step.create])

section \<open>The tables\<close>

text \<open>
  C20. Every database the delivery API reaches, by any interleaving of heartbeat, message and registry
  operations, satisfies the invariants of all three stores: unique checks, valid schedules and probe
  rows, a down reason exactly while a check is down, an unflushed alert only about the current state and
  never on a paused check, and every destination a check alerts still exists.
\<close>

theorem heartbeat_reachable_inv:
  assumes "hb_reachable db"
  shows "hb_inv db \<and> system_inv (hb_main db) \<and> check_refs_ok (hb_main db)"
  using hb_reachable_inv [OF assms] by (simp add: api_inv_def)

theorem heartbeat_reachable_inv_witness:
  "map hc_Name (hb_checks s_hb) = [''nightly'', ''web''] \<and> map pw_check_id (hb_probes s_hb) = [2]
   \<and> db_check_destinations (hb_main s_hb) = [(1, 1), (2, 1)]
   \<and> hb_inv s_hb \<and> system_inv (hb_main s_hb) \<and> check_refs_ok (hb_main s_hb)"
proof -
  have "map hc_Name (hb_checks s_hb) = [''nightly'', ''web''] \<and> map pw_check_id (hb_probes s_hb) = [2]
      \<and> db_check_destinations (hb_main s_hb) = [(1, 1), (2, 1)]" by code_simp
  with heartbeat_reachable_inv [OF s_hb_reachable] show ?thesis by blast
qed

section \<open>The alerts of a check\<close>

fun alternate :: "bool \<Rightarrow> alert_kind list \<Rightarrow> bool" where
  "alternate down [] = True"
| "alternate down (a # as) = (a = (if down then AlertRecovered else AlertDown) \<and> alternate (\<not> down) as)"

lemma unpaused_step: "\<not> hc_Paused c \<Longrightarrow> ev \<noteq> EvPause \<Longrightarrow> \<not> hc_Paused (fst (machine_step ev c))"
  by (cases ev)
    (auto simp: ApplyPing_def pinged_def AdvanceTick_def ApplyResume_def ApplyProbeReset_def ApplyProbeResult_def
      probe_failed_def emitAlert_def Let_def split: option.split ping_kind.split check_state.split)

text \<open>
  C21. One alert per outage: over any run of pings, ticks, probe results, resumes and configuration
  resets of an unpaused check, the emitted alerts alternate between down and recovered, beginning with
  the one its state calls for; the sequence number counts them; and the final state is the one the last
  alert announced.
\<close>

theorem alerts_alternate:
  assumes "machine_ok c" and "\<not> hc_Paused c" and "EvPause \<notin> set evs"
    and "machine_run evs c = (c', alerts)"
  shows "alternate (hc_State c = StateDown) alerts
    \<and> hc_AlertSeq c' = hc_AlertSeq c + int (length alerts)
    \<and> (hc_State c' = StateDown) = (if alerts = [] then hc_State c = StateDown else last alerts = AlertDown)"
  using assms
proof (induction evs arbitrary: c c' alerts)
  case (Cons ev evs)
  obtain c1 emitted where s: "machine_step ev c = (c1, emitted)" by (cases "machine_step ev c")
  obtain as where r: "machine_run evs c1 = (c', as)" and as: "alerts = (if emitted then [the (hc_PendingAlert c1)] else []) @ as"
    using Cons.prems(4) s by (auto split: prod.splits)
  have rule: "machine_ok c1" "alert_rule c c1 emitted" using machine_step_ok [OF Cons.prems(1), of ev] s by simp_all
  have "\<not> hc_Paused c1" using unpaused_step [OF Cons.prems(2), of ev] Cons.prems(3) s by auto
  with Cons.IH [OF rule(1) _ _ r] Cons.prems(3) have ih: "alternate (hc_State c1 = StateDown) as"
    "hc_AlertSeq c' = hc_AlertSeq c1 + int (length as)"
    "(hc_State c' = StateDown) = (if as = [] then hc_State c1 = StateDown else last as = AlertDown)" by simp_all
  show ?case
  proof (cases emitted)
    case True
    with rule(2) Cons.prems(2) have "(hc_State c1 = StateDown) = (hc_State c \<noteq> StateDown)"
      "hc_AlertSeq c1 = hc_AlertSeq c + 1"
      "the (hc_PendingAlert c1) = (if hc_State c1 = StateDown then AlertDown else AlertRecovered)"
      by (simp_all add: alert_rule_def)
    with ih as True show ?thesis by simp
  next
    case False
    with rule(2) Cons.prems(2) have "(hc_State c1 = StateDown) = (hc_State c = StateDown)" "hc_AlertSeq c1 = hc_AlertSeq c"
      by (simp_all add: alert_rule_def)
    with ih as False show ?thesis by simp
  qed
qed simp

definition s_push :: stored_check where
  "s_push = locked_check s_hb (hb_checks s_hb ! 0)"

lemma s_push_ok: "machine_ok s_push"
proof -
  have "length (hb_checks s_hb) = 2" by code_simp
  then have "hb_checks s_hb ! 0 \<in> set (hb_checks s_hb)" by (intro nth_mem) simp
  then show ?thesis
    unfolding s_push_def using hb_invD(5) [OF api_invD(1) [OF hb_reachable_inv [OF s_hb_reachable]]] by blast
qed

theorem alerts_alternate_witness:
  "\<exists>c'. machine_run [EvPing PingFail 10, EvPing PingFail 20, EvPing PingSuccess 30, EvPing PingFail 40] s_push
      = (c', [AlertDown, AlertRecovered, AlertDown])
    \<and> alternate (hc_State s_push = StateDown) [AlertDown, AlertRecovered, AlertDown]
    \<and> hc_AlertSeq c' = hc_AlertSeq s_push + 3 \<and> hc_State c' = StateDown"
proof -
  let ?evs = "[EvPing PingFail 10, EvPing PingFail 20, EvPing PingSuccess 30, EvPing PingFail 40]"
  let ?r = "machine_run ?evs s_push"
  have "snd ?r = [AlertDown, AlertRecovered, AlertDown] \<and> \<not> hc_Paused s_push" by code_simp
  then have r: "?r = (fst ?r, [AlertDown, AlertRecovered, AlertDown])" "\<not> hc_Paused s_push"
    by (auto intro: prod_eqI)
  from alerts_alternate [OF s_push_ok r(2) _ r(1)] r(1) show ?thesis by (intro exI [of _ "fst ?r"]) simp
qed

section \<open>The deadline scan\<close>

definition went_down :: "time \<Rightarrow> check_row \<Rightarrow> check_row" where
  "went_down now c = c\<lparr>hc_State := StateDown, hc_DownSince := Some now, hc_DownReason := Some ReasonMissed,
     hc_AlertSeq := hc_AlertSeq c + 1, hc_PendingAlert := Some AlertDown, hc_UpdatedAt := now\<rparr>"

lemma went_down_ID [simp]: "hc_ID (went_down now c) = hc_ID c"
  by (simp add: went_down_def)

lemma tick_due:
  assumes "machine_ok (locked_check db c)" "checks_check c" "dueWhere now c"
  obtains c' where "AdvanceTick (locked_check db c) now = (c', True)" "hc_ID c' = hc_ID c"
    "saved_row c' now c = went_down now c"
    "hc_Probe c' = map_option (\<lambda>p. p\<lparr>ps_DownDetail := None\<rparr>) (lockProbeRows db (hc_ID c))"
proof -
  have due: "Deadline (locked_check db c) < now"
    using assms(2,3) by (simp add: Deadline_exact schedule_ok_def checks_check_def dueWhere_def locked_check_def)
  have st: "hc_State c = StateNew \<or> hc_State c = StateUp" "\<not> hc_Paused c"
    using assms by (auto simp: machine_ok_def dueWhere_def locked_check_def)
  let ?c = "fst (AdvanceTick (locked_check db c) now)"
  have tick: "AdvanceTick (locked_check db c) now = (?c, True)"
    using due st by (auto simp: AdvanceTick_def Let_def locked_check_def)
  show ?thesis
    by (rule that [OF tick])
      (use due st in \<open>auto simp: AdvanceTick_def Let_def emitAlert_def saved_row_def went_down_def locked_check_def\<close>)
qed

lemma config_check_normalized:
  "config_check (c\<lparr>pc_ExpectedStatuses := NormalizeStatuses (pc_ExpectedStatuses c)\<rparr>) = config_check c"
  by (simp add: config_check_def NormalizeStatuses_def list_all_iff)

lemma written_clear_ok:
  "probes_check p \<Longrightarrow> probes_check (written_probe ((probe_state_of p)\<lparr>ps_DownDetail := None\<rparr>) b None p)"
  by (simp add: probes_check_def written_probe_def probe_state_of_def config_check_normalized)

lemma saveCheck_went_down:
  assumes inv: "hb_inv db" and row: "c \<in> set (hb_checks db)" and due: "dueWhere now c" and seq: "hc_AlertSeq c < 2 ^ 31 - 1"
    and tick: "AdvanceTick (locked_check db c) now = (c', True)"
  obtains x db1 where "saveCheck c' (locked_check db c) now db = (Inr x, db1)"
    "hb_checks db1 = update_where (\<lambda>x. hc_ID x = hc_ID c) (went_down now) (hb_checks db)"
    "hb_frame db db1" "\<forall>j. j \<noteq> hc_ID c \<longrightarrow> lockProbeRows db1 j = lockProbeRows db j"
proof -
  note ok = hb_invD(4,5) [OF inv row]
  obtain c'' where c': "c' = c''" "hc_ID c' = hc_ID c" "saved_row c' now c = went_down now c"
    "hc_Probe c' = map_option (\<lambda>p. p\<lparr>ps_DownDetail := None\<rparr>) (lockProbeRows db (hc_ID c))"
    using tick_due [OF ok(2,1) due] tick by (metis prod.inject)
  have only: "x = c" if "x \<in> set (hb_checks db)" "hc_ID x = hc_ID c" for x
    using distinct_map_inj [OF hb_invD(1) [OF inv]] that row by blast
  let ?hit = "\<lambda>x. hc_ID x = hc_ID c"
  let ?db1 = "db\<lparr>hb_checks := update_where ?hit (went_down now) (hb_checks db)\<rparr>"
  have rows: "update_where ?hit (saved_row c' now) (hb_checks db) = update_where ?hit (went_down now) (hb_checks db)"
    unfolding update_where_def using only c'(3) by (intro map_cong) auto
  have "checks_check (went_down now c)" using ok(1) seq
    by (cases "hc_OwnerAppID c") (simp_all add: checks_check_def went_down_def schedule_ok_def IsKnownDownReason_def KnownDownReasons_def)
  then have chk: "\<not> list_ex (\<lambda>x. hc_ID x = hc_ID c' \<and> \<not> checks_check (saved_row c' now x)) (hb_checks db)"
    using only c'(2,3) by (auto simp: list_ex_iff dest!: only)
  obtain db2 where db2: "(case hc_Probe c' of None \<Rightarrow> Inr ?db1
      | Some p \<Rightarrow> writeProbeRow (hc_ID c') p (lockedNextProbeAt (locked_check db c)) None ?db1) = Inr db2"
    "hb_checks db2 = hb_checks ?db1" "\<forall>j. j \<noteq> hc_ID c \<longrightarrow> lockProbeRows db2 j = lockProbeRows db j"
  proof (cases "find (\<lambda>p. pw_check_id p = hc_ID c) (hb_probes db)")
    case None
    with c'(4) that [of ?db1] show ?thesis by (simp add: lockProbeRows_def)
  next
    case (Some q)
    then have q: "q \<in> set (hb_probes db)" "pw_check_id q = hc_ID c" by (auto dest: find_Some_in)
    let ?f = "written_probe ((probe_state_of q)\<lparr>ps_DownDetail := None\<rparr>) (lockedNextProbeAt (locked_check db c)) None"
    have "probes_check (?f p)" if "p \<in> set (hb_probes db)" "pw_check_id p = hc_ID c" for p
      using distinct_map_inj [OF hb_invD(6) [OF inv] that(1) q(1)] that(2) q hb_invD(7) [OF inv] written_clear_ok by simp
    then have "writeProbeRow (hc_ID c') ((probe_state_of q)\<lparr>ps_DownDetail := None\<rparr>) (lockedNextProbeAt (locked_check db c)) None ?db1
        = Inr (?db1\<lparr>hb_probes := update_where (\<lambda>p. pw_check_id p = hc_ID c) ?f (hb_probes db)\<rparr>)"
      by (auto simp: writeProbeRow_def Let_def list_ex_iff c'(2))
    moreover have "find (\<lambda>p. pw_check_id p = j) (update_where (\<lambda>p. pw_check_id p = hc_ID c) ?f ps) = find (\<lambda>p. pw_check_id p = j) ps"
      if "j \<noteq> hc_ID c" for j ps
      using that by (induction ps) (auto simp: update_where_def written_probe_def)
    ultimately show ?thesis
      using that [of "?db1\<lparr>hb_probes := update_where (\<lambda>p. pw_check_id p = hc_ID c) ?f (hb_probes db)\<rparr>"] c'(4) Some
      by (simp add: lockProbeRows_def)
  qed
  have "went_down now c \<in> set (hb_checks db2)" using row by (auto simp: db2(2) update_where_def)
  then have "queryCheckByID db2 (hc_ID c') \<noteq> Inl e" for e
    using c'(2) by (auto simp: queryCheckByID_def find_None_iff split: option.split)
  then obtain x where x: "queryCheckByID db2 (hc_ID c') = Inr x" by (cases "queryCheckByID db2 (hc_ID c')") auto
  have saved: "saveCheck c' (locked_check db c) now db = (Inr x, db2)"
    unfolding saveCheck_def Let_def c'(2) rows
    using chk [unfolded c'(2)] db2(1) [unfolded c'(2)] x [unfolded c'(2)] by simp
  moreover have "hb_frame db db2" using saveCheck_frame [of db c' "locked_check db c" now] saved by simp
  ultimately show ?thesis using that db2(2,3) by simp
qed

lemma advance_each_exact:
  assumes "hb_inv db" "\<forall>c \<in> set rs. c \<in> set (hb_checks db) \<and> dueWhere now c \<and> hc_AlertSeq c < 2 ^ 31 - 1"
    and "distinct (map hc_ID rs)"
  shows "\<exists>db'. advance_each now (map (locked_check db) rs) db = Inr (map hc_ID rs, db')
    \<and> hb_checks db' = update_where (\<lambda>x. hc_ID x \<in> hc_ID ` set rs) (went_down now) (hb_checks db)"
  using assms
proof (induction rs arbitrary: db)
  case Nil
  then show ?case by (simp add: update_where_def)
next
  case (Cons c rs)
  have c: "c \<in> set (hb_checks db)" "dueWhere now c" "hc_AlertSeq c < 2 ^ 31 - 1" using Cons.prems(2) by simp_all
  note ok = hb_invD(4,5) [OF Cons.prems(1) c(1)]
  obtain c' where c': "AdvanceTick (locked_check db c) now = (c', True)" "hc_ID c' = hc_ID c"
    "hc_Probe c' = map_option (\<lambda>p. p\<lparr>ps_DownDetail := None\<rparr>) (lockProbeRows db (hc_ID c))"
    using tick_due [OF ok(2,1) c(2)] by metis
  obtain x db1 where s: "saveCheck c' (locked_check db c) now db = (Inr x, db1)"
    "hb_checks db1 = update_where (\<lambda>x. hc_ID x = hc_ID c) (went_down now) (hb_checks db)"
    "\<forall>j. j \<noteq> hc_ID c \<longrightarrow> lockProbeRows db1 j = lockProbeRows db j"
    using saveCheck_went_down [OF Cons.prems(1) c c'(1)] by metis
  have "machine_ok c'" using AdvanceTick_ok [OF ok(2), of now] c'(1) by simp
  then have inv1: "hb_inv db1"
    using saveCheck_inv [OF Cons.prems(1) _ c(1) c'(2), of "locked_check db c" now] c'(3) s(1) by simp
  have others: "hc_ID r \<noteq> hc_ID c" if "r \<in> set rs" for r using Cons.prems(3) that by (metis distinct.simps(2) image_eqI list.set_map list.simps(9))
  then have same: "map (locked_check db) rs = map (locked_check db1) rs"
    using s(3) by (simp add: locked_check_def)
  have "\<forall>r \<in> set rs. r \<in> set (hb_checks db1) \<and> dueWhere now r \<and> hc_AlertSeq r < 2 ^ 31 - 1"
    using Cons.prems(2) others by (force simp: s(2) update_where_def)
  then obtain db' where rest: "advance_each now (map (locked_check db1) rs) db1 = Inr (map hc_ID rs, db')"
    "hb_checks db' = update_where (\<lambda>x. hc_ID x \<in> hc_ID ` set rs) (went_down now) (hb_checks db1)"
    using Cons.IH [OF inv1] Cons.prems(3) by auto
  have "hc_ID c \<notin> hc_ID ` set rs" using others by force
  then have "hb_checks db' = update_where (\<lambda>x. hc_ID x \<in> hc_ID ` set (c # rs)) (went_down now) (hb_checks db)"
    by (simp add: rest(2) s(2) update_where_def)
  moreover have "advance_each now (map (locked_check db) (c # rs)) db = Inr (map hc_ID (c # rs), db')"
    using c'(1,2) s(1) rest(1) by (simp add: same)
  ultimately show ?case by blast
qed

text \<open>
  The deadline scan takes down exactly the overdue checks: as long as no alert counter is about to
  leave its column, \<open>AdvanceDue\<close> succeeds, and afterwards exactly the unpaused checks that were not down
  and whose last anchor lies strictly more than period plus grace in the past are down as missed, each
  with a new down alert, while every other check is as it was; the checks it returns are those.
\<close>

theorem advance_due_exact:
  assumes "hb_inv db" and "\<forall>c \<in> set (hb_checks db). hc_AlertSeq c < 2 ^ 31 - 1" and "t = storeTime now"
  shows "\<exists>cs db'. AdvanceDue now db = (Inr cs, db')
    \<and> hb_checks db' = map (\<lambda>c. if \<not> hc_Paused c \<and> hc_State c \<noteq> StateDown
         \<and> hc_AnchorAt c + (hc_PeriodSeconds c + hc_GraceSeconds c) * Second < t
         then c\<lparr>hc_State := StateDown, hc_DownSince := Some t, hc_DownReason := Some ReasonMissed,
                hc_AlertSeq := hc_AlertSeq c + 1, hc_PendingAlert := Some AlertDown, hc_UpdatedAt := t\<rparr>
         else c) (hb_checks db)
    \<and> hc_ID ` set cs = hc_ID ` {c \<in> set (hb_checks db). \<not> hc_Paused c \<and> hc_State c \<noteq> StateDown
         \<and> hc_AnchorAt c + (hc_PeriodSeconds c + hc_GraceSeconds c) * Second < t}"
proof -
  let ?rs = "sort_key hc_ID (filter (dueWhere t) (hb_checks db))"
  have "distinct (map hc_ID ?rs)"
    using distinct_map_filter [OF hb_invD(1) [OF assms(1)]] by (simp add: distinct_map)
  then obtain db' where a: "advance_each t (map (locked_check db) ?rs) db = Inr (map hc_ID ?rs, db')"
    "hb_checks db' = update_where (\<lambda>x. hc_ID x \<in> hc_ID ` set ?rs) (went_down t) (hb_checks db)"
    using advance_each_exact [OF assms(1), of ?rs t] assms(2) by auto
  have hit: "hc_ID c \<in> hc_ID ` set ?rs \<longleftrightarrow> dueWhere t c" if "c \<in> set (hb_checks db)" for c
    using distinct_map_inj [OF hb_invD(1) [OF assms(1)]] that by auto
  let ?cs = "if map hc_ID ?rs = [] then [] else queryChecks db' (\<lambda>c. hc_ID c \<in> set (map hc_ID ?rs))"
  have adv: "AdvanceDue now db = (Inr ?cs, db')"
    using a(1) by (simp add: AdvanceDue_def Let_def lockChecks_def assms(3) [symmetric])
  have rows: "hb_checks db' = map (\<lambda>c. if dueWhere t c then went_down t c else c) (hb_checks db)"
    unfolding a(2) update_where_def using hit by (intro map_cong) auto
  have "map hc_ID (hb_checks db') = map hc_ID (hb_checks db)" unfolding a(2) by (rule map_update_where) simp
  then have ids: "hc_ID ` set (hb_checks db') = hc_ID ` set (hb_checks db)" by (metis set_map)
  have query: "hc_ID ` set (queryChecks db' (\<lambda>c. hc_ID c \<in> I)) = hc_ID ` set (hb_checks db') \<inter> I" for I
    by (auto simp: queryChecks_def image_image)
  have "hc_ID ` set ?rs \<subseteq> hc_ID ` set (hb_checks db)" by auto
  then have "hc_ID ` set ?cs = hc_ID ` set ?rs"
    by (cases "?rs = []") (auto simp only: query ids list.map set_map if_True if_False map_is_Nil_conv simp_thms list.set image_empty)
  then have "hc_ID ` set ?cs = hc_ID ` {c \<in> set (hb_checks db). dueWhere t c}" by simp
  with adv rows show ?thesis
    by (intro exI [of _ ?cs] exI [of _ db']) (simp add: dueWhere_def went_down_def conj_commute conj_left_commute cong: if_cong)
qed

theorem advance_due_exact_witness:
  "\<exists>cs db'. AdvanceDue (200 * Second) s_hb = (Inr cs, db') \<and> hc_ID ` set cs = {1}
     \<and> map hc_State (hb_checks db') = [StateDown, StateNew] \<and> map hc_PendingAlert (hb_checks db') = [Some AlertDown, None]"
proof -
  let ?due = "\<lambda>c. \<not> hc_Paused c \<and> hc_State c \<noteq> StateDown
    \<and> hc_AnchorAt c + (hc_PeriodSeconds c + hc_GraceSeconds c) * Second < storeTime (200 * Second)"
  have rows: "map hc_ID (hb_checks s_hb) = [1, 2] \<and> map ?due (hb_checks s_hb) = [True, False]
      \<and> map hc_State (hb_checks s_hb) = [StateNew, StateNew] \<and> map hc_PendingAlert (hb_checks s_hb) = [None, None]" by code_simp
  have seq: "\<forall>c \<in> set (hb_checks s_hb). hc_AlertSeq c < 2 ^ 31 - 1"
  proof -
    have "map hc_AlertSeq (hb_checks s_hb) = [0, 0]" by code_simp
    then show ?thesis by (auto simp: map_eq_Cons_conv)
  qed
  from rows obtain a b where ab: "hb_checks s_hb = [a, b]" by (auto simp: map_eq_Cons_conv)
  with rows have d: "?due a" "\<not> ?due b" "hc_ID a = 1" "hc_State b = StateNew" "hc_PendingAlert b = None"
    by (auto simp del: mult.commute)
  have "{c \<in> set (hb_checks s_hb). ?due c} = {a}" using d(1,2) by (auto simp: ab)
  with advance_due_exact [OF api_invD(1) [OF hb_reachable_inv [OF s_hb_reachable]] seq refl, of "200 * Second"] d
  show ?thesis by (auto simp: ab)
qed

section \<open>The failure threshold of a probe\<close>

text \<open>Successive results of one probe, with the instants they are recorded at.\<close>

definition probe_results :: "time \<Rightarrow> stored_check \<Rightarrow> (probe_result \<times> time) list \<Rightarrow> stored_check" where
  "probe_results holdOff = foldl (\<lambda>c (result, now). fst (ApplyProbeResult c result now holdOff))"

definition failing_result :: "probe_result \<times> time \<Rightarrow> bool" where
  "failing_result r \<longleftrightarrow> pr_Reason (fst r) \<noteq> None"

text \<open>Every reason \<open>runProbe\<close> reports is one a result may carry.\<close>

definition valid_result :: "probe_result \<Rightarrow> bool" where
  "valid_result r = (case pr_Reason r of None \<Rightarrow> True | Some reason \<Rightarrow> IsProbeResultReason reason)"

lemma runProbe_valid: "valid_result (runProbe client sealer claim)"
  by (auto simp: runProbe_def valid_result_def failedProbe_def classifyProbeError_def judge_response_def
      IsProbeResultReason_def Let_def split: option.split sum.split)

definition streak :: "(probe_result \<times> time) list \<Rightarrow> int" where
  "streak rs = int (length (takeWhile failing_result (rev rs)))"

lemma streak_snoc: "streak (rs @ [r]) = (if failing_result r then streak rs + 1 else 0)"
  by (simp add: streak_def)

lemma streak_two: "2 \<le> streak rs \<longleftrightarrow> (\<exists>pre a b. rs = pre @ [a, b] \<and> failing_result a \<and> failing_result b)"
proof (cases rs rule: rev_cases)
  case (snoc xs b)
  then show ?thesis by (cases xs rule: rev_cases) (auto simp: streak_def)
qed (simp add: streak_def)

definition third_failure :: "time \<Rightarrow> (probe_result \<times> time) list \<Rightarrow> bool" where
  "third_failure holdOff rs \<longleftrightarrow> (\<exists>pre a b c post. rs = pre @ [a, b, c] @ post \<and> holdOff \<le> snd c
     \<and> (\<forall>r \<in> set ([a, b, c] @ post). failing_result r))"

lemma third_failure_snoc:
  "third_failure holdOff (rs @ [r]) \<longleftrightarrow> failing_result r \<and> (third_failure holdOff rs \<or> 2 \<le> streak rs \<and> holdOff \<le> snd r)"
  (is "?l \<longleftrightarrow> ?r")
proof
  assume ?l
  then obtain pre a b c post where *: "rs @ [r] = pre @ [a, b, c] @ post" "holdOff \<le> snd c"
    "\<forall>x \<in> set ([a, b, c] @ post). failing_result x" by (auto simp: third_failure_def)
  show ?r
  proof (cases post rule: rev_cases)
    case Nil
    with * have "rs = pre @ [a, b]" "r = c" by simp_all
    with * show ?thesis by (auto simp: streak_two)
  next
    case (snoc ys y)
    with * have ys: "rs = pre @ [a, b, c] @ ys" "r = y" by simp_all
    have "\<forall>x \<in> set ([a, b, c] @ ys). failing_result x" "failing_result r" using *(3) snoc ys(2) by simp_all
    with ys(1) *(2) show ?thesis unfolding third_failure_def by blast
  qed
next
  assume ?r
  then show ?l
  proof (elim conjE disjE)
    assume "failing_result r" "third_failure holdOff rs"
    then obtain pre a b c post where "rs @ [r] = pre @ [a, b, c] @ (post @ [r])" "holdOff \<le> snd c"
      "\<forall>x \<in> set ([a, b, c] @ (post @ [r])). failing_result x" by (auto simp: third_failure_def)
    then show ?l unfolding third_failure_def by blast
  next
    assume f: "failing_result r" "2 \<le> streak rs" "holdOff \<le> snd r"
    then obtain pre a b where "rs = pre @ [a, b]" "failing_result a" "failing_result b" by (auto simp: streak_two)
    with f show ?l unfolding third_failure_def by (intro exI [of _ pre] exI [of _ a] exI [of _ b] exI [of _ r] exI [of _ "[]"]) simp
  qed
qed

text \<open>One result on an unpaused probe check, by its effect on the counter and the state.\<close>

lemma probe_result_step:
  assumes "hc_Probe c = Some p" "\<not> hc_Paused c" "hc_State c \<in> {StateNew, StateUp, StateDown}" "valid_result result"
  shows "\<exists>p'. hc_Probe (fst (ApplyProbeResult c result now holdOff)) = Some p'
      \<and> ps_ConsecutiveFailures p' = (if pr_Reason result = None then 0 else ps_ConsecutiveFailures p + 1)
      \<and> \<not> hc_Paused (fst (ApplyProbeResult c result now holdOff))
      \<and> hc_State (fst (ApplyProbeResult c result now holdOff)) =
          (if pr_Reason result = None then StateUp
           else if 2 \<le> ps_ConsecutiveFailures p \<and> holdOff \<le> now then StateDown else hc_State c)"
proof (cases "pr_Reason result")
  case None
  with assms show ?thesis by (auto simp: ApplyProbeResult_def Let_def emitAlert_def)
next
  case (Some reason)
  with assms(4) have "IsProbeResultReason reason" by (simp add: valid_result_def)
  with assms Some show ?thesis
    by (auto simp: ApplyProbeResult_def Let_def probe_failed_def ProbeFailureThreshold_def emitAlert_def)
qed

text \<open>
  C22. A probe check alarms on the third failure in a row: starting from a check that is not down and has
  no failures counted, after any sequence of results the check is down exactly when three results in a
  row failed, the third of them not before the hold-off ended, and no success came since. A single
  failure, or two, never raises an alarm.
\<close>

theorem probe_down_iff_three_failures:
  assumes "hc_Probe c = Some p" and "ps_ConsecutiveFailures p = 0" and "\<not> hc_Paused c"
    and "hc_State c = StateNew \<or> hc_State c = StateUp" and "list_all (\<lambda>r. valid_result (fst r)) rs"
  shows "hc_State (probe_results holdOff c rs) = StateDown \<longleftrightarrow>
    (\<exists>pre a b d post. rs = pre @ [a, b, d] @ post \<and> holdOff \<le> snd d
       \<and> list_all (\<lambda>r. pr_Reason (fst r) \<noteq> None) ([a, b, d] @ post))"
proof -
  let ?c = "\<lambda>rs. probe_results holdOff c rs"
  have "(\<exists>q. hc_Probe (?c rs) = Some q \<and> ps_ConsecutiveFailures q = streak rs) \<and> \<not> hc_Paused (?c rs)
      \<and> hc_State (?c rs) \<in> {StateNew, StateUp, StateDown} \<and> (hc_State (?c rs) = StateDown \<longleftrightarrow> third_failure holdOff rs)"
    using assms(5)
  proof (induction rs rule: rev_induct)
    case Nil
    with assms show ?case by (auto simp: probe_results_def streak_def third_failure_def)
  next
    case (snoc r rs)
    obtain result now where r: "r = (result, now)" by (cases r)
    have run: "?c (rs @ [r]) = fst (ApplyProbeResult (?c rs) result now holdOff)" by (simp add: probe_results_def r)
    from snoc obtain q where q: "hc_Probe (?c rs) = Some q" "ps_ConsecutiveFailures q = streak rs" "\<not> hc_Paused (?c rs)"
      "hc_State (?c rs) \<in> {StateNew, StateUp, StateDown}" "hc_State (?c rs) = StateDown \<longleftrightarrow> third_failure holdOff rs"
      by auto
    have "valid_result result" using snoc.prems r by simp
    note step = probe_result_step [OF q(1,3,4) this, of now holdOff, folded run]
    show ?case
    proof (cases "pr_Reason result = None")
      case True
      with step show ?thesis unfolding third_failure_snoc streak_snoc by (auto simp: failing_result_def r)
    next
      case False
      with step q(2,4,5) show ?thesis unfolding third_failure_snoc streak_snoc by (auto simp: failing_result_def r split: if_splits)
    qed
  qed
  then show ?thesis by (simp add: third_failure_def failing_result_def list_all_iff)
qed

definition s_web :: stored_check where
  "s_web = locked_check s_hb (hb_checks s_hb ! 1)"

definition s_timeout :: probe_result where
  "s_timeout = \<lparr>pr_Status = None, pr_Reason = Some ReasonTimeout, pr_Detail = []\<rparr>"

theorem probe_down_iff_three_failures_witness:
  "hc_State (probe_results 75 s_web [(s_timeout, 60), (s_timeout, 70), (s_timeout, 80)]) = StateDown"
proof -
  let ?rs = "[(s_timeout, 60 :: time), (s_timeout, 70), (s_timeout, 80)]"
  have "hc_Probe s_web \<noteq> None \<and> ps_ConsecutiveFailures (the (hc_Probe s_web)) = 0 \<and> \<not> hc_Paused s_web
      \<and> hc_State s_web = StateNew \<and> list_all (\<lambda>r. valid_result (fst r)) ?rs" by code_simp
  then obtain p where p: "hc_Probe s_web = Some p" "ps_ConsecutiveFailures p = 0" "\<not> hc_Paused s_web"
    "hc_State s_web = StateNew \<or> hc_State s_web = StateUp" "list_all (\<lambda>r. valid_result (fst r)) ?rs" by auto
  have "\<exists>pre a b d post. ?rs = pre @ [a, b, d] @ post \<and> 75 \<le> snd d
      \<and> list_all (\<lambda>r. pr_Reason (fst r) \<noteq> None) ([a, b, d] @ post)"
    by (intro exI [of _ "[]"] exI [of _ "(s_timeout, 60)"] exI [of _ "(s_timeout, 70)"] exI [of _ "(s_timeout, 80)"] exI [of _ "[]"])
      (simp add: s_timeout_def)
  with probe_down_iff_three_failures [OF p, of 75] show ?thesis by blast
qed

section \<open>The outbox\<close>







end
