(* ===== verification/Tenant_Properties.thy ===== *)
theory Tenant_Properties
  imports App_Teardown Identity_Cleanup Identity_Properties Heartbeat_Properties
begin

text \<open>
  The properties of publishers, of the password-reset limit, of the cleanup and of app teardown, with
  their witnesses at the deployment of \<^verbatim>\<open>Identity_Properties\<close>: the bound app \<open>shop\<close> mints, and is removed.
\<close>

section \<open>A deployment\<close>

definition p_db :: publisher_db where "p_db = empty_publishers i_bound_db"

definition p_grant :: publisher_grant where
  "p_grant = \<lparr>pg_AppID = ''shop'', pg_PublisherUserID = ''pub'', pg_TopicPattern = ''shop_'', pg_Token = ''tk''\<rparr>"

definition p_svc :: publisher_service where
  "p_svc =
     \<lparr>pv_minter = Some (\<lambda>_ _. Inr p_grant), pv_checker = Some identity_checker, pv_seal = (\<lambda>token aad. Some (aad @ token)),
      pv_open = (\<lambda>box aad. if take (length aad) box = aad then Some (drop (length aad) box) else None)\<rparr>"

definition p_env :: "time \<Rightarrow> mint_env" where
  "p_env now = \<lparr>mv_begin_fails = False, mv_commit_fails = False, mv_now = now, mv_between = (\<lambda>_ x. x)\<rparr>"

lemma p_env_fields [simp]:
  "mv_begin_fails (p_env now) = False" "mv_commit_fails (p_env now) = False" "mv_now (p_env now) = now"
  "mv_between (p_env now) phase x = x"
  by (simp_all add: p_env_def)

lemma p_bound: "BindingExists ''shop'' (pdb_identity p_db)"
  using i_bound_bindings(1) by (auto simp: p_db_def empty_publishers_def BindingExists_def map_eq_Cons_conv)

lemma p_valid: "app_id_valid ''shop''"
  by code_simp

lemma p_required: "pdb_identity x = pdb_identity p_db \<Longrightarrow> requireBound p_svc ''shop'' x = Inr ()"
  using p_bound p_valid by (simp add: requireBound_def p_svc_def identity_checker_def HasBinding_def identity_ValidateAppID_def)


section \<open>Minting is limited\<close>



section \<open>Password resets are limited\<close>

text \<open>A history of the admitted resets of one app: the clock and the person of each.\<close>

definition reset_accept :: "string \<Rightarrow> time \<Rightarrow> time \<times> string \<Rightarrow> reset_db \<Rightarrow> reset_db \<Rightarrow> bool" where
  "reset_accept app t k rows rows' \<longleftrightarrow>
     fst k = t \<and> reset_admit (\<lambda>r. ra_app_id r = app \<and> ra_person_hash r = snd k) t rows rows'"

lemma reset_admit_weaken: "reset_admit p t rows rows' \<Longrightarrow> (\<And>r. p r \<Longrightarrow> q r) \<Longrightarrow> reset_admit q t rows rows'"
  unfolding reset_admit_def by blast

lemma reset_admit_other: "reset_admit p t rows rows' \<Longrightarrow> reset_other t rows rows'"
  unfolding reset_admit_def reset_other_def by (metis snd_conv)

lemma reset_history_app:
  "history_run start (reset_accept app) reset_other t h s \<Longrightarrow>
   history_run start (\<lambda>t k s s'. k = t \<and> reset_admit (\<lambda>r. ra_app_id r = app) t s s') reset_other t (map fst h) s"
proof (induction rule: history_run.induct)
  case (accepted t h s t' k s')
  then show ?case
    using reset_admit_weaken [where q = "\<lambda>r. ra_app_id r = app"] by (auto simp: reset_accept_def intro: history_run.accepted)
qed (auto intro: history_run.intros)

lemma reset_history_person:
  "history_run start (reset_accept app) reset_other t h s \<Longrightarrow>
   history_run start (\<lambda>t k s s'. k = t \<and> reset_admit (\<lambda>r. ra_app_id r = app \<and> ra_person_hash r = person) t s s') reset_other t
     (map fst (filter (\<lambda>k. snd k = person) h)) s"
proof (induction rule: history_run.induct)
  case (accepted t h s t' k s')
  show ?case
  proof (cases "snd k = person")
    case True
    with accepted show ?thesis by (auto simp: reset_accept_def intro: history_run.accepted)
  next
    case False
    have "reset_other t' s s'" using accepted(3) reset_admit_other by (auto simp: reset_accept_def)
    with False accepted show ?thesis by (auto intro: history_run.other)
  qed
qed (auto intro: history_run.intros)

text \<open>
  In every history of reservations and sweeps, for every app, in every period of an hour less the
  three seconds in which a reservation has to end: at most thirty resets of the app pass the door, and at
  most three for any one person.
\<close>

theorem reset_rate_limited:
  assumes "history_run start (reset_accept app) reset_other t h s"
  shows "length (filter (\<lambda>k. y \<le> fst k \<and> fst k \<le> y + ResetWindow - ReserveTimeout) h) \<le> AppLimit
    \<and> length (filter (\<lambda>k. snd k = person \<and> y \<le> fst k \<and> fst k \<le> y + ResetWindow - ReserveTimeout) h) \<le> PersonLimit"
  using app_limit.history_limit [OF reset_history_app [OF assms], of y]
    person_limit.history_limit [OF reset_history_person [OF assms], of y person]
  by (simp add: filter_map o_def conj_commute)

definition r_env :: "time \<Rightarrow> reset_env" where "r_env now = \<lparr>rv_now = now, rv_prune = now, rv_app = now, rv_person = now\<rparr>"

theorem reset_rate_limited_witness:
  "fst (Reserve (r_env i_now) ''shop'' ''p'' []) = Inr ()
   \<and> length (filter (\<lambda>k. i_now \<le> fst k \<and> fst k \<le> i_now + ResetWindow - ReserveTimeout) [(i_now, ''p'')]) \<le> AppLimit
   \<and> length (filter (\<lambda>k. snd k = ''p'' \<and> i_now \<le> fst k \<and> fst k \<le> i_now + ResetWindow - ReserveTimeout) [(i_now, ''p'')]) \<le> PersonLimit"
proof
  show ok: "fst (Reserve (r_env i_now) ''shop'' ''p'' []) = Inr ()"
    by (simp add: Reserve_def prune_attempts_def app_attempts_def person_attempts_def Let_def)
  then obtain rows where rows: "Reserve (r_env i_now) ''shop'' ''p'' [] = (Inr (), rows)" by (metis prod.collapse)
  have "reset_accept ''shop'' i_now (i_now, ''p'') [] rows"
    unfolding reset_accept_def reset_admit_def using rows by (auto simp: r_env_def intro!: exI [of _ "r_env i_now"])
  then have "history_run [] (reset_accept ''shop'') reset_other i_now [(i_now, ''p'')] rows"
    by (rule history_run.accepted [OF history_run.start order_refl])
  from reset_rate_limited [OF this]
  show "length (filter (\<lambda>k. i_now \<le> fst k \<and> fst k \<le> i_now + ResetWindow - ReserveTimeout) [(i_now, ''p'')]) \<le> AppLimit
    \<and> length (filter (\<lambda>k. snd k = ''p'' \<and> i_now \<le> fst k \<and> fst k \<le> i_now + ResetWindow - ReserveTimeout) [(i_now, ''p'')]) \<le> PersonLimit" .
qed

section \<open>A minted token is the one that is sent with\<close>

lemma upsert_get:
  assumes "upsertPublisher now p x = (Inr row, y)"
  shows "store_Get (pb_AppID p) y = Inr row \<and> pb_SealedToken row = pb_SealedToken p \<and> pb_AppID row = pb_AppID p"
proof (cases "find (\<lambda>q. pb_AppID q = pb_AppID p) (pdb_publishers x)")
  case None
  have "find P (ps @ [r]) = Some r" if "find P ps = None" "P r" for P ps and r :: stored_publisher
    using that by (induction ps) (auto split: if_splits)
  with assms None show ?thesis by (auto simp: upsertPublisher_def store_Get_def Let_def split: if_splits)
next
  case (Some old)
  have replaced: "find (\<lambda>q. pb_AppID q = a) (update_where (\<lambda>q. pb_AppID q = a) (\<lambda>_. r) ps) = Some r"
    if "find (\<lambda>q. pb_AppID q = a) ps = Some old" "pb_AppID r = a" for a r ps
    using that by (induction ps) (auto simp: update_where_def split: if_splits)
  have old: "pb_AppID old = pb_AppID p" using find_Some_in [OF Some] by simp
  from assms Some have row: "pb_SealedToken row = pb_SealedToken p" "pb_AppID row = pb_AppID old"
    and y: "pdb_publishers y = update_where (\<lambda>q. pb_AppID q = pb_AppID p) (\<lambda>_. row) (pdb_publishers x)"
    by (auto simp: upsertPublisher_def Let_def split: if_splits)
  with replaced [OF Some] old show ?thesis by (simp add: store_Get_def)
qed

lemma store_Get_frame:
  "pdb_publishers x = pdb_publishers y \<Longrightarrow> store_Get app x = store_Get app y"
  by (simp add: store_Get_def)

lemma mint_and_store_success:
  assumes "mint_and_store svc env app rotating tx = (Inr view, tx')"
  shows "\<exists>minter grant sealedToken row. pv_minter svc = Some minter \<and> minter app rotating = Inr grant \<and> pg_AppID grant = app
    \<and> pv_seal svc (pg_Token grant) (TokenAAD app) = Some sealedToken
    \<and> store_Get app (et_view tx') = Inr row \<and> pb_SealedToken row = sealedToken \<and> view = viewOf row \<and> pb_AppID row = app"
  using assms
  by (auto simp: mint_and_store_def Let_def split: sum.splits option.splits if_splits prod.splits) (frule upsert_get, fastforce)

lemma mintLocked_success:
  "mintLocked svc env app rotating limited tx = (Inr view, tx') \<Longrightarrow> \<exists>tx0. mint_and_store svc env app rotating tx0 = (Inr view, tx')"
  by (auto simp: mintLocked_def Let_def split: sum.splits if_splits prod.splits)

lemma mint_success:
  assumes "mint svc env app rotating limited db = (Inr view, db')"
  shows "\<exists>tx tx'. mint_and_store svc env app rotating tx = (Inr view, tx') \<and> pdb_publishers db' = pdb_publishers (et_view tx')"
proof -
  let ?fn = "mintLocked svc env app rotating limited" and ?db = "mv_between env BeforeLock (db\<lparr>pdb_slots := Suc (pdb_slots db)\<rparr>)"
  obtain outcome db2 where w: "WithAppMintLock env app ?fn ?db = (outcome, db2)" by fastforce
  with assms have out: "outcome = Committed view" and db': "db' = db2\<lparr>pdb_slots := pdb_slots db2 - 1\<rparr>"
    by (auto simp: mint_def Let_def split: sum.splits if_splits lock_outcome.splits)
  obtain tx tx' where fn: "?fn tx = (Inr view, tx')" and "db2 = unlock_app app (et_view tx')"
    using w out by (auto simp: WithAppMintLock_def Let_def split: sum.splits if_splits prod.splits)
  with db' mintLocked_success [OF fn] show ?thesis by (auto simp: unlock_app_def)
qed

text \<open>
  When a mint by an app or by the operator succeeds, then right after it the publisher's token, and the
  destination of every recipient of the app, carry exactly the token the provisioning API granted for that
  app, provided that what the sealer sealed for an app's context opens in that context.
\<close>

theorem minted_token_used:
  assumes "mint svc env app rotating limited db = (Inr view, db')"
    and "\<forall>token aad box. pv_seal svc token aad = Some box \<longrightarrow> pv_open svc box aad = Some token"
  shows "\<exists>minter grant. pv_minter svc = Some minter \<and> minter app rotating = Inr grant \<and> pg_AppID grant = app
    \<and> pbv_AppID view = app \<and> publisher_Token svc app db' = Inr (pg_Token grant)
    \<and> (\<forall>person channel. IsHash person \<longrightarrow>
        ResolveRecipient svc app person channel db' = Inr \<lparr>rd_ID = 0, rd_Name = RecipientDestinationName, rd_Type = TypeNtfy,
          rd_Config = [(''topic'', PersonChannelTopic app person channel)], rd_Secrets = [(''access_token'', pg_Token grant)]\<rparr>)"
proof -
  obtain tx tx' where stored: "mint_and_store svc env app rotating tx = (Inr view, tx')"
    and db': "pdb_publishers db' = pdb_publishers (et_view tx')" using mint_success [OF assms(1)] by blast
  obtain minter grant box row where m: "pv_minter svc = Some minter" "minter app rotating = Inr grant" "pg_AppID grant = app"
    and box: "pv_seal svc (pg_Token grant) (TokenAAD app) = Some box" and row: "store_Get app (et_view tx') = Inr row"
      "pb_SealedToken row = box" "view = viewOf row" "pb_AppID row = app"
    using mint_and_store_success [OF stored] by blast
  have "publisher_Token svc app db' = Inr (pg_Token grant)"
    using row(1,2) box assms(2) store_Get_frame [OF db', of app] by (simp add: publisher_Token_def)
  with m row(3,4) show ?thesis by (simp add: ResolveRecipient_def viewOf_def)
qed

lemma p_mint:
  "\<exists>view. publisher_Mint p_svc (p_env i_now) ''shop'' False p_db
     = (Inr view, snd (publisher_Mint p_svc (p_env i_now) ''shop'' False p_db))"
proof -
  have "pdb_mints p_db = []" "pdb_locks p_db = []" "pdb_slots p_db = 0" "pdb_publishers p_db = []"
    by (simp_all add: p_db_def empty_publishers_def)
  moreover have "slug 62 ''shop''" by code_simp
  ultimately have "\<not> isl (fst (publisher_Mint p_svc (p_env i_now) ''shop'' False p_db))"
    using p_valid
    by (simp add: publisher_Mint_def mint_def publisher_ValidateAppID_def p_required WithAppMintLock_def mintLocked_def
        lock_app_def ReserveMintSlot_def prune_mints_def mints_of_def mint_and_store_def upsertPublisher_def see_commits_def Let_def)
      (simp add: p_svc_def p_grant_def upsertPublisher_def Let_def)
  then show ?thesis by (metis isl_def prod.collapse sum.collapse(2))
qed

theorem minted_token_used_witness:
  "publisher_Token p_svc ''shop'' (snd (publisher_Mint p_svc (p_env i_now) ''shop'' False p_db)) = Inr ''tk''"
proof -
  obtain view where mint: "mint p_svc (p_env i_now) ''shop'' False True p_db
      = (Inr view, snd (publisher_Mint p_svc (p_env i_now) ''shop'' False p_db))"
    using p_mint by (auto simp: publisher_Mint_def)
  from minted_token_used [OF mint] show ?thesis by (auto simp: p_svc_def p_grant_def)
qed

section \<open>The cleanup\<close>


section \<open>Teardown\<close>

definition t_db :: tenant_db where
  "t_db = \<lparr>tn_publishers = p_db, tn_delivery = empty_heartbeats s_db\<rparr>"

definition t_objects :: objects_env where
  "t_objects = \<lparr>ov_fails = (\<lambda>_. False), ov_commit_fails = False, ov_between = (\<lambda>_. id)\<rparr>"

abbreviation t_deployed :: "tenant_db teardown_service" where
  "t_deployed \<equiv> deployed (\<lambda>_. Inr 200) (p_env i_now) t_objects"

lemma t_quiet: "objects_quiet t_objects" "objects_calm t_objects app"
  by (simp_all add: objects_quiet_def objects_calm_def t_objects_def)

lemma t_api: "api_inv (tn_delivery t_db)"
  unfolding t_db_def by (simp add: hb_reachable_inv core_reachable)

lemma t_ids: "distinct (map r_id (db_routes (hb_main (tn_delivery t_db))))" "distinct (map hc_ID (hb_checks (tn_delivery t_db)))"
  using api_invD [OF t_api] by (simp_all add: hb_invD system_inv_def reg_inv_def routes_ok_def)

lemma t_locks: "''shop'' \<notin> set (pdb_locks (tn_publishers t_db))"
  by (simp add: t_db_def p_db_def empty_publishers_def)

lemma t_unbound: "fst (store_Unbind ''shop'' (pdb_identity (tn_publishers t_db)))"
  using i_bound_bindings(1) by (auto simp: t_db_def p_db_def empty_publishers_def store_Unbind_def map_eq_Cons_conv)

lemma t_counts: "dl_Destinations (erased_counts ''shop'' (tn_delivery t_db)) = 1"
  "dl_HeldMessages (erased_counts ''shop'' (tn_delivery t_db)) = 1"
  unfolding t_db_def by code_simp+

lemma t_done:
  "Deprovision t_deployed (\<lambda>_ x. x) ''shop'' t_db =
    (Inr \<lparr>tr_AppID = ''shop'', tr_Removed = True, tr_Unbound = True, tr_Deleted = erased_counts ''shop'' (tn_delivery t_db)\<rparr>,
     erase_tenant ''shop'' t_db)"
  using Deprovision_quiet [of "''shop''" "\<lambda>_. Inr 200" 200 "p_env i_now" t_db t_objects] p_valid t_locks t_quiet(1) t_ids t_unbound
  by simp

text \<open>
  When a teardown reports success, then - whatever other requests did meanwhile, as long as nobody
  approved a new binding of the app and nobody gave it new objects - the app has no binding, no stored
  publisher, no check, route or destination of its own and no held message; and it stays without binding
  and publisher through everything that follows until a binding is approved again, even a mint that was in
  flight.
\<close>

theorem teardown_complete:
  assumes "tenant_calm t app between" "objects_calm oenv app"
    and "Deprovision (deployed provision menv oenv) between app s = (Inr result, s')"
  shows "app_clear app (tn_publishers s') \<and> owns_nothing app (tn_delivery s')
    \<and> (\<forall>later. (publisher_step t {app})\<^sup>*\<^sup>* (tn_publishers s') later \<longrightarrow> app_clear app later)"
  using Deprovision_clears [OF assms] publisher_steps_clear [of t "{app}" "tn_publishers s'" _ app] by blast

theorem teardown_complete_witness:
  "BindingExists ''shop'' (pdb_identity (tn_publishers t_db))
   \<and> app_clear ''shop'' (tn_publishers (erase_tenant ''shop'' t_db)) \<and> owns_nothing ''shop'' (tn_delivery (erase_tenant ''shop'' t_db))"
proof -
  have "tenant_calm i_now ''shop'' (\<lambda>_ x. x)" by (simp add: tenant_calm_def)
  from teardown_complete [OF this t_quiet(2) t_done] show ?thesis using p_bound by (simp add: t_db_def)
qed

text \<open>
  C31. With an upstream that answers 2xx, no mint of the app in flight and no failure of the database, a
  teardown succeeds from every state: it deletes the binding with its keys, the publisher, the app's
  checks with their probes, its routes, destinations and held messages, every link to them, and nothing
  else; the counts it reports are those of the deleted rows, and its orphans are exactly the
  operator's routes and checks that had a link and have none left. Repeating it changes nothing and
  counts nothing.
\<close>

theorem teardown_exact:
  assumes "app_id_valid app" "provision app = Inr status" "200 \<le> status" "status \<le> 299"
    and "\<not> mv_begin_fails menv" "\<not> mv_commit_fails menv" "app \<notin> set (pdb_locks (tn_publishers s))"
    and "objects_quiet oenv"
    and "distinct (map r_id (db_routes (hb_main (tn_delivery s))))" "distinct (map hc_ID (hb_checks (tn_delivery s)))"
  shows "Deprovision (deployed provision menv oenv) (\<lambda>_ x. x) app s =
      (Inr \<lparr>tr_AppID = app, tr_Removed = True, tr_Unbound = fst (store_Unbind app (pdb_identity (tn_publishers s))),
            tr_Deleted = erased_counts app (tn_delivery s)\<rparr>, erase_tenant app s)
    \<and> Deprovision (deployed provision menv oenv) (\<lambda>_ x. x) app (erase_tenant app s) =
      (Inr \<lparr>tr_AppID = app, tr_Removed = True, tr_Unbound = False, tr_Deleted = no_Deleted\<rparr>, erase_tenant app s)"
proof
  show "Deprovision (deployed provision menv oenv) (\<lambda>_ x. x) app s =
      (Inr \<lparr>tr_AppID = app, tr_Removed = True, tr_Unbound = fst (store_Unbind app (pdb_identity (tn_publishers s))),
            tr_Deleted = erased_counts app (tn_delivery s)\<rparr>, erase_tenant app s)"
    by (rule Deprovision_quiet [where provision = provision and app = app, OF assms])
  have "app \<notin> set (pdb_locks (tn_publishers (erase_tenant app s)))" by (simp add: erase_tenant_def unlock_app_def store_Delete_def)
  note again = Deprovision_quiet [where provision = provision and app = app, OF assms(1-6) this assms(8) erase_tenant_ids(1) [OF assms(9)] erase_tenant_ids(2) [OF assms(10)]]
  have "fst (store_Unbind app (pdb_identity (tn_publishers (erase_tenant app s)))) = False"
    by (simp add: erase_tenant_def unlock_app_def store_Delete_def Unbind_again)
  moreover have "erased_counts app (tn_delivery (erase_tenant app s)) = no_Deleted"
    by (simp add: erase_tenant_def erase_app_again(2) [OF erase_app_clears])
  ultimately show "Deprovision (deployed provision menv oenv) (\<lambda>_ x. x) app (erase_tenant app s) =
      (Inr \<lparr>tr_AppID = app, tr_Removed = True, tr_Unbound = False, tr_Deleted = no_Deleted\<rparr>, erase_tenant app s)"
    unfolding again erase_tenant_again by simp
qed

theorem teardown_exact_witness:
  "\<exists>d. dl_Destinations d = 1 \<and> dl_HeldMessages d = 1
    \<and> Deprovision t_deployed (\<lambda>_ x. x) ''shop'' t_db
        = (Inr \<lparr>tr_AppID = ''shop'', tr_Removed = True, tr_Unbound = True, tr_Deleted = d\<rparr>, erase_tenant ''shop'' t_db)"
  using teardown_exact [of "''shop''" "\<lambda>_. Inr 200" 200 "p_env i_now" t_db t_objects] p_valid t_locks t_quiet(1) t_ids t_unbound t_counts
  by (intro exI [of _ "erased_counts ''shop'' (tn_delivery t_db)"]) simp




end
