(* ===== verification/Rotation_Properties.thy ===== *)
theory Rotation_Properties
  imports Rotation_Laws Tenant_Properties
begin

text \<open>
  The properties of key rotation over the registry of the delivery API, with their witnesses: one
  publisher token sealed under the old key.
\<close>

section \<open>Rotation\<close>

text \<open>Every secret that is stored, with what it opens to, table by table.\<close>

definition readable :: "sealer \<Rightarrow> tenant_db \<Rightarrow> (string \<times> string option) list list" where
  "readable s db = map (\<lambda>t. secrets s t db) Registry"

lemma readable_view: "rot.view s db = readable s db"
  by (simp add: rot.view_def readable_def)

lemma readable_iff: "readable s db = readable s' db' \<longleftrightarrow> (\<forall>t \<in> set Registry. secrets s t db = secrets s' t db')"
  by (simp add: readable_def)

text \<open>
  C33. A rotation never loses a secret, wherever it stops: whatever row fails, whatever read, hook or
  update aborts the run, and whatever other sessions write meanwhile, every condition on the readable secrets
  that the others keep holds after the run if it held before - in particular, when nobody else writes,
  every stored value opens to what it opened to before.
\<close>

theorem rotation_keeps_secrets:
  assumes "aead_documented (sr_aead s)" "sealed_keys_ok db" "Q (readable s db)"
    and "\<forall>table key x. sealed_keys_ok x \<and> Q (readable s x) \<longrightarrow>
      sealed_keys_ok (ro_between env table key x) \<and> Q (readable s (ro_between env table key x))"
  shows "sealed_keys_ok (snd (Rotate (Some s) env Registry db)) \<and> Q (readable s (snd (Rotate (Some s) env Registry db)))"
  using rot.rotation_safe [where Q = Q, OF assms(1) order_refl, of env db empty_report] assms(2-4)
  by (simp add: Rotate_def readable_view)

definition k_gcm :: "string \<Rightarrow> aead" where
  "k_gcm key =
     \<lparr>ae_Seal = (\<lambda>nonce p aad. p @ take 16 key),
      ae_Open = (\<lambda>nonce body aad. if drop (length body - 16) body = take 16 key then Some (take (length body - 16) body) else None)\<rparr>"

definition k_old :: string where "k_old = replicate 32 CHR ''o''"

definition k_new :: string where "k_new = replicate 32 CHR ''n''"

definition k_sealer :: sealer where
  "k_sealer = \<lparr>sr_aead = k_gcm k_new, sr_previousAEAD = Some (k_gcm k_old)\<rparr>"

definition k_row :: stored_publisher where
  "k_row =
     \<lparr>pb_AppID = ''shop'', pb_PublisherUserID = ''pub'', pb_TopicPattern = ''shop_'',
      pb_SealedToken = formatVersion # replicate 12 CHR ''x'' @ ''tk'' @ take 16 k_old, pb_CreatedAt = 0, pb_UpdatedAt = 0\<rparr>"

definition k_db :: tenant_db where
  "k_db = \<lparr>tn_publishers = p_db\<lparr>pdb_publishers := [k_row]\<rparr>, tn_delivery = empty_heartbeats empty_db\<rparr>"

definition k_env :: "tenant_db rotate_env" where
  "k_env =
     \<lparr>ro_order = (\<lambda>_ rows. rows), ro_load_fails = (\<lambda>_. False), ro_random = (\<lambda>_ _. replicate 12 CHR ''y''),
      ro_hook_fails = (\<lambda>_ _. False), ro_update_fails = (\<lambda>_ _. False), ro_between = (\<lambda>_ _ x. x)\<rparr>"

lemma k_documented: "aead_documented (sr_aead k_sealer)"
  by (simp add: aead_documented_def k_sealer_def k_gcm_def k_new_def)

lemma k_previous: "HasPrevious k_sealer"
  by (simp add: HasPrevious_def k_sealer_def)

lemma k_keys: "sealed_keys_ok k_db"
  by (simp add: sealed_keys_ok_def k_db_def empty_heartbeats_def empty_db_def)

lemma k_alone: "rotation_alone k_env" "rotation_steady k_env"
  by (simp_all add: rotation_alone_def rotation_steady_def k_env_def)

lemma k_rows:
  "st_select destinations_table k_db = []" "st_select probes_table k_db = []"
  "st_select publishers_table k_db = [(''shop'', Some (pb_SealedToken k_row))]"
  by (simp_all add: sealed_tables_defs k_db_def empty_heartbeats_def empty_db_def k_row_def)

lemma k_opened: "opened k_sealer publishers_table (''shop'', Some (pb_SealedToken k_row)) = Some ''tk''"
  by (simp add: opened_def publishers_table_def sealer_Open_def OpenReportingKey_def k_sealer_def k_gcm_def k_row_def
      k_old_def k_new_def numeral_eq_Suc)

lemma k_readable: "readable k_sealer k_db = [[], [(''shop'', Some ''tk'')], []]"
  by (simp add: readable_def Registry_def secrets_def k_rows k_opened)

lemma k_openable: "\<forall>t \<in> set Registry. \<forall>r \<in> set (st_select t k_db). openable k_sealer t r"
  by (simp add: Registry_def k_rows openable_def k_opened)

theorem rotation_keeps_secrets_witness:
  "readable k_sealer (snd (Rotate (Some k_sealer) k_env Registry k_db)) = [[], [(''shop'', Some ''tk'')], []]"
  using rotation_keeps_secrets [OF k_documented k_keys, of "\<lambda>v. v = [[], [(''shop'', Some ''tk'')], []]" k_env]
  by (simp add: k_readable) (simp add: k_env_def)

text \<open>
  C34. When nothing else writes meanwhile: a rotation that reports completion has every stored value opening
  under the new key alone to what it opened to before, so the old key can be dropped and the
  verification passes; and a rotation in which every value opens under one of the two keys and no read,
  update or random read fails does report completion.
\<close>

theorem rotation_complete:
  assumes "aead_documented (sr_aead s)" "HasPrevious s" "sealed_keys_ok db" "rotation_alone env"
  shows "(snd (fst (Rotate (Some s) env Registry db)) = None \<longrightarrow>
        readable (PrimaryOnly s) (snd (Rotate (Some s) env Registry db)) = readable s db
        \<and> (\<forall>env'. rotation_alone env' \<and> (\<forall>table. \<not> ro_load_fails env' table) \<longrightarrow>
            snd (rotation_Verify (Some s) env' (snd (Rotate (Some s) env Registry db))) = None))
    \<and> (rotation_steady env \<and> (\<forall>t \<in> set Registry. \<forall>r \<in> set (st_select t db). openable s t r) \<longrightarrow>
        snd (fst (Rotate (Some s) env Registry db)) = None)"
proof -
  have run: "Rotate (Some s) env Registry db = rotate_tables s env Registry empty_report db" using assms(2) by (simp add: Rotate_def)
  obtain report err db' where r: "rotate_tables s env Registry empty_report db = ((report, err), db')" by (metis prod.collapse)
  have "readable (PrimaryOnly s) db' = readable s db
      \<and> (\<forall>env'. rotation_alone env' \<and> (\<forall>table. \<not> ro_load_fails env' table) \<longrightarrow> snd (rotation_Verify (Some s) env' db') = None)"
    if "err = None"
  proof -
    have done': "\<forall>t \<in> set Registry. secrets (PrimaryOnly s) t db' = secrets s t db \<and> (\<forall>r \<in> set (st_select t db'). fresh_row s t r)"
      by (rule rot.rotation_reaches [OF assms(1,4,3) r [unfolded that]])
    have "snd (rotation_Verify (Some s) env' db') = None" if "rotation_alone env'" "\<forall>table. \<not> ro_load_fails env' table" for env'
      unfolding rotation_Verify_def verifyTables_def option.case
      by (rule rot.verify_done [OF that(1)]) (use that(2) done' in \<open>simp_all add: empty_report_def\<close>)
    with done' show ?thesis by (simp add: readable_iff)
  qed
  moreover have "err = None" if "rotation_steady env" "\<forall>t \<in> set Registry. \<forall>r \<in> set (st_select t db). openable s t r"
    using rot.tables_progress [OF assms(1,4) that(1) assms(3) order_refl rot.names _ that(2), of empty_report] r
    by (simp add: empty_report_def)
  ultimately show ?thesis unfolding run r by simp
qed

theorem rotation_complete_witness:
  "snd (fst (Rotate (Some k_sealer) k_env Registry k_db)) = None
   \<and> readable (PrimaryOnly k_sealer) (snd (Rotate (Some k_sealer) k_env Registry k_db)) = [[], [(''shop'', Some ''tk'')], []]"
  using rotation_complete [OF k_documented k_previous k_keys k_alone(1)] k_alone(2) k_openable by (simp add: k_readable)

end
