(* ===== verification/Transport.thy ===== *)
theory Transport
  imports Dispatch_Policy Registry_Service Utf8 "HOL-Library.Word"
begin

unbundle bit_operations_syntax

text \<open>
  The outbound HTTP client (\<^verbatim>\<open>delivery-api/internal/transport\<close>) and the registration-time URL check
  (\<^verbatim>\<open>internal/registry/ssrf.go\<close>): which addresses may be dialled, the hook that vets each of them, and what is
  kept of an error and of a response body. Addresses are \<^verbatim>\<open>netip.Addr\<close> values as words; parsing an
  address, splitting a host from its port, DNS and the connection itself are arguments.
\<close>

section \<open>Addresses\<close>

datatype addr = NoAddr | Addr4 "32 word" | Addr6 "128 word" string

definition v4 :: "int \<Rightarrow> int \<Rightarrow> int \<Rightarrow> int \<Rightarrow> 32 word" where
  "v4 a b c d = word_of_int (((a * 256 + b) * 256 + c) * 256 + d)"

text \<open>An IPv6 address from its first groups, the others zero.\<close>

definition v6 :: "int list \<Rightarrow> 128 word" where
  "v6 groups = word_of_int (foldl (\<lambda>acc g. acc * 65536 + g) 0 groups * 65536 ^ (8 - length groups))"

definition top_bits :: "nat \<Rightarrow> 'a::len word \<Rightarrow> 'a word" where
  "top_bits n w = drop_bit (LENGTH('a) - n) w"

fun IsValid :: "addr \<Rightarrow> bool" where
  "IsValid NoAddr = False"
| "IsValid _ = True"

fun Unmap :: "addr \<Rightarrow> addr" where
  "Unmap (Addr6 w zone) = (if drop_bit 32 w = 0xffff then Addr4 (ucast w) else Addr6 w zone)"
| "Unmap a = a"

fun WithoutZone :: "addr \<Rightarrow> addr" where
  "WithoutZone (Addr6 w zone) = Addr6 w []"
| "WithoutZone a = a"

fun IsLoopback :: "addr \<Rightarrow> bool" where
  "IsLoopback NoAddr = False"
| "IsLoopback (Addr4 w) = (top_bits 8 w = 127)"
| "IsLoopback (Addr6 w _) = (w = 1)"

fun IsPrivate :: "addr \<Rightarrow> bool" where
  "IsPrivate NoAddr = False"
| "IsPrivate (Addr4 w) = (top_bits 8 w = 10 \<or> top_bits 12 w = 0xac1 \<or> top_bits 16 w = 0xc0a8)"
| "IsPrivate (Addr6 w _) = (top_bits 8 w AND 0xfe = 0xfc)"

fun IsLinkLocalUnicast :: "addr \<Rightarrow> bool" where
  "IsLinkLocalUnicast NoAddr = False"
| "IsLinkLocalUnicast (Addr4 w) = (top_bits 16 w = 0xa9fe)"
| "IsLinkLocalUnicast (Addr6 w _) = (top_bits 16 w AND 0xffc0 = 0xfe80)"

fun IsLinkLocalMulticast :: "addr \<Rightarrow> bool" where
  "IsLinkLocalMulticast NoAddr = False"
| "IsLinkLocalMulticast (Addr4 w) = (top_bits 24 w = 0xe00000)"
| "IsLinkLocalMulticast (Addr6 w _) = (top_bits 16 w AND 0xff0f = 0xff02)"

fun IsInterfaceLocalMulticast :: "addr \<Rightarrow> bool" where
  "IsInterfaceLocalMulticast (Addr6 w _) = (top_bits 16 w AND 0xff0f = 0xff01)"
| "IsInterfaceLocalMulticast _ = False"

fun IsMulticast :: "addr \<Rightarrow> bool" where
  "IsMulticast NoAddr = False"
| "IsMulticast (Addr4 w) = (top_bits 8 w AND 0xf0 = 0xe0)"
| "IsMulticast (Addr6 w _) = (top_bits 8 w = 0xff)"

fun IsUnspecified :: "addr \<Rightarrow> bool" where
  "IsUnspecified NoAddr = False"
| "IsUnspecified (Addr4 w) = (w = 0)"
| "IsUnspecified (Addr6 w zone) = (w = 0 \<and> zone = [])"

datatype net_prefix = Prefix4 "32 word" nat | Prefix6 "128 word" nat

definition prefix_contains :: "'a::len word \<Rightarrow> nat \<Rightarrow> 'a word \<Rightarrow> bool" where
  "prefix_contains p bits w \<longleftrightarrow> drop_bit (LENGTH('a) - bits) (w XOR p) = 0"

fun Contains :: "net_prefix \<Rightarrow> addr \<Rightarrow> bool" where
  "Contains (Prefix4 p bits) (Addr4 w) = prefix_contains p bits w"
| "Contains (Prefix6 p bits) (Addr6 w zone) = (zone = [] \<and> prefix_contains p bits w)"
| "Contains _ _ = False"

definition deniedPrefixes :: "net_prefix list" where
  "deniedPrefixes =
     [Prefix4 (v4 0 0 0 0) 8, Prefix4 (v4 100 64 0 0) 10, Prefix4 (v4 192 0 0 0) 24, Prefix4 (v4 192 0 2 0) 24,
      Prefix4 (v4 198 18 0 0) 15, Prefix4 (v4 198 51 100 0) 24, Prefix4 (v4 203 0 113 0) 24, Prefix4 (v4 240 0 0 0) 4,
      Prefix6 (v6 []) 96, Prefix6 (v6 [0x64, 0xff9b]) 96, Prefix6 (v6 [0x64, 0xff9b, 1]) 48, Prefix6 (v6 [0x100]) 64,
      Prefix6 (v6 [0x2001]) 32, Prefix6 (v6 [0x2001, 0xdb8]) 32, Prefix6 (v6 [0x2002]) 16, Prefix6 (v6 [0x3fff]) 20,
      Prefix6 (v6 [0xfc00]) 7, Prefix6 (v6 [0xfec0]) 10]"

definition IsPublicAddr :: "addr \<Rightarrow> bool" where
  "IsPublicAddr a0 \<longleftrightarrow> IsValid a0 \<and>
     (let a = WithoutZone (Unmap a0)
      in \<not> (IsLoopback a \<or> IsPrivate a \<or> IsLinkLocalUnicast a \<or> IsLinkLocalMulticast a
            \<or> IsInterfaceLocalMulticast a \<or> IsMulticast a \<or> IsUnspecified a)
         \<and> list_all (\<lambda>p. \<not> Contains p a) deniedPrefixes)"

section \<open>Client\<close>

text \<open>Text functions of \<^verbatim>\<open>net\<close> and \<^verbatim>\<open>netip\<close>, and the resolver (\<open>None\<close> for an error).\<close>

record net_lib =
  nl_SplitHostPort :: "string \<Rightarrow> (string \<times> string) option"
  nl_ParseAddr :: "string \<Rightarrow> addr option"
  nl_LookupNetIP :: "string \<Rightarrow> addr list option"

record client_config =
  cf_DialTimeout :: duration
  cf_TLSHandshakeTimeout :: duration
  cf_ResponseHeaderTimeout :: duration
  cf_Timeout :: duration
  cf_AllowAddr :: "(addr \<Rightarrow> bool) option"

text \<open>What \<^verbatim>\<open>New\<close> sets; the control hook gives the error it returns for an address.\<close>

record http_client =
  hc_DialTimeout :: duration
  hc_Control :: "string \<Rightarrow> sink_sentinel option"
  hc_TLSHandshakeTimeout :: duration
  hc_ResponseHeaderTimeout :: duration
  hc_MaxResponseHeaderBytes :: int
  hc_DisableCompression :: bool
  hc_UsesProxy :: bool
  hc_FollowsRedirects :: bool
  hc_Timeout :: duration

definition durationOr :: "duration \<Rightarrow> duration \<Rightarrow> duration" where
  "durationOr value fallback = (if value \<le> 0 then fallback else value)"

definition controlFor :: "net_lib \<Rightarrow> (addr \<Rightarrow> bool) \<Rightarrow> string \<Rightarrow> sink_sentinel option" where
  "controlFor lib allowAddr address =
     (case nl_SplitHostPort lib address of
        None \<Rightarrow> Some ErrBlockedAddress
      | Some (host, port) \<Rightarrow>
          (case nl_ParseAddr lib host of
             None \<Rightarrow> Some ErrBlockedAddress
           | Some a \<Rightarrow> if allowAddr a then None else Some ErrBlockedAddress))"

definition transport_New :: "net_lib \<Rightarrow> client_config \<Rightarrow> http_client" where
  "transport_New lib config =
     \<lparr>hc_DialTimeout = durationOr (cf_DialTimeout config) (5 * Second),
      hc_Control = controlFor lib (case cf_AllowAddr config of None \<Rightarrow> IsPublicAddr | Some allow \<Rightarrow> allow),
      hc_TLSHandshakeTimeout = durationOr (cf_TLSHandshakeTimeout config) (5 * Second),
      hc_ResponseHeaderTimeout = durationOr (cf_ResponseHeaderTimeout config) (8 * Second),
      hc_MaxResponseHeaderBytes = 16 * 1024,
      hc_DisableCompression = True,
      hc_UsesProxy = False,
      hc_FollowsRedirects = False,
      hc_Timeout = durationOr (cf_Timeout config) (9 * Second)\<rparr>"

section \<open>Errors\<close>

text \<open>
  The errors of an HTTP exchange, each with its full text: \<^verbatim>\<open>*url.Error\<close>, \<^verbatim>\<open>*net.OpError\<close> with operation,
  network and inner error, \<^verbatim>\<open>*net.DNSError\<close>, another wrapper, or a plain error with the sentinels it is.
\<close>

datatype net_error =
    NetPlain string "sink_sentinel list"
  | NetUrl string net_error
  | NetOp string string "net_error option" string
  | NetDNS string string
  | NetWrap string net_error

fun net_text :: "net_error \<Rightarrow> string" where
  "net_text (NetPlain text _) = text"
| "net_text (NetUrl text _) = text"
| "net_text (NetOp _ _ _ text) = text"
| "net_text (NetDNS _ text) = text"
| "net_text (NetWrap text _) = text"

fun net_chain :: "net_error \<Rightarrow> sink_sentinel list" where
  "net_chain (NetPlain _ chain) = chain"
| "net_chain (NetUrl _ e) = net_chain e"
| "net_chain (NetOp _ _ (Some e) _) = net_chain e"
| "net_chain (NetOp _ _ None _) = []"
| "net_chain (NetDNS _ _) = []"
| "net_chain (NetWrap _ e) = net_chain e"

text \<open>\<^verbatim>\<open>errors.As\<close> for the three types: the first of its kind along the chain.\<close>

fun as_url :: "net_error \<Rightarrow> net_error option" where
  "as_url (NetUrl _ e) = Some e"
| "as_url (NetOp _ _ (Some e) _) = as_url e"
| "as_url (NetWrap _ e) = as_url e"
| "as_url _ = None"

fun as_op :: "net_error \<Rightarrow> (string \<times> string \<times> net_error option) option" where
  "as_op (NetOp operation network inner _) = Some (operation, network, inner)"
| "as_op (NetUrl _ e) = as_op e"
| "as_op (NetWrap _ e) = as_op e"
| "as_op _ = None"

fun as_dns :: "net_error \<Rightarrow> string option" where
  "as_dns (NetDNS err _) = Some err"
| "as_dns (NetUrl _ e) = as_dns e"
| "as_dns (NetWrap _ e) = as_dns e"
| "as_dns (NetOp _ _ (Some e) _) = as_dns e"
| "as_dns _ = None"

definition Cause :: "net_error \<Rightarrow> net_error" where
  "Cause e = (case as_url e of Some inner \<Rightarrow> inner | None \<Rightarrow> e)"

text \<open>\<^verbatim>\<open>httpsOnly.RoundTrip\<close> around the transport \<open>forward\<close>, for a request with that URL scheme.\<close>

definition RoundTrip :: "(net_error + 'r) \<Rightarrow> string \<Rightarrow> net_error + 'r" where
  "RoundTrip forward scheme =
     (if scheme \<noteq> ''https'' then Inl (NetPlain ''destination URL must use https'' [ErrNotHTTPS]) else forward)"

section \<open>Response bodies\<close>

definition MaxResponseSnippetBytes :: nat where "MaxResponseSnippetBytes = 1024"

text \<open>\<^verbatim>\<open>strings.ToValidUTF8(s, "")\<close>.\<close>

function drop_invalid :: "string \<Rightarrow> string" where
  "drop_invalid s =
     (if s = [] then []
      else case decode_width s of
             None \<Rightarrow> drop_invalid (tl s)
           | Some w \<Rightarrow> take (rune_width s) s @ drop_invalid (drop (rune_width s) s))"
  by pat_completeness auto
termination by (relation "measure length") (auto intro: drop_rune_shorter [simplified])

declare drop_invalid.simps [simp del]

text \<open>\<open>body\<close> is what can be read of the body before its end or an error.\<close>

definition ReadSnippet :: "string \<Rightarrow> string" where
  "ReadSnippet body = filter (\<lambda>c. byte_val c \<noteq> 0) (drop_invalid (take MaxResponseSnippetBytes body))"

section \<open>The check at registration\<close>

definition checkURL :: "net_lib \<Rightarrow> (string \<Rightarrow> parsed_url option) \<Rightarrow> string \<Rightarrow> string \<Rightarrow> unit checked" where
  "checkURL lib url_parse fieldName rawURL =
     (case parseHTTPSURL url_parse rawURL of
        None \<Rightarrow> invalid (''invalid '' @ fieldName)
      | Some parsed \<Rightarrow>
          (case nl_ParseAddr lib (pu_Hostname parsed) of
             Some literal \<Rightarrow>
               if \<not> IsPublicAddr literal then invalid (fieldName @ '' must resolve to public addresses'') else Inr ()
           | None \<Rightarrow>
               (case nl_LookupNetIP lib (pu_Hostname parsed) of
                  None \<Rightarrow> invalid (fieldName @ '' host could not be resolved'')
                | Some addrs \<Rightarrow>
                    if addrs = [] then invalid (fieldName @ '' host could not be resolved'')
                    else if list_ex (\<lambda>a. \<not> IsPublicAddr a) addrs
                    then invalid (fieldName @ '' must resolve to public addresses'') else Inr ())))"

fun CheckDestinationSecrets ::
    "net_lib \<Rightarrow> (string \<Rightarrow> parsed_url option) \<Rightarrow> dest_type \<Rightarrow> fields \<Rightarrow> unit checked" where
  "CheckDestinationSecrets lib url_parse TypeNtfy secrets = Inr ()"
| "CheckDestinationSecrets lib url_parse TypeWebhook secrets =
     checkURL lib url_parse ''secrets.url'' (field secrets ''url'')"
| "CheckDestinationSecrets lib url_parse TypeDiscord secrets =
     checkURL lib url_parse ''secrets.webhook_url'' (field secrets ''webhook_url'')"
| "CheckDestinationSecrets lib url_parse (OtherType _) secrets = invalid ''invalid type''"

section \<open>The ranges that are not public\<close>

text \<open>The same policy as a table of address ranges, first and last address of each.\<close>

definition special4 :: "(32 word \<times> 32 word) list" where
  "special4 =
     [(v4 0 0 0 0, v4 0 255 255 255), (v4 10 0 0 0, v4 10 255 255 255), (v4 100 64 0 0, v4 100 127 255 255),
      (v4 127 0 0 0, v4 127 255 255 255), (v4 169 254 0 0, v4 169 254 255 255), (v4 172 16 0 0, v4 172 31 255 255),
      (v4 192 0 0 0, v4 192 0 0 255), (v4 192 0 2 0, v4 192 0 2 255), (v4 192 168 0 0, v4 192 168 255 255),
      (v4 198 18 0 0, v4 198 19 255 255), (v4 198 51 100 0, v4 198 51 100 255), (v4 203 0 113 0, v4 203 0 113 255),
      (v4 224 0 0 0, v4 255 255 255 255)]"

definition special6 :: "(128 word \<times> 128 word) list" where
  "special6 =
     [(0, v6 [0, 0, 0, 0, 0, 0, 0xffff, 0xffff]),
      (v6 [0x64, 0xff9b], v6 [0x64, 0xff9b, 0, 0, 0, 0, 0xffff, 0xffff]),
      (v6 [0x64, 0xff9b, 1], v6 [0x64, 0xff9b, 1, 0xffff, 0xffff, 0xffff, 0xffff, 0xffff]),
      (v6 [0x100], v6 [0x100, 0, 0, 0, 0xffff, 0xffff, 0xffff, 0xffff]),
      (v6 [0x2001], v6 [0x2001, 0, 0xffff, 0xffff, 0xffff, 0xffff, 0xffff, 0xffff]),
      (v6 [0x2001, 0xdb8], v6 [0x2001, 0xdb8, 0xffff, 0xffff, 0xffff, 0xffff, 0xffff, 0xffff]),
      (v6 [0x2002], v6 [0x2002, 0xffff, 0xffff, 0xffff, 0xffff, 0xffff, 0xffff, 0xffff]),
      (v6 [0x3fff], v6 [0x3fff, 0xfff, 0xffff, 0xffff, 0xffff, 0xffff, 0xffff, 0xffff]),
      (v6 [0xfc00], v6 [0xfdff, 0xffff, 0xffff, 0xffff, 0xffff, 0xffff, 0xffff, 0xffff]),
      (v6 [0xfe80], - 1)]"

definition outside :: "('a::len word \<times> 'a word) list \<Rightarrow> 'a word \<Rightarrow> bool" where
  "outside ranges w \<longleftrightarrow> list_all (\<lambda>(lo, hi). w < lo \<or> hi < w) ranges"

definition routable :: "addr \<Rightarrow> bool" where
  "routable a =
     (case a of NoAddr \<Rightarrow> False
      | Addr4 w \<Rightarrow> outside special4 w
      | Addr6 w _ \<Rightarrow> if v6 [0, 0, 0, 0, 0, 0xffff] \<le> w \<and> w \<le> v6 [0, 0, 0, 0, 0, 0xffff, 0xffff, 0xffff]
                     then outside special4 (ucast w) else outside special6 w)"

text \<open>A condition on the leading bits of a word is a range.\<close>

definition in_range :: "'a::len word \<Rightarrow> 'a word \<Rightarrow> 'a word \<Rightarrow> bool" where
  "in_range lo hi w \<longleftrightarrow> lo \<le> w \<and> w \<le> hi"

lemma uint_in_range: "0 \<le> x \<Longrightarrow> x < 2 ^ LENGTH('a) \<Longrightarrow> uint (word_of_int x :: 'a::len word) = x"
  by (simp add: uint_word_of_int mod_pos_pos_trivial)

lemma div_range:
  fixes w c p :: int
  assumes "0 < p"
  shows "w div p = c \<longleftrightarrow> c * p \<le> w \<and> w < c * p + p"
proof
  assume "w div p = c"
  moreover have "w = w div p * p + w mod p" "0 \<le> w mod p" "w mod p < p" using assms by simp_all
  ultimately show "c * p \<le> w \<and> w < c * p + p" by simp
next
  assume r: "c * p \<le> w \<and> w < c * p + p"
  have "w div p = c + (w - c * p) div p" using assms by (metis add_diff_cancel_left' diff_add_cancel div_mult_self1 less_irrefl add.commute)
  then show "w div p = c" using r assms by (simp add: div_pos_pos_trivial)
qed

lemma top_range:
  fixes w c :: "'a::len word"
  assumes "uint c * 2 ^ k + 2 ^ k \<le> 2 ^ LENGTH('a)"
  shows "drop_bit k w = c \<longleftrightarrow> word_of_int (uint c * 2 ^ k) \<le> w \<and> w \<le> word_of_int (uint c * 2 ^ k + 2 ^ k - 1)"
proof -
  have p: "0 < (2::int) ^ k" "0 \<le> uint c * 2 ^ k" by simp_all
  have lo: "uint (word_of_int (uint c * 2 ^ k) :: 'a word) = uint c * 2 ^ k"
    by (rule uint_in_range) (use assms p in linarith)+
  have hi: "uint (word_of_int (uint c * 2 ^ k + 2 ^ k - 1) :: 'a word) = uint c * 2 ^ k + 2 ^ k - 1"
    by (rule uint_in_range) (use assms p in linarith)+
  have "uint (drop_bit k w) = uint w div 2 ^ k"
    by (simp only: unsigned_drop_bit_eq drop_bit_eq_div [where 'a = int]) (simp add: take_bit_int_eq_self)
  then have "drop_bit k w = c \<longleftrightarrow> uint w div 2 ^ k = uint c" by (simp only: word_uint_eq_iff)
  moreover have "word_of_int (uint c * 2 ^ k) \<le> w \<longleftrightarrow> uint c * 2 ^ k \<le> uint w" by (simp only: word_le_def lo)
  moreover have "w \<le> word_of_int (uint c * 2 ^ k + 2 ^ k - 1) \<longleftrightarrow> uint w \<le> uint c * 2 ^ k + 2 ^ k - 1"
    by (simp only: word_le_def hi)
  ultimately show ?thesis by (simp only: div_range [OF p(1)]) linarith
qed

lemma xor_eq_0_word: "(a :: 'a::len word) XOR b = 0 \<longleftrightarrow> a = b"
  by (auto simp: bit_eq_iff bit_simps)

lemma prefix_contains_iff: "prefix_contains p bits w \<longleftrightarrow> top_bits bits w = top_bits bits p"
  by (simp add: prefix_contains_def top_bits_def drop_bit_xor xor_eq_0_word)

lemma masked_top:
  fixes x c :: "'a::len word"
  assumes "take_bit n x = x" "M = mask n AND NOT (mask m)" "c AND M = c"
  shows "x AND M = c \<longleftrightarrow> drop_bit m x = drop_bit m c"
proof
  have x: "bit x i \<Longrightarrow> i < n" for i using assms(1) by (metis bit_take_bit_iff)
  have c: "bit c i \<Longrightarrow> i < n \<and> m \<le> i" for i
    using arg_cong [where f = "\<lambda>v. bit v i", OF assms(3)] by (auto simp: assms(2) bit_simps)
  { assume "x AND M = c"
    then have "bit c i \<longleftrightarrow> bit x i \<and> i < n \<and> m \<le> i" for i
      by (auto simp: assms(2) bit_simps dest: bit_imp_le_length)
    then show "drop_bit m x = drop_bit m c" by (auto simp: bit_eq_iff bit_simps dest: x) }
  { assume "drop_bit m x = drop_bit m c"
    then have "bit x (m + i) \<longleftrightarrow> bit c (m + i)" for i
      by (metis bit_drop_bit_eq comp_apply)
    then have "m \<le> i \<Longrightarrow> bit x i \<longleftrightarrow> bit c i" for i by (metis le_iff_add)
    then show "x AND M = c" by (auto simp: bit_eq_iff bit_simps assms(2) not_less dest: x c) }
qed

lemma top_bits_small: "n \<le> LENGTH('a) \<Longrightarrow> take_bit n (top_bits n (w :: 'a::len word)) = top_bits n w"
  by (auto simp: top_bits_def bit_eq_iff bit_simps dest: bit_imp_le_length)

lemma drop_top_bits: "m \<le> n \<Longrightarrow> n \<le> LENGTH('a) \<Longrightarrow> drop_bit m (top_bits n (w :: 'a::len word)) = top_bits (n - m) w"
  by (simp add: top_bits_def add.commute)

lemma top_bits_range:
  fixes w c :: "'a::len word"
  assumes "uint c * 2 ^ (LENGTH('a) - n) + 2 ^ (LENGTH('a) - n) \<le> 2 ^ LENGTH('a)"
    and "lo = word_of_int (uint c * 2 ^ (LENGTH('a) - n))"
    and "hi = word_of_int (uint c * 2 ^ (LENGTH('a) - n) + 2 ^ (LENGTH('a) - n) - 1)"
  shows "top_bits n w = c \<longleftrightarrow> in_range lo hi w"
  unfolding top_bits_def assms(2,3) in_range_def by (rule top_range [OF assms(1)])

lemma special4_ranges:
  fixes w :: "32 word"
  shows "top_bits 8 w = 127 \<longleftrightarrow> in_range (v4 127 0 0 0) (v4 127 255 255 255) w"
    "top_bits 8 w = 10 \<longleftrightarrow> in_range (v4 10 0 0 0) (v4 10 255 255 255) w"
    "top_bits 12 w = 0xac1 \<longleftrightarrow> in_range (v4 172 16 0 0) (v4 172 31 255 255) w"
    "top_bits 16 w = 0xc0a8 \<longleftrightarrow> in_range (v4 192 168 0 0) (v4 192 168 255 255) w"
    "top_bits 16 w = 0xa9fe \<longleftrightarrow> in_range (v4 169 254 0 0) (v4 169 254 255 255) w"
    "top_bits 4 w = 0xe \<longleftrightarrow> in_range (v4 224 0 0 0) (v4 239 255 255 255) w"
    "prefix_contains (v4 0 0 0 0) 8 w \<longleftrightarrow> in_range (v4 0 0 0 0) (v4 0 255 255 255) w"
    "prefix_contains (v4 100 64 0 0) 10 w \<longleftrightarrow> in_range (v4 100 64 0 0) (v4 100 127 255 255) w"
    "prefix_contains (v4 192 0 0 0) 24 w \<longleftrightarrow> in_range (v4 192 0 0 0) (v4 192 0 0 255) w"
    "prefix_contains (v4 192 0 2 0) 24 w \<longleftrightarrow> in_range (v4 192 0 2 0) (v4 192 0 2 255) w"
    "prefix_contains (v4 198 18 0 0) 15 w \<longleftrightarrow> in_range (v4 198 18 0 0) (v4 198 19 255 255) w"
    "prefix_contains (v4 198 51 100 0) 24 w \<longleftrightarrow> in_range (v4 198 51 100 0) (v4 198 51 100 255) w"
    "prefix_contains (v4 203 0 113 0) 24 w \<longleftrightarrow> in_range (v4 203 0 113 0) (v4 203 0 113 255) w"
    "prefix_contains (v4 240 0 0 0) 4 w \<longleftrightarrow> in_range (v4 240 0 0 0) (v4 255 255 255 255) w"
  unfolding prefix_contains_iff by (rule top_bits_range; simp add: v4_def top_bits_def)+

lemma special6_ranges:
  fixes w :: "128 word"
  shows "top_bits 7 w = 0x7e \<longleftrightarrow> in_range (v6 [0xfc00]) (v6 [0xfdff, 0xffff, 0xffff, 0xffff, 0xffff, 0xffff, 0xffff, 0xffff]) w"
    "top_bits 10 w = 0x3fa \<longleftrightarrow> in_range (v6 [0xfe80]) (v6 [0xfebf, 0xffff, 0xffff, 0xffff, 0xffff, 0xffff, 0xffff, 0xffff]) w"
    "top_bits 8 w = 0xff \<longleftrightarrow> in_range (v6 [0xff00]) (- 1) w"
    "prefix_contains (v6 []) 96 w \<longleftrightarrow> in_range 0 (v6 [0, 0, 0, 0, 0, 0, 0xffff, 0xffff]) w"
    "prefix_contains (v6 [0x64, 0xff9b]) 96 w \<longleftrightarrow> in_range (v6 [0x64, 0xff9b]) (v6 [0x64, 0xff9b, 0, 0, 0, 0, 0xffff, 0xffff]) w"
    "prefix_contains (v6 [0x64, 0xff9b, 1]) 48 w \<longleftrightarrow> in_range (v6 [0x64, 0xff9b, 1]) (v6 [0x64, 0xff9b, 1, 0xffff, 0xffff, 0xffff, 0xffff, 0xffff]) w"
    "prefix_contains (v6 [0x100]) 64 w \<longleftrightarrow> in_range (v6 [0x100]) (v6 [0x100, 0, 0, 0, 0xffff, 0xffff, 0xffff, 0xffff]) w"
    "prefix_contains (v6 [0x2001]) 32 w \<longleftrightarrow> in_range (v6 [0x2001]) (v6 [0x2001, 0, 0xffff, 0xffff, 0xffff, 0xffff, 0xffff, 0xffff]) w"
    "prefix_contains (v6 [0x2001, 0xdb8]) 32 w \<longleftrightarrow> in_range (v6 [0x2001, 0xdb8]) (v6 [0x2001, 0xdb8, 0xffff, 0xffff, 0xffff, 0xffff, 0xffff, 0xffff]) w"
    "prefix_contains (v6 [0x2002]) 16 w \<longleftrightarrow> in_range (v6 [0x2002]) (v6 [0x2002, 0xffff, 0xffff, 0xffff, 0xffff, 0xffff, 0xffff, 0xffff]) w"
    "prefix_contains (v6 [0x3fff]) 20 w \<longleftrightarrow> in_range (v6 [0x3fff]) (v6 [0x3fff, 0xfff, 0xffff, 0xffff, 0xffff, 0xffff, 0xffff, 0xffff]) w"
    "prefix_contains (v6 [0xfc00]) 7 w \<longleftrightarrow> in_range (v6 [0xfc00]) (v6 [0xfdff, 0xffff, 0xffff, 0xffff, 0xffff, 0xffff, 0xffff, 0xffff]) w"
    "prefix_contains (v6 [0xfec0]) 10 w \<longleftrightarrow> in_range (v6 [0xfec0]) (v6 [0xfeff, 0xffff, 0xffff, 0xffff, 0xffff, 0xffff, 0xffff, 0xffff]) w"
    "top_bits 96 w = 0xffff \<longleftrightarrow> in_range (v6 [0, 0, 0, 0, 0, 0xffff]) (v6 [0, 0, 0, 0, 0, 0xffff, 0xffff, 0xffff]) w"
  unfolding prefix_contains_iff by (rule top_bits_range; simp add: v6_def top_bits_def)+

text \<open>The masked tests of \<^verbatim>\<open>netip\<close> as conditions on the leading bits.\<close>

lemma masked_tests:
  fixes w :: "128 word" and u :: "32 word"
  shows "top_bits 8 w AND 0xfe = 0xfc \<longleftrightarrow> top_bits 7 w = 0x7e"
    "top_bits 16 w AND 0xffc0 = 0xfe80 \<longleftrightarrow> top_bits 10 w = 0x3fa"
    "top_bits 8 u AND 0xf0 = 0xe0 \<longleftrightarrow> top_bits 4 u = 0xe"
proof -
  have "top_bits 8 w AND 0xfe = 0xfc \<longleftrightarrow> drop_bit 1 (top_bits 8 w) = drop_bit 1 0xfc"
    by (rule masked_top [where n = 8]) (simp_all add: top_bits_small mask_numeral)
  then show "top_bits 8 w AND 0xfe = 0xfc \<longleftrightarrow> top_bits 7 w = 0x7e" by (simp add: drop_top_bits del: drop_bit_of_1)
  have "top_bits 16 w AND 0xffc0 = 0xfe80 \<longleftrightarrow> drop_bit 6 (top_bits 16 w) = drop_bit 6 0xfe80"
    by (rule masked_top [where n = 16]) (simp_all add: top_bits_small mask_numeral)
  then show "top_bits 16 w AND 0xffc0 = 0xfe80 \<longleftrightarrow> top_bits 10 w = 0x3fa" by (simp add: drop_top_bits)
  have "top_bits 8 u AND 0xf0 = 0xe0 \<longleftrightarrow> drop_bit 4 (top_bits 8 u) = drop_bit 4 0xe0"
    by (rule masked_top [where n = 8]) (simp_all add: top_bits_small mask_numeral)
  then show "top_bits 8 u AND 0xf0 = 0xe0 \<longleftrightarrow> top_bits 4 u = 0xe" by (simp add: drop_top_bits)
qed

lemma local_multicast6:
  fixes w :: "128 word"
  assumes "top_bits 16 w AND 0xff0f = c" "drop_bit 8 c = 0xff"
  shows "top_bits 8 w = 0xff"
proof -
  have "drop_bit 8 (top_bits 16 w) AND drop_bit 8 0xff0f = 0xff" using assms by (metis drop_bit_and)
  moreover have "take_bit 8 (top_bits 8 w) = top_bits 8 w" by (rule top_bits_small) simp
  ultimately show ?thesis by (simp add: drop_top_bits take_bit_eq_mask mask_numeral)
qed

lemma local_multicast4:
  fixes u :: "32 word"
  assumes "top_bits 24 u = 0xe00000"
  shows "top_bits 4 u = 0xe"
proof -
  have "drop_bit 20 (top_bits 24 u) = drop_bit 20 0xe00000" by (simp only: assms)
  then show ?thesis by (simp add: drop_top_bits)
qed

lemma outside_iff: "outside ranges w \<longleftrightarrow> list_all (\<lambda>(lo, hi). \<not> in_range lo hi w) ranges"
  unfolding outside_def by (intro arg_cong [where f = "\<lambda>p. list_all p ranges"] ext) (auto simp: in_range_def not_le)

text \<open>Two adjacent ranges of the code are one range of the table.\<close>

lemma top4: "u \<le> (v4 255 255 255 255 :: 32 word)"
proof -
  have "v4 255 255 255 255 = - 1" by (simp add: v4_def)
  then show ?thesis by simp
qed

lemma multicast_reserved:
  fixes u :: "32 word"
  shows "in_range (v4 224 0 0 0) (v4 255 255 255 255) u \<longleftrightarrow>
    in_range (v4 224 0 0 0) (v4 239 255 255 255) u \<or> in_range (v4 240 0 0 0) (v4 255 255 255 255) u"
proof -
  have "v4 240 0 0 0 \<le> u \<longleftrightarrow> \<not> u \<le> v4 239 255 255 255"
    by (simp add: v4_def not_le word_le_def word_less_def uint_word_of_int) arith
  moreover have "v4 240 0 0 0 \<le> u \<Longrightarrow> v4 224 0 0 0 \<le> u"
    by (simp add: v4_def word_le_def uint_word_of_int)
  ultimately show ?thesis using top4 [of u] unfolding in_range_def by blast
qed

lemma public4: "IsPublicAddr (Addr4 u) \<longleftrightarrow> outside special4 u"
proof -
  have zero: "u = 0 \<Longrightarrow> in_range (v4 0 0 0 0) (v4 0 255 255 255) u" by (simp add: v4_def in_range_def)
  have "IsPublicAddr (Addr4 u) \<longleftrightarrow>
      \<not> (top_bits 8 u = 127 \<or> top_bits 8 u = 10 \<or> top_bits 12 u = 0xac1 \<or> top_bits 16 u = 0xc0a8
        \<or> top_bits 16 u = 0xa9fe \<or> top_bits 24 u = 0xe00000 \<or> top_bits 4 u = 0xe \<or> u = 0)
      \<and> list_all (\<lambda>p. \<not> Contains p (Addr4 u)) deniedPrefixes"
    by (simp add: IsPublicAddr_def masked_tests disj_assoc)
  also have "\<dots> \<longleftrightarrow> \<not> (top_bits 8 u = 127 \<or> top_bits 8 u = 10 \<or> top_bits 12 u = 0xac1 \<or> top_bits 16 u = 0xc0a8
        \<or> top_bits 16 u = 0xa9fe \<or> top_bits 4 u = 0xe) \<and> list_all (\<lambda>p. \<not> Contains p (Addr4 u)) deniedPrefixes"
    using local_multicast4 [of u] zero by (auto simp: deniedPrefixes_def special4_ranges(7))
  also have "\<dots> \<longleftrightarrow> outside special4 u"
    unfolding deniedPrefixes_def outside_iff special4_def list.pred_inject Contains.simps special4_ranges prod.case
      multicast_reserved by (simp only: list.pred_inject) blast
  finally show ?thesis .
qed

lemma top6:
  fixes w :: "128 word"
  shows "in_range (v6 [0xfe80]) (- 1) w \<longleftrightarrow>
      in_range (v6 [0xfe80]) (v6 [0xfebf, 0xffff, 0xffff, 0xffff, 0xffff, 0xffff, 0xffff, 0xffff]) w
      \<or> in_range (v6 [0xfec0]) (v6 [0xfeff, 0xffff, 0xffff, 0xffff, 0xffff, 0xffff, 0xffff, 0xffff]) w
      \<or> in_range (v6 [0xff00]) (- 1) w"
proof -
  have "v6 [0xfec0] \<le> w \<longleftrightarrow> \<not> w \<le> v6 [0xfebf, 0xffff, 0xffff, 0xffff, 0xffff, 0xffff, 0xffff, 0xffff]"
    "v6 [0xff00] \<le> w \<longleftrightarrow> \<not> w \<le> v6 [0xfeff, 0xffff, 0xffff, 0xffff, 0xffff, 0xffff, 0xffff, 0xffff]"
    "v6 [0xff00] \<le> w \<Longrightarrow> v6 [0xfe80] \<le> w" "v6 [0xfec0] \<le> w \<Longrightarrow> v6 [0xfe80] \<le> w"
    by (simp_all add: v6_def not_le word_le_def word_less_def uint_word_of_int) arith+
  moreover have "w \<le> - 1" by simp
  ultimately show ?thesis unfolding in_range_def by blast
qed

lemma public6:
  assumes "\<not> drop_bit 32 w = 0xffff"
  shows "IsPublicAddr (Addr6 w zone) \<longleftrightarrow> outside special6 w"
proof -
  have "(0::128 word) \<le> v6 [0, 0, 0, 0, 0, 0, 0xffff, 0xffff]" "1 \<le> v6 [0, 0, 0, 0, 0, 0, 0xffff, 0xffff]" by (simp_all add: v6_def)
  then have small: "w = 0 \<or> w = 1 \<Longrightarrow> prefix_contains (v6 []) 96 w"
    unfolding special6_ranges(4) in_range_def by auto
  have locals: "top_bits 16 w AND 0xff0f = 0xff02 \<or> top_bits 16 w AND 0xff0f = 0xff01 \<Longrightarrow> top_bits 8 w = 0xff"
    by (elim disjE) (erule local_multicast6, simp)+
  have "IsPublicAddr (Addr6 w zone) \<longleftrightarrow>
      \<not> (top_bits 7 w = 0x7e \<or> top_bits 10 w = 0x3fa \<or> top_bits 8 w = 0xff)
      \<and> list_all (\<lambda>p. \<not> Contains p (Addr6 w [])) deniedPrefixes"
    using assms small locals by (simp add: IsPublicAddr_def masked_tests deniedPrefixes_def) blast
  also have "\<dots> \<longleftrightarrow> outside special6 w"
    unfolding deniedPrefixes_def outside_iff special6_def list.pred_inject Contains.simps special6_ranges prod.case top6
    by (simp only: list.pred_inject) blast
  finally show ?thesis .
qed

text \<open>The predicate of the guard is the table of ranges.\<close>

lemma public_iff_routable: "IsPublicAddr a \<longleftrightarrow> routable a"
proof (cases a)
  case NoAddr
  then show ?thesis by (simp add: IsPublicAddr_def routable_def)
next
  case (Addr4 u)
  then show ?thesis by (simp add: public4 routable_def)
next
  case (Addr6 w zone)
  have mapped: "drop_bit 32 w = 0xffff \<longleftrightarrow>
      v6 [0, 0, 0, 0, 0, 0xffff] \<le> w \<and> w \<le> v6 [0, 0, 0, 0, 0, 0xffff, 0xffff, 0xffff]"
    using special6_ranges(14) [of w] by (simp add: top_bits_def in_range_def)
  show ?thesis
  proof (cases "drop_bit 32 w = 0xffff")
    case True
    then have "IsPublicAddr a \<longleftrightarrow> IsPublicAddr (Addr4 (ucast w))" by (simp add: Addr6 IsPublicAddr_def)
    with True show ?thesis by (simp add: public4 Addr6 routable_def mapped)
  next
    case False
    then show ?thesis unfolding Addr6 routable_def public6 [OF False] by (simp add: mapped [symmetric])
  qed
qed

section \<open>Facts\<close>

lemma drop_invalid_valid: "valid_utf8 (drop_invalid s)"
proof (induction s rule: drop_invalid.induct)
  case (1 s)
  then show ?case
    by (cases "decode_width s") (auto simp: drop_invalid.simps [of s] rune_width_def valid_utf8_rune)
qed

lemma drop_invalid_length: "length (drop_invalid s) \<le> length s"
proof (induction s rule: drop_invalid.induct)
  case (1 s)
  show ?case
  proof (cases "s = [] \<or> decode_width s = None")
    case True
    with 1(1) show ?thesis by (subst drop_invalid.simps) (cases s; auto intro: le_SucI)
  next
    case False
    then obtain w where w: "s \<noteq> []" "decode_width s = Some w" by auto
    moreover have "length (drop_invalid (drop w s)) \<le> length (drop w s)" "w \<le> length s"
      using 1(2) [OF w] w(2) decode_width_range [of s w] by (auto simp: rune_width_def)
    ultimately show ?thesis by (simp add: drop_invalid.simps [of s] rune_width_def)
  qed
qed

lemma ReadSnippet_storable:
  "length (ReadSnippet body) \<le> MaxResponseSnippetBytes \<and> valid_utf8 (ReadSnippet body)
     \<and> list_all (\<lambda>c. byte_val c \<noteq> 0) (ReadSnippet body)"
proof -
  have "length (ReadSnippet body) \<le> length (drop_invalid (take MaxResponseSnippetBytes body))"
    by (simp add: ReadSnippet_def)
  also have "\<dots> \<le> MaxResponseSnippetBytes" using drop_invalid_length [of "take MaxResponseSnippetBytes body"] by simp
  finally show ?thesis
    using drop_nul_valid [OF drop_invalid_valid] by (simp add: ReadSnippet_def list_all_iff)
qed

lemma as_url_chain: "as_url e = Some inner \<Longrightarrow> net_chain inner = net_chain e"
  by (induction e rule: as_url.induct) auto

lemma Cause_chain [simp]: "net_chain (Cause e) = net_chain e"
  by (auto simp: Cause_def as_url_chain split: option.splits)

lemma control_public:
  "hc_Control (transport_New lib (config\<lparr>cf_AllowAddr := None\<rparr>)) address = None \<longleftrightarrow>
     (\<exists>host port a. nl_SplitHostPort lib address = Some (host, port) \<and> nl_ParseAddr lib host = Some a \<and> routable a)"
  by (auto simp: transport_New_def controlFor_def public_iff_routable split: option.splits)

lemma CheckDestinationSecrets_public:
  assumes "CheckDestinationSecrets lib url_parse ty secrets = Inr ()" "destinationURLSecretKey ty \<noteq> []"
  shows "\<exists>parsed. parseHTTPSURL url_parse (field secrets (destinationURLSecretKey ty)) = Some parsed
    \<and> (case nl_ParseAddr lib (pu_Hostname parsed) of
         Some a \<Rightarrow> routable a
       | None \<Rightarrow> \<exists>addrs. nl_LookupNetIP lib (pu_Hostname parsed) = Some addrs \<and> addrs \<noteq> [] \<and> (\<forall>a \<in> set addrs. routable a))"
  using assms
  by (cases ty) (auto simp: checkURL_def public_iff_routable list_ex_iff split: option.splits if_splits)

end
