(* ===== verification/Sinks.thy ===== *)
theory Sinks
  imports Transport Dispatch_Worker Message_Validate Env_Int
begin

text \<open>
  The three sinks (\<^verbatim>\<open>delivery-api/internal/sink\<close>): webhook.go, discord.go and ntfy.go. A sink builds one HTTP
  request or refuses the delivery, hands the request to its client, and makes an outcome of what comes back.
  The client is a function from a request to an error or a response. The JSON encoder, URL parsing, HMAC,
  date parsing, case-insensitive matching and MIME Q-encoding are fields of \<open>sink_lib\<close>.
\<close>

section \<open>Requests and responses\<close>

record sink_url = parsed_url +
  su_Path :: string
  su_RawQuery :: string
  su_RequestURI :: string
  su_Username :: string
  su_Password :: string
  su_String :: string

record http_request =
  hq_URL :: sink_url
  hq_Header :: "(string \<times> string) list"
  hq_Body :: string

record http_response =
  hp_StatusCode :: int
  hp_RetryAfter :: string
  hp_Body :: string

record webhook_body =
  wb_MessageID :: string
  wb_AppID :: string
  wb_Channel :: string
  wb_IdempotencyKey :: string
  wb_Critical :: bool
  wb_CreatedAt :: time
  wb_Payload :: string
  wb_Display :: "display option"

record discord_body =
  db_Content :: string
  db_AllowedMentions :: "string list"

record sink_lib =
  sl_url_parse :: "string \<Rightarrow> sink_url option"
  sl_request_url :: "string \<Rightarrow> sink_url option" \<comment> \<open>the URL of \<^verbatim>\<open>http.NewRequest\<close>\<close>
  sl_set_query :: "string \<Rightarrow> string \<Rightarrow> sink_url \<Rightarrow> sink_url"
  sl_marshal_webhook :: "webhook_body \<Rightarrow> string option"
  sl_marshal_discord :: "discord_body \<Rightarrow> string option"
  sl_rate_limit :: "string \<Rightarrow> float64 option option" \<comment> \<open>the field \<open>retry_after\<close>, where the body decodes\<close>
  sl_error_code :: "string \<Rightarrow> int option option"
  sl_hmac :: "string \<Rightarrow> string \<Rightarrow> string" \<comment> \<open>key, message\<close>
  sl_http_time :: "string \<Rightarrow> time option"
  sl_rfc3339 :: "string \<Rightarrow> time option"
  sl_fold_prefix :: "string \<Rightarrow> string \<Rightarrow> nat option" \<comment> \<open>length of a case-insensitive match at the front\<close>
  sl_q_encode :: "string \<Rightarrow> string"

type_synonym client = "http_request \<Rightarrow> net_error + http_response"

definition invalid_delivery :: "string \<Rightarrow> outcome" where
  "invalid_delivery text =
     \<lparr>oc_StatusCode = 0, oc_RetryAfter = None, oc_ResponseSnippet = [],
      oc_Err = Some (SinkError (''delivery cannot be built from this destination: '' @ text) [ErrInvalidDelivery]),
      oc_Gone = False\<rparr>"

definition request_failed :: "sink_error \<Rightarrow> outcome" where
  "request_failed err =
     \<lparr>oc_StatusCode = 0, oc_RetryAfter = None, oc_ResponseSnippet = [], oc_Err = Some err, oc_Gone = False\<rparr>"

definition userAgent :: string where "userAgent = ''4irl-delivery/1''"

section \<open>Text\<close>

text \<open>\<^verbatim>\<open>strings.ReplaceAll\<close> for a search text that is not empty, as in every call.\<close>

function ReplaceAll :: "string \<Rightarrow> string \<Rightarrow> string \<Rightarrow> string" where
  "ReplaceAll s old new =
     (if s = [] \<or> old = [] then s
      else if prefix old s then new @ ReplaceAll (drop (length old) s) old new
      else hd s # ReplaceAll (tl s) old new)"
  by pat_completeness auto
termination by (relation "measure (\<lambda>(s, old, new). length s)") auto

declare ReplaceAll.simps [simp del]

definition redactedMarker :: string where "redactedMarker = ''[redacted]''"

definition hostMarker :: string where "hostMarker = ''[host]''"

definition redactSnippet :: "string \<Rightarrow> string list \<Rightarrow> string" where
  "redactSnippet snippet needles = foldl (\<lambda>s needle. ReplaceAll s needle redactedMarker) snippet needles"

definition longest_first :: "string list \<Rightarrow> string list" where
  "longest_first needles = sort_key (\<lambda>n. - int (length n)) needles"

text \<open>
  \<^verbatim>\<open>ReplaceAllLiteralString\<close> with the case-insensitive pattern of a host name that is not empty: leftmost matches
  from the front. \<open>match\<close> gives the length of a match at the front of a text.
\<close>

function mask_matches :: "(string \<Rightarrow> nat option) \<Rightarrow> string \<Rightarrow> string" where
  "mask_matches match s =
     (if s = [] then []
      else case match s of
             Some n \<Rightarrow> hostMarker @ mask_matches match (drop (max 1 n) s)
           | None \<Rightarrow> hd s # mask_matches match (tl s))"
  by pat_completeness auto
termination by (relation "measure (\<lambda>(match, s). length s)") auto

declare mask_matches.simps [simp del]

lemma as_op_smaller: "as_op e = Some (operation, network, Some inner) \<Longrightarrow> size inner < size e"
  by (induction e rule: as_op.induct) auto

function addressFreeText :: "net_error \<Rightarrow> string" where
  "addressFreeText cause =
     (case as_op cause of
        Some (operation, network, inner) \<Rightarrow>
          (let text = (if network \<noteq> [] then operation @ '' '' @ network else operation)
           in case inner of None \<Rightarrow> text | Some e \<Rightarrow> text @ '': '' @ addressFreeText e)
      | None \<Rightarrow> (case as_dns cause of Some err \<Rightarrow> ''lookup failed: '' @ err | None \<Rightarrow> net_text cause))"
  by pat_completeness auto
termination by (relation "measure size") (auto dest: as_op_smaller)

declare addressFreeText.simps [simp del]

definition newRequestError :: "sink_lib \<Rightarrow> string \<Rightarrow> net_error \<Rightarrow> string \<Rightarrow> sink_error" where
  "newRequestError lib sinkName cause hostname =
     (let text = addressFreeText cause;
          masked = (if hostname \<noteq> [] then mask_matches (sl_fold_prefix lib hostname) text else text)
      in SinkError (sinkName @ '' request failed: '' @ masked) (net_chain cause))"

section \<open>Retry-After\<close>

definition maxRetryAfter :: duration where "maxRetryAfter = 24 * Hour"

datatype parsed_int = ParsedInt int | ErrSyntax | ErrRange

text \<open>\<^verbatim>\<open>strconv.ParseUint(s, 10, 64)\<close> reads digit by digit and reports the first problem it meets.\<close>

fun parse_uint :: "int \<Rightarrow> string \<Rightarrow> parsed_int" where
  "parse_uint acc [] = ParsedInt acc"
| "parse_uint acc (c # cs) =
     (if \<not> is_digit c then ErrSyntax
      else if acc \<ge> 1844674407370955162 then ErrRange
      else let n = acc * 10 + (of_char c - 48) in if n > 18446744073709551615 then ErrRange else parse_uint n cs)"

definition ParseInt :: "string \<Rightarrow> parsed_int" where
  "ParseInt s =
     (case signed_body s of (neg, body) \<Rightarrow>
        if body = [] then ErrSyntax
        else case parse_uint 0 body of
               ParsedInt n \<Rightarrow>
                 if \<not> neg \<and> n \<ge> 9223372036854775808 \<or> neg \<and> n > 9223372036854775808 then ErrRange
                 else ParsedInt (if neg then - n else n)
             | e \<Rightarrow> e)"

definition clampedSeconds :: "int \<Rightarrow> duration" where
  "clampedSeconds seconds =
     (if seconds \<le> 0 then 0 else if seconds > maxRetryAfter div Second then maxRetryAfter else seconds * Second)"

definition parseRetryAfter :: "sink_lib \<Rightarrow> string \<Rightarrow> time \<Rightarrow> duration option" where
  "parseRetryAfter lib header now =
     (let h = TrimSpace header
      in if h = [] then None
         else case ParseInt h of
                ParsedInt seconds \<Rightarrow> Some (clampedSeconds seconds)
              | ErrRange \<Rightarrow> Some (if prefix ''-'' h then 0 else maxRetryAfter)
              | ErrSyntax \<Rightarrow>
                  (case sl_http_time lib h of
                     None \<Rightarrow> None
                   | Some w \<Rightarrow> Some (min (max (time_sub w now) 0) maxRetryAfter)))"

section \<open>Webhook\<close>

definition nibble :: "nat \<Rightarrow> char" where
  "nibble n = (if n < 10 then char_of (48 + n) else char_of (87 + n))"

definition hex_encode :: "string \<Rightarrow> string" where
  "hex_encode bytes = concat (map (\<lambda>c. [nibble (byte_val c div 16), nibble (byte_val c mod 16)]) bytes)"

definition sign :: "sink_lib \<Rightarrow> string \<Rightarrow> string \<Rightarrow> string \<Rightarrow> string" where
  "sign lib secret timestamp body = ''v1='' @ hex_encode (sl_hmac lib secret (timestamp @ ''.'' @ body))"

definition previousSecretActive :: "sink_lib \<Rightarrow> resolved_destination \<Rightarrow> time \<Rightarrow> bool" where
  "previousSecretActive lib destination now \<longleftrightarrow>
     field (rd_Secrets destination) ''signing_secret_previous'' \<noteq> []
     \<and> (case sl_rfc3339 lib (field (rd_Config destination) ''previous_secret_expires_at'') of
          None \<Rightarrow> False | Some expiresAt \<Rightarrow> now < expiresAt)"

definition redactionNeedles :: "resolved_destination \<Rightarrow> sink_url \<Rightarrow> string list" where
  "redactionNeedles destination parsed =
     (let candidates =
        [field (rd_Secrets destination) ''url'', su_RequestURI parsed, su_RawQuery parsed,
         field (rd_Secrets destination) ''signing_secret'', field (rd_Secrets destination) ''signing_secret_previous'']
        @ (if length (su_Path parsed) > 1 then [su_Path parsed] else [])
        @ (if pu_HasUser parsed then [su_Username parsed, su_Password parsed] else [])
      in longest_first (filter (\<lambda>c. c \<noteq> [] \<and> c \<noteq> ''/'') candidates))"

definition signatures :: "sink_lib \<Rightarrow> resolved_destination \<Rightarrow> time \<Rightarrow> string \<Rightarrow> string \<Rightarrow> string list" where
  "signatures lib destination now timestamp body =
     sign lib (field (rd_Secrets destination) ''signing_secret'') timestamp body
     # (if previousSecretActive lib destination now
        then [sign lib (field (rd_Secrets destination) ''signing_secret_previous'') timestamp body] else [])"

text \<open>\<^verbatim>\<open>Time.Unix\<close>: times count from the zero time, the first of January of the year 1.\<close>

definition Unix :: "time \<Rightarrow> int" where
  "Unix t = t div Second - 62135596800"

definition webhook_request ::
    "sink_lib \<Rightarrow> time \<Rightarrow> resolved_destination \<Rightarrow> sink_request \<Rightarrow> outcome + http_request" where
  "webhook_request lib now destination request =
     (let secrets = rd_Secrets destination; e = rq_Envelope request
      in if field secrets ''signing_secret'' = [] \<or> field secrets ''url'' = []
         then Inl (invalid_delivery ''missing url or signing secret'')
         else if ValidateIdempotencyKey (rq_MessageID request) \<noteq> Inr ()
                 \<or> ValidateIdempotencyKey (en_IdempotencyKey e) \<noteq> Inr ()
         then Inl (invalid_delivery ''invalid message identifier'')
         else case sl_marshal_webhook lib
                     \<lparr>wb_MessageID = rq_MessageID request, wb_AppID = en_AppID e, wb_Channel = en_Channel e,
                      wb_IdempotencyKey = en_IdempotencyKey e, wb_Critical = en_Critical e,
                      wb_CreatedAt = rq_CreatedAt request, wb_Payload = en_Payload e, wb_Display = en_Display e\<rparr> of
                None \<Rightarrow> Inl (invalid_delivery ''encode body'')
              | Some body \<Rightarrow>
                  (let timestamp = dec_int (Unix now)
                   in case sl_request_url lib (field secrets ''url'') of
                        None \<Rightarrow> Inl (invalid_delivery ''invalid request URL'')
                      | Some url \<Rightarrow>
                          Inr \<lparr>hq_URL = url,
                               hq_Header =
                                 [(''Content-Type'', ''application/json''), (''User-Agent'', userAgent),
                                  (''X-Delivery-Message-Id'', rq_MessageID request),
                                  (''X-Delivery-Idempotency-Key'', en_IdempotencyKey e),
                                  (''X-Delivery-Timestamp'', timestamp),
                                  (''X-Delivery-Signature'', join_with '','' (signatures lib destination now timestamp body))],
                               hq_Body = body\<rparr>))"

definition webhook_Deliver :: "sink_lib \<Rightarrow> client \<Rightarrow> time \<Rightarrow> resolved_destination \<Rightarrow> sink_request \<Rightarrow> outcome" where
  "webhook_Deliver lib Do now destination request =
     (case webhook_request lib now destination request of
        Inl refused \<Rightarrow> refused
      | Inr r \<Rightarrow>
          (case Do r of
             Inl e \<Rightarrow> request_failed (newRequestError lib ''webhook'' (Cause e) (pu_Hostname (hq_URL r)))
           | Inr response \<Rightarrow>
               \<lparr>oc_StatusCode = hp_StatusCode response,
                oc_RetryAfter = parseRetryAfter lib (hp_RetryAfter response) now,
                oc_ResponseSnippet =
                  redactSnippet (ReadSnippet (hp_Body response)) (redactionNeedles destination (hq_URL r)),
                oc_Err = None,
                oc_Gone = False\<rparr>))"

section \<open>Discord\<close>

definition discordMaxContentRunes :: nat where "discordMaxContentRunes = 2000"

text \<open>U+2026 in UTF-8.\<close>

definition discordTruncationMarker :: string where
  "discordTruncationMarker = [char_of (226::nat), char_of (128::nat), char_of (166::nat)]"

definition discordContent :: "display option \<Rightarrow> string" where
  "discordContent d =
     (if \<not> HasRenderableText d then []
      else case d of None \<Rightarrow> []
           | Some x \<Rightarrow>
               join_with [char_of (10::nat)]
                 ((if \<not> blank (dp_Title x) then [''**'' @ dp_Title x @ ''**''] else [])
                  @ (if \<not> blank (dp_Body x) then [dp_Body x] else [])
                  @ (if dp_URL x \<noteq> [] then [dp_URL x] else [])))"

text \<open>The first runes of a text, each encoded again: an invalid byte is the replacement rune.\<close>

function runes_again :: "nat \<Rightarrow> string \<Rightarrow> string" where
  "runes_again limit s =
     (if s = [] \<or> limit = 0 then []
      else (if decode_width s = None then replacement else take (rune_width s) s)
           @ runes_again (limit - 1) (drop (rune_width s) s))"
  by pat_completeness auto
termination by (relation "measure fst") auto

declare runes_again.simps [simp del]

definition discord_truncateRunes :: "string \<Rightarrow> nat \<Rightarrow> string" where
  "discord_truncateRunes text limit =
     (if rune_count text \<le> limit then text else runes_again (limit - 1) text @ discordTruncationMarker)"

definition discordWebhookIsGone :: "sink_lib \<Rightarrow> int \<Rightarrow> string \<Rightarrow> bool" where
  "discordWebhookIsGone lib statusCode responseBody =
     (if statusCode = 401 then True
      else if statusCode = 404 then sl_error_code lib responseBody = Some (Some 10015)
      else False)"

definition discordRetryAfter :: "sink_lib \<Rightarrow> string \<Rightarrow> string \<Rightarrow> time \<Rightarrow> duration option" where
  "discordRetryAfter lib responseBody retryAfterHeader now =
     (case sl_rate_limit lib responseBody of
        Some (Some NaN) \<Rightarrow> Some 0
      | Some (Some NegInf) \<Rightarrow> Some 0
      | Some (Some PosInf) \<Rightarrow> Some maxRetryAfter
      | Some (Some (Fin seconds)) \<Rightarrow>
          if seconds \<le> 0 then Some 0
          else if seconds \<ge> 86400 then Some maxRetryAfter
          else Some \<lfloor>round53 (seconds * of_int Second)\<rfloor>
      | _ \<Rightarrow> parseRetryAfter lib retryAfterHeader now)"

text \<open>\<^verbatim>\<open>path.Base\<close>.\<close>

definition path_Base :: "string \<Rightarrow> string" where
  "path_Base p =
     (if p = [] then ''.''
      else let trimmed = dropWhile (\<lambda>c. c = CHR ''/'') (rev p); base = rev (takeWhile (\<lambda>c. c \<noteq> CHR ''/'') trimmed)
           in if base = [] then ''/'' else base)"

definition discordRedactionNeedles :: "string \<Rightarrow> sink_url \<Rightarrow> string list" where
  "discordRedactionNeedles webhookURL sent =
     longest_first (filter (\<lambda>c. c \<noteq> [] \<and> c \<noteq> ''/'' \<and> c \<noteq> ''.'')
       [webhookURL, su_String sent, su_RequestURI sent, su_Path sent, path_Base (su_Path sent), pu_Host sent,
        pu_Hostname sent])"

text \<open>The request, with the target URL that carries \<^verbatim>\<open>wait=true\<close>.\<close>

definition discord_request ::
    "sink_lib \<Rightarrow> resolved_destination \<Rightarrow> sink_request \<Rightarrow> outcome + sink_url \<times> http_request" where
  "discord_request lib destination request =
     (let webhookURL = field (rd_Secrets destination) ''webhook_url''
      in case (if webhookURL = [] then None else sl_url_parse lib webhookURL) of
           None \<Rightarrow> Inl (invalid_delivery ''missing or invalid webhook url'')
         | Some parsed \<Rightarrow>
             if pu_Host parsed = [] then Inl (invalid_delivery ''missing or invalid webhook url'')
             else
               let target = sl_set_query lib ''wait'' ''true'' parsed; content = discordContent (en_Display (rq_Envelope request))
               in if content = [] then Inl (invalid_delivery ''display has neither title nor body'')
                  else case sl_marshal_discord lib
                              \<lparr>db_Content = discord_truncateRunes content discordMaxContentRunes, db_AllowedMentions = []\<rparr> of
                         None \<Rightarrow> Inl (invalid_delivery ''encode body'')
                       | Some body \<Rightarrow>
                           (case sl_request_url lib (su_String target) of
                              None \<Rightarrow> Inl (invalid_delivery ''invalid request URL'')
                            | Some url \<Rightarrow>
                                Inr (target, \<lparr>hq_URL = url,
                                     hq_Header = [(''Content-Type'', ''application/json''), (''User-Agent'', userAgent)],
                                     hq_Body = body\<rparr>)))"

definition discord_Deliver :: "sink_lib \<Rightarrow> client \<Rightarrow> time \<Rightarrow> resolved_destination \<Rightarrow> sink_request \<Rightarrow> outcome" where
  "discord_Deliver lib Do now destination request =
     (case discord_request lib destination request of
        Inl refused \<Rightarrow> refused
      | Inr (target, r) \<Rightarrow>
          (case Do r of
             Inl e \<Rightarrow> request_failed (newRequestError lib ''discord'' (Cause e) (pu_Hostname target))
           | Inr response \<Rightarrow>
               let snippet = ReadSnippet (hp_Body response)
               in \<lparr>oc_StatusCode = hp_StatusCode response,
                   oc_RetryAfter =
                     (if hp_StatusCode response = 429 then discordRetryAfter lib snippet (hp_RetryAfter response) now else None),
                   oc_ResponseSnippet =
                     redactSnippet snippet (discordRedactionNeedles (field (rd_Secrets destination) ''webhook_url'') target),
                   oc_Err = None,
                   oc_Gone = discordWebhookIsGone lib (hp_StatusCode response) snippet\<rparr>))"

section \<open>ntfy\<close>

definition encodeHeaderValue :: "sink_lib \<Rightarrow> string \<Rightarrow> string" where
  "encodeHeaderValue lib value = (if list_ex (\<lambda>c. 128 \<le> byte_val c) value then sl_q_encode lib value else value)"

definition line_break :: "char \<Rightarrow> bool" where
  "line_break c \<longleftrightarrow> byte_val c = 13 \<or> byte_val c = 10"

definition containsLineBreak :: "string list \<Rightarrow> bool" where
  "containsLineBreak values \<longleftrightarrow> list_ex (list_ex line_break) values"

definition setNtfyHeaders :: "sink_lib \<Rightarrow> display \<Rightarrow> string \<Rightarrow> (string \<times> string) list" where
  "setNtfyHeaders lib x accessToken =
     (if \<not> blank (dp_Title x) \<and> \<not> blank (dp_Body x) then [(''Title'', encodeHeaderValue lib (dp_Title x))] else [])
     @ (if dp_Priority x \<noteq> [] then [(''Priority'', dp_Priority x)] else [])
     @ (if dp_URL x \<noteq> [] then [(''Click'', dp_URL x)] else [])
     @ (if accessToken \<noteq> [] then [(''Authorization'', ''Bearer '' @ accessToken)] else [])"

record ntfy_sink =
  ns_baseURL :: string
  ns_timeout :: duration

definition NewNtfySink :: "string \<Rightarrow> duration \<Rightarrow> ntfy_sink" where
  "NewNtfySink baseURL timeout =
     \<lparr>ns_baseURL = (if baseURL \<noteq> [] \<and> last baseURL = CHR ''/'' then butlast baseURL else baseURL),
      ns_timeout = (if timeout = 0 then 5 * Second else timeout)\<rparr>"

definition Configured :: "ntfy_sink \<Rightarrow> bool" where
  "Configured s \<longleftrightarrow> ns_baseURL s \<noteq> []"

definition ntfy_request :: "sink_lib \<Rightarrow> ntfy_sink \<Rightarrow> resolved_destination \<Rightarrow> sink_request \<Rightarrow> outcome + http_request" where
  "ntfy_request lib s destination request =
     (let topic = field (rd_Config destination) ''topic''; accessToken = field (rd_Secrets destination) ''access_token''
      in if \<not> ntfy_topic_pattern topic then Inl (invalid_delivery ''missing or invalid topic'')
         else case en_Display (rq_Envelope request) of
                None \<Rightarrow> Inl (invalid_delivery ''display has neither title nor body'')
              | Some x \<Rightarrow>
                  if \<not> HasRenderableText (Some x) then Inl (invalid_delivery ''display has neither title nor body'')
                  else if containsLineBreak [dp_Title x, dp_Priority x, dp_URL x, accessToken]
                  then Inl (invalid_delivery ''header value contains a line break'')
                  else case sl_request_url lib (ns_baseURL s @ ''/'' @ topic) of
                         None \<Rightarrow> Inl (invalid_delivery ''invalid request URL'')
                       | Some url \<Rightarrow>
                           Inr \<lparr>hq_URL = url, hq_Header = (''User-Agent'', userAgent) # setNtfyHeaders lib x accessToken,
                                hq_Body = (if blank (dp_Body x) then dp_Title x else dp_Body x)\<rparr>)"

definition ntfy_Deliver ::
    "sink_lib \<Rightarrow> client \<Rightarrow> ntfy_sink \<Rightarrow> time \<Rightarrow> resolved_destination \<Rightarrow> sink_request \<Rightarrow> outcome" where
  "ntfy_Deliver lib Do s now destination request =
     (case ntfy_request lib s destination request of
        Inl refused \<Rightarrow> refused
      | Inr r \<Rightarrow>
          (case Do r of
             Inl e \<Rightarrow> request_failed (newRequestError lib ''ntfy'' (Cause e) [])
           | Inr response \<Rightarrow>
               let accessToken = field (rd_Secrets destination) ''access_token''; snippet = ReadSnippet (hp_Body response)
               in \<lparr>oc_StatusCode = hp_StatusCode response,
                   oc_RetryAfter =
                     (if hp_StatusCode response = 429 then parseRetryAfter lib (hp_RetryAfter response) now else None),
                   oc_ResponseSnippet = (if accessToken \<noteq> [] then redactSnippet snippet [accessToken] else snippet),
                   oc_Err = None,
                   oc_Gone = False\<rparr>))"

section \<open>Wiring\<close>

text \<open>
  \<^verbatim>\<open>buildSinks\<close> of main.go for one attempt at \<open>now\<close>: the sink of each type and the types that messages may
  be sent to.
\<close>

definition buildSinks ::
    "sink_lib \<Rightarrow> client \<Rightarrow> client \<Rightarrow> string \<Rightarrow> time \<Rightarrow> (dest_type \<Rightarrow> sink option) \<times> (dest_type \<Rightarrow> bool)" where
  "buildSinks lib guarded plain ntfyURL now =
     (let ntfy = NewNtfySink ntfyURL 0;
          sinks = (\<lambda>t. case t of
            TypeWebhook \<Rightarrow> Some (\<lambda>d q. Some (webhook_Deliver lib guarded now d q))
          | TypeDiscord \<Rightarrow> Some (\<lambda>d q. Some (discord_Deliver lib guarded now d q))
          | TypeNtfy \<Rightarrow> if Configured ntfy then Some (\<lambda>d q. Some (ntfy_Deliver lib plain ntfy now d q)) else None
          | OtherType _ \<Rightarrow> None)
      in (sinks, \<lambda>t. sinks t \<noteq> None))"

text \<open>
  An exchange of the client of \<^verbatim>\<open>transport.New\<close>: the scheme is checked, then \<^verbatim>\<open>net/http\<close> calls the control hook on
  the resolved address before it connects, and only then talks to the other side (\<open>exchange\<close>); an error
  comes back in a \<^verbatim>\<open>*url.Error\<close>.
\<close>

definition guarded_Do :: "http_client \<Rightarrow> (http_request \<Rightarrow> string) \<Rightarrow> client \<Rightarrow> client" where
  "guarded_Do c dialled exchange r =
     (case RoundTrip
             (case hc_Control c (dialled r) of
                Some sentinel \<Rightarrow> Inl (NetOp ''dial'' ''tcp'' (Some (NetPlain ''destination address is not allowed'' [sentinel])) [])
              | None \<Rightarrow> exchange r)
             (pu_Scheme (hq_URL r)) of
        Inl e \<Rightarrow> Inl (NetUrl (su_String (hq_URL r)) e)
      | Inr response \<Rightarrow> Inr response)"

end
