(* ===== verification/Sink_Laws.thy ===== *)
theory Sink_Laws
  imports Sinks Seal "HOL-Library.Sublist"
begin

text \<open>
  What the sinks promise: the contract of \<^verbatim>\<open>sink.go\<close> as the locale \<open>sink_contract\<close> with the three sinks as its
  interpretations, redaction, the bounds of a Retry-After and of a Discord message, and the wiring of the
  sinks in main.go around the guarded client.
\<close>

section \<open>Redaction\<close>

text \<open>A text without brackets that occurs after a replacement occurred before it, or inside the marker.\<close>

lemma sublist_marker:
  assumes "sublist n (a @ CHR ''['' # b @ CHR '']'' # c)" "CHR ''['' \<notin> set n" "CHR '']'' \<notin> set n"
  shows "sublist n a \<or> sublist n b \<or> sublist n c"
proof -
  have split: "sublist n (x @ k # y) \<Longrightarrow> k \<notin> set n \<Longrightarrow> sublist n x \<or> sublist n y" for x y and k :: char
  proof -
    assume "sublist n (x @ k # y)" "k \<notin> set n"
    then consider "sublist n x" | "sublist n (k # y)" | (both) u v where "n = u @ v" "suffix u x" "prefix v (k # y)"
      by (auto simp: sublist_append)
    then show ?thesis
    proof cases
      case both
      then have "v = []" using \<open>k \<notin> set n\<close> by (cases v) auto
      with both show ?thesis by (simp add: suffix_imp_sublist)
    next
      case 2
      then show ?thesis using \<open>k \<notin> set n\<close> by (cases n) (auto simp: sublist_Cons_right prefix_Cons)
    qed auto
  qed
  from split [OF assms(1) assms(2)] show ?thesis using split [of b "CHR '']''" c] assms(3) by blast
qed

lemma ReplaceAll_sublist:
  assumes "sublist n (ReplaceAll s old redactedMarker)" "CHR ''['' \<notin> set n" "CHR '']'' \<notin> set n" "8 < length n"
  shows "sublist n s"
proof -
  have inside: "\<not> sublist n ''redacted''" using assms(4) sublist_length_le by fastforce
  have "sublist n (p @ ReplaceAll s old redactedMarker) \<Longrightarrow> sublist n (p @ s)" for p
  proof (induction s old redactedMarker arbitrary: p rule: ReplaceAll.induct)
    case (1 s old)
    consider "s = [] \<or> old = []" | (hit) "s \<noteq> []" "old \<noteq> []" "prefix old s" | (skip) "s \<noteq> []" "old \<noteq> []" "\<not> prefix old s"
      by blast
    then show ?case
    proof cases
      case 1
      with \<open>sublist n (p @ ReplaceAll s old redactedMarker)\<close> show ?thesis by (simp add: ReplaceAll.simps)
    next
      case hit
      let ?rest = "ReplaceAll (drop (length old) s) old redactedMarker"
      have s: "s = old @ drop (length old) s" using hit(3) by (auto simp: prefix_def)
      have "sublist n (p @ redactedMarker @ ?rest)"
        using "1.prems" hit by (simp add: ReplaceAll.simps [of s])
      then have "sublist n (p @ CHR ''['' # ''redacted'' @ CHR '']'' # ?rest)" by (simp add: redactedMarker_def)
      then consider "sublist n p" | "sublist n ?rest"
        using sublist_marker assms(2,3) inside by blast
      then show ?thesis
      proof cases
        case 2
        then have "sublist n (drop (length old) s)" using "1.hyps"(1) [of "[]"] hit by simp
        then have "sublist n s" by (meson sublist_drop sublist_order.order_trans)
        then show ?thesis by (meson sublist_appendI sublist_order.order_trans suffixI suffix_imp_sublist)
      qed (meson prefixI prefix_imp_sublist sublist_order.order_trans)
    next
      case skip
      have "sublist n ((p @ [hd s]) @ ReplaceAll (tl s) old redactedMarker)"
        using "1.prems" skip by (simp add: ReplaceAll.simps [of s])
      from "1.hyps"(2) [OF _ _ this] skip show ?thesis by simp
    qed
  qed
  from this [of "[]"] assms(1) show ?thesis by simp
qed

text \<open>The search text itself does not occur after its own replacement.\<close>

lemma ReplaceAll_prefix:
  assumes "prefix m (ReplaceAll s n redactedMarker)" "CHR ''['' \<notin> set m"
  shows "prefix m s"
  using assms
proof (induction s n redactedMarker arbitrary: m rule: ReplaceAll.induct)
  case (1 s n)
  show ?case
  proof (cases "s = [] \<or> n = []")
    case True
    with 1(3) show ?thesis by (simp add: ReplaceAll.simps)
  next
    case False
    show ?thesis
    proof (cases "prefix n s")
      case True
      with 1(3,4) False have "m = []"
        by (cases m) (auto simp: ReplaceAll.simps [of s] redactedMarker_def)
      then show ?thesis by simp
    next
      case skip: False
      with 1(3) False have p: "prefix m (hd s # ReplaceAll (tl s) n redactedMarker)" by (simp add: ReplaceAll.simps [of s])
      show ?thesis
      proof (cases m)
        case (Cons c m')
        with p 1(4) 1(2) [of m'] False skip show ?thesis by (cases s) auto
      qed simp
    qed
  qed
qed

lemma ReplaceAll_gone:
  assumes "CHR ''['' \<notin> set n" "CHR '']'' \<notin> set n" "8 < length n"
  shows "\<not> sublist n (ReplaceAll s n redactedMarker)"
  using assms
proof (induction s n redactedMarker rule: ReplaceAll.induct)
  case (1 s n)
  have inside: "\<not> sublist n ''redacted''" using 1(5) sublist_length_le by fastforce
  show ?case
  proof (cases "s = [] \<or> n = []")
    case True
    with 1(5) show ?thesis by (auto simp: ReplaceAll.simps)
  next
    case ne: False
    show ?thesis
    proof (cases "prefix n s")
      case True
      let ?rest = "ReplaceAll (drop (length n) s) n redactedMarker"
      have "\<not> sublist n ([] @ CHR ''['' # ''redacted'' @ CHR '']'' # ?rest)"
        using sublist_marker [of n "[]" "''redacted''" ?rest] inside 1 ne True by (auto simp: Cons_eq_append_conv)
      with ne True show ?thesis by (simp add: ReplaceAll.simps [of s] redactedMarker_def)
    next
      case skip: False
      let ?rest = "ReplaceAll (tl s) n redactedMarker"
      have "\<not> prefix n (hd s # ?rest)"
      proof
        assume p: "prefix n (hd s # ?rest)"
        then obtain m where m: "n = hd s # m" "prefix m ?rest" using ne by (cases n) auto
        then have "prefix m (tl s)" using ReplaceAll_prefix 1(3) by auto
        with m(1) ne skip show False by (cases s) auto
      qed
      moreover have "\<not> sublist n ?rest" using 1 ne skip by blast
      ultimately show ?thesis using ne skip by (simp add: ReplaceAll.simps [of s] sublist_Cons_right)
    qed
  qed
qed

lemma redactSnippet_gone:
  assumes "n \<in> set needles" "CHR ''['' \<notin> set n" "CHR '']'' \<notin> set n" "8 < length n"
  shows "\<not> sublist n (redactSnippet snippet needles)"
proof -
  have kept: "sublist n (foldl (\<lambda>s needle. ReplaceAll s needle redactedMarker) s ns) \<Longrightarrow> sublist n s" for s ns
    by (induction ns arbitrary: s) (auto dest: ReplaceAll_sublist [OF _ assms(2-4)])
  obtain xs ys where ns: "needles = xs @ n # ys" using split_list [OF assms(1)] by blast
  show ?thesis
    using kept [of "ReplaceAll (foldl (\<lambda>s needle. ReplaceAll s needle redactedMarker) snippet xs) n redactedMarker" ys]
      ReplaceAll_gone [OF assms(2-4)]
    by (auto simp: redactSnippet_def ns)
qed

section \<open>Retry-After\<close>

definition wait_ok :: "duration option \<Rightarrow> bool" where
  "wait_ok wait = (case wait of None \<Rightarrow> True | Some d \<Rightarrow> 0 \<le> d \<and> d \<le> 24 * Hour)"

lemma parseRetryAfter_ok: "wait_ok (parseRetryAfter lib header now)"
  by (auto simp: wait_ok_def parseRetryAfter_def clampedSeconds_def maxRetryAfter_def Let_def
      split: option.splits parsed_int.splits if_splits)

lemma discordRetryAfter_ok: "wait_ok (discordRetryAfter lib body header now)"
proof -
  have fin: "0 \<le> \<lfloor>round53 (seconds * of_int Second)\<rfloor> \<and> \<lfloor>round53 (seconds * of_int Second)\<rfloor> \<le> 24 * Hour"
    if "0 < seconds" "seconds < 86400" for seconds
  proof -
    have "seconds * of_int Second \<le> of_int (24 * Hour)" using that by simp
    then have "round53 (seconds * of_int Second) \<le> of_int (24 * Hour)"
      using round53_le_int [of "seconds * of_int Second" "24 * Hour"] that by simp
    then show ?thesis using round53_nonneg [of "seconds * of_int Second"] that by (simp add: floor_le_iff)
  qed
  show ?thesis
    using fin parseRetryAfter_ok [of lib header now]
    by (auto simp: discordRetryAfter_def wait_ok_def maxRetryAfter_def split: option.splits float64.splits)
qed

section \<open>The contract of a sink\<close>

text \<open>
  A sink refuses a delivery for good or builds one request; it hands only that request to the client, keeps the
  sentinels of its error, and reports its status and a bounded wait.
\<close>

locale sink_contract =
  fixes build :: "time \<Rightarrow> resolved_destination \<Rightarrow> sink_request \<Rightarrow> outcome + http_request"
    and Deliver :: "client \<Rightarrow> time \<Rightarrow> resolved_destination \<Rightarrow> sink_request \<Rightarrow> outcome"
  assumes refused: "build now d q = Inl o' \<Longrightarrow> Deliver Do now d q = o' \<and> (\<exists>text. o' = invalid_delivery text)"
    and failed: "build now d q = Inr r \<Longrightarrow> Do r = Inl e \<Longrightarrow>
      \<exists>text. Deliver Do now d q = request_failed (SinkError text (net_chain e))"
    and answered: "build now d q = Inr r \<Longrightarrow> Do r = Inr response \<Longrightarrow>
      oc_Err (Deliver Do now d q) = None \<and> oc_StatusCode (Deliver Do now d q) = hp_StatusCode response
      \<and> wait_ok (oc_RetryAfter (Deliver Do now d q))"
    and one_request: "build now d q = Inr r \<Longrightarrow> Do r = Do' r \<Longrightarrow> Deliver Do now d q = Deliver Do' now d q"
begin

lemma outcome_cases:
  obtains msg where "build now d q = Inl (invalid_delivery msg)" "Deliver Do now d q = invalid_delivery msg"
  | r e msg where "build now d q = Inr r" "Do r = Inl e" "Deliver Do now d q = request_failed (SinkError msg (net_chain e))"
  | r response where "build now d q = Inr r" "Do r = Inr response" "oc_Err (Deliver Do now d q) = None"
      "oc_StatusCode (Deliver Do now d q) = hp_StatusCode response" "wait_ok (oc_RetryAfter (Deliver Do now d q))"
proof (cases "build now d q")
  case (Inl o')
  then show thesis using refused [OF Inl, of Do] that(1) by auto
next
  case (Inr r)
  show thesis
  proof (cases "Do r")
    case (Inl e)
    then show thesis using failed [where Do = Do, OF Inr Inl] that(2) Inr by blast
  next
    case (Inr response)
    then show thesis using answered [where Do = Do, OF \<open>build now d q = Inr r\<close> Inr] that(3) \<open>build now d q = Inr r\<close> by blast
  qed
qed

lemma wait_bounded: "wait_ok (oc_RetryAfter (Deliver Do now d q))"
  by (cases rule: outcome_cases [of now d q Do]) (auto simp: wait_ok_def invalid_delivery_def request_failed_def)

lemma blocked_exact:
  "Classify (Deliver Do now d q) = OutcomeBlocked \<longleftrightarrow>
     (\<exists>r e. build now d q = Inr r \<and> Do r = Inl e \<and> (ErrBlockedAddress \<in> set (net_chain e) \<or> ErrNotHTTPS \<in> set (net_chain e)))"
  by (cases rule: outcome_cases [of now d q Do])
    (auto simp: Classify_def IsBlocked_def invalid_delivery_def request_failed_def Let_def)

text \<open>A request that the guard refuses is blocked, and nothing that the other side would answer matters.\<close>

lemma guard_refuses:
  assumes "build now d q = Inr r" "pu_Scheme (hq_URL r) \<noteq> ''https'' \<or> hc_Control c (dialled r) \<noteq> None"
    and "\<forall>address s. hc_Control c address = Some s \<longrightarrow> s = ErrBlockedAddress"
  shows "Classify (Deliver (guarded_Do c dialled exchange) now d q) = OutcomeBlocked"
    and "Deliver (guarded_Do c dialled exchange) now d q = Deliver (guarded_Do c dialled exchange') now d q"
proof -
  have same: "guarded_Do c dialled exchange r = guarded_Do c dialled exchange' r"
    using assms(2) by (auto simp: guarded_Do_def RoundTrip_def split: option.splits)
  then show "Deliver (guarded_Do c dialled exchange) now d q = Deliver (guarded_Do c dialled exchange') now d q"
    by (rule one_request [OF assms(1)])
  have "\<exists>e. guarded_Do c dialled exchange r = Inl e \<and> (ErrBlockedAddress \<in> set (net_chain e) \<or> ErrNotHTTPS \<in> set (net_chain e))"
    using assms(2,3) by (auto simp: guarded_Do_def RoundTrip_def split: option.splits)
  then show "Classify (Deliver (guarded_Do c dialled exchange) now d q) = OutcomeBlocked"
    unfolding blocked_exact using assms(1) by blast
qed

end

lemma webhook_request_refused: "webhook_request lib now d q = Inl o' \<Longrightarrow> \<exists>text. o' = invalid_delivery text"
  by (auto simp: webhook_request_def Let_def split: if_splits option.splits)

lemma discord_request_refused: "discord_request lib d q = Inl o' \<Longrightarrow> \<exists>text. o' = invalid_delivery text"
  by (auto simp: discord_request_def Let_def split: if_splits option.splits)

lemma ntfy_request_refused: "ntfy_request lib s d q = Inl o' \<Longrightarrow> \<exists>text. o' = invalid_delivery text"
  by (auto simp: ntfy_request_def Let_def split: if_splits option.splits)

interpretation webhook: sink_contract "webhook_request lib" "webhook_Deliver lib" for lib
proof
  show "webhook_Deliver lib Do now d q = o' \<and> (\<exists>text. o' = invalid_delivery text)"
    if "webhook_request lib now d q = Inl o'" for now d q o' Do
    using that webhook_request_refused by (auto simp: webhook_Deliver_def)
  show "\<exists>text. webhook_Deliver lib Do now d q = request_failed (SinkError text (net_chain e))"
    if "webhook_request lib now d q = Inr r" "Do r = Inl e" for now d q r Do e
    using that by (auto simp: webhook_Deliver_def newRequestError_def Let_def)
qed (simp_all add: webhook_Deliver_def parseRetryAfter_ok)

interpretation discord: sink_contract "\<lambda>now d q. map_sum id snd (discord_request lib d q)" "discord_Deliver lib" for lib
proof
  show "discord_Deliver lib Do now d q = o' \<and> (\<exists>text. o' = invalid_delivery text)"
    if "map_sum id snd (discord_request lib d q) = Inl o'" for now d q o' Do
    using that discord_request_refused by (cases "discord_request lib d q") (auto simp: discord_Deliver_def)
  show "\<exists>text. discord_Deliver lib Do now d q = request_failed (SinkError text (net_chain e))"
    if "map_sum id snd (discord_request lib d q) = Inr r" "Do r = Inl e" for now d q r Do e
    using that by (cases "discord_request lib d q") (auto simp: discord_Deliver_def newRequestError_def Let_def)
  show "oc_Err (discord_Deliver lib Do now d q) = None \<and> oc_StatusCode (discord_Deliver lib Do now d q) = hp_StatusCode response
      \<and> wait_ok (oc_RetryAfter (discord_Deliver lib Do now d q))"
    if "map_sum id snd (discord_request lib d q) = Inr r" "Do r = Inr response" for now d q r Do response
    using that discordRetryAfter_ok
    by (cases "discord_request lib d q") (auto simp: discord_Deliver_def Let_def wait_ok_def)
  show "discord_Deliver lib Do now d q = discord_Deliver lib Do' now d q"
    if "map_sum id snd (discord_request lib d q) = Inr r" "Do r = Do' r" for now d q r Do Do'
    using that by (cases "discord_request lib d q") (auto simp: discord_Deliver_def)
qed

interpretation ntfy: sink_contract "\<lambda>now. ntfy_request lib s" "\<lambda>Do. ntfy_Deliver lib Do s" for lib s
proof
  show "ntfy_Deliver lib Do s now d q = o' \<and> (\<exists>text. o' = invalid_delivery text)"
    if "ntfy_request lib s d q = Inl o'" for now d q o' Do
    using that ntfy_request_refused by (auto simp: ntfy_Deliver_def)
  show "\<exists>text. ntfy_Deliver lib Do s now d q = request_failed (SinkError text (net_chain e))"
    if "ntfy_request lib s d q = Inr r" "Do r = Inl e" for now d q r Do e
    using that by (auto simp: ntfy_Deliver_def newRequestError_def Let_def)
  show "oc_Err (ntfy_Deliver lib Do s now d q) = None \<and> oc_StatusCode (ntfy_Deliver lib Do s now d q) = hp_StatusCode response
      \<and> wait_ok (oc_RetryAfter (ntfy_Deliver lib Do s now d q))"
    if "ntfy_request lib s d q = Inr r" "Do r = Inr response" for now d q r Do response
    using that parseRetryAfter_ok by (auto simp: ntfy_Deliver_def Let_def wait_ok_def)
qed (simp add: ntfy_Deliver_def)

section \<open>Discord content\<close>

lemma runes_again_count: "rune_count (runes_again k s @ t) = min k (rune_count s) + rune_count t"
proof (induction k s rule: runes_again.induct)
  case (1 k s)
  show ?case
  proof (cases "s = [] \<or> k = 0")
    case True
    then show ?thesis by (auto simp: runes_again.simps)
  next
    case False
    let ?rest = "runes_again (k - 1) (drop (rune_width s) s)"
    have "rune_count ((if decode_width s = None then replacement else take (rune_width s) s) @ ?rest @ t) = Suc (rune_count (?rest @ t))"
    proof (cases "decode_width s")
      case None
      then show ?thesis
        using rune_count_rune [of replacement 3] by (simp add: replacement_def decode_width.simps(2) in_bytes_def is_cont_def)
    next
      case (Some w)
      then show ?thesis using rune_count_rune [OF Some] by (simp add: rune_width_def)
    qed
    moreover have "rune_count (runes_again k s @ t) =
        rune_count ((if decode_width s = None then replacement else take (rune_width s) s) @ ?rest @ t)"
      using False by (simp add: runes_again.simps [of k s])
    moreover have "rune_count s = Suc (rune_count (drop (rune_width s) s))" using False by (simp add: rune_count.simps [of s])
    moreover have "rune_count (?rest @ t) = min (k - 1) (rune_count (drop (rune_width s) s)) + rune_count t"
      using 1 False by simp
    ultimately show ?thesis using False by linarith
  qed
qed

lemma marker_count: "rune_count discordTruncationMarker = 1"
  using rune_count_rune [of discordTruncationMarker 3 "[]"]
  by (simp add: discordTruncationMarker_def decode_width.simps(2) in_bytes_def is_cont_def)

lemma discord_truncateRunes_fits: "0 < limit \<Longrightarrow> rune_count (discord_truncateRunes text limit) = min limit (rune_count text)"
  by (auto simp: discord_truncateRunes_def runes_again_count marker_count)

section \<open>Signatures\<close>

lemma nibble_hex: "n < 16 \<Longrightarrow> hex_value (nibble n) = Some n"
  by (auto simp: nibble_def hex_value_def is_digit_def less_eq_char_def)

lemma hex_decode_encode: "hex_decode (hex_encode bytes) = Some bytes"
proof (induction bytes)
  case (Cons c bytes)
  have "byte_val c div 16 < 16" using nat_of_char_less_256 [of c] by (simp add: less_mult_imp_div_less)
  then have "hex_decode (hex_encode (c # bytes)) = Some (char_of (16 * (byte_val c div 16) + byte_val c mod 16) # bytes)"
    using Cons by (simp add: hex_encode_def nibble_hex)
  then show ?case by (simp add: mult.commute)
qed (simp add: hex_encode_def)

lemma hex_encode_inj: "hex_encode a = hex_encode b \<longleftrightarrow> a = b"
  by (metis hex_decode_encode option.inject)

lemma nibble_chars: "n < 16 \<Longrightarrow> is_digit (nibble n) \<or> is_lower (nibble n)"
  by (auto simp: nibble_def is_digit_def is_lower_def less_eq_char_def)

text \<open>Header values: printable ASCII without spaces, which has no line break.\<close>

definition printable :: "string \<Rightarrow> bool" where
  "printable s \<longleftrightarrow> list_all (\<lambda>c. 33 \<le> byte_val c \<and> byte_val c \<le> 126) s"

lemma plain_no_break: "printable s \<Longrightarrow> \<not> list_ex line_break s"
  by (auto simp: printable_def line_break_def list_all_iff list_ex_iff)

lemma plain_digits: "list_all (\<lambda>c. is_digit c \<or> is_lower c) s \<Longrightarrow> printable s"
  by (auto simp: printable_def list_all_iff is_digit_def is_lower_def less_eq_char_def)

lemma hex_encode_chars: "list_all (\<lambda>c. is_digit c \<or> is_lower c) (hex_encode bytes)"
proof -
  have "byte_val c div 16 < 16" for c using nat_of_char_less_256 [of c] by (simp add: less_mult_imp_div_less)
  then show ?thesis by (auto simp: hex_encode_def list_all_iff nibble_chars)
qed

lemma sign_plain: "printable (sign lib secret timestamp body)"
  using plain_digits [OF hex_encode_chars] by (simp add: sign_def printable_def)

lemma sign_no_comma: "CHR '','' \<notin> set (sign lib secret timestamp body)"
  using hex_encode_chars [of "sl_hmac lib secret (timestamp @ ''.'' @ body)"]
  by (auto simp: sign_def list_all_iff is_digit_def is_lower_def less_eq_char_def)

lemma sign_eq: "sign lib a timestamp body = sign lib b timestamp body \<longleftrightarrow>
  sl_hmac lib a (timestamp @ ''.'' @ body) = sl_hmac lib b (timestamp @ ''.'' @ body)"
  by (simp add: sign_def hex_encode_inj)

lemma dec_nat_plain: "printable (dec_nat n)"
proof (induction n rule: dec_nat.induct)
  case (1 n)
  have d: "printable [dec_digit m]" if "m < 10" for m using that by (simp add: printable_def dec_digit_def)
  show ?case
  proof (cases "n < 10")
    case True
    then show ?thesis using d [of n] by (subst dec_nat.simps) simp
  next
    case False
    then show ?thesis using 1 d [of "n mod 10"] by (subst dec_nat.simps) (simp add: printable_def)
  qed
qed

lemma dec_int_plain: "printable (dec_int i)"
  using dec_nat_plain by (simp add: dec_int_def printable_def)

lemma key_plain: "ValidateIdempotencyKey key = Inr () \<Longrightarrow> printable key"
  by (auto simp: ValidateIdempotencyKey_def printable_def list_all_iff less_eq_char_def split: if_splits)

lemma join_plain: "list_all printable ss \<Longrightarrow> printable (join_with '','' ss)"
  by (induction "'',''" ss rule: join_with.induct) (auto simp: printable_def)

text \<open>What a receiver does: it splits the signature header at commas.\<close>

definition receiver_accepts :: "sink_lib \<Rightarrow> string \<Rightarrow> http_request \<Rightarrow> bool" where
  "receiver_accepts lib secret r =
     (case (map_of (hq_Header r) ''X-Delivery-Timestamp'', map_of (hq_Header r) ''X-Delivery-Signature'') of
        (Some timestamp, Some signature) \<Rightarrow> sign lib secret timestamp (hq_Body r) \<in> set (split_on (CHR '','') signature)
      | _ \<Rightarrow> False)"

lemma webhook_requestD:
  assumes "webhook_request lib now d q = Inr r"
  shows "ValidateIdempotencyKey (rq_MessageID q) = Inr ()" "ValidateIdempotencyKey (en_IdempotencyKey (rq_Envelope q)) = Inr ()"
    "sl_request_url lib (field (rd_Secrets d) ''url'') = Some (hq_URL r)"
    "hq_Header r =
       [(''Content-Type'', ''application/json''), (''User-Agent'', userAgent), (''X-Delivery-Message-Id'', rq_MessageID q),
        (''X-Delivery-Idempotency-Key'', en_IdempotencyKey (rq_Envelope q)), (''X-Delivery-Timestamp'', dec_int (Unix now)),
        (''X-Delivery-Signature'', join_with '','' (signatures lib d now (dec_int (Unix now)) (hq_Body r)))]"
  using assms by (auto simp: webhook_request_def Let_def split: if_splits option.splits)

lemma signatures_no_comma: "\<forall>s \<in> set (signatures lib d now timestamp body). CHR '','' \<notin> set s"
  by (auto simp: signatures_def sign_no_comma)

lemma receiver_accepts_iff:
  assumes "webhook_request lib now d q = Inr r"
  shows "receiver_accepts lib secret r \<longleftrightarrow>
    sign lib secret (dec_int (Unix now)) (hq_Body r) \<in> set (signatures lib d now (dec_int (Unix now)) (hq_Body r))"
proof -
  have "signatures lib d now timestamp body \<noteq> []" for timestamp body by (simp add: signatures_def)
  then show ?thesis
    using split_join [OF _ signatures_no_comma]
    by (simp add: receiver_accepts_def webhook_requestD(4) [OF assms])
qed

section \<open>Headers\<close>

definition headers_ok :: "http_request \<Rightarrow> bool" where
  "headers_ok r \<longleftrightarrow> list_all (\<lambda>(name, value). printable name \<and> \<not> list_ex line_break value) (hq_Header r)"

lemma webhook_headers_ok: "webhook_request lib now d q = Inr r \<Longrightarrow> headers_ok r"
proof -
  assume r: "webhook_request lib now d q = Inr r"
  have sigs: "\<not> list_ex line_break (join_with '','' (signatures lib d now t b))" for t b
    by (rule plain_no_break [OF join_plain]) (simp add: signatures_def sign_plain)
  have vals: "\<not> list_ex line_break (rq_MessageID q)" "\<not> list_ex line_break (en_IdempotencyKey (rq_Envelope q))"
    "\<not> list_ex line_break (dec_int (Unix now))"
    using webhook_requestD(1,2) [OF r] plain_no_break key_plain dec_int_plain by blast+
  show ?thesis
    using sigs vals by (simp add: headers_ok_def webhook_requestD(4) [OF r] printable_def userAgent_def line_break_def)
qed

lemma discord_headers_ok: "discord_request lib d q = Inr (target, r) \<Longrightarrow> headers_ok r"
  by (auto simp: discord_request_def headers_ok_def printable_def userAgent_def line_break_def Let_def
      split: if_splits option.splits)

lemma ntfy_headers_ok:
  assumes "ntfy_request lib s d q = Inr r" "\<forall>v. \<not> list_ex line_break (sl_q_encode lib v)"
  shows "headers_ok r"
proof -
  obtain x where x: "\<not> containsLineBreak [dp_Title x, dp_Priority x, dp_URL x, field (rd_Secrets d) ''access_token'']"
    "hq_Header r = (''User-Agent'', userAgent) # setNtfyHeaders lib x (field (rd_Secrets d) ''access_token'')"
    using assms(1) by (auto simp: ntfy_request_def Let_def split: if_splits option.splits)
  show ?thesis
    using x(1) assms(2)
    by (auto simp: headers_ok_def x(2) setNtfyHeaders_def encodeHeaderValue_def containsLineBreak_def printable_def userAgent_def
        line_break_def)
qed

end
