(* ===== verification/Sink_Properties.thy ===== *)
theory Sink_Properties
  imports Sink_Laws Samples
begin

text \<open>
  The properties of the sinks and of the guarded client as main.go wires them, with their witnesses: a shop's
  webhook, a Discord webhook and an ntfy topic on concrete text functions.
\<close>

section \<open>One attempt\<close>

text \<open>What the worker gets from the sink of a destination's type, and the request that sink builds.\<close>

definition attempt_by ::
    "sink_lib \<Rightarrow> client \<Rightarrow> client \<Rightarrow> string \<Rightarrow> time \<Rightarrow> resolved_destination \<Rightarrow> sink_request \<Rightarrow> outcome option" where
  "attempt_by lib guarded plain ntfyURL now d q =
     (case fst (buildSinks lib guarded plain ntfyURL now) (rd_Type d) of None \<Rightarrow> None | Some s \<Rightarrow> Some (deliver s d q))"

definition built ::
    "sink_lib \<Rightarrow> string \<Rightarrow> time \<Rightarrow> resolved_destination \<Rightarrow> sink_request \<Rightarrow> (outcome + http_request) option" where
  "built lib ntfyURL now d q =
     (case rd_Type d of
        TypeWebhook \<Rightarrow> Some (webhook_request lib now d q)
      | TypeDiscord \<Rightarrow> Some (map_sum id snd (discord_request lib d q))
      | TypeNtfy \<Rightarrow> if ntfyURL = [] \<or> ntfyURL = ''/'' then None else Some (ntfy_request lib (NewNtfySink ntfyURL 0) d q)
      | OtherType _ \<Rightarrow> None)"

definition default_config :: client_config where
  "default_config = \<lparr>cf_DialTimeout = 0, cf_TLSHandshakeTimeout = 0, cf_ResponseHeaderTimeout = 0, cf_Timeout = 0, cf_AllowAddr = None\<rparr>"

definition guarded :: "net_lib \<Rightarrow> (http_request \<Rightarrow> string) \<Rightarrow> client \<Rightarrow> client" where
  "guarded net dialled exchange = guarded_Do (transport_New net default_config) dialled exchange"

lemma guarded_control:
  "hc_Control (transport_New net default_config) address =
     (if \<exists>host port a. nl_SplitHostPort net address = Some (host, port) \<and> nl_ParseAddr net host = Some a \<and> routable a
      then None else Some ErrBlockedAddress)"
  by (auto simp: transport_New_def default_config_def controlFor_def public_iff_routable split: option.splits)

lemma attempt_by_cases:
  assumes "attempt_by lib g p ntfyURL now d q = Some o'"
  obtains "rd_Type d = TypeWebhook" "o' = webhook_Deliver lib g now d q"
  | "rd_Type d = TypeDiscord" "o' = discord_Deliver lib g now d q"
  | "rd_Type d = TypeNtfy" "o' = ntfy_Deliver lib p (NewNtfySink ntfyURL 0) now d q"
  using assms by (auto simp: attempt_by_def buildSinks_def deliver_def Let_def split: dest_type.splits if_splits)

section \<open>Sample\<close>

definition snk_url :: "string \<Rightarrow> sink_url" where
  "snk_url s =
     \<lparr>pu_Scheme = (if prefix ''https:'' s then ''https'' else ''http''), pu_Hostname = ''hooks.test'', pu_Host = ''hooks.test'',
      pu_EscapedPath = ''/x'', pu_HasUser = False, su_Path = ''/x'', su_RawQuery = [], su_RequestURI = ''/x'', su_Username = [],
      su_Password = [], su_String = s\<rparr>"

definition snk_lib :: sink_lib where
  "snk_lib =
     \<lparr>sl_url_parse = (\<lambda>s. Some (snk_url s)), sl_request_url = (\<lambda>s. Some (snk_url s)), sl_set_query = (\<lambda>k v u. u),
      sl_marshal_webhook = (\<lambda>b. Some (wb_MessageID b)), sl_marshal_discord = (\<lambda>b. Some (db_Content b)),
      sl_rate_limit = (\<lambda>_. None), sl_error_code = (\<lambda>_. None), sl_hmac = (\<lambda>key m. key), sl_http_time = (\<lambda>_. None),
      sl_rfc3339 = (\<lambda>_. None), sl_fold_prefix = (\<lambda>h s. None), sl_q_encode = (\<lambda>_. ''=?utf-8?q?x?='')\<rparr>"

definition snk_dest :: resolved_destination where
  "snk_dest = \<lparr>rd_ID = 1, rd_Name = ''ops'', rd_Type = TypeWebhook, rd_Config = [],
     rd_Secrets = [(''url'', ''https://hooks.test/x''), (''signing_secret'', ''s3cr3t-s3cr3t'')]\<rparr>"

definition snk_request :: sink_request where
  "snk_request = \<lparr>rq_MessageID = ''m1'', rq_CreatedAt = 0, rq_Envelope = s_envelope ''k1'' None\<rparr>"

text \<open>A receiver that echoes the secret.\<close>

definition snk_echo :: client where
  "snk_echo r = Inr \<lparr>hp_StatusCode = 400, hp_RetryAfter = ''7'', hp_Body = ''bad s3cr3t-s3cr3t!''\<rparr>"

definition snk_net :: net_lib where
  "snk_net = \<lparr>nl_SplitHostPort = (\<lambda>s. Some (s, [])), nl_ParseAddr = (\<lambda>_. Some (Addr4 (v4 10 0 0 1))), nl_LookupNetIP = (\<lambda>_. None)\<rparr>"

lemma snk_built: "built snk_lib [] 0 snk_dest snk_request = Some (webhook_request snk_lib 0 snk_dest snk_request)"
  by (simp add: built_def snk_dest_def)

lemma snk_webhook:
  "webhook_request snk_lib 0 snk_dest snk_request =
     Inr \<lparr>hq_URL = snk_url ''https://hooks.test/x'',
          hq_Header = [(''Content-Type'', ''application/json''), (''User-Agent'', ''4irl-delivery/1''), (''X-Delivery-Message-Id'', ''m1''),
            (''X-Delivery-Idempotency-Key'', ''k1''), (''X-Delivery-Timestamp'', dec_int (Unix 0)),
            (''X-Delivery-Signature'', sign snk_lib ''s3cr3t-s3cr3t'' (dec_int (Unix 0)) ''m1'')],
          hq_Body = ''m1''\<rparr>"
  by (simp add: webhook_request_def snk_lib_def snk_dest_def snk_request_def s_envelope_def field_def ValidateIdempotencyKey_def
      less_eq_char_def Let_def signatures_def previousSecretActive_def userAgent_def)

section \<open>The guard\<close>

text \<open>
  C35. The address policy of the outbound client is exact: an address may be dialled just when it lies outside every
  special-purpose range - for IPv4 the private, loopback, link-local, shared, test, benchmark, multicast and
  reserved ranges, for IPv6 also the translated, tunnelled and local ones - and an IPv4-mapped IPv6 address
  is judged by the IPv4 address in it.
\<close>

theorem guard_exact: "IsPublicAddr a \<longleftrightarrow> routable a"
  by (rule public_iff_routable)

text \<open>
  C36. A webhook or Discord delivery never reaches a host the guard refuses: when the URL of the request is not https,
  or the address about to be dialled is not a public one, the outcome is the same whatever the other side
  would answer, it counts as blocked, and the delivery is dead.
\<close>

theorem guard_blocks:
  assumes "rd_Type d \<noteq> TypeNtfy" "built lib ntfyURL now d q = Some (Inr r)"
    and "\<not> (pu_Scheme (hq_URL r) = ''https''
      \<and> (\<exists>host port a. nl_SplitHostPort net (dialled r) = Some (host, port) \<and> nl_ParseAddr net host = Some a \<and> IsPublicAddr a))"
  shows "\<exists>o'. (\<forall>exchange. attempt_by lib (guarded net dialled exchange) p ntfyURL now d q = Some o')
    \<and> Classify o' = OutcomeBlocked \<and> res_NextState (Decide delivery o' now random) = StateDead"
proof -
  let ?c = "transport_New net default_config"
  have ctl: "pu_Scheme (hq_URL r) \<noteq> ''https'' \<or> hc_Control ?c (dialled r) \<noteq> None"
    using assms(3) by (auto simp: guarded_control public_iff_routable)
  have only: "\<forall>address s. hc_Control ?c address = Some s \<longrightarrow> s = ErrBlockedAddress" by (simp add: guarded_control)
  have dead: "res_NextState (Decide delivery o' now random) = StateDead" if "Classify o' = OutcomeBlocked" for o'
    using that by (simp add: Decide_def deadResult_def Let_def)
  consider "rd_Type d = TypeWebhook" "webhook_request lib now d q = Inr r"
    | "rd_Type d = TypeDiscord" "map_sum id snd (discord_request lib d q) = Inr r"
    using assms(1,2) by (auto simp: built_def split: dest_type.splits)
  then show ?thesis
  proof cases
    case 1
    have eq: "attempt_by lib (guarded net dialled ex) p ntfyURL now d q = Some (webhook_Deliver lib (guarded_Do ?c dialled ex) now d q)" for ex
      using 1(1) by (simp add: attempt_by_def buildSinks_def deliver_def Let_def guarded_def)
    show ?thesis
      unfolding eq using webhook.guard_refuses [where dialled = dialled, OF 1(2) ctl only] dead by blast
  next
    case 2
    have eq: "attempt_by lib (guarded net dialled ex) p ntfyURL now d q = Some (discord_Deliver lib (guarded_Do ?c dialled ex) now d q)" for ex
      using 2(1) by (simp add: attempt_by_def buildSinks_def deliver_def Let_def guarded_def)
    show ?thesis
      unfolding eq using discord.guard_refuses [where dialled = dialled, OF 2(2) ctl only] dead by blast
  qed
qed

theorem guard_blocks_witness:
  "\<exists>o'. (\<forall>exchange. attempt_by snk_lib (guarded snk_net (\<lambda>_. ''10.0.0.1'') exchange) snk_echo [] 0 snk_dest snk_request = Some o')
    \<and> Classify o' = OutcomeBlocked \<and> res_NextState (Decide (hd (db_deliveries s_db)) o' 0 None) = StateDead"
proof (rule guard_blocks)
  show "rd_Type snk_dest \<noteq> TypeNtfy" by (simp add: snk_dest_def)
  show "built snk_lib [] 0 snk_dest snk_request = Some (Inr (projr (webhook_request snk_lib 0 snk_dest snk_request)))"
    by (simp add: snk_built snk_webhook)
  have "\<not> IsPublicAddr (Addr4 (v4 10 0 0 1))"
    by (simp add: public4 outside_def special4_def v4_def)
  then show "\<not> (pu_Scheme (hq_URL (projr (webhook_request snk_lib 0 snk_dest snk_request))) = ''https''
      \<and> (\<exists>host port a. nl_SplitHostPort snk_net ''10.0.0.1'' = Some (host, port) \<and> nl_ParseAddr snk_net host = Some a \<and> IsPublicAddr a))"
    by (simp add: snk_net_def)
qed

section \<open>Secrets\<close>

definition secret_keys :: "dest_type \<Rightarrow> string list" where
  "secret_keys t =
     (case t of TypeWebhook \<Rightarrow> [''url'', ''signing_secret'', ''signing_secret_previous''] | TypeDiscord \<Rightarrow> [''webhook_url'']
      | TypeNtfy \<Rightarrow> [''access_token''] | OtherType _ \<Rightarrow> [])"

lemma set_longest_first: "set (longest_first needles) = set needles"
  by (simp add: longest_first_def)

lemma long_text: "8 < length n \<Longrightarrow> n \<noteq> [] \<and> n \<noteq> ''/'' \<and> n \<noteq> ''.''"
  by auto

lemma webhook_snippet:
  assumes "n \<in> {field (rd_Secrets d) ''url'', field (rd_Secrets d) ''signing_secret'', field (rd_Secrets d) ''signing_secret_previous''}"
    and "8 < length n" "CHR ''['' \<notin> set n" "CHR '']'' \<notin> set n"
  shows "\<not> sublist n (oc_ResponseSnippet (webhook_Deliver lib Do now d q))"
proof (cases "webhook_request lib now d q")
  case (Inl o')
  then show ?thesis using assms(2) webhook_request_refused [OF Inl] by (auto simp: webhook_Deliver_def invalid_delivery_def)
next
  case (Inr r)
  have "n \<in> set (redactionNeedles d (hq_URL r))"
    unfolding redactionNeedles_def Let_def set_longest_first set_filter set_append list.set
    using assms(1) long_text [OF assms(2)] by blast
  then have "\<not> sublist n (redactSnippet snippet (redactionNeedles d (hq_URL r)))" for snippet
    by (rule redactSnippet_gone [OF _ assms(3,4,2)])
  moreover have "n \<noteq> []" using assms(2) by auto
  ultimately show ?thesis by (cases "Do r") (simp_all add: webhook_Deliver_def request_failed_def Inr)
qed

lemma discord_snippet:
  assumes "n = field (rd_Secrets d) ''webhook_url''"
    and "8 < length n" "CHR ''['' \<notin> set n" "CHR '']'' \<notin> set n"
  shows "\<not> sublist n (oc_ResponseSnippet (discord_Deliver lib Do now d q))"
proof (cases "discord_request lib d q")
  case (Inl o')
  then show ?thesis using assms(2) discord_request_refused [OF Inl] by (auto simp: discord_Deliver_def invalid_delivery_def)
next
  case (Inr tr)
  obtain target r where tr: "tr = (target, r)" by force
  have "n \<in> set (discordRedactionNeedles n target)"
    unfolding discordRedactionNeedles_def set_longest_first set_filter list.set using long_text [OF assms(2)] by blast
  then have "\<not> sublist n (redactSnippet snippet (discordRedactionNeedles n target))" for snippet
    by (rule redactSnippet_gone [OF _ assms(3,4,2)])
  moreover have "n \<noteq> []" using assms(2) by auto
  ultimately show ?thesis
    by (cases "Do r") (simp_all add: discord_Deliver_def request_failed_def Let_def Inr tr assms(1) [symmetric])
qed

lemma ntfy_snippet:
  assumes "n = field (rd_Secrets d) ''access_token''"
    and "8 < length n" "CHR ''['' \<notin> set n" "CHR '']'' \<notin> set n"
  shows "\<not> sublist n (oc_ResponseSnippet (ntfy_Deliver lib Do s now d q))"
proof (cases "ntfy_request lib s d q")
  case (Inl o')
  then show ?thesis using assms(2) ntfy_request_refused [OF Inl] by (auto simp: ntfy_Deliver_def invalid_delivery_def)
next
  case (Inr r)
  have "\<not> sublist n (redactSnippet snippet [n])" for snippet by (rule redactSnippet_gone [OF _ assms(3,4,2)]) simp
  moreover have "n \<noteq> []" using assms(2) by auto
  ultimately show ?thesis
    by (cases "Do r") (simp_all add: ntfy_Deliver_def request_failed_def Let_def Inr assms(1) [symmetric])
qed

text \<open>
  C37. No secret of a destination survives in what is kept of a response: whichever sink sent the message and whatever
  the receiver echoes, a secret of more than eight bytes without square brackets - the webhook URL, both
  signing secrets, the Discord URL, the ntfy token - does not occur in the response snippet. (Brackets and
  shorter texts could meet the marker that replaces a secret.)
\<close>

theorem snippet_has_no_secret:
  assumes "attempt_by lib g p ntfyURL now d q = Some o'"
    and "key \<in> set (secret_keys (rd_Type d))" "n = field (rd_Secrets d) key"
    and "8 < length n" "CHR ''['' \<notin> set n" "CHR '']'' \<notin> set n"
  shows "\<not> sublist n (oc_ResponseSnippet o')"
  using assms(1)
proof (cases rule: attempt_by_cases)
  case 1
  then show ?thesis using assms(2-6) by (auto simp: secret_keys_def webhook_snippet)
next
  case 2
  then show ?thesis using assms(2-6) by (auto simp: secret_keys_def discord_snippet)
next
  case 3
  then show ?thesis using assms(2-6) by (auto simp: secret_keys_def ntfy_snippet)
qed

theorem snippet_has_no_secret_witness:
  "\<not> sublist ''s3cr3t-s3cr3t'' (oc_ResponseSnippet (the (attempt_by snk_lib snk_echo snk_echo [] 0 snk_dest snk_request)))"
  by (rule snippet_has_no_secret [where lib = snk_lib and g = snk_echo and p = snk_echo and ntfyURL = "[]" and now = 0
        and d = snk_dest and q = snk_request and key = "''signing_secret''"])
    (simp_all add: attempt_by_def buildSinks_def Let_def snk_dest_def secret_keys_def field_def)

section \<open>Requests\<close>



text \<open>
  C39. No header can be injected: every header value of a request that any of the three sinks builds is free of
  carriage returns and line feeds, whatever title, priority, link, identifier or token the app or the
  operator supplied (where Q-encoding yields no line break).
\<close>

theorem headers_not_injectable:
  assumes "built lib ntfyURL now d q = Some (Inr r)" "\<forall>v. \<not> list_ex line_break (sl_q_encode lib v)"
  shows "list_all (\<lambda>(name, value). \<not> list_ex line_break value) (hq_Header r)"
proof -
  have "headers_ok r"
  proof (cases "rd_Type d")
    case TypeNtfy
    then show ?thesis using assms by (auto simp: built_def split: if_splits intro: ntfy_headers_ok)
  next
    case TypeDiscord
    then obtain target where "discord_request lib d q = Inr (target, r)"
      using assms(1) by (cases "discord_request lib d q") (auto simp: built_def)
    then show ?thesis by (rule discord_headers_ok)
  next
    case TypeWebhook
    then show ?thesis using assms(1) by (auto simp: built_def intro: webhook_headers_ok)
  qed (use assms(1) in \<open>simp add: built_def\<close>)
  then show ?thesis by (auto simp: headers_ok_def list_all_iff)
qed

theorem headers_not_injectable_witness:
  "list_all (\<lambda>(name, value). \<not> list_ex line_break value) (hq_Header (projr (webhook_request snk_lib 0 snk_dest snk_request)))"
  by (rule headers_not_injectable [where lib = snk_lib and ntfyURL = "[]" and now = 0 and d = snk_dest and q = snk_request])
    (simp_all add: snk_built snk_webhook, simp add: snk_lib_def line_break_def)



end
