(* ===== verification/Spec2Isabelle.thy ===== *)
theory Spec2Isabelle
  imports Rotation_Properties Sink_Properties
begin

text \<open>
  \<^bold>\<open>The delivery API, verified.\<close>

  The program (\<^verbatim>\<open>src/delivery-api\<close>, Go) accepts messages from apps, stores them in Postgres,
  resolves each to destinations (webhook, Discord, ntfy, or a person's ntfy topic), and a pool of
  workers sends them with retries. Its parts and how they interact:

  \<^item> \<^verbatim>\<open>internal/registry\<close> keeps destinations and routes, with owners and sealed secrets, and resolves
    a message to the destinations it goes to.
  \<^item> \<^verbatim>\<open>internal/message\<close> validates a submission, makes it idempotent, and stores it as a message row
    with one delivery row per destination, at once, scheduled for later, or held while nothing
    routes it.
  \<^item> \<^verbatim>\<open>internal/dispatch\<close> has the worker (claim a due delivery under a lease, resolve, send, record),
    the releaser (scheduled messages become due) and the sweeper (retention).
  \<^item> \<^verbatim>\<open>internal/heartbeat\<close> keeps checks that apps ping or that a prober polls, moves each through its
    states as pings arrive or deadlines pass, and submits an alert message when one goes down or
    comes back.
  \<^item> \<^verbatim>\<open>internal/appidentity\<close> exchanges a GitHub Actions token for an app key, once the operator has bound the
    app to its workflow; \<^verbatim>\<open>internal/publisher\<close> mints and keeps an app's ntfy token, \<^verbatim>\<open>internal/resetlimit\<close>
    limits password resets, and \<^verbatim>\<open>internal/appteardown\<close> removes an app and all it owns.
  \<^item> \<^verbatim>\<open>internal/seal\<close> encrypts the secrets that the tables hold; \<^verbatim>\<open>internal/keyrotation\<close> re-seals all of them
    under a new master key while the service runs.
  \<^item> \<^verbatim>\<open>internal/sink\<close> turns a delivery into an HTTP request and its response into an outcome; \<^verbatim>\<open>internal/transport\<close>
    is the HTTP client that dials only public addresses, a policy the registry also applies to the URLs of apps.
  \<^item> Operators and apps change the registry while all of this runs; every store operation is one
    transaction.

  \<^bold>\<open>Theories.\<close>
  \<^item> \<^verbatim>\<open>Prelude\<close>: Go's time, durations, int64 wrap-around, binary64 rounding; tables as lists
    (\<open>order_limit\<close>, \<open>update_where\<close>). \<^verbatim>\<open>Utf8\<close>: Go's UTF-8 decoder and the truncation of foreign
    text. \<^verbatim>\<open>Env_Int\<close>: \<^verbatim>\<open>internal/envint\<close> with \<open>strconv.Atoi\<close>.
  \<^item> \<^verbatim>\<open>Registry_Types\<close>, \<^verbatim>\<open>Message_Types\<close>: types.go, match.go, validate.go and \<open>DeriveStatus\<close>.
  \<^item> \<^verbatim>\<open>Database\<close>: the tables of \<^verbatim>\<open>migrations/\<close> with their CHECKs and foreign-key actions.
  \<^item> \<^verbatim>\<open>Message_Store\<close>, \<^verbatim>\<open>Message_Queue\<close>, \<^verbatim>\<open>Message_Schedule\<close>: the three pgstore files of the message
    store, one definition per operation; \<^verbatim>\<open>Message_Invariant\<close> and \<^verbatim>\<open>Message_Preserve\<close>: the invariant
    of the message tables and one preservation lemma per operation.
  \<^item> \<^verbatim>\<open>Registry_Store\<close>, \<^verbatim>\<open>Registry_Service\<close>, \<^verbatim>\<open>Registry_Invariant\<close>: the same for the registry.
  \<^item> \<^verbatim>\<open>Dispatch_Policy\<close>, \<^verbatim>\<open>Dispatch_Worker\<close>: the retry policy, worker, releaser and sweeper, over any
    store with the laws of the locales \<open>delivery_queue\<close>, \<open>destination_resolver\<close>,
    \<open>delivery_worker\<close>, \<open>due_release\<close>, \<open>message_expirer\<close>.
  \<^item> \<^verbatim>\<open>Message_Validate\<close>, \<^verbatim>\<open>Message_Service\<close>: validation, content equality, and the message service over
    any store with the laws of \<open>message_store_invariant\<close> and \<open>message_store_laws\<close>.
  \<^item> \<^verbatim>\<open>Delivery_System\<close>, \<^verbatim>\<open>Service_System\<close>: the Postgres stores are interpretations of these locales,
    with the joint invariant \<open>system_inv\<close>. \<^verbatim>\<open>System_Steps\<close>: the transition system of all store
    transactions, its reachable databases, and the locales interpreted again with reachability.
  \<^item> \<^verbatim>\<open>Heartbeat_Types\<close>, \<^verbatim>\<open>Heartbeat_Validate\<close>, \<^verbatim>\<open>Heartbeat_Machine\<close>: types.go with the schema, validate.go
    and the state machine of machine.go. \<^verbatim>\<open>Heartbeat_Store\<close>, \<^verbatim>\<open>Heartbeat_Invariant\<close>: the store
    transactions and the invariant of the check table. \<^verbatim>\<open>Heartbeat_Service\<close>: service, checker and
    prober, over any outbox with the laws of \<open>alert_outbox_laws\<close>. \<^verbatim>\<open>Heartbeat_System\<close>: the
    transition system with the heartbeat steps added, and the Postgres outbox as an interpretation.
  \<^item> \<^verbatim>\<open>Identity_Key\<close>, \<^verbatim>\<open>Identity_Verifier\<close>, \<^verbatim>\<open>Identity_Store\<close>, \<^verbatim>\<open>Identity_Service\<close>: key.go and config.go,
    verifier.go, the two pgstore files and service.go. \<^verbatim>\<open>Identity_Invariant\<close>, \<^verbatim>\<open>Identity_System\<close>: the invariant
    of the identity tables, and the identity transactions as steps whose laws the locale
    \<open>identity_law\<close> lifts from the operations to every interleaving.
  \<^item> \<^verbatim>\<open>History\<close>: histories under a clock that does not go back, with the locales \<open>replay_ledger\<close> (nothing is
    accepted twice) and \<open>sliding_limit\<close> (a rolling window admits at most its limit). The replay ledger of
    tokens, the mint limit and the two reset limits are their interpretations.
  \<^item> \<^verbatim>\<open>Publisher\<close>, \<^verbatim>\<open>Publisher_System\<close>, \<^verbatim>\<open>Reset_Limit\<close>, \<^verbatim>\<open>Identity_Cleanup\<close>, \<^verbatim>\<open>App_Teardown\<close>: publishers with
    what other requests do while a mint holds its lock, the reset limit, the sweeps of cleanup.go, and
    the teardown transaction statement by statement with its cascade.
  \<^item> \<^verbatim>\<open>Seal\<close>, \<^verbatim>\<open>Key_Rotation\<close>, \<^verbatim>\<open>Rotation_Laws\<close>: sealers with one or two keys, the rotation and the verifying run
    over any tables with the laws of the locale \<open>sealed_tables\<close>, of which the registry of sealed columns is an
    interpretation.
  \<^item> \<^verbatim>\<open>Transport\<close>: the address policy on 32-bit and 128-bit words and its equality with a table of ranges, the
    dial hook, network errors, response snippets and the URL check of ssrf.go. \<^verbatim>\<open>Sinks\<close>: webhook.go,
    discord.go, ntfy.go and their wiring in main.go. \<^verbatim>\<open>Sink_Laws\<close>: the locale \<open>sink_contract\<close> with the
    three sinks as interpretations, redaction, signatures and headers.
  \<^item> \<^verbatim>\<open>Samples\<close>: a concrete deployment. \<^verbatim>\<open>Store_Properties\<close>, \<^verbatim>\<open>Dispatch_Properties\<close>,
    \<^verbatim>\<open>Registry_Properties\<close>, \<^verbatim>\<open>Service_Properties\<close>, \<^verbatim>\<open>Heartbeat_Properties\<close>,
    \<^verbatim>\<open>Identity_Properties\<close>, \<^verbatim>\<open>Tenant_Properties\<close>, \<^verbatim>\<open>Rotation_Properties\<close>, \<^verbatim>\<open>Sink_Properties\<close> and this
    theory: the properties C1, C2, \<dots> with their witnesses.

  \<^bold>\<open>Correspondence.\<close> A definition has the name of the Go function it translates (a \<open>service_\<close>
  prefix where a service method and a store method share a name). A Go error is \<open>Inl\<close>; a transaction
  returns its result with the tables it leaves, and an error leaves them as they were. What a call
  reads from outside is an argument: the clock, Postgres's \<^verbatim>\<open>now()\<close> and generated ids, locked rows, and
  what other transactions commit between two statements or calls (\<open>tx_between\<close>, \<open>between\<close>,
  \<open>ae_during_send\<close>). Code outside \<^verbatim>\<open>src/\<close> is a parameter: \<open>url.Parse\<close>, the JSON codec, RFC 3339
  formatting, Unicode lower-casing, SHA-256 and the sealer that the services hold are fields of the records \<open>text_lib\<close> and
  \<open>registry_service\<close>, the cipher under a key is the argument \<open>gcm\<close> of the sealer; the worker takes a sink as a function from a request to an outcome, and
  a sink takes its HTTP client as a function from a request to an error or a response.

  \<^bold>\<open>Bounds.\<close> The loops of the source are bounded by the source: two insert attempts
  (\<open>maxInsertAttempts\<close>), three record attempts, 200 delete batches, the configured release batches. They
  are recursions on the number of rounds left, so no fuel is added. \<open>Await\<close> is modelled on the list of
  events its select loop receives. \<open>decideClaims\<close> runs at most two rounds, by its flag \<open>mayFile\<close>. A rolling
  window is shortened by the time in which the transaction that reads the clock has to end.

  \<^bold>\<open>Not modelled.\<close> Logging and metrics; context deadlines except where the code tests them; the
  microsecond rounding of the timestamps of messages (that of checks is \<open>storeTime\<close>) and the canonical
  form of jsonb; goroutine scheduling (a worker is its turns);
  advisory-lock keys of two apps that collide; HTTP handlers, TLS and the connections themselves, the schema query of the
  key rotation's coverage check, provisioning, migrations and the TypeScript packages.
\<close>

section \<open>The invariant of the system\<close>



end
